(* ===== verification/Prelude.thy ===== *)
theory Prelude
  imports Main "HOL-Library.Word"
begin

text \<open>
  Shared vocabulary of the development: the machine integer types of the C++ sources, the
  outcomes a call can have besides returning, the little-endian byte representation that
  \<open>memcpy\<close> of an integer gives on the supported targets, and the list lemmas that the
  components share.
\<close>

section \<open>Machine integers\<close>

type_synonym u8 = "8 word"
type_synonym u16 = "16 word"
type_synonym u32 = "32 word"
type_synonym u64 = "64 word"
type_synonym byte = "8 word"

section \<open>Outcomes\<close>

text \<open>
  \<open>CCASSERT\<close> and \<open>CCASSERTZ\<close> (cccommon/src/CCassert.h) throw \<open>runtime_error\<close>; the wire
  routines also throw \<open>range_error\<close>. \<open>OutOfBounds\<close> stands for a read or write outside an
  object, \<open>DivideByZero\<close> and \<open>BadShift\<close> for the arithmetic that C++ leaves undefined: a model
  that reaches one of them has shown an error. \<open>DbException\<close> is the exception that the matching
  thread throws for a database error. \<open>TxError\<close> and \<open>WireError\<close> are the error returns of the wire formats,
  which every caller passes on at once. \<open>OutOfFuel\<close> is the outcome of a walk along
  pointers or a loop over table rows that was cut off by the bound given to the model.
\<close>

datatype cc_error =
    AssertFail
  | RangeError string
  | OutOfBounds
  | DivideByZero
  | BadShift
  | DbException
  | TxError string
  | WireError int
  | OutOfFuel

type_synonym 'a outcome = "cc_error + 'a"

definition bind_outcome :: "'a outcome \<Rightarrow> ('a \<Rightarrow> 'b outcome) \<Rightarrow> 'b outcome" where
  "bind_outcome r f = (case r of Inl e \<Rightarrow> Inl e | Inr x \<Rightarrow> f x)"

named_theorems outcome_simps \<open>evaluation of sequenced calls\<close>
named_theorems wire_simps \<open>byte-level facts used by the wire components\<close>

lemma bind_outcome_Inr [simp, outcome_simps]: "bind_outcome (Inr x) f = f x"
  by (simp add: bind_outcome_def)

lemma bind_outcome_Inl [simp, outcome_simps]: "bind_outcome (Inl e) f = Inl e"
  by (simp add: bind_outcome_def)

lemma bind_outcome_eq_Inr: "bind_outcome r f = Inr y \<longleftrightarrow> (\<exists>x. r = Inr x \<and> f x = Inr y)"
  by (cases r) auto

text \<open>
  \<open>on_result P r\<close>: a result \<open>r\<close> that is a value satisfies \<open>P\<close>. The rules take a definition apart along
  its branches, one goal for each return.
\<close>

definition on_result :: "('a \<Rightarrow> bool) \<Rightarrow> 'a outcome \<Rightarrow> bool" where
  "on_result P r \<longleftrightarrow> (\<forall>y. r = Inr y \<longrightarrow> P y)"

lemma on_resultD: "on_result P r \<Longrightarrow> r = Inr y \<Longrightarrow> P y"
  by (simp add: on_result_def)

lemma on_result_Inl: "on_result P (Inl e)"
  by (simp add: on_result_def)

lemma on_result_Inr: "P y \<Longrightarrow> on_result P (Inr y)"
  by (simp add: on_result_def)

lemma on_result_if: "(c \<Longrightarrow> on_result P x) \<Longrightarrow> (\<not> c \<Longrightarrow> on_result P y) \<Longrightarrow> on_result P (if c then x else y)"
  by simp

lemma on_result_bind: "(\<And>y. r = Inr y \<Longrightarrow> on_result P (f y)) \<Longrightarrow> on_result P (bind_outcome r f)"
  by (cases r) (auto simp: on_result_def)

lemma on_result_prod: "(\<And>a b. y = (a, b) \<Longrightarrow> on_result P (f a b)) \<Longrightarrow> on_result P (case y of (a, b) \<Rightarrow> f a b)"
  by (cases y) simp

lemma on_result_option:
  "(x = None \<Longrightarrow> on_result P u) \<Longrightarrow> (\<And>a. x = Some a \<Longrightarrow> on_result P (f a)) \<Longrightarrow>
    on_result P (case x of None \<Rightarrow> u | Some a \<Rightarrow> f a)"
  by (cases x) simp_all

lemmas on_result_intros = on_result_Inl on_result_Inr on_result_if on_result_bind on_result_prod on_result_option

section \<open>Little-endian bytes\<close>

text \<open>
  \<open>le_bytes n x\<close> is the memory image of the low \<open>n\<close> bytes of \<open>x\<close>; \<open>le_val\<close> reads an
  image back as an unsigned number.
\<close>

fun le_bytes :: "nat \<Rightarrow> nat \<Rightarrow> byte list" where
  "le_bytes 0 x = []"
| "le_bytes (Suc n) x = of_nat (x mod 256) # le_bytes n (x div 256)"

fun le_val :: "byte list \<Rightarrow> nat" where
  "le_val [] = 0"
| "le_val (b # bs) = unat b + 256 * le_val bs"

lemma length_le_bytes [simp, wire_simps]: "length (le_bytes n x) = n"
  by (induction n arbitrary: x) auto

lemma unat_byte_less: "unat (b :: byte) < 256"
  using unsigned_less [of b] by simp

lemma unat_of_nat_byte [simp]: "unat (of_nat x :: byte) = x mod 256"
  by (simp add: unat_of_nat)

lemma le_val_bytes [wire_simps]: "le_val (le_bytes n x) = x mod 256 ^ n"
proof (induction n arbitrary: x)
  case 0
  then show ?case by simp
next
  case (Suc n)
  have "x mod 256 ^ Suc n = x mod 256 + 256 * (x div 256 mod 256 ^ n)"
    by (simp add: mod_mult2_eq)
  then show ?case by (simp add: Suc.IH)
qed

lemma le_val_less: "le_val bs < 256 ^ length bs"
proof (induction bs)
  case Nil
  then show ?case by simp
next
  case (Cons b bs)
  have "unat b < 256" by (rule unat_byte_less)
  with Cons show ?case by simp
qed

lemma le_bytes_val [wire_simps]: "le_bytes (length bs) (le_val bs) = bs"
proof (induction bs)
  case Nil
  then show ?case by simp
next
  case (Cons b bs)
  have lt: "unat b < 256" by (rule unat_byte_less)
  have "(unat b + 256 * le_val bs) mod 256 = unat b"
    using lt by simp
  moreover have "(unat b + 256 * le_val bs) div 256 = le_val bs"
    using lt by simp
  ultimately show ?case by (simp add: Cons.IH)
qed

lemma le_val_bytes_small: "x < 256 ^ n \<Longrightarrow> le_val (le_bytes n x) = x"
  by (simp add: le_val_bytes)

lemma le_val_append: "le_val (xs @ ys) = le_val xs + 256 ^ length xs * le_val ys"
  by (induction xs) (auto simp: algebra_simps)

lemma le_val_replicate_zero [simp]: "le_val (replicate n 0) = 0"
  by (induction n) auto

lemma le_bytes_mod: "le_bytes n (x mod 256 ^ n) = le_bytes n x"
proof (induction n arbitrary: x)
  case 0
  then show ?case by simp
next
  case (Suc n)
  have "x mod 256 ^ Suc n = x mod 256 + 256 * (x div 256 mod 256 ^ n)"
    by (simp add: mod_mult2_eq)
  then have "(x mod 256 ^ Suc n) mod 256 = x mod 256"
    and "(x mod 256 ^ Suc n) div 256 = x div 256 mod 256 ^ n"
    by simp_all
  then show ?case by (simp add: Suc.IH)
qed

section \<open>Writing a run of bytes into an array\<close>

definition overwrite :: "nat \<Rightarrow> 'a list \<Rightarrow> 'a list \<Rightarrow> 'a list" where
  "overwrite pos data buf = take pos buf @ data @ drop (pos + length data) buf"

lemma length_overwrite [simp]:
  "pos + length data \<le> length buf \<Longrightarrow> length (overwrite pos data buf) = length buf"
  by (simp add: overwrite_def)

lemma take_overwrite: "pos \<le> length buf \<Longrightarrow> take pos (overwrite pos data buf) = take pos buf"
  by (simp add: overwrite_def)

lemma take_overwrite_end:
  "pos \<le> length buf \<Longrightarrow> take (pos + length data) (overwrite pos data buf) = take pos buf @ data"
  by (simp add: overwrite_def)

lemma slice_overwrite:
  "pos \<le> length buf \<Longrightarrow> take (length data) (drop pos (overwrite pos data buf)) = data"
  by (simp add: overwrite_def)

lemma slice_overwrite_before:
  assumes "a + s \<le> pos" "pos \<le> length buf"
  shows "take s (drop a (overwrite pos data buf)) = take s (drop a buf)"
proof -
  have "take (a + s) (overwrite pos data buf) = take (a + s) buf"
    using assms by (simp add: overwrite_def min_absorb1)
  then show ?thesis by (metis add.commute take_drop)
qed

lemma slice_overwrite_after:
  assumes "pos + length data \<le> a" "pos \<le> length buf"
  shows "take s (drop a (overwrite pos data buf)) = take s (drop a buf)"
  using assms by (simp add: overwrite_def min_absorb2)

section \<open>Arithmetic modulo the size of a ring\<close>

lemma mod_add_left_cancel_nat: "(a + b) mod n = (a + c) mod n \<longleftrightarrow> b mod n = c mod (n :: nat)"
proof -
  have "(a + b) mod n = (a + c) mod n \<longleftrightarrow> (int a + int b) mod int n = (int a + int c) mod int n"
    by (metis of_nat_add of_nat_eq_iff of_nat_mod)
  also have "\<dots> \<longleftrightarrow> int b mod int n = int c mod int n"
    by (simp add: mod_eq_dvd_iff)
  also have "\<dots> \<longleftrightarrow> b mod n = c mod n"
    by (metis of_nat_eq_iff of_nat_mod)
  finally show ?thesis .
qed

lemma unat_succ_less:
  fixes w v :: "'a :: len word"
  assumes "w < v" shows "unat (w + 1) = unat w + 1"
proof -
  have "unat w < unat v" using assms by (simp add: word_less_nat_alt)
  moreover have "unat v < 2 ^ LENGTH('a)" by (rule unsigned_less)
  ultimately have "unat w + 1 < 2 ^ LENGTH('a)" by linarith
  then show ?thesis by (simp add: unat_word_ariths(1))
qed

section \<open>Lists\<close>

lemma nth_list_update_if: "i < length xs \<Longrightarrow> xs[i := v] ! j = (if i = j then v else xs ! j)"
  by auto

lemma sum_list_take_le: "sum_list (take n xs) \<le> (sum_list xs :: nat)"
  by (metis append_take_drop_id le_add1 sum_list_append)

end
