(* ===== verification/Wire_Buf.thy ===== *)
theory Wire_Buf
  imports Prelude
begin

text \<open>
  The byte-buffer primitives of cccommon/src/CCutil.cpp: the bounded writer and reader that every
  wire format of the program is built from (\<open>copy_to_bufl\<close>, \<open>copy_from_bufl\<close>), the hex printer
  \<open>buf2hex\<close> and the decimal parser \<open>buf2uint64\<close>. Buffer positions are 32-bit and wrap; an
  access outside the array behind a buffer is the outcome \<open>OutOfBounds\<close>.
\<close>

section \<open>Hexadecimal digits\<close>

definition g_hex_digits :: "byte list" where
  "g_hex_digits = [48, 49, 50, 51, 52, 53, 54, 55, 56, 57, 97, 98, 99, 100, 101, 102]"

definition hex_digit :: "nat \<Rightarrow> byte" where
  "hex_digit d = g_hex_digits ! (d mod 16)"

text \<open>\<open>buf2hex buf nbytes separator\<close>; the separator 0 means none.\<close>

fun buf2hex_from :: "bool \<Rightarrow> byte \<Rightarrow> byte list \<Rightarrow> byte list" where
  "buf2hex_from started sep [] = []"
| "buf2hex_from started sep (p # ps) =
     (if started \<and> sep \<noteq> 0 then [sep] else []) @
     [hex_digit (unat p div 16), hex_digit (unat p)] @ buf2hex_from True sep ps"

definition buf2hex :: "byte list \<Rightarrow> byte \<Rightarrow> byte list" where
  "buf2hex buf sep = buf2hex_from False sep buf"

section \<open>The bounded writer\<close>

text \<open>
  A writer: the position and the array it writes to. The array's own length is what C++ allocated;
  the \<open>bufsize\<close> argument of each call is what the caller says it is.
\<close>

record wbuf =
  bufpos :: u32
  mem :: "byte list"

definition copy_to_raw :: "byte list \<Rightarrow> u32 \<Rightarrow> wbuf \<Rightarrow> wbuf outcome" where
  "copy_to_raw data bufsize s =
     (let pos = bufpos s;
          s' = s\<lparr>bufpos := pos + of_nat (length data)\<rparr>
      in if bufpos s' \<le> bufsize then
           (if unat pos + length data \<le> length (mem s)
            then Inr (s'\<lparr>mem := overwrite (unat pos) data (mem s)\<rparr>)
            else Inl OutOfBounds)
         else Inr s')"

fun copy_to_hex :: "byte list \<Rightarrow> u32 \<Rightarrow> wbuf \<Rightarrow> wbuf outcome" where
  "copy_to_hex [] bufsize s = Inr s"
| "copy_to_hex (b # bs) bufsize s =
     bind_outcome (copy_to_raw [hex_digit (unat b)] bufsize s) (\<lambda>s1.
     bind_outcome (copy_to_raw [hex_digit (unat b div 16)] bufsize s1) (\<lambda>s2.
     bind_outcome
       (if bufpos s2 < bufsize then
          (if unat (bufpos s2) < length (mem s2)
           then Inr (s2\<lparr>mem := (mem s2)[unat (bufpos s2) := 0]\<rparr>)
           else Inl OutOfBounds)
        else Inr s2)
       (copy_to_hex bs bufsize)))"

definition copy_to_bufl :: "byte list \<Rightarrow> u32 \<Rightarrow> bool \<Rightarrow> wbuf \<Rightarrow> wbuf outcome" where
  "copy_to_bufl data bufsize bhex s =
     (if \<not> bhex then copy_to_raw data bufsize s else copy_to_hex data bufsize s)"

section \<open>The bounded reader\<close>

text \<open>
  \<open>copy_from_bufl\<close> fills the destination object \<open>data\<close> (its length is \<open>datasize\<close>) with
  \<open>nbytes\<close> bytes and zeros, and returns the new position with the new contents.
\<close>

definition copy_from_bufl ::
  "byte list \<Rightarrow> nat \<Rightarrow> u32 \<Rightarrow> byte list \<Rightarrow> u32 \<Rightarrow> bool \<Rightarrow> (u32 \<times> byte list) outcome" where
  "copy_from_bufl data nbytes pos buffer bufsize bhex =
     (if bhex then Inr (-1, data)
      else
        let newpos = pos + of_nat nbytes in
        if newpos \<le> bufsize then
          (if nbytes \<le> length data \<and> unat pos + nbytes \<le> length buffer
           then Inr (newpos, take nbytes (drop (unat pos) buffer) @ replicate (length data - nbytes) 0)
           else Inl OutOfBounds)
        else Inr (newpos, replicate (length data) 0))"

section \<open>The decimal parser\<close>

text \<open>
  \<open>buf2uint64\<close> on the bytes at \<open>bufp\<close>; \<open>None\<close> is a null pointer. Running off the bytes given
  is a read outside the object. The result \<open>-1\<close> is the error value.
\<close>

fun buf2uint64_loop :: "bool \<Rightarrow> bool \<Rightarrow> u64 \<Rightarrow> byte list \<Rightarrow> u64 outcome" where
  "buf2uint64_loop started done v [] = Inl OutOfBounds"
| "buf2uint64_loop started done v (c # p) =
     (if c = 0 \<or> c = 10 \<or> c = 13 then Inr (if \<not> started then -1 else v)
      else if c = 32 then buf2uint64_loop started (if started then True else done) v p
      else if done then Inr (-1)
      else if c < 48 \<or> c > 57 then Inr (-1)
      else
        let n = v * 10 + ucast c - 48
        in if n < v then Inr (-1) else buf2uint64_loop True done n p)"

definition buf2uint64 :: "byte list option \<Rightarrow> u64 outcome" where
  "buf2uint64 bufp = (case bufp of None \<Rightarrow> Inr (-1) | Some p \<Rightarrow> buf2uint64_loop False False 0 p)"

definition buf2uint :: "byte list option \<Rightarrow> u32 outcome" where
  "buf2uint bufp =
     bind_outcome (buf2uint64 bufp) (\<lambda>v.
       let u = (ucast v :: u32) in Inr (if (ucast u :: u64) \<noteq> v then -1 else u))"

section \<open>Writer lemmas\<close>

text \<open>
  A buffer is sound for a size when the size the caller passes does not exceed the array. Position
  arithmetic is exact as long as the position and the run do not pass \<open>2 ^ 32\<close>.
\<close>

definition buf_sound :: "u32 \<Rightarrow> wbuf \<Rightarrow> bool" where
  "buf_sound bufsize s \<longleftrightarrow> unat bufsize \<le> length (mem s)"

lemma unat_add_of_nat_32:
  "unat (pos :: u32) + n < 2 ^ 32 \<Longrightarrow> unat (pos + of_nat n) = unat pos + n"
  by (simp add: unat_word_ariths unat_of_nat)

lemma copy_to_raw_fits:
  assumes "buf_sound bufsize s" and "unat (bufpos s) + length data \<le> unat bufsize"
  shows "copy_to_raw data bufsize s =
    Inr \<lparr>bufpos = bufpos s + of_nat (length data),
         mem = overwrite (unat (bufpos s)) data (mem s), \<dots> = more s\<rparr>"
proof -
  have "unat bufsize < 2 ^ 32" using unsigned_less [of bufsize] by simp
  then have "unat (bufpos s + of_nat (length data)) = unat (bufpos s) + length data"
    using assms(2) by (intro unat_add_of_nat_32) simp
  with assms show ?thesis
    by (cases s) (simp add: copy_to_raw_def Let_def word_le_nat_alt buf_sound_def)
qed

lemma copy_to_raw_full:
  assumes "unat bufsize < unat (bufpos s) + length data" and "unat (bufpos s) + length data < 2 ^ 32"
  shows "copy_to_raw data bufsize s = Inr (s\<lparr>bufpos := bufpos s + of_nat (length data)\<rparr>)"
  using assms by (simp add: copy_to_raw_def Let_def word_le_nat_alt unat_add_of_nat_32)

lemma copy_to_raw_cases:
  assumes "buf_sound bufsize s" and "unat (bufpos s) + length data < 2 ^ 32"
  obtains s' where "copy_to_raw data bufsize s = Inr s'" and "buf_sound bufsize s'"
    and "unat (bufpos s') = unat (bufpos s) + length data" and "length (mem s') = length (mem s)"
proof (cases "unat (bufpos s) + length data \<le> unat bufsize")
  case True
  with assms show ?thesis
    by (intro that [of "\<lparr>bufpos = bufpos s + of_nat (length data),
         mem = overwrite (unat (bufpos s)) data (mem s), \<dots> = more s\<rparr>"])
       (auto simp: copy_to_raw_fits buf_sound_def unat_add_of_nat_32)
next
  case False
  with assms show ?thesis
    by (intro that [of "s\<lparr>bufpos := bufpos s + of_nat (length data)\<rparr>"])
       (auto simp: copy_to_raw_full buf_sound_def unat_add_of_nat_32)
qed




section \<open>Reader lemmas\<close>

lemma copy_from_bufl_fits:
  assumes "unat bufsize \<le> length buffer" and "unat pos + nbytes \<le> unat bufsize"
    and "nbytes \<le> length data"
  shows "copy_from_bufl data nbytes pos buffer bufsize False =
    Inr (pos + of_nat nbytes,
         take nbytes (drop (unat pos) buffer) @ replicate (length data - nbytes) 0)"
proof -
  have "unat bufsize < 2 ^ 32" using unsigned_less [of bufsize] by simp
  then have "unat (pos + of_nat nbytes) = unat pos + nbytes"
    using assms(2) by (intro unat_add_of_nat_32) simp
  with assms show ?thesis by (simp add: copy_from_bufl_def Let_def word_le_nat_alt)
qed

lemma copy_from_bufl_past_end:
  assumes "unat bufsize < unat pos + nbytes" and "unat pos + nbytes < 2 ^ 32"
  shows "copy_from_bufl data nbytes pos buffer bufsize False =
    Inr (pos + of_nat nbytes, replicate (length data) 0)"
  using assms by (simp add: copy_from_bufl_def Let_def word_le_nat_alt unat_add_of_nat_32)

text \<open>
  What the bounded writer stores, the bounded reader reads back: a run that fits, written at a
  position and read from the same position into an object at least as large, comes back followed
  by zeros, and both positions advance alike.
\<close>

lemma copy_to_from_roundtrip:
  assumes "buf_sound bufsize s" and "unat (bufpos s) + length run \<le> unat bufsize"
    and "length run \<le> length data"
  shows "\<exists>s'. copy_to_bufl run bufsize False s = Inr s' \<and>
     copy_from_bufl data (length run) (bufpos s) (mem s') bufsize False =
       Inr (bufpos s', run @ replicate (length data - length run) 0)"
proof -
  have fits: "copy_to_bufl run bufsize False s =
    Inr \<lparr>bufpos = bufpos s + of_nat (length run),
         mem = overwrite (unat (bufpos s)) run (mem s), \<dots> = more s\<rparr>"
    using assms by (simp add: copy_to_bufl_def copy_to_raw_fits)
  have "unat (bufpos s) \<le> length (mem s)"
    using assms by (simp add: buf_sound_def)
  then have "take (length run) (drop (unat (bufpos s)) (overwrite (unat (bufpos s)) run (mem s))) = run"
    by (rule slice_overwrite)
  with assms fits show ?thesis
    by (simp add: copy_from_bufl_fits buf_sound_def)
qed

lemma copy_to_from_roundtrip_witness:
  "\<exists>s'. copy_to_bufl [7, 8] 4 False \<lparr>bufpos = 1, mem = [0, 0, 0, 0]\<rparr> = Inr s' \<and>
     copy_from_bufl [1, 1, 1] (Suc (Suc 0)) 1 (mem s') 4 False = Inr (bufpos s', [7, 8, 0])"
  using copy_to_from_roundtrip [of 4 "\<lparr>bufpos = 1, mem = [0, 0, 0, 0]\<rparr>" "[7, 8]" "[1, 1, 1]"]
  by (simp add: buf_sound_def)

text \<open>
  The 32-bit position can wrap: a reader that is past the end of a message and asks for
  \<open>bufsize - bufpos\<close> bytes, computed in 32 bits, lands exactly on the end of the message and
  passes the range check. The copy it then makes is outside the destination unless that is larger
  than the wrapped count.
\<close>

lemma copy_from_bufl_wrapped:
  assumes "bufsize < pos" and "length data < unat (bufsize - pos)"
  shows "copy_from_bufl data (unat (bufsize - pos)) pos buffer bufsize False = Inl OutOfBounds"
  using assms by (simp add: copy_from_bufl_def Let_def)

section \<open>The decimal parser on well-formed input\<close>

definition is_dec_digit :: "byte \<Rightarrow> bool" where
  "is_dec_digit c \<longleftrightarrow> 48 \<le> c \<and> c \<le> 57"

fun dec_value :: "nat \<Rightarrow> byte list \<Rightarrow> nat" where
  "dec_value v [] = v"
| "dec_value v (c # cs) = dec_value (v * 10 + (unat c - 48)) cs"

lemma dec_value_ge: "v \<le> dec_value v cs"
proof (induction cs arbitrary: v)
  case Nil
  then show ?case by simp
next
  case (Cons c cs)
  have "v \<le> v * 10 + (unat c - 48)" by simp
  also have "\<dots> \<le> dec_value (v * 10 + (unat c - 48)) cs" by (rule Cons.IH)
  finally show ?case by simp
qed

lemma digit_step:
  fixes v :: u64
  assumes "is_dec_digit c" and "unat v * 10 + (unat c - 48) < 2 ^ 64"
  shows "unat (v * 10 + ucast c - 48) = unat v * 10 + (unat c - 48)"
proof -
  have c: "48 \<le> unat c" "unat c \<le> 57"
    using assms(1) by (simp_all add: is_dec_digit_def word_le_nat_alt)
  have eq: "v * 10 + ucast c - 48 = of_nat (unat v * 10 + (unat c - 48))"
    using c by (simp add: of_nat_diff)
  show ?thesis unfolding eq using assms(2) by (subst unat_of_nat) simp
qed

lemma buf2uint64_loop_digits:
  assumes "list_all is_dec_digit ds" and "dec_value (unat v) ds < 2 ^ 64"
  shows "buf2uint64_loop st False v (ds @ rest) =
    buf2uint64_loop (st \<or> ds \<noteq> []) False (of_nat (dec_value (unat v) ds)) rest"
  using assms
proof (induction ds arbitrary: v st)
  case Nil
  then show ?case by simp
next
  case (Cons c cs)
  have c: "is_dec_digit c" and cs: "list_all is_dec_digit cs" using Cons.prems(1) by auto
  have step_less: "unat v * 10 + (unat c - 48) < 2 ^ 64"
    using Cons.prems(2) dec_value_ge [of "unat v * 10 + (unat c - 48)" cs] by simp
  note step = digit_step [OF c step_less]
  have range: "\<not> (c = 0 \<or> c = 10 \<or> c = 13)" "c \<noteq> 32" "\<not> (c < 48 \<or> c > 57)"
    using c by (auto simp: is_dec_digit_def word_le_nat_alt word_less_nat_alt)
  have "\<not> v * 10 + ucast c - 48 < v"
    using step by (simp add: word_less_nat_alt)
  with range have "buf2uint64_loop st False v ((c # cs) @ rest) =
      buf2uint64_loop True False (v * 10 + ucast c - 48) (cs @ rest)"
    by (simp add: Let_def)
  also have "\<dots> = buf2uint64_loop True False (of_nat (dec_value (unat v) (c # cs))) rest"
    using Cons.IH [OF cs, of "v * 10 + ucast c - 48" True] Cons.prems(2)
    by (simp add: step)
  finally show ?case by simp
qed

lemma buf2uint64_loop_leading:
  "buf2uint64_loop False False v (replicate k 32 @ rest) = buf2uint64_loop False False v rest"
  by (induction k) auto

lemma buf2uint64_loop_trailing:
  "buf2uint64_loop True d v (replicate k 32 @ 0 # rest) = Inr v"
  by (induction k arbitrary: d) auto

text \<open>
  The decimal parser is right on every number that fits: any spaces, a non-empty run of digits
  whose value is below \<open>2 ^ 64\<close>, any spaces and a terminator parse to exactly that value.
\<close>

lemma buf2uint64_correct:
  assumes "list_all is_dec_digit ds" and "ds \<noteq> []" and "dec_value 0 ds < 2 ^ 64"
  shows "buf2uint64 (Some (replicate i 32 @ ds @ replicate j 32 @ 0 # rest)) =
    Inr (of_nat (dec_value 0 ds))"
  using assms buf2uint64_loop_digits [of ds 0 False "replicate j 32 @ 0 # rest"]
  by (simp add: buf2uint64_def buf2uint64_loop_leading buf2uint64_loop_trailing)

lemma buf2uint64_correct_witness:
  "buf2uint64 (Some (replicate 1 32 @ [52, 50] @ replicate 2 32 @ 0 # [])) = Inr 42"
  using buf2uint64_correct [of "[52, 50]" 1 2 "[]"]
  by (simp add: is_dec_digit_def)


end
