(* ===== verification/Bigint.thy ===== *)
theory Bigint
  imports Prelude
begin

unbundle bit_operations_syntax

text \<open>
  The limb-level operations of cclib/src/CCbigint.cpp on \<open>bigint_t\<close>, an array of four 64-bit
  limbs, least significant first, which the source reads and writes limb by limb through
  \<open>BIGWORD\<close>. The arithmetic of the number library that supplies \<open>bigint_t\<close> is not part of the
  repository; it enters as the record \<open>bigops\<close> of functions, with the laws the program relies on in
  the locale \<open>bigint_lib\<close>.
\<close>

section \<open>The limb array\<close>

type_synonym bigint = "u64 list"

definition bpl :: nat where
  "bpl = 64"

definition numberLimbs :: nat where
  "numberLimbs = 4"

fun bval :: "bigint \<Rightarrow> nat" where
  "bval [] = 0"
| "bval (w # ws) = unat w + 2 ^ 64 * bval ws"

definition wf_bigint :: "bigint \<Rightarrow> bool" where
  "wf_bigint b \<longleftrightarrow> length b = numberLimbs"

section \<open>Operations\<close>

definition bigint_bit :: "bigint \<Rightarrow> nat \<Rightarrow> bool" where
  "bigint_bit b k =
     (let word = k div bpl; shift = k - word * bpl
      in if word < length b then b ! word AND push_bit shift 1 \<noteq> 0 else False)"

text \<open>One whole-limb step up: the loop from the top limb down, then the cleared low limb.\<close>

fun limbs_up_loop :: "nat \<Rightarrow> bigint \<Rightarrow> bigint" where
  "limbs_up_loop 0 b = b[0 := 0]"
| "limbs_up_loop (Suc i) b = limbs_up_loop i (b[Suc i := b ! i])"

fun bits_up_loop :: "nat \<Rightarrow> nat \<Rightarrow> bigint \<Rightarrow> bigint" where
  "bits_up_loop n 0 b = b[0 := push_bit n (b ! 0)]"
| "bits_up_loop n (Suc i) b =
     bits_up_loop n i (b[Suc i := push_bit n (b ! Suc i) OR drop_bit (bpl - n) (b ! i)])"

function bigint_shift_up :: "bigint \<Rightarrow> nat \<Rightarrow> bigint" where
  "bigint_shift_up b nbits =
     (if nbits \<ge> bpl then bigint_shift_up (limbs_up_loop (length b - Suc 0) b) (nbits - bpl)
      else if nbits \<noteq> 0 then bits_up_loop nbits (length b - Suc 0) b else b)"
  by pat_completeness auto
termination
  by (relation "measure snd") (auto simp: bpl_def)

declare bigint_shift_up.simps [simp del]

text \<open>The loops of the shift down run from the low limb up; \<open>m\<close> counts the limbs still to do.\<close>

fun limbs_down_loop :: "nat \<Rightarrow> nat \<Rightarrow> bigint \<Rightarrow> bigint" where
  "limbs_down_loop i 0 b = b[i := 0]"
| "limbs_down_loop i (Suc m) b = limbs_down_loop (Suc i) m (b[i := b ! Suc i])"

fun bits_down_loop :: "nat \<Rightarrow> nat \<Rightarrow> nat \<Rightarrow> bigint \<Rightarrow> bigint" where
  "bits_down_loop n i 0 b = b[i := drop_bit n (b ! i)]"
| "bits_down_loop n i (Suc m) b =
     bits_down_loop n (Suc i) m (b[i := drop_bit n (b ! i) OR push_bit (bpl - n) (b ! Suc i)])"

function bigint_shift_down :: "bigint \<Rightarrow> nat \<Rightarrow> bigint" where
  "bigint_shift_down b nbits =
     (if nbits \<ge> bpl then bigint_shift_down (limbs_down_loop 0 (length b - Suc 0) b) (nbits - bpl)
      else if nbits \<noteq> 0 then bits_down_loop nbits 0 (length b - Suc 0) b else b)"
  by pat_completeness auto
termination
  by (relation "measure snd") (auto simp: bpl_def)

declare bigint_shift_down.simps [simp del]

definition mask_limb :: "nat \<Rightarrow> nat \<Rightarrow> u64 \<Rightarrow> u64" where
  "mask_limb nbits i w =
     (if i * bpl \<ge> nbits then 0
      else if (i + 1) * bpl > nbits then w AND (push_bit (nbits - i * bpl) 1 - 1)
      else w)"

fun mask_loop :: "nat \<Rightarrow> nat \<Rightarrow> bigint \<Rightarrow> bigint" where
  "mask_loop nbits i [] = []"
| "mask_loop nbits i (w # ws) = mask_limb nbits i w # mask_loop nbits (Suc i) ws"

definition bigint_mask :: "bigint \<Rightarrow> nat \<Rightarrow> bigint" where
  "bigint_mask b nbits = mask_loop nbits 0 b"

text \<open>The memory image of the limb array, and the two scans over its bytes.\<close>

definition bigint_mem :: "bigint \<Rightarrow> byte list" where
  "bigint_mem b = concat (map (\<lambda>w. le_bytes 8 (unat w)) b)"

fun last_nonzero :: "nat \<Rightarrow> byte list \<Rightarrow> nat" where
  "last_nonzero 0 bs = 0"
| "last_nonzero (Suc i) bs = (if bs ! i \<noteq> 0 then i + 1 else last_nonzero i bs)"

definition bigint_bytes_in_use :: "bigint \<Rightarrow> nat" where
  "bigint_bytes_in_use b = (let nb = length b * 8 in last_nonzero nb (bigint_mem b))"

fun first_nonzero :: "nat \<Rightarrow> byte list \<Rightarrow> nat" where
  "first_nonzero nb [] = 0"
| "first_nonzero nb (c # cs) = (if c \<noteq> 0 then nb else first_nonzero (nb - 1) cs)"

definition bigint_end_bytes_in_use :: "bigint \<Rightarrow> nat" where
  "bigint_end_bytes_in_use b = (let nb = length b * 8 in first_nonzero nb (bigint_mem b))"

definition bswap_64 :: "u64 \<Rightarrow> u64" where
  "bswap_64 w = of_nat (le_val (rev (le_bytes 8 (unat w))))"

definition bigint_byteswap :: "bigint \<Rightarrow> bigint" where
  "bigint_byteswap b = [bswap_64 (b ! 3), bswap_64 (b ! 2), bswap_64 (b ! 1), bswap_64 (b ! 0)]"

section \<open>Limb-level characterisations\<close>

lemma bigint_bit_iff: "bigint_bit b k \<longleftrightarrow> k div 64 < length b \<and> bit (b ! (k div 64)) (k mod 64)"
  by (simp add: bigint_bit_def Let_def bpl_def and_exp_eq_0_iff_not_bit flip: minus_div_mult_eq_mod)

lemma length_limbs_up [simp]: "length (limbs_up_loop i b) = length b"
  by (induction i b rule: limbs_up_loop.induct) auto

lemma limbs_up_nth:
  "k < length b \<Longrightarrow> j < length b \<Longrightarrow>
   limbs_up_loop k b ! j = (if j = 0 then 0 else if j \<le> k then b ! (j - 1) else b ! j)"
  by (induction k b rule: limbs_up_loop.induct) (auto simp: nth_list_update le_Suc_eq)

lemma length_bits_up [simp]: "length (bits_up_loop n i b) = length b"
  by (induction n i b rule: bits_up_loop.induct) auto

lemma bits_up_nth:
  "k < length b \<Longrightarrow> j < length b \<Longrightarrow>
   bits_up_loop n k b ! j =
     (if j = 0 then push_bit n (b ! 0)
      else if j \<le> k then push_bit n (b ! j) OR drop_bit (bpl - n) (b ! (j - 1)) else b ! j)"
  by (induction n k b rule: bits_up_loop.induct) (auto simp: nth_list_update le_Suc_eq)

lemma length_limbs_down [simp]: "length (limbs_down_loop i m b) = length b"
  by (induction i m b rule: limbs_down_loop.induct) auto

lemma limbs_down_nth:
  "i + m + 1 = length b \<Longrightarrow> j < length b \<Longrightarrow>
   limbs_down_loop i m b ! j =
     (if j < i then b ! j else if j + 1 < length b then b ! (j + 1) else 0)"
proof (induction i m b rule: limbs_down_loop.induct)
  case (1 i b)
  then show ?case by (cases "j = i") (auto simp: nth_list_update)
next
  case (2 i m b)
  then show ?case by (auto simp: nth_list_update less_Suc_eq)
qed

lemma length_bits_down [simp]: "length (bits_down_loop n i m b) = length b"
  by (induction n i m b rule: bits_down_loop.induct) auto

lemma bits_down_nth:
  "i + m + 1 = length b \<Longrightarrow> j < length b \<Longrightarrow>
   bits_down_loop n i m b ! j =
     (if j < i then b ! j
      else if j + 1 < length b then drop_bit n (b ! j) OR push_bit (bpl - n) (b ! (j + 1))
      else drop_bit n (b ! j))"
proof (induction n i m b rule: bits_down_loop.induct)
  case (1 n i b)
  then show ?case by (cases "j = i") (auto simp: nth_list_update)
next
  case (2 n i m b)
  then show ?case by (auto simp: nth_list_update less_Suc_eq)
qed

lemma length_shift_up [simp]: "length (bigint_shift_up b n) = length b"
proof (induction b n rule: bigint_shift_up.induct)
  case (1 b n)
  then show ?case by (subst bigint_shift_up.simps) auto
qed

lemma length_shift_down [simp]: "length (bigint_shift_down b n) = length b"
proof (induction b n rule: bigint_shift_down.induct)
  case (1 b n)
  then show ?case by (subst bigint_shift_down.simps) auto
qed

lemma mask_loop_nth:
  "j < length b \<Longrightarrow> mask_loop n i b ! j = mask_limb n (i + j) (b ! j)"
  by (induction n i b arbitrary: j rule: mask_loop.induct) (auto simp: nth_Cons split: nat.splits)

lemma length_mask_loop [simp]: "length (mask_loop n i b) = length b"
  by (induction n i b rule: mask_loop.induct) auto


section \<open>Bit-level correctness\<close>

lemma index_less: "k < 64 * n \<longleftrightarrow> k div 64 < (n :: nat)"
  by (auto simp: less_mult_imp_div_less div_less_iff_less_mult mult.commute)

lemma index_minus_limb:
  fixes k :: nat
  assumes "64 \<le> k"
  shows "(k - 64) div 64 = k div 64 - 1" and "(k - 64) mod 64 = k mod 64" and "0 < k div 64"
  using assms by (simp_all add: le_div_geq le_mod_geq)

lemma index_minus_same:
  fixes k n :: nat
  assumes "n \<le> k mod 64"
  shows "(k - n) div 64 = k div 64" and "(k - n) mod 64 = k mod 64 - n" and "n \<le> k"
proof -
  have k: "k = 64 * (k div 64) + k mod 64" by simp
  then have e: "k - n = 64 * (k div 64) + (k mod 64 - n)" using assms by linarith
  have "k mod 64 - n < 64" by (simp add: less_imp_diff_less)
  then show "(k - n) div 64 = k div 64" and "(k - n) mod 64 = k mod 64 - n" unfolding e by simp_all
  show "n \<le> k" using assms k by linarith
qed

lemma index_minus_borrow:
  fixes k n :: nat
  assumes "k mod 64 < n" and "n \<le> k" and "n < 64"
  shows "(k - n) div 64 = k div 64 - 1" and "(k - n) mod 64 = 64 - n + k mod 64" and "0 < k div 64"
proof -
  show pos: "0 < k div 64" using assms by (cases "k < 64") (auto simp: div_greater_zero_iff)
  have "k = 64 * (k div 64) + k mod 64" by simp
  then have e: "k - n = 64 * (k div 64 - 1) + (64 - n + k mod 64)" using assms pos by (cases "k div 64") auto
  have "64 - n + k mod 64 < 64" using assms by linarith
  then show "(k - n) div 64 = k div 64 - 1" and "(k - n) mod 64 = 64 - n + k mod 64"
    unfolding e by simp_all
qed

lemma index_plus:
  fixes k n :: nat
  assumes "n < 64"
  shows "(k + n) div 64 = (if k mod 64 + n < 64 then k div 64 else Suc (k div 64))"
    and "(k + n) mod 64 = (if k mod 64 + n < 64 then k mod 64 + n else k mod 64 + n - 64)"
proof -
  have sum: "k mod 64 + n < 128" using assms by (simp add: add_less_le_mono)
  have "(k + n) div 64 = k div 64 + (k mod 64 + n) div 64"
    using assms by (simp add: div_add1_eq [of k n 64])
  with sum show "(k + n) div 64 = (if k mod 64 + n < 64 then k div 64 else Suc (k div 64))"
    by (simp add: le_div_geq)
  have "(k + n) mod 64 = (k mod 64 + n) mod 64" by (simp add: mod_add_left_eq)
  with sum show "(k + n) mod 64 = (if k mod 64 + n < 64 then k mod 64 + n else k mod 64 + n - 64)"
    by (simp add: le_mod_geq)
qed

lemma bit_word_64: "bit (w :: u64) r \<Longrightarrow> r < 64"
  using bit_imp_le_length [of w r] by simp

lemma limbs_up_bit:
  assumes "b \<noteq> []"
  shows "bigint_bit (limbs_up_loop (length b - Suc 0) b) k \<longleftrightarrow>
    64 \<le> k \<and> k < 64 * length b \<and> bigint_bit b (k - 64)"
proof (cases "64 \<le> k")
  case True
  with assms show ?thesis
    by (auto simp: bigint_bit_iff index_less index_minus_limb limbs_up_nth split: if_splits)
next
  case False
  with assms show ?thesis by (simp add: bigint_bit_iff limbs_up_nth)
qed

lemma bits_up_bit:
  assumes "b \<noteq> []" and "0 < n" and "n < 64"
  shows "bigint_bit (bits_up_loop n (length b - Suc 0) b) k \<longleftrightarrow>
    n \<le> k \<and> k < 64 * length b \<and> bigint_bit b (k - n)"
proof -
  let ?q = "k div 64" and ?r = "k mod 64"
  consider (same) "n \<le> ?r" | (borrow) "?r < n" "n \<le> k" | (low) "k < n" by linarith
  then show ?thesis
  proof cases
    case same
    have "\<not> bit (w :: u64) (bpl - n + ?r)" for w
      using same assms bit_word_64 [of w "bpl - n + ?r"] by (auto simp: bpl_def)
    with same assms show ?thesis
      by (auto simp: bigint_bit_iff index_less index_minus_same [OF same] bits_up_nth
          bit_push_bit_iff bit_or_iff bit_drop_bit_eq split: if_splits)
  next
    case borrow
    with assms show ?thesis
      by (auto simp: bigint_bit_iff index_less index_minus_borrow [OF borrow assms(3)] bits_up_nth
          bit_push_bit_iff bit_or_iff bit_drop_bit_eq bpl_def split: if_splits)
  next
    case low
    with assms show ?thesis
      by (auto simp: bigint_bit_iff bits_up_nth bit_push_bit_iff)
  qed
qed

lemma limbs_down_bit:
  assumes "b \<noteq> []"
  shows "bigint_bit (limbs_down_loop 0 (length b - Suc 0) b) k \<longleftrightarrow> bigint_bit b (k + 64)"
  using assms by (auto simp: bigint_bit_iff limbs_down_nth div_add_self2 split: if_splits)

lemma bits_down_bit:
  assumes "b \<noteq> []" and "0 < n" and "n < 64"
  shows "bigint_bit (bits_down_loop n 0 (length b - Suc 0) b) k \<longleftrightarrow> bigint_bit b (k + n)"
proof (cases "k mod 64 + n < 64")
  case True
  with assms show ?thesis
    by (auto simp: bigint_bit_iff index_plus bits_down_nth bit_push_bit_iff bit_or_iff
        bit_drop_bit_eq bpl_def add.commute split: if_splits)
next
  case False
  have "\<not> bit (w :: u64) (n + k mod 64)" for w
    using False bit_word_64 [of w "n + k mod 64"] by auto
  moreover have "k mod 64 - (64 - n) = k mod 64 + n - 64" and "64 - n \<le> k mod 64"
    using False assms by simp_all
  ultimately show ?thesis
    using False assms
    by (auto simp: bigint_bit_iff index_plus bits_down_nth bit_push_bit_iff bit_or_iff
        bit_drop_bit_eq bpl_def split: if_splits)
qed

lemma bigint_bit_bound: "bigint_bit b k \<Longrightarrow> k < 64 * length b"
  by (simp add: bigint_bit_iff index_less)

text \<open>
  Shifting a big integer up by any number of bits, whole limbs first and then within limbs,
  moves bit \<open>k - n\<close> to bit \<open>k\<close>, clears the low \<open>n\<close> bits and drops what leaves the top limb.
\<close>

lemma bigint_shift_up_bit:
  assumes "b \<noteq> []"
  shows "bigint_bit (bigint_shift_up b n) k \<longleftrightarrow>
    n \<le> k \<and> k < 64 * length b \<and> bigint_bit b (k - n)"
  using assms
proof (induction b n arbitrary: k rule: bigint_shift_up.induct)
  case (1 b n)
  consider (limb) "n \<ge> bpl" | (bits) "n < bpl" "n \<noteq> 0" | (none) "n = 0" by linarith
  then show ?case
  proof cases
    case limb
    have ne: "limbs_up_loop (length b - Suc 0) b \<noteq> []" using "1.prems" by (metis length_0_conv length_limbs_up)
    have "bigint_bit (bigint_shift_up b n) k \<longleftrightarrow>
        bigint_bit (bigint_shift_up (limbs_up_loop (length b - Suc 0) b) (n - bpl)) k"
      using limb by (subst bigint_shift_up.simps) simp
    also have "\<dots> \<longleftrightarrow> n - bpl \<le> k \<and> k < 64 * length b \<and>
        bigint_bit (limbs_up_loop (length b - Suc 0) b) (k - (n - bpl))"
      using "1.IH" [OF limb ne] by simp
    also have "\<dots> \<longleftrightarrow> n \<le> k \<and> k < 64 * length b \<and> bigint_bit b (k - n)"
    proof -
      have "64 \<le> k - (n - bpl) \<longleftrightarrow> n \<le> k" and "k - (n - bpl) - 64 = k - n" if "n - bpl \<le> k"
        using limb that by (auto simp: bpl_def)
      moreover have "k - (n - bpl) < 64 * length b" if "k < 64 * length b" using that by simp
      moreover have "n - bpl \<le> k" if "n \<le> k" using that by simp
      ultimately show ?thesis
        by (subst limbs_up_bit [OF "1.prems"]) (auto simp only:)
    qed
    finally show ?thesis .
  next
    case bits
    then show ?thesis
      using "1.prems" by (subst bigint_shift_up.simps) (simp add: bits_up_bit bpl_def)
  next
    case none
    then show ?thesis
      by (subst bigint_shift_up.simps) (auto simp: bpl_def dest: bigint_bit_bound)
  qed
qed

text \<open>Shifting down moves bit \<open>k + n\<close> to bit \<open>k\<close>, filling with zeros from the top.\<close>

lemma bigint_shift_down_bit:
  assumes "b \<noteq> []"
  shows "bigint_bit (bigint_shift_down b n) k \<longleftrightarrow> bigint_bit b (k + n)"
  using assms
proof (induction b n arbitrary: k rule: bigint_shift_down.induct)
  case (1 b n)
  consider (limb) "n \<ge> bpl" | (bits) "n < bpl" "n \<noteq> 0" | (none) "n = 0" by linarith
  then show ?case
  proof cases
    case limb
    have ne: "limbs_down_loop 0 (length b - Suc 0) b \<noteq> []" using "1.prems" by (metis length_0_conv length_limbs_down)
    have e: "k + (n - bpl) + 64 = k + n" using limb by (simp add: bpl_def)
    have "bigint_bit (bigint_shift_down b n) k \<longleftrightarrow>
        bigint_bit (bigint_shift_down (limbs_down_loop 0 (length b - Suc 0) b) (n - bpl)) k"
      using limb by (subst bigint_shift_down.simps) simp
    also have "\<dots> \<longleftrightarrow> bigint_bit (limbs_down_loop 0 (length b - Suc 0) b) (k + (n - bpl))"
      by (rule "1.IH" [OF limb ne])
    also have "\<dots> \<longleftrightarrow> bigint_bit b (k + n)"
      using limbs_down_bit [OF "1.prems", of "k + (n - bpl)"] by (simp only: e)
    finally show ?thesis .
  next
    case bits
    then show ?thesis
      using "1.prems" by (subst bigint_shift_down.simps) (simp add: bits_down_bit bpl_def)
  next
    case none
    then show ?thesis by (subst bigint_shift_down.simps) (simp add: bpl_def)
  qed
qed

text \<open>Masking keeps exactly the low \<open>n\<close> bits.\<close>

lemma bigint_mask_bit: "bigint_bit (bigint_mask b n) k \<longleftrightarrow> bigint_bit b k \<and> k < n"
proof -
  let ?q = "k div 64" and ?r = "k mod 64"
  have k: "k = ?q * 64 + ?r" by simp
  have mask: "bit (push_bit m 1 - 1 :: u64) ?r \<longleftrightarrow> ?r < m" if "m < 64" for m
    using that by (simp add: push_bit_eq_mult flip: mask_eq_exp_minus_1) (simp add: bit_mask_iff)
  consider (none) "n \<le> ?q * 64" | (part) "?q * 64 < n" "n < ?q * 64 + 64" | (all) "?q * 64 + 64 \<le> n"
    by linarith
  then show ?thesis
  proof cases
    case none
    then have "\<not> k < n" using k by linarith
    with none show ?thesis by (simp add: bigint_bit_iff bigint_mask_def mask_loop_nth mask_limb_def bpl_def)
  next
    case part
    then have "k < n \<longleftrightarrow> ?r < n - ?q * 64" using k by linarith
    moreover have "n - ?q * 64 < 64" using part by (simp add: less_diff_conv2)
    ultimately have "k < n \<longleftrightarrow> ?r < n - ?q * 64" "n - ?q * 64 < 64" .
    with part show ?thesis
      by (auto simp: bigint_bit_iff bigint_mask_def mask_loop_nth mask_limb_def bpl_def
          bit_and_iff mask simp del: push_bit_of_1)
  next
    case all
    have "?r < 64" by simp
    with all have "k < n" using k by linarith
    with all show ?thesis
      by (auto simp: bigint_bit_iff bigint_mask_def mask_loop_nth mask_limb_def bpl_def)
  qed
qed


section \<open>Values\<close>

lemma unat_u64_less: "unat (w :: u64) < 2 ^ 64"
  using unsigned_less [of w] by simp

lemma bval_less: "bval b < 2 ^ (64 * length b)"
proof (induction b)
  case Nil
  then show ?case by simp
next
  case (Cons w ws)
  have "unat w < 2 ^ 64" by (rule unat_u64_less)
  with Cons have "unat w + 2 ^ 64 * bval ws < 2 ^ 64 * 2 ^ (64 * length ws)" by simp
  then show ?case by (simp add: power_add)
qed

lemma bval_less_256: "wf_bigint b \<Longrightarrow> bval b < 2 ^ 256"
  using bval_less [of b] by (simp add: wf_bigint_def numberLimbs_def)

lemma bval_inj: "length a = length b \<Longrightarrow> bval a = bval b \<Longrightarrow> a = b"
proof (induction a b rule: list_induct2)
  case Nil
  then show ?case by simp
next
  case (Cons v vs w ws)
  have lt: "unat v < 2 ^ 64" "unat w < 2 ^ 64" by (rule unat_u64_less)+
  have "(unat v + 2 ^ 64 * bval vs) mod 2 ^ 64 = unat v" "(unat v + 2 ^ 64 * bval vs) div 2 ^ 64 = bval vs"
    "(unat w + 2 ^ 64 * bval ws) mod 2 ^ 64 = unat w" "(unat w + 2 ^ 64 * bval ws) div 2 ^ 64 = bval ws"
    using lt by simp_all
  with Cons.prems have "unat v = unat w" and "bval vs = bval ws" by (metis bval.simps(2))+
  with Cons.IH show ?case by (simp add: word_unat_eq_iff)
qed

lemma le_val_bigint_mem: "le_val (bigint_mem b) = bval b"
proof (induction b)
  case Nil
  then show ?case by (simp add: bigint_mem_def)
next
  case (Cons w ws)
  have "unat w < 2 ^ 64" by (rule unat_u64_less)
  then have "le_val (le_bytes 8 (unat w)) = unat w" by (simp add: le_val_bytes)
  with Cons show ?case by (simp add: bigint_mem_def le_val_append)
qed

lemma length_bigint_mem [simp]: "length (bigint_mem b) = length b * 8"
  by (induction b) (auto simp: bigint_mem_def)

lemma last_nonzero_spec:
  "i \<le> length bs \<Longrightarrow> last_nonzero i bs \<le> i \<and>
   (\<forall>j. last_nonzero i bs \<le> j \<and> j < i \<longrightarrow> bs ! j = 0) \<and>
   (0 < last_nonzero i bs \<longrightarrow> bs ! (last_nonzero i bs - 1) \<noteq> 0)"
  by (induction i bs rule: last_nonzero.induct) (auto simp: less_Suc_eq)

lemma bit_bval: "bit (bval b) k \<longleftrightarrow> bigint_bit b k"
proof (induction b arbitrary: k)
  case Nil
  then show ?case by (simp add: bigint_bit_iff)
next
  case (Cons w b)
  have e: "int (bval (w # b)) = concat_bit 64 (int (unat w)) (int (bval b))"
    using uint_bounded [of w] by (simp add: concat_bit_eq push_bit_eq_mult take_bit_int_eq_self)
  have "bit (bval (w # b)) k \<longleftrightarrow> bit (concat_bit 64 (int (unat w)) (int (bval b))) k"
    by (simp only: e [symmetric] bit_of_nat_iff_bit)
  also have "\<dots> \<longleftrightarrow> (if k < 64 then bit w k else bigint_bit b (k - 64))"
    by (simp add: bit_concat_bit_iff Cons.IH bit_unsigned_iff bit_of_nat_iff_bit)
  also have "\<dots> \<longleftrightarrow> bigint_bit (w # b) k"
  proof (cases "k < 64")
    case True
    then show ?thesis by (simp add: bigint_bit_iff)
  next
    case False
    then have "k div 64 = Suc ((k - 64) div 64)" "k mod 64 = (k - 64) mod 64"
      by (simp_all add: le_div_geq le_mod_geq)
    then show ?thesis using False by (simp add: bigint_bit_iff)
  qed
  finally show ?case .
qed

lemma shift_up_value: "b \<noteq> [] \<Longrightarrow> bval (bigint_shift_up b n) = (bval b * 2 ^ n) mod 2 ^ (64 * length b)"
  by (rule bit_eqI) (auto simp: bit_bval bigint_shift_up_bit bit_take_bit_iff bit_push_bit_iff possible_bit_def
      simp flip: take_bit_eq_mod push_bit_eq_mult)

lemma shift_down_value: "b \<noteq> [] \<Longrightarrow> bval (bigint_shift_down b n) = bval b div 2 ^ n"
  by (rule bit_eqI) (auto simp: bit_bval bigint_shift_down_bit bit_drop_bit_eq add.commute
      simp flip: drop_bit_eq_div)

lemma mask_value: "bval (bigint_mask b n) = bval b mod 2 ^ n"
  by (rule bit_eqI) (auto simp: bit_bval bigint_mask_bit bit_take_bit_iff simp flip: take_bit_eq_mod)

text \<open>
  The in-place shifts and the mask compute the arithmetic they stand for, for every number of bits
  and any number of limbs: shifting up multiplies modulo the width, shifting down divides rounding
  down, masking takes the remainder.
\<close>

lemma bigint_shift_mask_value:
  assumes "b \<noteq> []"
  shows "bval (bigint_shift_up b n) = (bval b * 2 ^ n) mod 2 ^ (64 * length b) \<and>
    bval (bigint_shift_down b n) = bval b div 2 ^ n \<and> bval (bigint_mask b n) = bval b mod 2 ^ n"
  using assms by (simp add: shift_up_value shift_down_value mask_value)

lemma bigint_shift_mask_value_witness:
  "bval (bigint_shift_up [5, 0, 0, 0] 130) = 5 * 2 ^ 130 \<and> bval (bigint_shift_down [0, 0, 4, 0] 100) = 2 ^ 30 \<and>
   bval (bigint_mask [0, 7, 0, 0] 65) = 2 ^ 64"
  using bigint_shift_mask_value [of "[5, 0, 0, 0]" 130] bigint_shift_mask_value [of "[0, 0, 4, 0]" 100]
    bigint_shift_mask_value [of "[0, 7, 0, 0]" 65] by simp

lemma le_val_upto_last:
  assumes "n \<le> length bs" and "\<And>j. n \<le> j \<Longrightarrow> j < length bs \<Longrightarrow> bs ! j = 0"
  shows "le_val bs = le_val (take n bs)"
proof -
  have "drop n bs = replicate (length bs - n) 0"
    using assms by (intro nth_equalityI) auto
  then have "le_val (take n bs @ drop n bs) = le_val (take n bs)"
    by (simp only: le_val_append) simp
  then show ?thesis by simp
qed

text \<open>
  The number of bytes in use is the length of the value in base 256: the value is below
  \<open>256 ^ n\<close>, and not below \<open>256 ^ (n - 1)\<close> unless \<open>n\<close> is zero, which happens for zero only.
\<close>

lemma bigint_bytes_in_use_spec:
  "bval b < 256 ^ bigint_bytes_in_use b \<and>
   (bigint_bytes_in_use b = 0 \<or> 256 ^ (bigint_bytes_in_use b - 1) \<le> bval b)"
proof -
  let ?bs = "bigint_mem b" and ?n = "bigint_bytes_in_use b"
  have n: "?n = last_nonzero (length ?bs) ?bs"
    by (simp add: bigint_bytes_in_use_def)
  note spec = last_nonzero_spec [of "length ?bs" ?bs, folded n, simplified]
  have "bval b = le_val (take ?n ?bs)"
    using spec by (simp flip: le_val_bigint_mem) (intro le_val_upto_last, auto)
  moreover have "le_val (take ?n ?bs) < 256 ^ ?n"
    using le_val_less [of "take ?n ?bs"] spec by simp
  moreover have "256 ^ (?n - 1) \<le> le_val (take ?n ?bs)" if pos: "0 < ?n"
  proof -
    have "take ?n ?bs = take (?n - 1) ?bs @ [?bs ! (?n - 1)]"
      using spec pos by (metis Suc_pred' diff_less le_trans length_bigint_mem less_le_trans
          take_Suc_conv_app_nth zero_less_one)
    moreover have "?n \<le> length b * 8" using spec by blast
    then have "length (take (?n - 1) ?bs) = ?n - 1" by (simp add: min_absorb2)
    ultimately have "le_val (take ?n ?bs) = le_val (take (?n - 1) ?bs) + 256 ^ (?n - 1) * unat (?bs ! (?n - 1))"
      by (metis add.right_neutral le_val.simps le_val_append mult_0_right)
    moreover have "1 \<le> unat (?bs ! (?n - 1))"
      using spec pos by (simp add: Suc_le_eq unat_gt_0)
    ultimately show ?thesis by (simp add: trans_le_add2)
  qed
  ultimately show ?thesis by auto
qed

section \<open>Byte swaps\<close>

lemma rev_le_bytes_bswap: "le_bytes 8 (unat (bswap_64 w)) = rev (le_bytes 8 (unat w))"
proof -
  let ?r = "rev (le_bytes 8 (unat w))"
  have len: "length ?r = 8" by simp
  have "le_val ?r < 2 ^ 64" using le_val_less [of ?r] by simp
  then have "unat (bswap_64 w) = le_val ?r" by (simp add: bswap_64_def unat_of_nat)
  then show ?thesis using le_bytes_val [of ?r] by simp
qed

lemma unat_of_le_bytes_8: "le_val (le_bytes 8 (unat (w :: u64))) = unat w"
  using unat_u64_less [of w] by (simp add: le_val_bytes)

lemma bswap_64_bswap_64 [simp]: "bswap_64 (bswap_64 w) = w"
proof -
  have "bswap_64 (bswap_64 w) = of_nat (le_val (rev (rev (le_bytes 8 (unat w)))))"
    unfolding bswap_64_def [of "bswap_64 w"] by (simp add: rev_le_bytes_bswap)
  then show ?thesis by (simp add: unat_of_le_bytes_8)
qed

text \<open>
  Byte-swapping a four-limb integer reverses its 32-byte memory image, and doing it twice gives
  the integer back.
\<close>

lemma bigint_byteswap_image:
  assumes "wf_bigint b"
  shows "bigint_mem (bigint_byteswap b) = rev (bigint_mem b) \<and> bigint_byteswap (bigint_byteswap b) = b"
proof -
  obtain w0 w1 w2 w3 where b: "b = [w0, w1, w2, w3]"
    using assms by (auto simp: wf_bigint_def numberLimbs_def length_Suc_conv eval_nat_numeral)
  then show ?thesis
    by (simp add: bigint_byteswap_def bigint_mem_def rev_le_bytes_bswap numeral_2_eq_2 numeral_3_eq_3)
qed

lemma bigint_byteswap_image_witness:
  "wf_bigint [1, 0, 0, 0] \<and> bigint_byteswap (bigint_byteswap [1, 0, 0, 0]) = [1, 0, 0, 0]"
proof -
  have wf: "wf_bigint [1, 0, 0, 0]" by (simp add: wf_bigint_def numberLimbs_def)
  then show ?thesis using bigint_byteswap_image [OF wf] by blast
qed


section \<open>The number library\<close>

text \<open>A big integer as a condition: \<open>if (x)\<close> tests that some limb is not zero.\<close>

definition big_true :: "bigint \<Rightarrow> bool" where
  "big_true b = list_ex (\<lambda>w. w \<noteq> 0) b"

lemma big_true_iff: "big_true b \<longleftrightarrow> 0 < bval b"
  by (induction b) (auto simp: big_true_def unat_gt_0)

text \<open>
  What the repository calls of the library that supplies \<open>bigint_t\<close>: construction from a 64-bit
  word, the operators \<open>+\<close>, \<open>-\<close>, \<open>*\<close>, \<open>/\<close>, \<open>%\<close> and \<open><\<close>, and the three-operand
  \<open>addBigInt\<close>, \<open>subBigInt\<close> and \<open>mulBigInt\<close> with their last argument false, which wrap at 256
  bits (the source negates with \<open>subBigInt(0, x, x, false)\<close>). \<open>mpn_tdiv_qr num den n\<close> is the division
  of GMP, with quotient and remainder; it asks that the \<open>n\<close> low limbs of \<open>den\<close> hold all of it and
  the highest of them is not zero. The operators \<open>+\<close>, \<open>-\<close> and \<open>*\<close> reduce modulo the prime order of the
  field of the proofs (the source says so where it avoids them, as in jsonutil.cpp), so that they are
  known to be exact only below it.
\<close>

definition field_prime :: nat where
  "field_prime = 21888242871839275222246405745257275088548364400416034343698204186575808495617"

lemma field_prime_bounds: "2 ^ 253 < field_prime" "field_prime < 2 ^ 254"
  by (simp_all add: field_prime_def)

record bigops =
  ofULong :: "u64 \<Rightarrow> bigint"
  op_add :: "bigint \<Rightarrow> bigint \<Rightarrow> bigint"
  op_sub :: "bigint \<Rightarrow> bigint \<Rightarrow> bigint"
  op_mul :: "bigint \<Rightarrow> bigint \<Rightarrow> bigint"
  op_div :: "bigint \<Rightarrow> bigint \<Rightarrow> bigint"
  op_mod :: "bigint \<Rightarrow> bigint \<Rightarrow> bigint"
  op_less :: "bigint \<Rightarrow> bigint \<Rightarrow> bool"
  addBigInt :: "bigint \<Rightarrow> bigint \<Rightarrow> bigint"
  subBigInt :: "bigint \<Rightarrow> bigint \<Rightarrow> bigint"
  mulBigInt :: "bigint \<Rightarrow> bigint \<Rightarrow> bigint"
  mpn_tdiv_qr :: "bigint \<Rightarrow> bigint \<Rightarrow> nat \<Rightarrow> bigint \<times> bigint"

locale bigint_lib =
  fixes B :: bigops
  assumes wf_ofULong: "wf_bigint (ofULong B w)"
    and wf_add: "wf_bigint x \<Longrightarrow> wf_bigint y \<Longrightarrow> wf_bigint (op_add B x y)"
    and wf_sub: "wf_bigint x \<Longrightarrow> wf_bigint y \<Longrightarrow> wf_bigint (op_sub B x y)"
    and wf_mul: "wf_bigint x \<Longrightarrow> wf_bigint y \<Longrightarrow> wf_bigint (op_mul B x y)"
    and wf_div: "wf_bigint x \<Longrightarrow> wf_bigint y \<Longrightarrow> wf_bigint (op_div B x y)"
    and wf_mod: "wf_bigint x \<Longrightarrow> wf_bigint y \<Longrightarrow> wf_bigint (op_mod B x y)"
    and wf_addBigInt: "wf_bigint x \<Longrightarrow> wf_bigint y \<Longrightarrow> wf_bigint (addBigInt B x y)"
    and wf_subBigInt: "wf_bigint x \<Longrightarrow> wf_bigint y \<Longrightarrow> wf_bigint (subBigInt B x y)"
    and wf_mulBigInt: "wf_bigint x \<Longrightarrow> wf_bigint y \<Longrightarrow> wf_bigint (mulBigInt B x y)"
    and val_ofULong: "bval (ofULong B w) = unat w"
    and val_add: "wf_bigint x \<Longrightarrow> wf_bigint y \<Longrightarrow> bval x + bval y < field_prime \<Longrightarrow>
      bval (op_add B x y) = bval x + bval y"
    and val_sub: "wf_bigint x \<Longrightarrow> wf_bigint y \<Longrightarrow> bval y \<le> bval x \<Longrightarrow> bval x < field_prime \<Longrightarrow>
      bval (op_sub B x y) = bval x - bval y"
    and val_mul: "wf_bigint x \<Longrightarrow> wf_bigint y \<Longrightarrow> bval x * bval y < field_prime \<Longrightarrow>
      bval (op_mul B x y) = bval x * bval y"
    and val_div: "wf_bigint x \<Longrightarrow> wf_bigint y \<Longrightarrow> 0 < bval y \<Longrightarrow>
      bval (op_div B x y) = bval x div bval y"
    and val_mod: "wf_bigint x \<Longrightarrow> wf_bigint y \<Longrightarrow> 0 < bval y \<Longrightarrow>
      bval (op_mod B x y) = bval x mod bval y"
    and less_iff: "wf_bigint x \<Longrightarrow> wf_bigint y \<Longrightarrow> op_less B x y \<longleftrightarrow> bval x < bval y"
    and val_addBigInt: "wf_bigint x \<Longrightarrow> wf_bigint y \<Longrightarrow>
      bval (addBigInt B x y) = (bval x + bval y) mod 2 ^ 256"
    and val_subBigInt: "wf_bigint x \<Longrightarrow> wf_bigint y \<Longrightarrow>
      bval (subBigInt B x y) = (bval x + 2 ^ 256 - bval y) mod 2 ^ 256"
    and val_mulBigInt: "wf_bigint x \<Longrightarrow> wf_bigint y \<Longrightarrow>
      bval (mulBigInt B x y) = (bval x * bval y) mod 2 ^ 256"
    and tdiv_qr: "wf_bigint x \<Longrightarrow> wf_bigint y \<Longrightarrow> 0 < n \<Longrightarrow> n \<le> numberLimbs \<Longrightarrow> y ! (n - 1) \<noteq> 0 \<Longrightarrow>
      bval (take n y) = bval y \<Longrightarrow> mpn_tdiv_qr B x y n = (q, r) \<Longrightarrow>
      wf_bigint q \<and> wf_bigint r \<and> bval q = bval x div bval y \<and> bval r = bval x mod bval y"
begin

lemmas wf_ops = wf_ofULong wf_add wf_sub wf_mul wf_div wf_mod wf_addBigInt wf_subBigInt wf_mulBigInt

lemma negate_negate:
  assumes "wf_bigint x"
  shows "subBigInt B (ofULong B 0) (subBigInt B (ofULong B 0) x) = x"
proof -
  let ?n = "subBigInt B (ofULong B 0) x"
  have wf: "wf_bigint ?n" using assms by (simp add: wf_ops)
  have n: "bval ?n = (2 ^ 256 - bval x) mod 2 ^ 256"
    using assms by (simp add: val_subBigInt wf_ops val_ofULong)
  have lt: "bval x < 2 ^ 256" using assms by (rule bval_less_256)
  have "bval (subBigInt B (ofULong B 0) ?n) = (2 ^ 256 - bval ?n) mod 2 ^ 256"
    using wf by (simp add: val_subBigInt wf_ops val_ofULong)
  also have "\<dots> = bval x"
    using lt n by (cases "bval x = 0") (simp_all add: mod_less [of "2 ^ 256 - bval x"])
  finally show ?thesis
    using assms wf by (intro bval_inj) (simp_all add: wf_bigint_def [symmetric] wf_ops,
        metis wf_bigint_def wf_ofULong wf_subBigInt)
qed

end

text \<open>
  A four-limb implementation by the value of the operands, which satisfies every law; it is the
  instance the witnesses run on.
\<close>

fun limbs_of :: "nat \<Rightarrow> nat \<Rightarrow> bigint" where
  "limbs_of 0 x = []"
| "limbs_of (Suc n) x = of_nat (x mod 2 ^ 64) # limbs_of n (x div 2 ^ 64)"

definition big_of_nat :: "nat \<Rightarrow> bigint" where
  "big_of_nat x = limbs_of numberLimbs x"

definition limb_bigops :: bigops where
  "limb_bigops =
     \<lparr>ofULong = (\<lambda>w. big_of_nat (unat w)),
      op_add = (\<lambda>x y. big_of_nat (bval x + bval y)),
      op_sub = (\<lambda>x y. big_of_nat (bval x + 2 ^ 256 - bval y)),
      op_mul = (\<lambda>x y. big_of_nat (bval x * bval y)),
      op_div = (\<lambda>x y. big_of_nat (bval x div bval y)),
      op_mod = (\<lambda>x y. big_of_nat (bval x mod bval y)),
      op_less = (\<lambda>x y. bval x < bval y),
      addBigInt = (\<lambda>x y. big_of_nat (bval x + bval y)),
      subBigInt = (\<lambda>x y. big_of_nat (bval x + 2 ^ 256 - bval y)),
      mulBigInt = (\<lambda>x y. big_of_nat (bval x * bval y)),
      mpn_tdiv_qr = (\<lambda>x y n. (big_of_nat (bval x div bval y), big_of_nat (bval x mod bval y)))\<rparr>"

lemma length_limbs_of [simp]: "length (limbs_of n x) = n"
  by (induction n arbitrary: x) auto

lemma wf_big_of_nat [simp]: "wf_bigint (big_of_nat x)"
  by (simp add: wf_bigint_def big_of_nat_def)

lemma bval_limbs_of: "bval (limbs_of n x) = x mod 2 ^ (64 * n)"
proof (induction n arbitrary: x)
  case 0
  then show ?case by simp
next
  case (Suc n)
  have "x mod 2 ^ (64 * Suc n) = x mod (2 ^ 64 * 2 ^ (64 * n))"
    by (simp add: power_add)
  also have "\<dots> = 2 ^ 64 * (x div 2 ^ 64 mod 2 ^ (64 * n)) + x mod 2 ^ 64"
    by (rule mod_mult2_eq)
  finally show ?case by (simp add: Suc.IH unat_of_nat)
qed

lemma bval_big_of_nat: "bval (big_of_nat x) = x mod 2 ^ 256"
  by (simp add: big_of_nat_def bval_limbs_of numberLimbs_def)

interpretation limb: bigint_lib limb_bigops
proof
  fix x y :: bigint and w :: u64
  assume wf: "wf_bigint x" "wf_bigint y"
  note lt = bval_less_256 [OF wf(1)] bval_less_256 [OF wf(2)]
  show "bval (op_div limb_bigops x y) = bval x div bval y" if "0 < bval y"
    using lt by (simp add: limb_bigops_def bval_big_of_nat le_less_trans [OF div_le_dividend])
  show "bval (op_mod limb_bigops x y) = bval x mod bval y" if "0 < bval y"
    using lt by (simp add: limb_bigops_def bval_big_of_nat le_less_trans [OF mod_less_eq_dividend])
  show "bval (op_sub limb_bigops x y) = bval x - bval y" if "bval y \<le> bval x"
  proof -
    have eq: "bval x + 2 ^ 256 - bval y = (bval x - bval y) + 2 ^ 256" using that by linarith
    have "bval x - bval y < 2 ^ 256" using lt by linarith
    then have "(bval x - bval y) mod 2 ^ 256 = bval x - bval y" by (rule mod_less)
    then show ?thesis
      by (simp only: limb_bigops_def bigops.simps bval_big_of_nat eq mod_add_self2)
  qed
  show "wf_bigint q \<and> wf_bigint r \<and> bval q = bval x div bval y \<and> bval r = bval x mod bval y"
    if "mpn_tdiv_qr limb_bigops x y n = (q, r)" for n q r
    using that lt le_less_trans [OF div_le_dividend lt(1)] le_less_trans [OF mod_less_eq_dividend lt(1)]
    by (auto simp: limb_bigops_def bval_big_of_nat)
next
  fix w :: u64
  have "unat w < 2 ^ 256" by (rule less_trans [OF unat_u64_less]) simp
  then show "bval (ofULong limb_bigops w) = unat w"
    by (simp add: limb_bigops_def bval_big_of_nat)
qed (simp_all add: limb_bigops_def bval_big_of_nat field_prime_def)

end
