(* ===== verification/Packed_Int.thy ===== *)
theory Packed_Int
  imports Prelude
begin

text \<open>
  The packed integers of the wire headers (cccommon/src/PackedInt.hpp): a number is divided by the
  template parameter \<open>div\<close>, reduced by \<open>offset / div\<close> (saturating at zero) and kept in the low
  \<open>N\<close> bytes. Block levels, block times and the expiration times of exchange requests
  (cclib/src/xtransaction.cpp) are stored this way.
\<close>

type_synonym packed = "byte list"

definition ExtractValue :: "packed \<Rightarrow> u64" where
  "ExtractValue value = of_nat (le_val value)"

definition ImplantValue :: "nat \<Rightarrow> u64 \<Rightarrow> packed" where
  "ImplantValue N v = le_bytes N (unat v)"

definition SetValue :: "nat \<Rightarrow> u32 \<Rightarrow> u32 \<Rightarrow> u64 \<Rightarrow> packed" where
  "SetValue N d off v =
     (let v = v div ucast d;
          o' = (ucast (off div d) :: u64);
          v = (if v > o' then v - o' else 0)
      in ImplantValue N v)"

definition GetValue :: "u32 \<Rightarrow> u32 \<Rightarrow> packed \<Rightarrow> u64" where
  "GetValue d off value = (of_nat (le_val value) + ucast (off div d)) * ucast d"

definition TX_TIME_OFFSET :: u32 where
  "TX_TIME_OFFSET = 1704067200"

definition XTX_TIME_DIVISOR :: u32 where
  "XTX_TIME_DIVISOR = 1"

definition CC_BLOCKTIME_WIRE_BYTES :: nat where
  "CC_BLOCKTIME_WIRE_BYTES = 32 div 8"

definition Encode_Time :: "u64 \<Rightarrow> u64" where
  "Encode_Time timestamp =
     ExtractValue (SetValue CC_BLOCKTIME_WIRE_BYTES XTX_TIME_DIVISOR TX_TIME_OFFSET timestamp)"

definition Decode_Time :: "u64 \<Rightarrow> u64" where
  "Decode_Time timestamp =
     GetValue XTX_TIME_DIVISOR TX_TIME_OFFSET (ImplantValue CC_BLOCKTIME_WIRE_BYTES timestamp)"

section \<open>Lemmas\<close>

lemma unat_ucast_32_64 [simp]: "unat (ucast (w :: u32) :: u64) = unat w"
  by (simp add: unsigned_ucast_eq take_bit_nat_eq_self unsigned_less less_trans [OF unsigned_less])

lemma unat_packed_word:
  "length bs \<le> 8 \<Longrightarrow> unat (of_nat (le_val bs) :: u64) = le_val bs"
proof -
  assume "length bs \<le> 8"
  then have "(256 :: nat) ^ length bs \<le> 256 ^ 8" by (rule power_increasing) simp
  with le_val_less [of bs] have "le_val bs < 2 ^ 64" by simp
  then show ?thesis by (simp add: unat_of_nat)
qed

lemma unat_SetValue:
  assumes "N \<le> 8"
  shows "le_val (SetValue N d off v) = (unat v div unat d - unat off div unat d) mod 256 ^ N"
proof -
  have "le_val (SetValue N d off v) =
      unat (if v div ucast d > (ucast (off div d) :: u64) then v div ucast d - ucast (off div d) else 0)
        mod 256 ^ N"
    by (simp add: SetValue_def ImplantValue_def Let_def le_val_bytes)
  also have "unat (if v div ucast d > (ucast (off div d) :: u64) then v div ucast d - ucast (off div d) else 0)
      = unat v div unat d - unat off div unat d"
    by (auto simp: word_less_nat_alt unat_div unat_sub word_le_nat_alt)
  finally show ?thesis .
qed

lemma GetValue_SetValue:
  assumes "N \<le> 8" "0 < d" "unat v div unat d - unat off div unat d < 256 ^ N"
  shows "unat (GetValue d off (SetValue N d off v)) = max (unat v div unat d) (unat off div unat d) * unat d"
proof -
  let ?x = "unat v div unat d" and ?o = "unat off div unat d"
  have len: "length (SetValue N d off v) \<le> 8"
    using assms(1) by (simp add: SetValue_def ImplantValue_def Let_def)
  have val: "le_val (SetValue N d off v) = ?x - ?o"
    using assms by (simp add: unat_SetValue)
  have bx: "?x * unat d < 2 ^ 64"
    using le_less_trans [OF div_times_less_eq_dividend unsigned_less [of v]] by simp
  have "?o * unat d < 2 ^ 32"
    using le_less_trans [OF div_times_less_eq_dividend unsigned_less [of off]] by simp
  then have m: "max ?x ?o * unat d < 2 ^ 64" using bx by (simp add: max_def)
  have "max ?x ?o * 1 \<le> max ?x ?o * unat d"
    using assms(2) by (intro mult_le_mono2) (simp add: Suc_le_eq unat_gt_0 word_neq_0_conv)
  then have mo: "max ?x ?o < 2 ^ 64" using m by linarith
  have w: "unat (of_nat (le_val (SetValue N d off v)) :: u64) = ?x - ?o"
    unfolding unat_packed_word [OF len] by (rule val)
  have s: "unat (of_nat (le_val (SetValue N d off v)) + ucast (off div d) :: u64) = max ?x ?o"
  proof -
    have "unat (of_nat (le_val (SetValue N d off v)) + ucast (off div d) :: u64) = (?x - ?o + ?o) mod 2 ^ 64"
      by (simp only: unat_word_ariths(1) w unat_ucast_32_64 unat_div) simp
    also have "?x - ?o + ?o = max ?x ?o" by linarith
    finally show ?thesis using mo by (simp only: mod_less)
  qed
  show ?thesis
    using m by (simp add: GetValue_def unat_word_ariths(2) s)
qed

text \<open>
  A packed field gives back the value stored in it, rounded down to a multiple of its divisor and
  raised to the smallest value the field can hold, whenever the reduced value fits its bytes; no
  step of the computation wraps around, and the stored bytes order as the values do.
\<close>

lemma packed_roundtrip:
  assumes "N \<le> 8" "0 < d" "v \<le> v'" "unat v' div unat d - unat off div unat d < 256 ^ N"
  shows "unat (GetValue d off (SetValue N d off v')) = max (unat v' div unat d) (unat off div unat d) * unat d \<and>
    ExtractValue (SetValue N d off v) \<le> ExtractValue (SetValue N d off v')"
proof -
  have le: "unat v div unat d - unat off div unat d \<le> unat v' div unat d - unat off div unat d"
    using assms(3) by (intro diff_le_mono div_le_mono) (simp add: word_le_nat_alt)
  have len: "length (SetValue N d off x) \<le> 8" for x
    using assms(1) by (simp add: SetValue_def ImplantValue_def Let_def)
  have "le_val (SetValue N d off v) \<le> le_val (SetValue N d off v')"
    using assms(1,4) le by (simp add: unat_SetValue)
  then show ?thesis
    using GetValue_SetValue [OF assms(1,2,4)]
    by (simp add: ExtractValue_def word_le_nat_alt unat_packed_word [OF len])
qed

lemma packed_roundtrip_witness:
  "unat (GetValue 10 100 (SetValue 2 10 100 (1234 :: u64))) = 1230 \<and>
   ExtractValue (SetValue 2 10 100 (500 :: u64)) \<le> ExtractValue (SetValue 2 10 100 1234)"
  using packed_roundtrip [of 2 10 500 1234 100] by simp

text \<open>
  The time encoding of exchange requests is exact on the times it can hold, from the offset on for
  \<open>2 ^ 32\<close> seconds, and keeps their order.
\<close>

lemma Decode_Encode_Time:
  assumes "unat TX_TIME_OFFSET \<le> unat t" "unat t < unat TX_TIME_OFFSET + 2 ^ 32"
  shows "Decode_Time (Encode_Time t) = t \<and> unat (Encode_Time t) = unat t - unat TX_TIME_OFFSET"
proof -
  let ?p = "SetValue CC_BLOCKTIME_WIRE_BYTES XTX_TIME_DIVISOR TX_TIME_OFFSET t"
  have len: "length ?p = 4" by (simp add: SetValue_def ImplantValue_def Let_def CC_BLOCKTIME_WIRE_BYTES_def)
  have "le_val ?p = unat t - unat TX_TIME_OFFSET"
    using assms by (simp add: unat_SetValue CC_BLOCKTIME_WIRE_BYTES_def XTX_TIME_DIVISOR_def)
  moreover have e: "unat (Encode_Time t) = le_val ?p"
    using len by (simp add: Encode_Time_def ExtractValue_def unat_packed_word)
  moreover have "ImplantValue CC_BLOCKTIME_WIRE_BYTES (Encode_Time t) = ?p"
    using len le_bytes_val [of ?p] by (simp add: ImplantValue_def e CC_BLOCKTIME_WIRE_BYTES_def)
  moreover have "unat (GetValue XTX_TIME_DIVISOR TX_TIME_OFFSET ?p) = unat t"
    using assms GetValue_SetValue [of 4 1 t TX_TIME_OFFSET]
    by (simp add: CC_BLOCKTIME_WIRE_BYTES_def XTX_TIME_DIVISOR_def)
  ultimately show ?thesis
    by (simp add: Decode_Time_def word_unat_eq_iff)
qed

lemma Decode_Encode_Time_witness:
  "Decode_Time (Encode_Time 1704067999) = 1704067999 \<and> unat (Encode_Time 1704067999) = 799"
  using Decode_Encode_Time [of 1704067999] by (simp add: TX_TIME_OFFSET_def)

end
