(* ===== verification/Obj_Queue.thy ===== *)
theory Obj_Queue
  imports Prelude
begin

text \<open>
  The circular queue of fixed-size objects (cccommon/src/ObjQueue.hpp), with its byte buffer and its
  two indices, the bounded FIFO interface its callers rely on, and the interpretation of that
  interface on the queue.
\<close>

record objqueue =
  m_objsize :: nat
  m_maxelem :: nat
  m_buf :: "byte list"
  m_nextin :: nat
  m_nextout :: nat

definition queue_clear :: "objqueue \<Rightarrow> objqueue" where
  "queue_clear q = q\<lparr>m_nextin := 0, m_nextout := 0\<rparr>"

text \<open>The constructor; \<open>raw\<close> is what the fresh allocation of \<open>objsize * m_maxelem\<close> bytes holds.\<close>

definition ObjQueue :: "byte list \<Rightarrow> nat \<Rightarrow> nat \<Rightarrow> objqueue" where
  "ObjQueue raw objsize maxelem =
     queue_clear \<lparr>m_objsize = objsize, m_maxelem = maxelem + 1, m_buf = raw, m_nextin = 0, m_nextout = 0\<rparr>"

definition next_index :: "objqueue \<Rightarrow> nat \<Rightarrow> nat" where
  "next_index q val = (let val = val + 1 in if val \<ge> m_maxelem q then val - m_maxelem q else val)"

definition queue_empty :: "objqueue \<Rightarrow> bool" where
  "queue_empty q = (m_nextin q = m_nextout q)"

definition queue_size :: "objqueue \<Rightarrow> nat" where
  "queue_size q =
     (let s = int (m_nextin q) - int (m_nextout q) in nat (if s < 0 then s + int (m_maxelem q) else s))"

definition queue_space :: "objqueue \<Rightarrow> nat" where
  "queue_space q = m_maxelem q - 1 - queue_size q"

definition queue_full :: "objqueue \<Rightarrow> bool" where
  "queue_full q = (next_index q (m_nextin q) = m_nextout q)"

text \<open>\<open>push\<close> returns true when the queue is full; the pair is the flag and the queue after the call.\<close>

definition queue_push :: "byte list \<Rightarrow> nat \<Rightarrow> objqueue \<Rightarrow> (bool \<times> objqueue) outcome" where
  "queue_push obj sz q =
     (if sz \<noteq> m_objsize q then Inl AssertFail
      else let nextin = next_index q (m_nextin q)
        in if nextin = m_nextout q then Inr (True, q)
           else Inr (False, q\<lparr>m_buf := overwrite (m_nextin q * m_objsize q) (take (m_objsize q) obj) (m_buf q),
                             m_nextin := nextin\<rparr>))"

text \<open>\<open>next\<close> returns a pointer into the buffer; the model returns the bytes it points to.\<close>

definition queue_next :: "nat \<Rightarrow> objqueue \<Rightarrow> byte list option outcome" where
  "queue_next sz q =
     (if sz \<noteq> m_objsize q then Inl AssertFail
      else if queue_empty q then Inr None
      else Inr (Some (take (m_objsize q) (drop (m_nextout q * m_objsize q) (m_buf q)))))"

definition queue_pop :: "nat \<Rightarrow> objqueue \<Rightarrow> (byte list option \<times> objqueue) outcome" where
  "queue_pop sz q = bind_outcome (queue_next sz q) (\<lambda>obj.
     case obj of
       None \<Rightarrow> Inr (None, q)
     | Some bs \<Rightarrow> Inr (Some bs, q\<lparr>m_nextout := next_index q (m_nextout q)\<rparr>))"

section \<open>Invariant and abstraction\<close>

definition queue_inv :: "objqueue \<Rightarrow> bool" where
  "queue_inv q \<longleftrightarrow> m_nextin q < m_maxelem q \<and> m_nextout q < m_maxelem q \<and>
     length (m_buf q) = m_objsize q * m_maxelem q"

definition queue_slot :: "objqueue \<Rightarrow> nat \<Rightarrow> byte list" where
  "queue_slot q i = take (m_objsize q) (drop (i * m_objsize q) (m_buf q))"

definition queue_list :: "objqueue \<Rightarrow> byte list list" where
  "queue_list q = map (\<lambda>k. queue_slot q ((m_nextout q + k) mod m_maxelem q)) [0..<queue_size q]"

definition queue_capacity :: "objqueue \<Rightarrow> nat" where
  "queue_capacity q = m_maxelem q - 1"

section \<open>The bounded FIFO interface\<close>

locale bounded_fifo =
  fixes inv :: "'q \<Rightarrow> bool"
    and good :: "'q \<Rightarrow> 'a \<Rightarrow> bool"
    and content :: "'q \<Rightarrow> 'a list"
    and capacity :: "'q \<Rightarrow> nat"
    and enq :: "'a \<Rightarrow> 'q \<Rightarrow> (bool \<times> 'q) outcome"
    and deq :: "'q \<Rightarrow> ('a option \<times> 'q) outcome"
  assumes enq_room: "inv q \<Longrightarrow> good q x \<Longrightarrow> length (content q) < capacity q \<Longrightarrow>
      \<exists>q'. enq x q = Inr (False, q') \<and> inv q' \<and> content q' = content q @ [x] \<and>
        capacity q' = capacity q \<and> good q' = good q"
    and enq_full: "inv q \<Longrightarrow> good q x \<Longrightarrow> length (content q) = capacity q \<Longrightarrow> enq x q = Inr (True, q)"
    and deq_some: "inv q \<Longrightarrow> content q = x # xs \<Longrightarrow>
      \<exists>q'. deq q = Inr (Some x, q') \<and> inv q' \<and> content q' = xs \<and>
        capacity q' = capacity q \<and> good q' = good q"
    and deq_none: "inv q \<Longrightarrow> content q = [] \<Longrightarrow> deq q = Inr (None, q)"
    and content_bound: "inv q \<Longrightarrow> length (content q) \<le> capacity q"
begin

fun enq_all :: "'a list \<Rightarrow> 'q \<Rightarrow> (bool \<times> 'q) outcome" where
  "enq_all [] q = Inr (False, q)"
| "enq_all (x # xs) q = bind_outcome (enq x q) (\<lambda>(full, q). if full then Inr (True, q) else enq_all xs q)"

fun deq_n :: "nat \<Rightarrow> 'q \<Rightarrow> ('a list \<times> 'q) outcome" where
  "deq_n 0 q = Inr ([], q)"
| "deq_n (Suc n) q = bind_outcome (deq q) (\<lambda>(x, q).
     case x of None \<Rightarrow> Inr ([], q) | Some y \<Rightarrow> bind_outcome (deq_n n q) (\<lambda>(ys, q). Inr (y # ys, q)))"

lemma enq_all_room:
  assumes "inv q" "list_all (good q) xs" "length (content q) + length xs \<le> capacity q"
  shows "\<exists>q'. enq_all xs q = Inr (False, q') \<and> inv q' \<and> content q' = content q @ xs \<and> capacity q' = capacity q"
  using assms
proof (induction xs arbitrary: q)
  case Nil
  then show ?case by simp
next
  case (Cons x xs)
  from Cons.prems enq_room [of q x] obtain q1 where
    q1: "enq x q = Inr (False, q1)" "inv q1" "content q1 = content q @ [x]" "capacity q1 = capacity q" "good q1 = good q"
    by auto
  with Cons.prems Cons.IH [of q1] show ?case by auto
qed

lemma deq_n_prefix:
  assumes "inv q"
  shows "\<exists>q'. deq_n n q = Inr (take n (content q), q') \<and> inv q' \<and> content q' = drop n (content q) \<and>
    capacity q' = capacity q"
  using assms
proof (induction n arbitrary: q)
  case 0
  then show ?case by simp
next
  case (Suc n)
  show ?case
  proof (cases "content q")
    case Nil
    with Suc.prems show ?thesis by (simp add: deq_none)
  next
    case (Cons x xs)
    with Suc.prems deq_some [of q x xs] obtain q1 where
      q1: "deq q = Inr (Some x, q1)" "inv q1" "content q1 = xs" "capacity q1 = capacity q" by auto
    with Suc.IH [of q1] Cons show ?thesis by auto
  qed
qed

lemma fifo:
  assumes "inv q" "content q = []" "list_all (good q) xs" "length xs \<le> capacity q"
  shows "\<exists>q1 q2. enq_all xs q = Inr (False, q1) \<and> deq_n (length xs) q1 = Inr (xs, q2) \<and> inv q2 \<and> content q2 = []"
proof -
  obtain q1 where "enq_all xs q = Inr (False, q1)" "inv q1" "content q1 = xs"
    using enq_all_room [of q xs] assms by auto
  with deq_n_prefix [of q1 "length xs"] show ?thesis by auto
qed

end

section \<open>The queue implements the interface\<close>

lemma next_index_mod: "i < m_maxelem q \<Longrightarrow> next_index q i = (i + 1) mod m_maxelem q"
  by (auto simp: next_index_def Let_def le_Suc_eq)

lemma queue_size_less:
  assumes "queue_inv q" shows "queue_size q < m_maxelem q"
  using assms by (auto simp: queue_inv_def queue_size_def Let_def)

lemma queue_size_in:
  assumes "queue_inv q" shows "(m_nextout q + queue_size q) mod m_maxelem q = m_nextin q"
proof (cases "m_nextout q \<le> m_nextin q")
  case True
  then show ?thesis using assms by (simp add: queue_inv_def queue_size_def Let_def nat_diff_distrib)
next
  case False
  then have "m_nextout q + queue_size q = m_nextin q + m_maxelem q"
    using assms by (auto simp: queue_inv_def queue_size_def Let_def nat_add_distrib)
  then show ?thesis using assms by (simp add: queue_inv_def)
qed

lemma queue_size_unique:
  assumes "queue_inv q" "k < m_maxelem q" "(m_nextout q + k) mod m_maxelem q = m_nextin q"
  shows "queue_size q = k"
proof -
  have "(m_nextout q + queue_size q) mod m_maxelem q = (m_nextout q + k) mod m_maxelem q"
    using assms queue_size_in by simp
  then have "queue_size q mod m_maxelem q = k mod m_maxelem q"
    by (simp only: mod_add_left_cancel_nat)
  then show ?thesis using assms(2) queue_size_less [OF assms(1)] by simp
qed

lemma length_queue_list [simp]: "length (queue_list q) = queue_size q"
  by (simp add: queue_list_def)

lemma mult_slot_bound: "i < n \<Longrightarrow> i * s + s \<le> s * (n :: nat)"
  by (metis Suc_leI add.commute mult.commute mult_Suc mult_le_mono2)

lemma queue_slot_other:
  assumes "i \<noteq> j" "i < n" "j < n" "length buf = s * n" "length x = s"
  shows "take s (drop (i * s) (overwrite (j * s) x buf)) = take s (drop (i * s) buf)"
proof (cases "i < j")
  case True
  then have "i * s + s \<le> j * s" using mult_slot_bound [of i j s] by (simp add: mult.commute)
  moreover have "j * s \<le> length buf" using assms by (metis less_imp_le mult.commute mult_le_mono2)
  ultimately show ?thesis by (simp add: slice_overwrite_before)
next
  case False
  then have "j * s + s \<le> i * s" using assms(1) mult_slot_bound [of j i s] by (simp add: mult.commute)
  moreover have "j * s \<le> length buf" using assms by (metis less_imp_le mult.commute mult_le_mono2)
  ultimately show ?thesis using assms by (simp add: slice_overwrite_after)
qed

lemma queue_push_room:
  assumes inv: "queue_inv q" and len: "length x = m_objsize q" and room: "queue_size q < queue_capacity q"
  shows "\<exists>q'. queue_push x (m_objsize q) q = Inr (False, q') \<and> queue_inv q' \<and>
    queue_list q' = queue_list q @ [x] \<and> m_maxelem q' = m_maxelem q \<and> m_objsize q' = m_objsize q"
proof -
  let ?n = "m_maxelem q" and ?s = "m_objsize q" and ?in = "m_nextin q" and ?out = "m_nextout q"
  let ?q = "q\<lparr>m_buf := overwrite (?in * ?s) x (m_buf q), m_nextin := next_index q ?in\<rparr>"
  have b: "?in < ?n" "?out < ?n" "length (m_buf q) = ?s * ?n" using inv by (auto simp: queue_inv_def)
  have nx: "next_index q ?in = (?in + 1) mod ?n" using b by (simp add: next_index_mod)
  have sz: "Suc (queue_size q) < ?n" using room by (simp add: queue_capacity_def)
  have step: "(?out + Suc (queue_size q)) mod ?n = next_index q ?in"
    using queue_size_in [OF inv] nx by (metis Suc_eq_plus1 add_Suc_right mod_add_left_eq)
  have ne: "next_index q ?in \<noteq> ?out"
  proof
    assume "next_index q ?in = ?out"
    then have "(?out + Suc (queue_size q)) mod ?n = (?out + 0) mod ?n" using step b by simp
    then have "Suc (queue_size q) mod ?n = 0 mod ?n" by (simp only: mod_add_left_cancel_nat)
    then show False using sz by simp
  qed
  have inv': "queue_inv ?q"
    using b len mult_slot_bound [of ?in ?n ?s] by (simp add: queue_inv_def nx)
  have size': "queue_size ?q = Suc (queue_size q)"
    using inv' sz step by (intro queue_size_unique) auto
  have new: "queue_slot ?q ?in = x"
    using b len slice_overwrite [of "?in * ?s" "m_buf q" x]
    by (simp add: queue_slot_def mult.commute)
  have old: "queue_slot ?q ((?out + k) mod ?n) = queue_slot q ((?out + k) mod ?n)" if "k < queue_size q" for k
  proof -
    have "(?out + k) mod ?n \<noteq> ?in"
      using that queue_size_unique [OF inv, of k] queue_size_less [OF inv] by auto
    then show ?thesis
      using b len queue_slot_other [of "(?out + k) mod ?n" ?in ?n "m_buf q" ?s x] by (simp add: queue_slot_def)
  qed
  have "queue_list ?q = queue_list q @ [x]"
    using old new queue_size_in [OF inv] by (simp add: queue_list_def size')
  then show ?thesis
    using ne inv' len by (auto simp: queue_push_def Let_def)
qed

lemma queue_full_iff:
  assumes "queue_inv q" shows "queue_full q \<longleftrightarrow> queue_size q = queue_capacity q"
proof -
  let ?n = "m_maxelem q"
  have n: "0 < ?n" "m_nextout q < ?n" "m_nextin q < ?n" using assms by (auto simp: queue_inv_def)
  have "queue_full q \<longleftrightarrow> (m_nextout q + (queue_size q + 1)) mod ?n = (m_nextout q + 0) mod ?n"
    using n queue_size_in [OF assms] by (simp add: queue_full_def next_index_mod) (metis mod_Suc_eq)
  also have "\<dots> \<longleftrightarrow> (queue_size q + 1) mod ?n = 0 mod ?n"
    by (simp only: mod_add_left_cancel_nat)
  also have "\<dots> \<longleftrightarrow> queue_size q = queue_capacity q"
    using n queue_size_less [OF assms]
    by (metis Suc_eq_plus1 diff_Suc_1 Suc_lessI mod_0 mod_less mod_self nat.distinct(1) queue_capacity_def Suc_pred)
  finally show ?thesis .
qed

lemma queue_push_full:
  "queue_full q \<Longrightarrow> queue_push x (m_objsize q) q = Inr (True, q)"
  by (simp add: queue_push_def queue_full_def)

lemma queue_pop_some:
  assumes inv: "queue_inv q" and ne: "queue_list q = x # xs"
  shows "\<exists>q'. queue_pop (m_objsize q) q = Inr (Some x, q') \<and> queue_inv q' \<and> queue_list q' = xs \<and>
    m_maxelem q' = m_maxelem q \<and> m_objsize q' = m_objsize q"
proof -
  let ?n = "m_maxelem q" and ?out = "m_nextout q"
  let ?q = "q\<lparr>m_nextout := next_index q ?out\<rparr>"
  have b: "?out < ?n" "m_nextin q < ?n" using inv by (auto simp: queue_inv_def)
  have pos: "0 < queue_size q" using ne by (metis length_queue_list length_greater_0_conv list.distinct(1))
  then have nonempty: "\<not> queue_empty q" by (auto simp: queue_empty_def queue_size_def)
  have nx: "next_index q ?out = (?out + 1) mod ?n" using b by (simp add: next_index_mod)
  have inv': "queue_inv ?q" using inv b by (simp add: queue_inv_def nx)
  have "(next_index q ?out + (queue_size q - 1)) mod ?n = m_nextin q"
  proof -
    have "(next_index q ?out + (queue_size q - 1)) mod ?n = (?out + 1 + (queue_size q - 1)) mod ?n"
      unfolding nx by (rule mod_add_left_eq)
    also have "?out + 1 + (queue_size q - 1) = ?out + queue_size q" using pos by simp
    finally show ?thesis using queue_size_in [OF inv] by simp
  qed
  then have size': "queue_size ?q = queue_size q - 1"
    using inv' queue_size_less [OF inv] by (intro queue_size_unique) auto
  have split: "[0..<queue_size q] = 0 # map Suc [0..<queue_size q - 1]"
    using pos by (simp add: upt_conv_Cons map_Suc_upt)
  have "queue_list q = queue_slot q ?out # queue_list ?q"
    using b unfolding queue_list_def size'
    by (simp add: split nx queue_slot_def comp_def mod_add_left_eq)
  then show ?thesis
    using ne nonempty inv' by (simp add: queue_pop_def queue_next_def queue_slot_def)
qed

lemma queue_pop_none: "queue_list q = [] \<Longrightarrow> queue_inv q \<Longrightarrow> queue_pop (m_objsize q) q = Inr (None, q)"
  using queue_size_in [of q] length_queue_list [of q]
  by (simp add: queue_pop_def queue_next_def queue_empty_def queue_inv_def)

interpretation objq: bounded_fifo queue_inv "\<lambda>q x. length x = m_objsize q" queue_list queue_capacity
  "\<lambda>x q. queue_push x (m_objsize q) q" "\<lambda>q. queue_pop (m_objsize q) q"
proof
  fix q :: objqueue and x :: "byte list"
  assume a: "queue_inv q" "length x = m_objsize q"
  show "\<exists>q'. queue_push x (m_objsize q) q = Inr (False, q') \<and> queue_inv q' \<and> queue_list q' = queue_list q @ [x] \<and>
      queue_capacity q' = queue_capacity q \<and> (\<lambda>x. length x = m_objsize q') = (\<lambda>x. length x = m_objsize q)"
    if "length (queue_list q) < queue_capacity q"
    using queue_push_room [OF a] that by (auto simp: queue_capacity_def)
  show "queue_push x (m_objsize q) q = Inr (True, q)" if "length (queue_list q) = queue_capacity q"
    using a that by (simp add: queue_push_full queue_full_iff)
next
  fix q :: objqueue and x :: "byte list" and xs
  assume a: "queue_inv q" "queue_list q = x # xs"
  show "\<exists>q'. queue_pop (m_objsize q) q = Inr (Some x, q') \<and> queue_inv q' \<and> queue_list q' = xs \<and>
      queue_capacity q' = queue_capacity q \<and> (\<lambda>x. length x = m_objsize q') = (\<lambda>x. length x = m_objsize q)"
    using queue_pop_some [OF a] by (auto simp: queue_capacity_def)
next
  fix q :: objqueue
  assume a: "queue_inv q"
  show "queue_pop (m_objsize q) q = Inr (None, q)" if "queue_list q = []"
    using a that by (simp add: queue_pop_none)
  show "length (queue_list q) \<le> queue_capacity q"
    using queue_size_less [OF a] by (simp add: queue_capacity_def)
qed

lemma ObjQueue_inv:
  "length raw = objsize * (maxelem + 1) \<Longrightarrow>
   queue_inv (ObjQueue raw objsize maxelem) \<and> queue_list (ObjQueue raw objsize maxelem) = [] \<and>
   queue_capacity (ObjQueue raw objsize maxelem) = maxelem \<and> m_objsize (ObjQueue raw objsize maxelem) = objsize"
  by (simp add: ObjQueue_def queue_clear_def queue_inv_def queue_list_def queue_size_def queue_capacity_def)

lemma queue_push_objsize: "queue_push x n q = Inr (b, q') \<Longrightarrow> m_objsize q' = m_objsize q"
  by (auto simp: queue_push_def Let_def split: if_splits)

lemma queue_enq_all_objsize: "objq.enq_all xs q = Inr (b, q') \<Longrightarrow> m_objsize q' = m_objsize q"
proof (induction xs arbitrary: q)
  case Nil
  then show ?case by simp
next
  case (Cons x xs)
  then show ?case
    by (auto simp: bind_outcome_eq_Inr dest: queue_push_objsize split: if_splits)
qed



end
