(* ===== verification/Blocks.thy ===== *)
theory Blocks
  imports Packed_Int Bigint
begin

text \<open>
  Blocks (ccnode/src/block.hpp and block.cpp): the header fields and the node's own data of a block,
  the chaining of a block to its prior block, the signature counts that make a block indelible, the
  rule on the order of the witnesses, and the score a witness gives to a chain.

  Blocks live in a heap from addresses to blocks; \<open>prior\<close> is the counted pointer to the prior block.
  The level is the four-byte field of the header; \<open>level_value\<close> is its \<open>GetValue()\<close>.
\<close>

section \<open>Blocks and the heap\<close>

record chain_params =
  nwitnesses :: u16
  maxmal :: u16
  nconfsigs :: u16
  nseqconfsigs :: u16
  nskipconfsigs :: u16
  next_nwitnesses :: u16
  next_maxmal :: u16
  signing_keys :: "byte list list"

record block =
  prior_oid :: "byte list"
  level :: u32
  timestamp :: u32
  witness :: u8
  txdata :: "byte list"
  oid :: "byte list"
  block_hash :: bigint
  skip :: u16
  marked_for_indelible :: bool
  announce_ticks :: u32
  blockchain_params :: chain_params
  total_donations :: bigint
  score :: u64
  score_bits :: u16
  score_genstamp :: u16
  next_signing_private_key :: "byte list"
  prior :: "nat option"

type_synonym addr = nat
type_synonym heap = "addr \<Rightarrow> block"

definition level_value :: "block \<Rightarrow> u64" where
  "level_value b = ucast (level b)"

definition timestamp_value :: "block \<Rightarrow> u64" where
  "timestamp_value b = ucast (timestamp b) + ucast TX_TIME_OFFSET"

definition HasTx :: "block \<Rightarrow> bool" where
  "HasTx b = (0 < length (txdata b))"

definition MAX_NWITNESSES :: nat where
  "MAX_NWITNESSES = 21"

definition MAX_NCONFSIGS :: nat where
  "MAX_NCONFSIGS = MAX_NWITNESSES + (MAX_NWITNESSES - 1) div 2"

definition MAX_SCORE_BITS :: nat where
  "MAX_SCORE_BITS = 64"

definition Implement_CCMint :: "u64 \<Rightarrow> bool" where
  "Implement_CCMint blockchain = False"

definition CC_MINT_COUNT :: u64 where
  "CC_MINT_COUNT = 200000"

definition CC_MINT_ACCEPT_SPAN :: u64 where
  "CC_MINT_ACCEPT_SPAN = 11"

record mint_params =
  blockchain_id :: u64
  genesis_nwitnesses :: u16
  genesis_maxmal :: u16

section \<open>Signature counts\<close>

definition cap_confsigs :: "u16 \<Rightarrow> u16" where
  "cap_confsigs n = (if unat n > MAX_NCONFSIGS then of_nat MAX_NCONFSIGS else n)"

definition SetConfSigs :: "chain_params \<Rightarrow> chain_params outcome" where
  "SetConfSigs p =
     (let p = (if nwitnesses p \<le> 0 then p\<lparr>nwitnesses := 1\<rparr> else p);
          p = (if unat (maxmal p) \<ge> (unat (nwitnesses p) + 1) div 2
               then p\<lparr>maxmal := of_nat ((unat (nwitnesses p) - 1) div 2)\<rparr> else p);
          n = unat (nwitnesses p);
          m = unat (maxmal p)
      in if \<not> n > 0 then Inl AssertFail
         else if \<not> m < (n + 1) div 2 then Inl AssertFail
         else let nconf = of_nat ((n - m) div 2 + m + 1);
                  nskip = of_nat (n + m);
                  nseq = (if m \<noteq> 0 then nskip else nconf)
           in Inr (p\<lparr>nconfsigs := cap_confsigs nconf, nseqconfsigs := cap_confsigs nseq,
                     nskipconfsigs := cap_confsigs nskip\<rparr>))"

definition ComputeSkip :: "u32 \<Rightarrow> u32 \<Rightarrow> u32 \<Rightarrow> u32 outcome" where
  "ComputeSkip prev_witness next_witness n =
     (if n = 0 then Inl DivideByZero
      else Inr ((next_witness - ((prev_witness + 1) mod n) + n) mod n))"

definition SetPriorBlock :: "heap \<Rightarrow> addr \<Rightarrow> addr \<Rightarrow> heap" where
  "SetPriorBlock h b priorobj = h(b := (h b)\<lparr>prior := Some priorobj\<rparr>)"

definition ChainToPriorBlock :: "mint_params \<Rightarrow> heap \<Rightarrow> addr \<Rightarrow> addr \<Rightarrow> heap outcome" where
  "ChainToPriorBlock g h b priorobj =
     (let h = SetPriorBlock h b priorobj
      in if \<not> unat (witness (h b)) < MAX_NWITNESSES then Inl AssertFail
         else let p = blockchain_params (h priorobj);
                  p = p\<lparr>nwitnesses := next_nwitnesses p, maxmal := next_maxmal p\<rparr>;
                  p = (if Implement_CCMint (blockchain_id g) \<and>
                          level_value (h b) = CC_MINT_COUNT + CC_MINT_ACCEPT_SPAN
                       then p\<lparr>next_nwitnesses := genesis_nwitnesses g, next_maxmal := genesis_maxmal g\<rparr>
                       else p)
           in bind_outcome (SetConfSigs p) (\<lambda>p.
              bind_outcome (ComputeSkip (ucast (witness (h priorobj))) (ucast (witness (h b))) (ucast (nwitnesses p))) (\<lambda>sk.
                let b' = (h b)\<lparr>blockchain_params := p,
                               next_signing_private_key := next_signing_private_key (h priorobj),
                               skip := ucast sk\<rparr>
                in if nwitnesses p = 0 then Inl AssertFail
                   else if \<not> skip b' < nwitnesses p then Inl AssertFail
                   else Inr (h(b := b')))))"

section \<open>The order of the witnesses\<close>

text \<open>
  The scan of \<open>CheckBadSigOrder\<close> ends with the sum of the skips, with the early return for a missing
  prior block, or with the fatal error for a gap in the levels.
\<close>

datatype sig_scan = Scanned u32 | NoPriorBlock | LevelError

function check_sigs_loop :: "heap \<Rightarrow> u32 \<Rightarrow> u32 \<Rightarrow> u32 \<Rightarrow> addr \<Rightarrow> sig_scan" where
  "check_sigs_loop h nconf nsigs skipsum b =
     (if nsigs < nconf then
        let skipsum = skipsum + ucast (skip (h b))
        in case prior (h b) of
             None \<Rightarrow> (if level_value (h b) \<noteq> 0 then NoPriorBlock else Scanned skipsum)
           | Some p \<Rightarrow>
               (if level_value (h p) \<noteq> level_value (h b) - 1 then LevelError
                else check_sigs_loop h nconf (nsigs + 1) skipsum p)
      else Scanned skipsum)"
  by pat_completeness auto
termination
proof (relation "measure (\<lambda>(h, nconf, nsigs, s, b). unat nconf - unat nsigs)", goal_cases)
  case 1
  then show ?case by simp
next
  case (2 h nconf nsigs s b s' p)
  then have "unat (nsigs + 1) = unat nsigs + 1" "unat nsigs < unat nconf"
    using unat_succ_less [of nsigs nconf] by (auto simp: word_less_nat_alt)
  then show ?case by simp
qed

declare check_sigs_loop.simps [simp del]

text \<open>
  The second component of the result tells that the fatal error flag of the block chain was set
  (\<open>SetFatalError\<close> returns true).
\<close>

definition CheckBadSigOrder :: "heap \<Rightarrow> addr \<Rightarrow> int \<Rightarrow> (bool \<times> bool) outcome" where
  "CheckBadSigOrder h b top_witness =
     (let p = blockchain_params (h b);
          top = (top_witness \<ge> 0);
          n = (if top then ucast (next_nwitnesses p) else ucast (nwitnesses p)) :: u32;
          nconf = (if top then (n - ucast (next_maxmal p)) div 2 + ucast (next_maxmal p) + 1
                   else ucast (nconfsigs p))
      in bind_outcome (if top then ComputeSkip (ucast (witness (h b))) (word_of_int top_witness) n else Inr 0) (\<lambda>sk.
         case check_sigs_loop h nconf (if top then 1 else 0) sk b of
           NoPriorBlock \<Rightarrow> Inr (True, False)
         | LevelError \<Rightarrow> Inr (True, True)
         | Scanned skipsum \<Rightarrow> Inr (skipsum + nconf > n, False)))"

section \<open>The score of a chain\<close>

text \<open>
  A left shift of a 64-bit word. A shift by 64 or more is undefined in C++; on a zero every
  implementation of the shift leaves zero, which is the case the code relies on.
\<close>

definition shl_64 :: "u64 \<Rightarrow> nat \<Rightarrow> u64 outcome" where
  "shl_64 x n = (if n < 64 then Inr (push_bit n x) else if x = 0 then Inr 0 else Inl BadShift)"

definition mal_target_level :: "heap \<Rightarrow> addr \<Rightarrow> addr \<Rightarrow> u64" where
  "mal_target_level h lst b =
     (let target_level = level_value (h lst);
          offset = ucast (nskipconfsigs (blockchain_params (h b)))
      in if target_level \<le> offset then 0 else target_level - offset)"

fun CalcSkipScoreRecursive ::
  "nat \<Rightarrow> heap \<Rightarrow> addr \<Rightarrow> u16 \<Rightarrow> bool \<Rightarrow> addr \<Rightarrow> (heap \<times> u64 \<times> u32) outcome" where
  "CalcSkipScoreRecursive 0 h lst genstamp maltest b = Inl OutOfFuel"
| "CalcSkipScoreRecursive (Suc fuel) h lst genstamp maltest b =
     (if genstamp \<noteq> 0 \<and> genstamp = score_genstamp (h b) then Inr (h, score (h b), ucast (score_bits (h b)))
      else if b = lst \<and> \<not> maltest then Inr (h, 1, 1)
      else if level_value (h b) \<le> level_value (h lst) \<and> \<not> maltest then Inr (h, 0, 0)
      else if maltest \<and> level_value (h b) \<le> mal_target_level h lst b then Inr (h, 1, 1)
      else case prior (h b) of
        None \<Rightarrow> (if \<not> maltest then Inr (h, 0, 0) else Inr (h, 1, 1))
      | Some p \<Rightarrow>
          bind_outcome (CalcSkipScoreRecursive fuel h lst genstamp maltest p) (\<lambda>(h, sc, bits).
            if sc = 0 then Inr (h, sc, bits)
            else bind_outcome (shl_64 sc (unat (skip (h b)) + 1)) (\<lambda>sc.
              let sc = (or sc 1);
                  bits = bits + ucast (skip (h b)) + 1;
                  h = (if genstamp \<noteq> 0
                       then h(b := (h b)\<lparr>score := sc, score_bits := ucast bits, score_genstamp := genstamp\<rparr>)
                       else h)
              in Inr (h, sc, bits))))"

definition CalcSkipScore ::
  "nat \<Rightarrow> heap \<Rightarrow> addr \<Rightarrow> int \<Rightarrow> addr option \<Rightarrow> u16 \<Rightarrow> bool \<Rightarrow> (heap \<times> u64) outcome" where
  "CalcSkipScore fuel h b top_witness last_indelible genstamp maltest =
     (case last_indelible of
        None \<Rightarrow> Inl AssertFail
      | Some lst \<Rightarrow>
          if maltest \<and> level_value (h b) \<le> mal_target_level h lst b then Inr (h, 0)
          else bind_outcome (CalcSkipScoreRecursive fuel h lst genstamp maltest b) (\<lambda>(h, sc, bits).
            bind_outcome
              (if sc \<noteq> 0 \<and> top_witness \<ge> 0 then
                 bind_outcome (ComputeSkip (ucast (witness (h b))) (word_of_int top_witness)
                                (ucast (next_nwitnesses (blockchain_params (h b))))) (\<lambda>sk.
                 bind_outcome (shl_64 sc (unat (sk + 1))) (\<lambda>sc. Inr (or sc 1, bits + sk + 1)))
               else Inr (sc, bits)) (\<lambda>(sc, bits).
            let over = (unat bits > MAX_SCORE_BITS);
                sc = (if over \<and> \<not> maltest then 0 else sc);
                bits = (if over \<and> maltest then of_nat MAX_SCORE_BITS else bits)
            in if unat bits < MAX_SCORE_BITS
               then bind_outcome (shl_64 sc (MAX_SCORE_BITS - unat bits)) (\<lambda>sc. Inr (h, sc))
               else Inr (h, sc))))"

end
