(* ===== verification/Consensus.thy ===== *)
theory Consensus
  imports Blocks
begin

text \<open>
  Properties of the consensus rules of block.cpp: the signature counts give overlapping quorums, a
  block accepted by the ordering rule has a run of distinct signers, so two accepted blocks share
  more signers than may be malicious, and the score of a chain orders chains lexicographically.
\<close>

section \<open>Signature counts\<close>

lemma unat_of_nat_16 [simp]: "unat (of_nat x :: u16) = x mod 65536"
  by (simp add: unat_of_nat)

lemma unat_u16_less: "unat (w :: u16) < 65536"
  using unsigned_less [of w] by simp

lemma SetConfSigs_spec:
  "\<exists>q. SetConfSigs p = Inr q \<and> 0 < unat (nwitnesses q) \<and> unat (maxmal q) < (unat (nwitnesses q) + 1) div 2 \<and>
     next_nwitnesses q = next_nwitnesses p \<and> next_maxmal q = next_maxmal p \<and>
     nwitnesses q = (if nwitnesses p = 0 then 1 else nwitnesses p) \<and>
     (unat (nwitnesses q) \<le> MAX_NWITNESSES \<longrightarrow>
        unat (nconfsigs q) = (unat (nwitnesses q) - unat (maxmal q)) div 2 + unat (maxmal q) + 1 \<and>
        unat (nskipconfsigs q) = unat (nwitnesses q) + unat (maxmal q) \<and>
        nseqconfsigs q = (if maxmal q = 0 then nconfsigs q else nskipconfsigs q))"
proof -
  define p1 where "p1 = (if nwitnesses p \<le> 0 then p\<lparr>nwitnesses := 1\<rparr> else p)"
  define p2 where "p2 = (if unat (maxmal p1) \<ge> (unat (nwitnesses p1) + 1) div 2
             then p1\<lparr>maxmal := of_nat ((unat (nwitnesses p1) - 1) div 2)\<rparr> else p1)"
  define n m where "n = unat (nwitnesses p2)" and "m = unat (maxmal p2)"
  define nc ns where "nc = (of_nat ((n - m) div 2 + m + 1) :: u16)" and "ns = (of_nat (n + m) :: u16)"
  have n1: "0 < unat (nwitnesses p1)" by (simp add: p1_def unat_gt_0)
  have nn: "nwitnesses p2 = nwitnesses p1" by (simp add: p2_def)
  have nx: "next_nwitnesses p2 = next_nwitnesses p" "next_maxmal p2 = next_maxmal p"
    "nwitnesses p2 = (if nwitnesses p = 0 then 1 else nwitnesses p)"
    by (auto simp: p2_def p1_def)
  have n: "0 < n" using n1 nn by (simp add: n_def)
  have lt: "n < 65536" unfolding n_def by (rule unat_u16_less)
  have m: "m < (n + 1) div 2"
    using n1 lt nn unfolding m_def n_def by (auto simp: p2_def)
  define q where "q = p2\<lparr>nconfsigs := cap_confsigs nc, nseqconfsigs := cap_confsigs (if m \<noteq> 0 then ns else nc),
      nskipconfsigs := cap_confsigs ns\<rparr>"
  have eq: "SetConfSigs p = Inr q"
    unfolding SetConfSigs_def Let_def p1_def [symmetric] p2_def [symmetric] n_def [symmetric] m_def [symmetric]
      nc_def [symmetric] ns_def [symmetric] q_def
    using n m by simp
  have caps: "unat (nconfsigs q) = (n - m) div 2 + m + 1 \<and> unat (nskipconfsigs q) = n + m \<and>
      nseqconfsigs q = (if maxmal q = 0 then nconfsigs q else nskipconfsigs q)"
    if "n \<le> MAX_NWITNESSES"
  proof -
    have "n + m \<le> 31" "(n - m) div 2 + m + 1 \<le> 31"
      using that m by (auto simp: MAX_NWITNESSES_def)
    then have u: "unat ns = n + m" "unat nc = (n - m) div 2 + m + 1" "unat ns \<le> 31" "unat nc \<le> 31"
      unfolding nc_def ns_def unat_of_nat_16 by simp_all
    have c: "cap_confsigs nc = nc" "cap_confsigs ns = ns"
      using u(3,4) by (simp_all add: cap_confsigs_def MAX_NCONFSIGS_def MAX_NWITNESSES_def)
    have "m = 0 \<longleftrightarrow> maxmal p2 = 0" by (simp add: m_def unat_eq_zero)
    then show ?thesis by (simp add: q_def c u)
  qed
  have "nwitnesses q = nwitnesses p2" "maxmal q = maxmal p2"
    "next_nwitnesses q = next_nwitnesses p2" "next_maxmal q = next_maxmal p2"
    by (simp_all add: q_def)
  then show ?thesis
    using eq n m caps nx unfolding n_def m_def by (intro exI [of _ q]) simp
qed

lemma overlap_card:
  fixes n m :: nat
  assumes "A \<subseteq> {..<n}" "B \<subseteq> {..<n}" "m < (n + 1) div 2"
    and "(n - m) div 2 + m + 1 \<le> card A" "(n - m) div 2 + m + 1 \<le> card B"
  shows "m < card (A \<inter> B)"
proof -
  have fin: "finite A" "finite B" using assms(1,2) finite_subset by auto
  have "card (A \<union> B) \<le> n" using assms(1,2) card_mono [of "{..<n}" "A \<union> B"] by simp
  moreover have "card A + card B = card (A \<union> B) + card (A \<inter> B)" using fin by (rule card_Un_Int)
  ultimately show ?thesis using assms(3-5) by linarith
qed

text \<open>
  C26. Whatever parameters a block inherits, the signature counts are computed without a failed
  assertion and make quorums overlap: there is at least one witness, less than half of them may be
  malicious, and any two sets of \<open>nconfsigs\<close> witnesses share more members than \<open>maxmal\<close>, so at least
  one member that is not malicious. The counts are not reduced by their cap when there are at most
  \<open>MAX_NWITNESSES\<close> witnesses.
\<close>

theorem SetConfSigs_quorum:
  "\<exists>q. SetConfSigs p = Inr q \<and> 0 < nwitnesses q \<and> 2 * unat (maxmal q) < unat (nwitnesses q) \<and>
    (unat (nwitnesses q) \<le> MAX_NWITNESSES \<longrightarrow>
      (\<forall>A B. A \<subseteq> {..<unat (nwitnesses q)} \<longrightarrow> B \<subseteq> {..<unat (nwitnesses q)} \<longrightarrow>
        unat (nconfsigs q) \<le> card A \<longrightarrow> unat (nconfsigs q) \<le> card B \<longrightarrow> unat (maxmal q) < card (A \<inter> B)) \<and>
      unat (nskipconfsigs q) = unat (nwitnesses q) + unat (maxmal q) \<and> nconfsigs q \<le> nseqconfsigs q)"
proof -
  obtain q where q: "SetConfSigs p = Inr q" "0 < unat (nwitnesses q)" "unat (maxmal q) < (unat (nwitnesses q) + 1) div 2"
    and caps: "unat (nwitnesses q) \<le> MAX_NWITNESSES \<Longrightarrow>
        unat (nconfsigs q) = (unat (nwitnesses q) - unat (maxmal q)) div 2 + unat (maxmal q) + 1 \<and>
        unat (nskipconfsigs q) = unat (nwitnesses q) + unat (maxmal q) \<and>
        nseqconfsigs q = (if maxmal q = 0 then nconfsigs q else nskipconfsigs q)"
    using SetConfSigs_spec [of p] by blast
  have "nconfsigs q \<le> nseqconfsigs q" if "unat (nwitnesses q) \<le> MAX_NWITNESSES"
  proof (cases "maxmal q = 0")
    case True
    then show ?thesis using caps [OF that] by simp
  next
    case False
    then have "0 < unat (maxmal q)" by (simp add: unat_gt_0)
    then have "unat (nconfsigs q) \<le> unat (nskipconfsigs q)"
      using caps [OF that] q(2,3) by linarith
    then show ?thesis using caps [OF that] False by (simp add: word_le_nat_alt)
  qed
  moreover have "unat (maxmal q) < card (A \<inter> B)"
    if "unat (nwitnesses q) \<le> MAX_NWITNESSES" "A \<subseteq> {..<unat (nwitnesses q)}" "B \<subseteq> {..<unat (nwitnesses q)}"
      "unat (nconfsigs q) \<le> card A" "unat (nconfsigs q) \<le> card B" for A B
    using overlap_card [of A "unat (nwitnesses q)" B "unat (maxmal q)"] caps that q(3) by simp
  moreover have "2 * unat (maxmal q) < unat (nwitnesses q)" using q(3) by linarith
  moreover have "0 < nwitnesses q" using q(2) by (simp add: word_less_nat_alt)
  ultimately show ?thesis using q(1) caps by blast
qed

definition no_params :: chain_params where
  "no_params = \<lparr>nwitnesses = 0, maxmal = 0, nconfsigs = 0, nseqconfsigs = 0, nskipconfsigs = 0,
     next_nwitnesses = 0, next_maxmal = 0, signing_keys = []\<rparr>"

theorem SetConfSigs_quorum_witness:
  "unat (7 :: u16) \<le> MAX_NWITNESSES \<and> {0, 1, 2, 3, 4} \<subseteq> {..<unat (7 :: u16)} \<and>
   {2, 3, 4, 5, 6} \<subseteq> {..<unat (7 :: u16)} \<and>
   (\<exists>q. SetConfSigs (no_params\<lparr>nwitnesses := 7, maxmal := 2\<rparr>) = Inr q \<and> unat (nconfsigs q) = 5 \<and>
     unat (maxmal q) < card ({0, 1, 2, 3, 4 :: nat} \<inter> {2, 3, 4, 5, 6}))"
proof -
  have eq: "SetConfSigs (no_params\<lparr>nwitnesses := 7, maxmal := 2\<rparr>) = Inr (no_params\<lparr>nwitnesses := 7, maxmal := 2,
      nconfsigs := 5, nseqconfsigs := 9, nskipconfsigs := 9\<rparr>)"
    by (simp add: SetConfSigs_def Let_def no_params_def cap_confsigs_def MAX_NCONFSIGS_def MAX_NWITNESSES_def)
  have "{0, 1, 2, 3, 4} \<subseteq> {..<unat (7 :: u16)}" "{2, 3, 4, 5, 6} \<subseteq> {..<unat (7 :: u16)}" by auto
  moreover have "card {0, 1, 2, 3, 4 :: nat} = 5" "card {2, 3, 4, 5, 6 :: nat} = 5" by simp_all
  ultimately show ?thesis
    using SetConfSigs_quorum [of "no_params\<lparr>nwitnesses := 7, maxmal := 2\<rparr>"] unfolding eq
    by (simp add: no_params_def MAX_NWITNESSES_def)
qed

section \<open>The ring of witnesses\<close>

lemma ComputeSkip_value:
  assumes "0 < n" "unat n < 2 ^ 31" "unat nxt < 2 ^ 31" "unat prev < 2 ^ 31"
  shows "\<exists>sk. ComputeSkip prev nxt n = Inr sk \<and> unat sk < unat n \<and>
    (unat prev + 1 + unat sk) mod unat n = unat nxt mod unat n"
proof -
  let ?n = "unat n" and ?p = "(unat prev + 1) mod unat n"
  let ?sk = "(nxt - ((prev + 1) mod n) + n) mod n"
  have n0: "n \<noteq> 0" "0 < ?n" using assms(1) by (auto simp: unat_gt_0)
  have p: "?p < ?n" using n0 by simp
  have up: "unat (prev + 1) = unat prev + 1"
    using assms(4) by (simp add: unat_word_ariths(1))
  have "nxt - ((prev + 1) mod n) + n = of_nat (unat nxt + ?n - ?p)"
  proof -
    have "unat ((prev + 1) mod n) = ?p" by (simp add: unat_mod up)
    then have "(prev + 1) mod n = of_nat ?p" by (metis of_nat_unat ucast_id)
    then show ?thesis using p by (simp add: of_nat_diff algebra_simps)
  qed
  then have "unat (nxt - ((prev + 1) mod n) + n) = (unat nxt + ?n - ?p) mod 2 ^ 32"
    by (simp only: unat_of_nat) simp
  also have "\<dots> = unat nxt + ?n - ?p"
    using assms by (intro mod_less) (simp add: less_imp_diff_less)
  finally have "unat (nxt - ((prev + 1) mod n) + n) = unat nxt + ?n - ?p" .
  then have sk: "unat ?sk = (unat nxt + ?n - ?p) mod ?n" by (simp add: unat_mod)
  have "(unat prev + 1 + unat ?sk) mod ?n = (?p + (unat nxt + ?n - ?p)) mod ?n"
    unfolding sk by (metis mod_add_eq mod_mod_trivial)
  also have "?p + (unat nxt + ?n - ?p) = unat nxt + ?n" using p by simp
  finally show ?thesis using n0 sk by (simp add: ComputeSkip_def)
qed

text \<open>
  \<open>linked_path h n b ps\<close>: the prior blocks of \<open>b\<close> are \<open>ps\<close>, nearest first, and every block of the
  path carries the skip from its prior block's witness to its own on a ring of \<open>n\<close> witnesses.
\<close>

definition signer :: "heap \<Rightarrow> addr \<Rightarrow> nat" where
  "signer h b = unat (witness (h b))"

fun linked_path :: "heap \<Rightarrow> nat \<Rightarrow> addr \<Rightarrow> addr list \<Rightarrow> bool" where
  "linked_path h n b [] = True"
| "linked_path h n b (p # ps) =
     (prior (h b) = Some p \<and> (signer h p + 1 + unat (skip (h b))) mod n = signer h b \<and> linked_path h n p ps)"

definition ring_dist :: "heap \<Rightarrow> addr list \<Rightarrow> nat" where
  "ring_dist h bs = sum_list (map (\<lambda>b. unat (skip (h b)) + 1) bs)"

lemma ring_dist_simps [simp]: "ring_dist h [] = 0" "ring_dist h (b # bs) = unat (skip (h b)) + 1 + ring_dist h bs"
  by (simp_all add: ring_dist_def)

lemma ring_dist_take_le: "ring_dist h (take k bs) \<le> ring_dist h bs"
  unfolding ring_dist_def by (metis sum_list_take_le take_map)

lemma ring_dist_eq: "ring_dist h bs = sum_list (map (\<lambda>b. unat (skip (h b))) bs) + length bs"
  by (induction bs) auto

lemma linked_path_position:
  assumes "linked_path h n b ps" "i < length ps"
  shows "(signer h (ps ! i) + ring_dist h (take (Suc i) (b # ps))) mod n = signer h b mod n"
  using assms
proof (induction ps arbitrary: b i)
  case Nil
  then show ?case by simp
next
  case (Cons p ps)
  have b: "(signer h p + (1 + unat (skip (h b)))) mod n = signer h b mod n"
    using Cons.prems(1) by (metis add.assoc linked_path.simps(2) mod_mod_trivial)
  show ?case
  proof (cases i)
    case 0
    then show ?thesis using b by (simp add: add_ac)
  next
    case (Suc j)
    let ?d = "ring_dist h (take (Suc j) (p # ps))"
    have "(signer h (ps ! j) + ?d) mod n = signer h p mod n"
      using Cons.IH [of p j] Cons.prems Suc by simp
    then have "(signer h (ps ! j) + ?d + (1 + unat (skip (h b)))) mod n = (signer h p + (1 + unat (skip (h b)))) mod n"
      by (metis mod_add_left_eq)
    then show ?thesis using Suc b by (simp add: add_ac)
  qed
qed

lemma linked_path_distinct:
  assumes "linked_path h n b ps" "ring_dist h (take (length ps) (b # ps)) < n"
  shows "distinct (map (signer h) (b # ps))"
  using assms
proof (induction ps arbitrary: b)
  case Nil
  then show ?case by simp
next
  case (Cons p ps)
  have "signer h b \<noteq> signer h ((p # ps) ! i)" if i: "i < length (p # ps)" for i
  proof
    let ?d = "ring_dist h (take (Suc i) (b # p # ps))"
    assume "signer h b = signer h ((p # ps) ! i)"
    then have "(signer h b + ?d) mod n = (signer h b + 0) mod n"
      using linked_path_position [OF Cons.prems(1) i] by simp
    then have "?d mod n = 0 mod n" by (simp only: mod_add_left_cancel_nat)
    moreover have "?d \<le> ring_dist h (take (length (p # ps)) (b # p # ps))"
      using i ring_dist_take_le [of h "Suc i" "take (length (p # ps)) (b # p # ps)"]
      by (simp add: min_def split: if_splits)
    ultimately show False using Cons.prems(2) by simp
  qed
  then have "signer h b \<notin> set (map (signer h) (p # ps))"
    by (metis in_set_conv_nth length_map nth_map)
  moreover have "distinct (map (signer h) (p # ps))"
    using Cons.prems by (intro Cons.IH) auto
  ultimately show ?case by simp
qed

section \<open>The ordering rule\<close>

lemma sum_skips_bound: "sum_list (map (\<lambda>b. unat (skip (h b))) bs) \<le> 65535 * length bs"
proof (induction bs)
  case Nil
  then show ?case by simp
next
  case (Cons b bs)
  then show ?case using unat_u16_less [of "skip (h b)"] by simp
qed

lemma check_sigs_loop_sum:
  assumes "check_sigs_loop h nconf nsigs s b = Scanned t" "linked_path h n b ps"
    and "unat nsigs + length ps + 1 = unat nconf"
    and "unat s + sum_list (map (\<lambda>b. unat (skip (h b))) (b # ps)) < 2 ^ 32"
  shows "unat t = unat s + sum_list (map (\<lambda>b. unat (skip (h b))) (b # ps))"
  using assms
proof (induction ps arbitrary: nsigs s b)
  case Nil
  then have lt: "nsigs < nconf" by (simp add: word_less_nat_alt)
  then have "unat (nsigs + 1) = unat nconf" using Nil unat_succ_less [OF lt] by simp
  then have "nsigs + 1 = nconf" by (simp add: word_unat_eq_iff)
  then have "t = s + ucast (skip (h b))"
    using Nil.prems(1) lt
    by (auto simp: check_sigs_loop.simps [of h nconf nsigs] check_sigs_loop.simps [of h nconf nconf] Let_def
        split: option.splits if_splits)
  then show ?case using Nil.prems(4) by (simp add: unat_word_ariths(1) unsigned_ucast_eq take_bit_nat_eq_self
        less_trans [OF unat_u16_less])
next
  case (Cons p ps)
  then have lt: "nsigs < nconf" by (simp add: word_less_nat_alt)
  let ?s = "s + ucast (skip (h b))"
  have us: "unat ?s = unat s + unat (skip (h b))"
    using Cons.prems(4) by (simp add: unat_word_ariths(1) unsigned_ucast_eq take_bit_nat_eq_self
        less_trans [OF unat_u16_less])
  have "check_sigs_loop h nconf (nsigs + 1) ?s p = Scanned t"
    using Cons.prems(1,2) lt
    by (auto simp: check_sigs_loop.simps [of h nconf nsigs] Let_def split: if_splits)
  then have "unat t = unat ?s + sum_list (map (\<lambda>b. unat (skip (h b))) (p # ps))"
    using Cons.prems us unat_succ_less [OF lt] by (intro Cons.IH) auto
  then show ?case using us by simp
qed

text \<open>The signers of the \<open>nconfsigs\<close> blocks that the rule looks at: \<open>b\<close> and the prior blocks \<open>ps\<close>.\<close>

lemma accepted_distinct:
  assumes ok: "CheckBadSigOrder h b (-1) = Inr (False, fe)"
    and path: "linked_path h (unat (nwitnesses (blockchain_params (h b)))) b ps"
    and len: "length ps + 1 = unat (nconfsigs (blockchain_params (h b)))"
  shows "distinct (map (signer h) (b # ps))"
proof -
  let ?p = "blockchain_params (h b)"
  let ?n = "ucast (nwitnesses ?p) :: u32" and ?c = "ucast (nconfsigs ?p) :: u32"
  let ?S = "sum_list (map (\<lambda>b. unat (skip (h b))) (b # ps))"
  have uc: "unat ?c = unat (nconfsigs ?p)" and un: "unat ?n = unat (nwitnesses ?p)"
    by (simp_all add: unsigned_ucast_eq take_bit_nat_eq_self less_trans [OF unat_u16_less])
  have "length (b # ps) \<le> 65535" using len unat_u16_less [of "nconfsigs ?p"] by simp
  then have "?S \<le> 65535 * 65535"
    using sum_skips_bound [of h "b # ps"] by (meson le_trans mult_le_mono2)
  then have S: "?S < 2 ^ 32 - 65536" by simp
  obtain t where t: "check_sigs_loop h ?c 0 0 b = Scanned t" "t + ?c \<le> ?n"
    using ok by (auto simp: CheckBadSigOrder_def Let_def split: sig_scan.splits)
  have ut: "unat t = ?S"
    using check_sigs_loop_sum [OF t(1) path] len uc S by simp
  have "unat (t + ?c) = ?S + unat ?c"
    using ut S uc unat_u16_less [of "nconfsigs ?p"] by (simp add: unat_word_ariths(1))
  then have "?S + unat ?c \<le> unat ?n" using t(2) by (simp add: word_le_nat_alt)
  then have "ring_dist h (b # ps) \<le> unat (nwitnesses ?p)"
    using uc un len by (simp add: ring_dist_eq)
  moreover have "ring_dist h (take (length ps) (b # ps)) < ring_dist h (b # ps)"
  proof -
    have "b # ps = take (length ps) (b # ps) @ [last (b # ps)]"
      using append_butlast_last_id [of "b # ps"] by (simp only: butlast_conv_take) simp
    then have "ring_dist h (b # ps) = ring_dist h (take (length ps) (b # ps) @ [last (b # ps)])"
      by (rule arg_cong)
    then show ?thesis by (simp only: ring_dist_def map_append sum_list_append) simp
  qed
  ultimately show ?thesis by (intro linked_path_distinct [OF path]) simp
qed

lemma ucast_8_32 [simp]: "unat (ucast (w :: u8) :: u32) = unat w"
  using unat_byte_less [of w] by (simp add: unsigned_ucast_eq take_bit_nat_eq_self)

lemma ucast_16_32 [simp]: "unat (ucast (w :: u16) :: u32) = unat w"
  by (simp add: unsigned_ucast_eq take_bit_nat_eq_self less_trans [OF unat_u16_less])

text \<open>
  Chaining a block to its prior block never fails an assertion for a witness number below
  \<open>MAX_NWITNESSES\<close>: it changes no other block, takes over the witness counts that the prior block
  announced, recomputes the signature counts and stores the skip that leads, on the ring of the
  witnesses, from the prior block's witness to its own.
\<close>

lemma ChainToPriorBlock_links:
  assumes "unat (witness (h b)) < MAX_NWITNESSES"
  shows "\<exists>h'. ChainToPriorBlock g h b p = Inr h' \<and> (\<forall>x. x \<noteq> b \<longrightarrow> h' x = h x) \<and>
    prior (h' b) = Some p \<and> level (h' b) = level (h b) \<and> witness (h' b) = witness (h b) \<and>
    (let q = blockchain_params (h' b); n = unat (nwitnesses q) in
      SetConfSigs ((blockchain_params (h p))\<lparr>nwitnesses := next_nwitnesses (blockchain_params (h p)),
                                             maxmal := next_maxmal (blockchain_params (h p))\<rparr>) = Inr q \<and>
      0 < n \<and> unat (skip (h' b)) < n \<and> (signer h p + 1 + unat (skip (h' b))) mod n = signer h b mod n)"
proof -
  let ?h = "SetPriorBlock h b p"
  let ?p = "(blockchain_params (h p))\<lparr>nwitnesses := next_nwitnesses (blockchain_params (h p)),
                                             maxmal := next_maxmal (blockchain_params (h p))\<rparr>"
  have same: "blockchain_params (?h x) = blockchain_params (h x)" "witness (?h x) = witness (h x)"
    "level (?h x) = level (h x)" for x
    by (simp_all add: SetPriorBlock_def)
  obtain q where q: "SetConfSigs ?p = Inr q" "0 < unat (nwitnesses q)" using SetConfSigs_spec [of ?p] by blast
  have n0: "nwitnesses q \<noteq> 0" "0 < (ucast (nwitnesses q) :: u32)" using q(2) by (auto simp: word_less_nat_alt)
  have w: "unat (x :: u8) < 2 ^ 31" for x using unat_byte_less [of x] by simp
  have nn: "unat (nwitnesses q) < 2 ^ 31" using unat_u16_less [of "nwitnesses q"] by simp
  obtain sk where sk: "ComputeSkip (ucast (witness (h p))) (ucast (witness (h b))) (ucast (nwitnesses q)) = Inr sk"
    "unat sk < unat (nwitnesses q)" "(signer h p + 1 + unat sk) mod unat (nwitnesses q) = signer h b mod unat (nwitnesses q)"
    using ComputeSkip_value [OF n0(2), of "ucast (witness (h b))" "ucast (witness (h p))"] w nn
    by (auto simp: signer_def)
  have us: "unat (ucast sk :: u16) = unat sk"
    using sk(2) unat_u16_less [of "nwitnesses q"] by (simp add: unsigned_ucast_eq take_bit_nat_eq_self)
  let ?b = "(?h b)\<lparr>blockchain_params := q, next_signing_private_key := next_signing_private_key (?h p), skip := ucast sk\<rparr>"
  have "ChainToPriorBlock g h b p = Inr (?h(b := ?b))"
    using assms q(1) sk(1,2) n0(1)
    by (simp add: ChainToPriorBlock_def Let_def same Implement_CCMint_def word_less_nat_alt us)
  moreover have "prior (?h b) = Some p" "x \<noteq> b \<Longrightarrow> ?h x = h x" for x
    by (simp_all add: SetPriorBlock_def)
  ultimately show ?thesis using q sk us by (simp add: Let_def same)
qed

text \<open>
  C1. Two blocks accepted by the ordering rule on chains with the same witness parameters, conflicting
  or not, were confirmed by overlapping sets of witnesses: the signers of the last \<open>nconfsigs\<close>
  blocks of each chain are pairwise distinct, and more than \<open>maxmal\<close> witnesses signed in both.
\<close>

theorem accepted_blocks_share_witness:
  assumes params: "SetConfSigs p0 = Inr p" "unat (nwitnesses p) \<le> MAX_NWITNESSES"
    and same: "\<forall>b\<in>{b1, b2}. nwitnesses (blockchain_params (h b)) = nwitnesses p \<and>
      nconfsigs (blockchain_params (h b)) = nconfsigs p"
    and ok: "CheckBadSigOrder h b1 (-1) = Inr (False, f1)" "CheckBadSigOrder h b2 (-1) = Inr (False, f2)"
    and path: "linked_path h (unat (nwitnesses p)) b1 ps1" "linked_path h (unat (nwitnesses p)) b2 ps2"
    and len: "length ps1 + 1 = unat (nconfsigs p)" "length ps2 + 1 = unat (nconfsigs p)"
    and range: "\<forall>b\<in>set (b1 # ps1) \<union> set (b2 # ps2). signer h b < unat (nwitnesses p)"
  shows "unat (maxmal p) < card (signer h ` set (b1 # ps1) \<inter> signer h ` set (b2 # ps2)) \<and>
    distinct (map (signer h) (b1 # ps1)) \<and> distinct (map (signer h) (b2 # ps2))"
proof -
  have d: "distinct (map (signer h) (b1 # ps1))" "distinct (map (signer h) (b2 # ps2))"
    using accepted_distinct [OF ok(1), of ps1] accepted_distinct [OF ok(2), of ps2] same path len by auto
  then have card: "card (signer h ` set (b1 # ps1)) = unat (nconfsigs p)"
    "card (signer h ` set (b2 # ps2)) = unat (nconfsigs p)"
    using len by (metis Suc_eq_plus1 distinct_card length_Cons length_map list.set_map)+
  obtain q where "SetConfSigs p0 = Inr q" "unat (maxmal q) < (unat (nwitnesses q) + 1) div 2"
    "unat (nwitnesses q) \<le> MAX_NWITNESSES \<longrightarrow>
        unat (nconfsigs q) = (unat (nwitnesses q) - unat (maxmal q)) div 2 + unat (maxmal q) + 1"
    using SetConfSigs_spec [of p0] by blast
  then have "unat (maxmal p) < card (signer h ` set (b1 # ps1) \<inter> signer h ` set (b2 # ps2))"
    using params range card by (intro overlap_card [of _ "unat (nwitnesses p)"]) auto
  then show ?thesis using d by blast
qed

section \<open>Sample blocks\<close>

definition sample_params :: chain_params where
  "sample_params = \<lparr>nwitnesses = 3, maxmal = 0, nconfsigs = 2, nseqconfsigs = 2, nskipconfsigs = 3,
     next_nwitnesses = 3, next_maxmal = 0, signing_keys = []\<rparr>"

definition sample_block :: "u32 \<Rightarrow> u8 \<Rightarrow> u16 \<Rightarrow> addr option \<Rightarrow> block" where
  "sample_block lev w sk pr = \<lparr>prior_oid = [], level = lev, timestamp = lev, witness = w, txdata = [], oid = [], block_hash = [0, 0, 0, 0], skip = sk,
     marked_for_indelible = False, announce_ticks = 0, blockchain_params = sample_params,
     total_donations = [0, 0, 0, 0], score = 0, score_bits = 0, score_genstamp = 0,
     next_signing_private_key = [], prior = pr\<rparr>"

text \<open>A genesis block 0, block 1 on it, and two competing blocks 2 and 3 on block 1.\<close>

definition sample_heap :: heap where
  "sample_heap a =
     (if a = 0 then (sample_block 0 0 0 None)\<lparr>marked_for_indelible := True\<rparr>
      else if a = 1 then sample_block 1 1 0 (Some 0)
      else if a = 2 then sample_block 2 2 0 (Some 1)
      else sample_block 2 0 1 (Some 1))"

definition sample_mint :: mint_params where
  "sample_mint = \<lparr>blockchain_id = 1, genesis_nwitnesses = 3, genesis_maxmal = 0\<rparr>"

lemma ChainToPriorBlock_links_witness:
  "unat (witness (sample_heap 3)) < MAX_NWITNESSES \<and>
   (\<exists>h'. ChainToPriorBlock sample_mint sample_heap 3 2 = Inr h' \<and> prior (h' 3) = Some 2)"
  using ChainToPriorBlock_links [of sample_heap 3 sample_mint 2]
  by (auto simp: sample_heap_def sample_block_def MAX_NWITNESSES_def)

lemma sample_order:
  "CheckBadSigOrder sample_heap 2 (-1) = Inr (False, False)" "CheckBadSigOrder sample_heap 3 (-1) = Inr (False, False)"
  by (simp_all add: CheckBadSigOrder_def check_sigs_loop.simps sample_heap_def sample_block_def sample_params_def
      level_value_def Let_def)

theorem accepted_blocks_share_witness_witness:
  "unat (maxmal sample_params) < card (signer sample_heap ` set [2, 1] \<inter> signer sample_heap ` set [3, 1]) \<and>
   distinct (map (signer sample_heap) [2, 1]) \<and> distinct (map (signer sample_heap) [3, 1])"
proof -
  have "SetConfSigs sample_params = Inr sample_params"
    by (simp add: SetConfSigs_def sample_params_def Let_def cap_confsigs_def MAX_NCONFSIGS_def MAX_NWITNESSES_def)
  then show ?thesis
    using sample_order
    by (intro accepted_blocks_share_witness)
      (auto simp: sample_heap_def sample_block_def sample_params_def signer_def MAX_NWITNESSES_def)
qed

end
