(* ===== verification/Skip_Score.thy ===== *)
theory Skip_Score
  imports Consensus
begin

text \<open>
  The score of a chain (\<open>CalcSkipScore\<close>, block.cpp) as a value: the skips of the chain, oldest first,
  written in unary and aligned to the top of a 64-bit word. Comparing scores is comparing the lists
  of skips: at the first difference the smaller skip wins, and a longer chain beats its prefixes.
\<close>

section \<open>Scores of skip lists\<close>

fun skip_bits :: "nat list \<Rightarrow> nat" where
  "skip_bits [] = 0"
| "skip_bits (k # ks) = k + 1 + skip_bits ks"

fun skip_code :: "nat list \<Rightarrow> nat" where
  "skip_code [] = 0"
| "skip_code (k # ks) = 2 ^ skip_bits ks + skip_code ks"

fun beats :: "nat list \<Rightarrow> nat list \<Rightarrow> bool" where
  "beats xs [] = False"
| "beats [] (y # ys) = True"
| "beats (x # xs) (y # ys) = (y < x \<or> x = y \<and> beats xs ys)"

definition aligned_code :: "nat \<Rightarrow> nat list \<Rightarrow> nat" where
  "aligned_code B ks = skip_code ks * 2 ^ (B - skip_bits ks)"

lemma skip_bits_append [simp]: "skip_bits (xs @ ys) = skip_bits xs + skip_bits ys"
  by (induction xs) auto

lemma skip_code_snoc: "skip_code (ks @ [k]) = skip_code ks * 2 ^ (k + 1) + 1"
  by (induction ks) (auto simp: power_add algebra_simps)

lemma skip_code_less: "skip_code ks < 2 ^ skip_bits ks"
proof (induction ks)
  case Nil
  then show ?case by simp
next
  case (Cons k ks)
  have "skip_code (k # ks) < 2 ^ (1 + skip_bits ks)" using Cons by simp
  also have "(2 :: nat) ^ (1 + skip_bits ks) \<le> 2 ^ skip_bits (k # ks)"
    by (rule power_increasing) auto
  finally show ?case .
qed

lemma aligned_code_Cons:
  assumes "skip_bits (k # ks) \<le> B"
  shows "aligned_code B (k # ks) = 2 ^ (B - (k + 1)) + aligned_code (B - (k + 1)) ks"
proof -
  have e: "B - (k + 1) = skip_bits ks + (B - skip_bits (k # ks))" using assms by simp
  have "(2 :: nat) ^ (B - (k + 1)) = 2 ^ skip_bits ks * 2 ^ (B - skip_bits (k # ks))"
    unfolding e power_add by simp
  then show ?thesis
    using assms by (simp add: aligned_code_def algebra_simps)
qed

lemma aligned_code_less:
  assumes "skip_bits ks \<le> B" shows "aligned_code B ks < 2 ^ B"
proof -
  have "skip_code ks * 2 ^ (B - skip_bits ks) < 2 ^ skip_bits ks * 2 ^ (B - skip_bits ks)"
    using skip_code_less by simp
  also have "\<dots> = 2 ^ B" using assms by (simp flip: power_add)
  finally show ?thesis by (simp add: aligned_code_def)
qed

lemma aligned_code_smaller_skip:
  assumes "skip_bits (x # xs) \<le> B" "skip_bits (y # ys) \<le> B" "y < x"
  shows "aligned_code B (x # xs) < aligned_code B (y # ys)"
proof -
  have "aligned_code (B - (x + 1)) xs < 2 ^ (B - (x + 1))"
    using assms(1) by (intro aligned_code_less) simp
  then have "aligned_code B (x # xs) < 2 ^ (1 + (B - (x + 1)))"
    by (simp only: aligned_code_Cons [OF assms(1)] power_add) simp
  also have "(2 :: nat) ^ (1 + (B - (x + 1))) \<le> 2 ^ (B - (y + 1))"
    using assms by (intro power_increasing) auto
  also have "\<dots> \<le> aligned_code B (y # ys)"
    by (simp add: aligned_code_Cons [OF assms(2)])
  finally show ?thesis .
qed

lemma aligned_code_less_iff:
  assumes "skip_bits xs \<le> B" "skip_bits ys \<le> B"
  shows "aligned_code B xs < aligned_code B ys \<longleftrightarrow> beats xs ys"
  using assms
proof (induction xs ys arbitrary: B rule: beats.induct)
  case (1 xs)
  then show ?case by (simp add: aligned_code_def)
next
  case (2 y ys)
  then show ?case using aligned_code_Cons [OF 2(2)] by (simp add: aligned_code_def [of _ "[]"])
next
  case (3 x xs y ys)
  consider "x < y" | "y < x" | "x = y" by linarith
  then show ?case
  proof cases
    case 1
    then show ?thesis using aligned_code_smaller_skip [OF 3(3,2) 1] by simp
  next
    case 2
    then show ?thesis using aligned_code_smaller_skip [OF 3(2,3) 2] by simp
  next
    case eq: 3
    then have "aligned_code B (x # xs) < aligned_code B (y # ys) \<longleftrightarrow>
        aligned_code (B - (x + 1)) xs < aligned_code (B - (x + 1)) ys"
      using 3(2,3) by (simp add: aligned_code_Cons)
    also have "\<dots> \<longleftrightarrow> beats xs ys" using eq 3 by (intro 3(1)) auto
    finally show ?thesis using eq by simp
  qed
qed

section \<open>The score of a block\<close>

text \<open>
  \<open>chain_down h b ps lst\<close>: the prior blocks of \<open>b\<close> down to \<open>lst\<close> are \<open>ps\<close>, nearest first, and \<open>lst\<close>
  is met there for the first time and has the lowest level.
\<close>

fun chain_down :: "heap \<Rightarrow> addr \<Rightarrow> addr list \<Rightarrow> addr \<Rightarrow> bool" where
  "chain_down h b [] lst = (b = lst)"
| "chain_down h b (p # ps) lst =
     (b \<noteq> lst \<and> level_value (h lst) < level_value (h b) \<and> prior (h b) = Some p \<and> chain_down h p ps lst)"

definition chain_skips :: "heap \<Rightarrow> addr \<Rightarrow> addr list \<Rightarrow> nat list" where
  "chain_skips h b ps = rev (map (\<lambda>a. unat (skip (h a))) (butlast (b # ps)))"

lemma chain_skips_Cons: "chain_skips h b (p # ps) = chain_skips h p ps @ [unat (skip (h b))]"
  by (simp add: chain_skips_def)

lemma or_shifted:
  "(or (push_bit (Suc k) (of_nat x :: u64)) 1) = of_nat (x * 2 ^ Suc k + 1)"
  by (simp add: or_one_eq push_bit_eq_mult)

lemma shl_64_lt: "n < 64 \<Longrightarrow> shl_64 x n = Inr (push_bit n x)"
  by (simp add: shl_64_def)

lemma CalcSkipScore_plain:
  assumes "CalcSkipScoreRecursive fuel h lst g False b = Inr (h', sc, bits)" "unat bits \<le> 64"
  shows "CalcSkipScore fuel h b (-1) (Some lst) g False =
    (if unat bits < 64 then bind_outcome (shl_64 sc (64 - unat bits)) (\<lambda>sc. Inr (h', sc)) else Inr (h', sc))"
  using assms by (simp add: CalcSkipScore_def MAX_SCORE_BITS_def Let_def)

lemma CalcSkipScoreRecursive_chain:
  assumes "chain_down h b ps lst" "length ps < fuel" "skip_bits (chain_skips h b ps) < 64"
  shows "CalcSkipScoreRecursive fuel h lst 0 False b =
    Inr (h, of_nat (2 ^ skip_bits (chain_skips h b ps) + skip_code (chain_skips h b ps)),
         of_nat (1 + skip_bits (chain_skips h b ps)))"
  using assms
proof (induction ps arbitrary: b fuel)
  case Nil
  then obtain f where "fuel = Suc f" by (cases fuel) auto
  with Nil show ?case by (simp add: chain_skips_def)
next
  case (Cons p ps)
  let ?k = "unat (skip (h b))" and ?ks = "chain_skips h p ps"
  let ?s = "2 ^ skip_bits ?ks + skip_code ?ks"
  obtain f where f: "fuel = Suc f" using Cons.prems(2) by (cases fuel) auto
  have bits: "skip_bits ?ks + ?k + 1 < 64" using Cons.prems(3) by (simp add: chain_skips_Cons)
  have rec: "CalcSkipScoreRecursive f h lst 0 False p = Inr (h, of_nat ?s, of_nat (1 + skip_bits ?ks))"
    using Cons.prems f by (intro Cons.IH) (auto simp: chain_skips_Cons)
  have lt: "?s < 2 ^ 64"
  proof -
    have "?s < 2 ^ (1 + skip_bits ?ks)" using skip_code_less [of ?ks] by simp
    also have "(2 :: nat) ^ (1 + skip_bits ?ks) \<le> 2 ^ 64" using bits by (intro power_increasing) auto
    finally show ?thesis .
  qed
  have nz: "(of_nat ?s :: u64) \<noteq> 0"
  proof
    assume "(of_nat ?s :: u64) = 0"
    then have "unat (of_nat ?s :: u64) = 0" by (simp only: unat_0)
    then show False using lt by (simp only: unat_of_nat) simp
  qed
  have score: "(or (push_bit (Suc ?k) (of_nat ?s :: u64)) 1) =
      of_nat (2 ^ skip_bits (?ks @ [?k]) + skip_code (?ks @ [?k]))"
    unfolding or_shifted skip_code_snoc by (simp add: power_add algebra_simps)
  have b32: "of_nat (1 + skip_bits ?ks) + ucast (skip (h b)) + 1 = (of_nat (1 + skip_bits (?ks @ [?k])) :: u32)"
    by (simp add: of_nat_unat)
  have "CalcSkipScoreRecursive fuel h lst 0 False b =
      bind_outcome (shl_64 (of_nat ?s) (?k + 1)) (\<lambda>sc. Inr (h, or sc 1, of_nat (1 + skip_bits (?ks @ [?k]))))"
    using Cons.prems(1) nz unfolding f
    by (simp only: CalcSkipScoreRecursive.simps chain_down.simps option.case rec bind_outcome_Inr prod.case Let_def
        b32 if_False not_False_eq_True simp_thms not_less [symmetric] if_True)
  also have "\<dots> = Inr (h, of_nat (2 ^ skip_bits (?ks @ [?k]) + skip_code (?ks @ [?k])), of_nat (1 + skip_bits (?ks @ [?k])))"
  proof -
    have "?k + 1 < 64" using bits by simp
    then show ?thesis by (simp only: shl_64_lt bind_outcome_Inr score Suc_eq_plus1 [symmetric])
  qed
  finally show ?case unfolding chain_skips_Cons .
qed

lemma CalcSkipScore_chain:
  assumes "chain_down h b ps lst" "length ps < fuel" "skip_bits (chain_skips h b ps) < 64"
  shows "CalcSkipScore fuel h b (-1) (Some lst) 0 False =
    Inr (h, of_nat (2 ^ 63 + aligned_code 63 (chain_skips h b ps)))"
proof -
  let ?ks = "chain_skips h b ps"
  let ?n = "skip_bits ?ks"
  have ub: "unat (of_nat (1 + ?n) :: u32) = 1 + ?n"
    using assms(3) unfolding unat_of_nat by simp
  have pow: "(2 :: nat) ^ ?n * 2 ^ (63 - ?n) = 2 ^ 63"
    using assms(3) by (simp flip: power_add)
  have val: "push_bit (63 - ?n) (of_nat (2 ^ ?n + skip_code ?ks) :: u64) = of_nat (2 ^ 63 + aligned_code 63 ?ks)"
  proof -
    have "push_bit (63 - ?n) (of_nat (2 ^ ?n + skip_code ?ks) :: u64) = of_nat ((2 ^ ?n + skip_code ?ks) * 2 ^ (63 - ?n))"
      by (simp add: push_bit_eq_mult)
    also have "(2 ^ ?n + skip_code ?ks) * 2 ^ (63 - ?n) = 2 ^ 63 + aligned_code 63 ?ks"
      by (simp only: add_mult_distrib pow aligned_code_def)
    finally show ?thesis .
  qed
  have "CalcSkipScore fuel h b (-1) (Some lst) 0 False =
      (if 1 + ?n < 64 then bind_outcome (shl_64 (of_nat (2 ^ ?n + skip_code ?ks)) (64 - (1 + ?n))) (\<lambda>sc. Inr (h, sc))
       else Inr (h, of_nat (2 ^ ?n + skip_code ?ks)))"
    using CalcSkipScore_plain [OF CalcSkipScoreRecursive_chain [OF assms]] assms(3) unfolding ub by simp
  also have "\<dots> = Inr (h, of_nat (2 ^ 63 + aligned_code 63 ?ks))"
  proof (cases "?n = 63")
    case True
    then have "push_bit (63 - ?n) (of_nat (2 ^ ?n + skip_code ?ks) :: u64) = of_nat (2 ^ ?n + skip_code ?ks)"
      by simp
    then show ?thesis using True val by simp
  next
    case False
    then have "shl_64 (of_nat (2 ^ ?n + skip_code ?ks)) (64 - (1 + ?n)) = Inr (of_nat (2 ^ 63 + aligned_code 63 ?ks))"
      using val shl_64_lt [of "63 - ?n"] by simp
    then show ?thesis using False assms(3) by simp
  qed
  finally show ?thesis .
qed

lemma unat_aligned_score:
  assumes "skip_bits ks < 64"
  shows "unat (of_nat (2 ^ 63 + aligned_code 63 ks) :: u64) = 2 ^ 63 + aligned_code 63 ks"
proof -
  have "aligned_code 63 ks < 2 ^ 63" using assms by (intro aligned_code_less) simp
  then have "2 ^ 63 + aligned_code 63 ks < 2 ^ 64" by simp
  then show ?thesis unfolding unat_of_nat by simp
qed



end
