(* ===== verification/Tx_Amount.thy ===== *)
theory Tx_Amount
  imports Bigint
begin

unbundle bit_operations_syntax

text \<open>
  The decimal floating-point amounts of transactions (cclib/src/transaction.cpp, functions
  \<open>tx_amount_factors_init\<close> to \<open>tx_amount_max\<close>): 40 bits for an amount and 16 bits for a donation,
  of which the low five hold a decimal exponent. An exponent above zero stands for a mantissa that
  is larger by one. The tables of powers and of largest amounts are functions of their index.
\<close>

definition TX_AMOUNT_BITS :: nat where
  "TX_AMOUNT_BITS = 40"

definition TX_AMOUNT_EXPONENT_BITS :: nat where
  "TX_AMOUNT_EXPONENT_BITS = 5"

definition TX_DONATION_BITS :: nat where
  "TX_DONATION_BITS = 16"

definition TX_AMOUNT_EXPONENT_MASK :: nat where
  "TX_AMOUNT_EXPONENT_MASK = 2 ^ TX_AMOUNT_EXPONENT_BITS - 1"

definition amount_mantissa_bits :: "bool \<Rightarrow> nat" where
  "amount_mantissa_bits is_donation =
     (if is_donation then TX_DONATION_BITS - TX_AMOUNT_EXPONENT_BITS else TX_AMOUNT_BITS - TX_AMOUNT_EXPONENT_BITS)"

fun amount_factors :: "bigops \<Rightarrow> nat \<Rightarrow> bigint" where
  "amount_factors B 0 = ofULong B 1"
| "amount_factors B (Suc i) = op_mul B (ofULong B 10) (amount_factors B i)"

definition amount_factors_limbs :: "bigops \<Rightarrow> nat \<Rightarrow> nat" where
  "amount_factors_limbs B i = 1 + length (takeWhile (\<lambda>w. w \<noteq> 0) (tl (amount_factors B i)))"

definition amount_max_up :: "bigops \<Rightarrow> bool \<Rightarrow> nat \<Rightarrow> bigint" where
  "amount_max_up B is_donation i =
     op_mul B (ofULong B (push_bit (amount_mantissa_bits is_donation) 1 - (if i = 0 then 1 else 0))) (amount_factors B i)"

definition amount_maxs :: "bigops \<Rightarrow> nat \<Rightarrow> nat \<Rightarrow> bigint" where
  "amount_maxs B round_index i =
     (if round_index = 2 then amount_max_up B True i
      else if round_index = 1 then amount_max_up B False i
      else if round_index = 0 then
        op_sub B (op_add B (amount_max_up B False i) (bigint_shift_down (amount_factors B i) 1))
          (ofULong B (if i > 0 then 1 else 0))
      else op_add B (amount_max_up B False i)
             (if i = 0 then ofULong B 0 else op_sub B (amount_factors B i) (ofULong B 1)))"

definition tx_get_amount_factor :: "bigops \<Rightarrow> nat \<Rightarrow> bigint outcome" where
  "tx_get_amount_factor B exponent =
     (if \<not> exponent \<le> TX_AMOUNT_EXPONENT_MASK then Inl AssertFail else Inr (amount_factors B exponent))"

definition tx_amount_decode_exponent :: "u64 \<Rightarrow> nat \<Rightarrow> nat outcome" where
  "tx_amount_decode_exponent amount exponent_bits =
     (if exponent_bits \<noteq> TX_AMOUNT_EXPONENT_BITS then Inl AssertFail
      else Inr (unat (amount AND of_nat TX_AMOUNT_EXPONENT_MASK)))"

definition tx_amount_decode :: "bigops \<Rightarrow> u64 \<Rightarrow> bool \<Rightarrow> nat \<Rightarrow> nat \<Rightarrow> bigint outcome" where
  "tx_amount_decode B amount is_donation amount_bits exponent_bits =
     (if amount_bits \<noteq> (if is_donation then TX_DONATION_BITS else TX_AMOUNT_BITS) then Inl AssertFail
      else if exponent_bits \<noteq> TX_AMOUNT_EXPONENT_BITS then Inl AssertFail
      else let exponent = unat (amount AND of_nat TX_AMOUNT_EXPONENT_MASK);
               result = ofULong B (drop_bit TX_AMOUNT_EXPONENT_BITS amount + (if exponent > 0 then 1 else 0))
           in Inr (op_mul B result (amount_factors B exponent)))"

text \<open>The scan for the exponent, from \<open>max_exponent\<close> down to \<open>min_exponent\<close>.\<close>

function exponent_loop :: "(nat \<Rightarrow> bool) \<Rightarrow> int \<Rightarrow> int \<Rightarrow> int" where
  "exponent_loop over min_exponent exponent =
     (if exponent \<ge> min_exponent then
        if over (nat exponent) then exponent + 1 else exponent_loop over min_exponent (exponent - 1)
      else exponent)"
  by pat_completeness auto
termination by (relation "measure (\<lambda>(over, mn, e). nat (e - mn + 1))") auto

function minimize_mantissa :: "nat \<Rightarrow> u64 \<Rightarrow> nat \<Rightarrow> u64 \<times> nat" where
  "minimize_mantissa max_exponent mantissa exponent =
     (if exponent < max_exponent then
        let d = mantissa div 10
        in if d * 10 \<noteq> mantissa then (mantissa, exponent)
           else minimize_mantissa max_exponent d (exponent + 1)
      else (mantissa, exponent))"
  by pat_completeness auto
termination by (relation "measure (\<lambda>(mx, m, e). mx - e)") auto

declare exponent_loop.simps [simp del] minimize_mantissa.simps [simp del]

text \<open>The division by the power of ten and the rounding; \<open>None\<close> is the early return of -1.\<close>

definition rounded_mantissa :: "bigops \<Rightarrow> bool \<Rightarrow> nat \<Rightarrow> bigint \<Rightarrow> nat \<Rightarrow> u64 option" where
  "rounded_mantissa B is_donation rounding amount exponent =
     (let (quotient, rem) = mpn_tdiv_qr B amount (amount_factors B exponent) (amount_factors_limbs B exponent);
          mantissa = quotient ! 0
      in if big_true rem then
           if rounding = 2 then None
           else if is_donation \<or> rounding \<le> 1 then
             let rem = (if \<not> is_donation \<and> rounding = 0 then bigint_shift_up rem 1 else rem)
             in if is_donation \<or> rounding = 1 \<or> \<not> op_less B rem (amount_factors B exponent)
                then Some (mantissa + 1) else Some mantissa
           else Some mantissa
         else Some mantissa)"

text \<open>The end of the encoder, once the exponent is chosen: the mantissa, made minimal, and the result.\<close>

definition encode_mantissa :: "bigops \<Rightarrow> bool \<Rightarrow> nat \<Rightarrow> bigint \<Rightarrow> nat \<Rightarrow> nat \<Rightarrow> u64" where
  "encode_mantissa B is_donation rounding amount max_exponent exponent =
     (case rounded_mantissa B is_donation rounding amount exponent of
        None \<Rightarrow> -1
      | Some mantissa \<Rightarrow>
          if mantissa = 0 then (if rounding = 2 then -1 else 0)
          else let (mantissa, exponent) = minimize_mantissa max_exponent mantissa exponent
            in (push_bit TX_AMOUNT_EXPONENT_BITS (mantissa - (if exponent > 0 then 1 else 0))) OR of_nat exponent)"

text \<open>The encoder after its arguments have been checked and brought into range.\<close>

definition encode_clipped :: "bigops \<Rightarrow> bigint \<Rightarrow> bool \<Rightarrow> nat \<Rightarrow> nat \<Rightarrow> nat \<Rightarrow> nat \<Rightarrow> nat \<Rightarrow> u64" where
  "encode_clipped B amount is_donation amount_bits exponent_bits min_exponent max_exponent rounding =
     (let no_rounding = (rounding = 2);
          round_index = (if is_donation then 2 else if rounding < 2 then rounding else 3);
          over = (\<lambda>e. op_less B (amount_maxs B round_index e) amount)
      in if \<not> big_true amount then 0
         else let exponent = exponent_loop over (int min_exponent) (int max_exponent)
         in if exponent < int min_exponent \<and> over min_exponent then
              (if no_rounding then -1 else of_nat min_exponent)
            else let exponent = (if exponent < int min_exponent then int min_exponent else exponent)
            in if exponent > int max_exponent then
                 (if no_rounding \<or> (is_donation \<and> rounding \<noteq> 3) then -1
                  else (push_bit TX_AMOUNT_EXPONENT_BITS (push_bit (amount_bits - exponent_bits) 1 - 1)) OR of_nat max_exponent)
               else encode_mantissa B is_donation rounding amount max_exponent (nat exponent))"

definition clip_min :: "nat \<Rightarrow> nat" where
  "clip_min min_exponent = (if min_exponent > TX_AMOUNT_EXPONENT_MASK then TX_AMOUNT_EXPONENT_MASK else min_exponent)"

definition clip_max :: "nat \<Rightarrow> nat \<Rightarrow> nat" where
  "clip_max min_exponent max_exponent =
     (let max_exponent = (if max_exponent > TX_AMOUNT_EXPONENT_MASK then TX_AMOUNT_EXPONENT_MASK else max_exponent)
      in if max_exponent < clip_min min_exponent then clip_min min_exponent else max_exponent)"

definition tx_amount_encode ::
  "bigops \<Rightarrow> bigint \<Rightarrow> bool \<Rightarrow> nat \<Rightarrow> nat \<Rightarrow> nat \<Rightarrow> nat \<Rightarrow> nat \<Rightarrow> u64 outcome" where
  "tx_amount_encode B amount is_donation amount_bits exponent_bits min_exponent max_exponent rounding =
     (if amount_bits \<noteq> (if is_donation then TX_DONATION_BITS else TX_AMOUNT_BITS) then Inl AssertFail
      else if exponent_bits \<noteq> TX_AMOUNT_EXPONENT_BITS then Inl AssertFail
      else Inr (encode_clipped B amount is_donation amount_bits exponent_bits
                 (clip_min min_exponent) (clip_max min_exponent max_exponent) (rounding mod 4)))"

definition tx_amount_max_fp :: "nat \<Rightarrow> u64" where
  "tx_amount_max_fp max_exponent =
     (let max_exponent = (if max_exponent = 0 \<or> max_exponent > TX_AMOUNT_EXPONENT_MASK
                          then TX_AMOUNT_EXPONENT_MASK else max_exponent)
      in (push_bit TX_AMOUNT_EXPONENT_BITS (push_bit (amount_mantissa_bits False) 1 - 1)) OR of_nat max_exponent)"

definition tx_amount_max :: "bigops \<Rightarrow> nat \<Rightarrow> nat \<Rightarrow> nat \<Rightarrow> bigint outcome" where
  "tx_amount_max B amount_bits exponent_bits max_exponent =
     tx_amount_decode B (tx_amount_max_fp max_exponent) False amount_bits exponent_bits"

section \<open>Bit patterns\<close>

lemma unat_and_31: "unat (w AND 31 :: u64) = unat w mod 32"
proof -
  have "(31 :: u64) = mask 5" by (simp add: mask_eq_exp_minus_1)
  then have "w AND 31 = take_bit 5 w" by (simp add: take_bit_eq_mask)
  then show ?thesis by (simp add: take_bit_eq_mod unat_mod)
qed

lemma unat_drop_5: "unat (drop_bit 5 w :: u64) = unat w div 32"
  by (simp add: drop_bit_eq_div unat_div)

lemma or_fields:
  assumes "e < 32" "x < 2 ^ 59"
  shows "push_bit 5 (of_nat x :: u64) OR of_nat e = of_nat (x * 32 + e)"
proof -
  have small: "bit (of_nat e :: u64) k \<Longrightarrow> k < 5" for k
  proof -
    have "(of_nat e :: u64) = take_bit 5 (of_nat e)"
      using assms(1) by (simp flip: of_nat_mod add: take_bit_of_nat take_bit_nat_eq_self)
    then show "bit (of_nat e :: u64) k \<Longrightarrow> k < 5" by (metis bit_take_bit_iff)
  qed
  have "\<not> bit (push_bit 5 (of_nat x :: u64) AND of_nat e) k" for k
    using small [of k] by (auto simp: bit_and_iff bit_push_bit_iff)
  then have "push_bit 5 (of_nat x :: u64) AND of_nat e = 0"
    by (simp only: bit_eq_iff bit_0_eq) simp
  then have "push_bit 5 (of_nat x :: u64) OR of_nat e = push_bit 5 (of_nat x) + of_nat e"
    by (simp add: disjunctive_add_eq_or)
  then show ?thesis by (simp add: push_bit_eq_mult)
qed

lemma unat_fields:
  assumes "e < 32" "x < 2 ^ 59"
  shows "unat (of_nat (x * 32 + e) :: u64) = x * 32 + e"
proof -
  have "x * 32 + e < 2 ^ 64" using assms by simp
  then show ?thesis unfolding unat_of_nat by simp
qed

lemmas tx_consts = TX_AMOUNT_BITS_def TX_AMOUNT_EXPONENT_BITS_def TX_DONATION_BITS_def
  TX_AMOUNT_EXPONENT_MASK_def amount_mantissa_bits_def

section \<open>The tables\<close>

definition max_value :: "nat \<Rightarrow> nat \<Rightarrow> nat" where
  "max_value r i =
     (let one = (if i = 0 then 1 else 0)
      in if r = 2 then (2 ^ 11 - one) * 10 ^ i
         else if r = 1 then (2 ^ 35 - one) * 10 ^ i
         else if r = 0 then (2 ^ 35 - one) * 10 ^ i + 10 ^ i div 2 - (if i > 0 then 1 else 0)
         else (2 ^ 35 - one) * 10 ^ i + (if i = 0 then 0 else 10 ^ i - 1))"

lemma power10_bound: "i \<le> 31 \<Longrightarrow> (10 :: nat) ^ i \<le> 10 ^ 31"
  by (rule power_increasing) auto

context bigint_lib
begin

lemma factor: "i \<le> 31 \<Longrightarrow> wf_bigint (amount_factors B i) \<and> bval (amount_factors B i) = 10 ^ i"
proof (induction i)
  case 0
  then show ?case by (simp add: wf_ops val_ofULong)
next
  case (Suc i)
  have "(10 :: nat) * 10 ^ i \<le> 10 ^ 31" using power10_bound [OF Suc.prems] by simp
  then have "(10 :: nat) * 10 ^ i < field_prime" by (simp add: field_prime_def)
  then show ?case using Suc by (simp add: wf_ops val_ofULong val_mul)
qed

lemmas wf_factor = factor [THEN conjunct1] and val_factor = factor [THEN conjunct2]

lemma max_up:
  assumes "i \<le> 31"
  shows "wf_bigint (amount_max_up B d i) \<and>
    bval (amount_max_up B d i) = (2 ^ (if d then 11 else 35) - (if i = 0 then 1 else 0)) * 10 ^ i"
proof -
  have "(2 :: nat) ^ 35 * 10 ^ i \<le> 2 ^ 35 * 10 ^ 31"
    using power10_bound [OF assms] by simp
  then have "((2 :: nat) ^ (if d then 11 else 35) - (if i = 0 then 1 else 0)) * 10 ^ i < field_prime"
    using power10_bound [OF assms] by (cases d) (auto simp: field_prime_def)
  then show ?thesis
    using assms by (cases d; cases "i = 0")
      (simp_all add: amount_max_up_def tx_consts wf_ops wf_factor val_mul val_ofULong val_factor push_bit_eq_mult)
qed

lemmas wf_max_up = max_up [THEN conjunct1] and val_max_up = max_up [THEN conjunct2]

lemma max_table:
  assumes "i \<le> 31"
  shows "wf_bigint (amount_maxs B r i) \<and> bval (amount_maxs B r i) = max_value r i"
proof -
  have b: "(10 :: nat) ^ i \<le> 10 ^ 31" "0 < (10 :: nat) ^ i" using power10_bound [OF assms] by auto
  have ne: "amount_factors B i \<noteq> []"
    using wf_factor [OF assms] by (auto simp: wf_bigint_def numberLimbs_def)
  define half where "half = bigint_shift_down (amount_factors B i) 1"
  have wh: "wf_bigint half"
    using wf_factor [OF assms] by (simp add: wf_bigint_def half_def)
  have vh: "bval half = 10 ^ i div 2"
    using shift_down_value [OF ne] val_factor [OF assms] by (simp add: half_def)
  have "(2 ^ 35 - (if i = 0 then 1 else 0)) * 10 ^ i \<le> (2 :: nat) ^ 35 * 10 ^ 31"
    using b by (intro mult_le_mono) auto
  then have lt: "(2 ^ 35 - (if i = 0 then 1 else 0)) * 10 ^ i + 10 ^ i < field_prime"
    using b by (simp add: field_prime_def)
  consider "r = 2" | "r = 1" | (zero) "r = 0" | (down) "r \<noteq> 2" "r \<noteq> 1" "r \<noteq> 0" by blast
  then show ?thesis
  proof cases
    case zero
    have "bval (op_add B (amount_max_up B False i) half) =
        (2 ^ 35 - (if i = 0 then 1 else 0)) * 10 ^ i + 10 ^ i div 2"
      using lt by (subst val_add) (auto simp: wf_max_up val_max_up assms wh vh)
    moreover have "1 \<le> (2 ^ 35 - (if i = 0 then 1 else 0)) * 10 ^ i + (10 :: nat) ^ i div 2"
      using b(2) by (simp add: Suc_le_eq)
    moreover have "(2 ^ 35 - (if i = 0 then 1 else 0)) * 10 ^ i + (10 :: nat) ^ i div 2 < field_prime"
      using lt by linarith
    ultimately show ?thesis
      using zero assms wh unfolding amount_maxs_def half_def [symmetric]
      by (auto simp: max_value_def wf_ops wf_max_up val_sub val_ofULong Let_def)
  next
    case down
    have "bval (op_sub B (amount_factors B i) (ofULong B 1)) = 10 ^ i - 1"
      using b assms le_less_trans [OF b(1), of field_prime]
      by (simp add: val_sub wf_factor wf_ops val_factor val_ofULong field_prime_def)
    then show ?thesis
      using down assms lt
      by (auto simp: amount_maxs_def max_value_def wf_ops wf_max_up wf_factor val_add val_max_up val_ofULong Let_def)
  qed (auto simp: amount_maxs_def max_value_def wf_max_up val_max_up assms Let_def)
qed

lemma factor_limbs:
  assumes "i \<le> 31" "wf_bigint a" "mpn_tdiv_qr B a (amount_factors B i) (amount_factors_limbs B i) = (q, r)"
  shows "wf_bigint q \<and> wf_bigint r \<and> bval q = bval a div 10 ^ i \<and> bval r = bval a mod 10 ^ i"
proof -
  let ?y = "amount_factors B i"
  obtain w0 w1 w2 w3 where y: "?y = [w0, w1, w2, w3]"
    using wf_factor [OF assms(1)] unfolding wf_bigint_def numberLimbs_def
    by (auto simp: eval_nat_numeral length_Suc_conv)
  have v: "unat w0 + 2 ^ 64 * (unat w1 + 2 ^ 64 * (unat w2 + 2 ^ 64 * unat w3)) = 10 ^ i"
    using val_factor [OF assms(1)] by (simp add: y)
  have lt: "(10 :: nat) ^ i < 2 ^ 128"
    using power10_bound [OF assms(1)] by simp
  have "unat w2 + 2 ^ 64 * unat w3 = 0"
  proof (rule ccontr)
    assume "unat w2 + 2 ^ 64 * unat w3 \<noteq> 0"
    then have "2 ^ 64 * (2 ^ 64 * 1) \<le> 2 ^ 64 * (2 ^ 64 * (unat w2 + 2 ^ 64 * unat w3))"
      by (intro mult_le_mono) auto
    then show False using v lt by simp
  qed
  then have z: "w2 = 0" "w3 = 0" by (auto simp: unat_eq_zero)
  have "w0 \<noteq> 0" if "w1 = 0"
    using v z that by (metis add.right_neutral mult_0_right power_not_zero unat_0 zero_neq_numeral)
  then show ?thesis
    using tdiv_qr [OF assms(2) wf_factor [OF assms(1)] _ _ _ _ assms(3)] val_factor [OF assms(1)] y z
    by (cases "w1 = 0") (auto simp: amount_factors_limbs_def numberLimbs_def)
qed

end

section \<open>The exponent\<close>

lemma exponent_loop_found:
  assumes "mn \<le> e + 1" "0 \<le> mn"
  shows "let x = exponent_loop over mn e in
    mn - 1 \<le> x \<and> x \<le> e + 1 \<and> (\<forall>k. x \<le> k \<and> mn \<le> k \<and> k \<le> e \<longrightarrow> \<not> over (nat k)) \<and>
    (mn \<le> x \<longrightarrow> over (nat (x - 1)) \<and> mn \<le> x - 1)"
  using assms
proof (induction over mn e rule: exponent_loop.induct)
  case (1 over mn e)
  show ?case
  proof (cases "mn \<le> e \<and> \<not> over (nat e)")
    case False
    then show ?thesis using "1.prems" by (subst exponent_loop.simps) (auto simp: Let_def)
  next
    case True
    let ?x = "exponent_loop over mn (e - 1)"
    have rec: "mn - 1 \<le> ?x" "?x \<le> e" "\<forall>k. ?x \<le> k \<and> mn \<le> k \<and> k \<le> e - 1 \<longrightarrow> \<not> over (nat k)"
      "mn \<le> ?x \<longrightarrow> over (nat (?x - 1)) \<and> mn \<le> ?x - 1"
      using "1.IH" True "1.prems" by (auto simp: Let_def)
    have "\<not> over (nat k)" if "?x \<le> k" "mn \<le> k" "k \<le> e" for k
      using rec(3) that True by (cases "k = e") auto
    moreover have "exponent_loop over mn e = ?x" using True by (subst exponent_loop.simps) simp
    ultimately show ?thesis using rec by (auto simp: Let_def)
  qed
qed

text \<open>
  The exponent that the encoder works with: the smallest one from \<open>mn\<close> on such that it and all
  larger ones up to \<open>mx\<close> are large enough, or \<open>mx + 1\<close> if there is none.
\<close>

lemma exponent_choice:
  fixes mn mx :: nat
  assumes "mn \<le> mx"
  obtains (above) "exponent_loop P (int mn) (int mx) = int mx + 1" "P mx"
  | (low) "exponent_loop P (int mn) (int mx) < int mn" "\<not> P mn"
  | (fit) e where "exponent_loop P (int mn) (int mx) = int e" "mn < e" "e \<le> mx" "\<not> P e" "P (e - 1)"
proof -
  let ?x = "exponent_loop P (int mn) (int mx)"
  have f: "int mn - 1 \<le> ?x" "?x \<le> int mx + 1" "\<And>k. ?x \<le> k \<Longrightarrow> int mn \<le> k \<Longrightarrow> k \<le> int mx \<Longrightarrow> \<not> P (nat k)"
    "int mn \<le> ?x \<longrightarrow> P (nat (?x - 1)) \<and> int mn \<le> ?x - 1"
    using exponent_loop_found [of "int mn" "int mx" P] assms by (auto simp: Let_def)
  consider "?x = int mx + 1" | "?x < int mn" | "int mn \<le> ?x" "?x \<le> int mx" using f by linarith
  then show thesis
  proof cases
    case 1
    then show thesis using f(4) assms by (intro above) auto
  next
    case 2
    then show thesis using f(3) [of "int mn"] assms by (intro low) auto
  next
    case 3
    then have "?x = int (nat ?x)" by simp
    moreover have "mn < nat ?x" "nat ?x \<le> mx" "\<not> P (nat ?x)" using f(3) [of ?x] f(4) 3 by auto
    moreover have "nat (?x - 1) = nat ?x - 1" by arith
    then have "P (nat ?x - 1)" using f(4) 3 by metis
    ultimately show thesis by (rule fit)
  qed
qed

section \<open>The mantissa\<close>

lemma minimize_mantissa_value:
  assumes "minimize_mantissa mx m e = (m', e')" "e \<le> mx" "0 < m"
  shows "unat m' * 10 ^ e' = unat m * 10 ^ e \<and> e \<le> e' \<and> e' \<le> mx \<and> 0 < m' \<and> m' \<le> m"
  using assms
proof (induction mx m e rule: minimize_mantissa.induct)
  case (1 mx m e)
  let ?d = "m div 10"
  show ?case
  proof (cases "e < mx \<and> ?d * 10 = m")
    case False
    then show ?thesis using "1.prems" by (subst (asm) minimize_mantissa.simps) (auto simp: Let_def split: if_splits)
  next
    case True
    then have rec: "minimize_mantissa mx ?d (e + 1) = (m', e')"
      using "1.prems"(1) by (subst (asm) minimize_mantissa.simps) (simp add: Let_def)
    have ud: "unat ?d = unat m div 10" by (simp add: unat_div)
    have "unat m = unat (?d * 10)" using True by simp
    also have "\<dots> = (unat m div 10 * 10) mod 2 ^ 64" by (simp add: unat_word_ariths(2) ud)
    also have "\<dots> = unat m div 10 * 10"
      using le_less_trans [OF div_times_less_eq_dividend unat_u64_less [of m]] by simp
    finally have m10: "unat m div 10 * 10 = unat m" by simp
    have "0 < ?d" using True "1.prems"(3) by (metis mult_zero_left word_neq_0_conv)
    then have "unat m' * 10 ^ e' = unat ?d * 10 ^ (e + 1) \<and> e + 1 \<le> e' \<and> e' \<le> mx \<and> 0 < m' \<and> m' \<le> ?d"
      using True rec by (intro "1.IH") auto
    moreover have "?d \<le> m" by (simp add: word_le_nat_alt ud)
    ultimately show ?thesis using m10 ud by (auto simp: mult.assoc [symmetric])
  qed
qed

section \<open>Encoding and decoding as arithmetic\<close>

text \<open>The number that a 64-bit floating-point amount stands for, and the rounded mantissa, as numbers.\<close>

definition fp_value :: "u64 \<Rightarrow> nat" where
  "fp_value w = (unat w div 32 + (if unat w mod 32 > 0 then 1 else 0)) * 10 ^ (unat w mod 32)"

definition round_nat :: "bool \<Rightarrow> nat \<Rightarrow> nat \<Rightarrow> nat \<Rightarrow> nat option" where
  "round_nat d r a e =
     (let q = a div 10 ^ e; rm = a mod 10 ^ e
      in if rm = 0 then Some q else if r = 2 then None
         else if d \<or> r = 1 then Some (q + 1)
         else if r = 0 then Some (if 10 ^ e \<le> 2 * rm then q + 1 else q)
         else Some q)"

definition cap_fp :: "bool \<Rightarrow> nat \<Rightarrow> u64" where
  "cap_fp d mx = of_nat ((2 ^ (if d then 11 else 35) - 1) * 32 + mx)"

definition round_index_of :: "bool \<Rightarrow> nat \<Rightarrow> nat" where
  "round_index_of d r = (if d then 2 else if r < 2 then r else 3)"

lemma unat_pack:
  assumes "0 < (m :: u64)" "unat m \<le> 2 ^ 36" "e \<le> 31"
  shows "unat (push_bit 5 (m - (if e > 0 then 1 else 0)) OR of_nat e) = (unat m - (if e > 0 then 1 else 0)) * 32 + e"
proof -
  let ?x = "unat m - (if e > 0 then 1 else 0)"
  have m: "1 \<le> unat m" using assms(1) by (simp add: Suc_le_eq unat_gt_0 word_neq_0_conv)
  have "m - (if e > 0 then 1 else 0) = (of_nat ?x :: u64)"
    using m by (auto simp: of_nat_diff)
  moreover have "?x < 2 ^ 59" using assms(2) by simp
  ultimately show ?thesis
    using assms(3) unat_fields [of e ?x] or_fields [of e ?x] by simp
qed

lemma fp_value_pack:
  assumes "0 < (m :: u64)" "unat m \<le> 2 ^ 36" "e \<le> 31"
  shows "fp_value (push_bit 5 (m - (if e > 0 then 1 else 0)) OR of_nat e) = unat m * 10 ^ e"
proof -
  have "1 \<le> unat m" using assms(1) by (simp add: Suc_le_eq unat_gt_0 word_neq_0_conv)
  then show ?thesis using assms(3) by (simp add: fp_value_def unat_pack [OF assms])
qed

lemma fp_value_cap:
  assumes "mx \<le> 31"
  shows "fp_value (cap_fp d mx) = (2 ^ (if d then 11 else 35) - (if mx = 0 then 1 else 0)) * 10 ^ mx \<and>
    unat (cap_fp d mx) < 2 ^ (if d then 16 else 40)"
proof -
  have "unat (cap_fp d mx) = (2 ^ (if d then 11 else 35) - 1) * 32 + mx"
    using assms unfolding cap_fp_def by (intro unat_fields) auto
  then show ?thesis using assms by (auto simp: fp_value_def)
qed

lemma low_limb:
  assumes "wf_bigint b" "bval b < 2 ^ 64" shows "unat (b ! 0) = bval b"
proof -
  obtain w b' where b: "b = w # b'" using assms(1) by (cases b) (auto simp: wf_bigint_def numberLimbs_def)
  then have "bval b' = 0" using assms(2) by (cases "bval b'") auto
  then show ?thesis by (simp add: b)
qed

context bigint_lib
begin

lemma decode_value:
  assumes "unat w < 2 ^ 63"
  shows "\<exists>v. tx_amount_decode B w d (if d then TX_DONATION_BITS else TX_AMOUNT_BITS) TX_AMOUNT_EXPONENT_BITS = Inr v \<and>
    wf_bigint v \<and> bval v = fp_value w"
proof -
  define e m where "e = unat w mod 32" and "m = drop_bit 5 w + (if unat w mod 32 > 0 then 1 else 0)"
  have e: "e \<le> 31" by (simp add: e_def)
  have m: "unat m = unat w div 32 + (if e > 0 then 1 else 0)"
    using assms by (simp add: m_def e_def unat_word_ariths(1) unat_drop_5)
  have "unat w div 32 < 2 ^ 58" using assms by (simp add: div_less_iff_less_mult)
  then have "unat m \<le> 2 ^ 59" by (simp add: m)
  then have "unat m * 10 ^ e \<le> 2 ^ 59 * 10 ^ 31"
    using power10_bound [OF e] by (intro mult_le_mono) auto
  then have lt: "unat m * 10 ^ e < field_prime" by (simp add: field_prime_def)
  have "tx_amount_decode B w d (if d then TX_DONATION_BITS else TX_AMOUNT_BITS) TX_AMOUNT_EXPONENT_BITS =
      Inr (op_mul B (ofULong B m) (amount_factors B e))"
    by (simp add: tx_amount_decode_def Let_def unat_and_31 tx_consts m_def e_def)
  moreover have "bval (op_mul B (ofULong B m) (amount_factors B e)) = unat m * 10 ^ e"
    using lt e by (simp add: val_mul wf_ops wf_factor val_ofULong val_factor)
  moreover have "unat m * 10 ^ e = fp_value w" by (simp add: m fp_value_def e_def)
  ultimately show ?thesis using e by (auto simp: wf_ops wf_factor)
qed

lemma rounded_value:
  assumes "wf_bigint a" "e \<le> 31" "bval a div 10 ^ e < 2 ^ 63"
  shows "map_option unat (rounded_mantissa B d r a e) = round_nat d r (bval a) e"
proof -
  obtain q rm where qr: "mpn_tdiv_qr B a (amount_factors B e) (amount_factors_limbs B e) = (q, rm)" by fastforce
  note f = factor_limbs [OF assms(2,1) qr]
  have q0: "unat (q ! 0) = bval a div 10 ^ e" using f assms(3) by (simp add: low_limb)
  have q1: "unat (q ! 0 + 1) = bval a div 10 ^ e + 1" using q0 assms(3) by (simp add: unat_word_ariths(1))
  have nz: "big_true rm \<longleftrightarrow> bval a mod 10 ^ e \<noteq> 0" using f by (simp add: big_true_iff)
  have ne: "rm \<noteq> []" using f by (auto simp: wf_bigint_def numberLimbs_def)
  have "bval rm < 10 ^ 31"
    using f power10_bound [OF assms(2)] by (metis less_le_trans mod_less_divisor zero_less_numeral zero_less_power)
  then have up: "bval (bigint_shift_up rm 1) = 2 * bval rm"
    using shift_up_value [OF ne, of 1] f by (simp add: wf_bigint_def numberLimbs_def)
  have wu: "wf_bigint (bigint_shift_up rm 1)" using f by (simp add: wf_bigint_def)
  have cmp: "op_less B (bigint_shift_up rm 1) (amount_factors B e) \<longleftrightarrow> 2 * (bval a mod 10 ^ e) < 10 ^ e"
    using f assms(2) by (simp only: less_iff wu wf_factor up val_factor)
  show ?thesis
    using cmp unfolding rounded_mantissa_def qr round_nat_def
    by (auto simp: Let_def nz q0 q1 split: if_splits)
qed

lemma round_up_bound:
  fixes a p K :: nat
  assumes "a \<le> K * p" "0 < p" "a mod p \<noteq> 0" shows "a div p + 1 \<le> K"
proof -
  have "a \<noteq> K * p" using assms(3) by auto
  then have "a < K * p" using assms(1) by simp
  then have "a div p < K" by (rule less_mult_imp_div_less)
  then show ?thesis by simp
qed

lemma round_nearest_bound:
  fixes a p K :: nat
  assumes "a + 1 \<le> K * p + p div 2" "0 < p"
  shows "(if p \<le> 2 * (a mod p) then a div p + 1 else a div p) \<le> K"
proof -
  have "a < (K + 1) * p" using assms by simp
  then have le: "a div p < K + 1" by (rule less_mult_imp_div_less)
  have "2 * (a mod p) < p" if "a div p = K"
  proof -
    have "a = K * p + a mod p" using that by (metis div_mult_mod_eq)
    then show ?thesis using assms(1) by linarith
  qed
  then show ?thesis using le by (cases "a div p = K") auto
qed

lemma round_nat_bound:
  assumes "a \<le> max_value (round_index_of d r) e" "round_nat d r a e = Some m"
  shows "m \<le> 2 ^ (if d then 11 else 35) - (if e = 0 then 1 else 0)"
proof (cases "e = 0")
  case True
  then show ?thesis
    using assms by (auto simp: round_nat_def round_index_of_def max_value_def Let_def split: if_splits)
next
  case False
  define p :: nat where "p = 10 ^ e"
  let ?K = "2 ^ (if d then 11 else 35) :: nat"
  have p: "0 < p" by (simp add: p_def)
  note u = assms [unfolded round_index_of_def max_value_def round_nat_def Let_def p_def [symmetric]]
  have exact: "a div p \<le> ?K" if "a < (?K + 1) * p"
    using less_mult_imp_div_less [OF that] by simp
  consider (up) "d \<or> r = 1" | (near) "\<not> d" "r = 0" | (down) "\<not> d" "r \<noteq> 0" "r \<noteq> 1" by blast
  then show ?thesis
  proof cases
    case up
    then have a: "a \<le> ?K * p" using u(1) False by (auto split: if_splits)
    then show ?thesis
      using u(2) up False round_up_bound [OF a p] exact p by (auto split: if_splits)
  next
    case near
    then have a: "a + 1 \<le> ?K * p + p div 2" using u(1) False p by auto
    then have "a < (?K + 1) * p" using p by auto
    then show ?thesis
      using u(2) near False round_nearest_bound [OF a p] exact by (auto split: if_splits)
  next
    case down
    then have "a < (?K + 1) * p" using u(1) False p by auto
    then show ?thesis using u(2) down False exact by (auto split: if_splits)
  qed
qed

lemma fits_div:
  assumes "a \<le> max_value r e" "e \<le> 31" shows "a div 10 ^ e < 2 ^ 63"
proof -
  define p :: nat where "p = 10 ^ e"
  have p: "0 < p" by (simp add: p_def)
  have "max_value r e \<le> 2 ^ 35 * p + p"
    unfolding max_value_def Let_def p_def [symmetric] by auto
  then have "a < (2 ^ 35 + 2) * p" using assms p by simp
  then have "a div p < 2 ^ 35 + 2" by (rule less_mult_imp_div_less)
  then show ?thesis by (simp add: p_def)
qed

lemma encode_mantissa_value:
  assumes wf: "wf_bigint amount" and "r < 4" "e \<le> mx" "mx \<le> 31"
    and fit: "bval amount \<le> max_value (round_index_of d r) e"
  shows "case round_nat d r (bval amount) e of
      None \<Rightarrow> encode_mantissa B d r amount mx e = -1
    | Some n \<Rightarrow> if n = 0 then encode_mantissa B d r amount mx e = (if r = 2 then -1 else 0)
        else fp_value (encode_mantissa B d r amount mx e) = n * 10 ^ e \<and>
          unat (encode_mantissa B d r amount mx e) < 2 ^ (if d then 16 else 40)"
proof (cases "rounded_mantissa B d r amount e")
  case None
  then show ?thesis
    using rounded_value [OF wf, of e d r] assms fits_div [OF fit] by (simp add: encode_mantissa_def)
next
  case (Some man)
  then have n: "round_nat d r (bval amount) e = Some (unat man)"
    using rounded_value [OF wf, of e d r] assms fits_div [OF fit] by simp
  have b: "unat man \<le> 2 ^ (if d then 11 else 35) - (if e = 0 then 1 else 0)"
    using round_nat_bound [OF fit n] .
  show ?thesis
  proof (cases "man = 0")
    case True
    then show ?thesis using Some n by (simp add: encode_mantissa_def)
  next
    case False
    obtain m' e' where me: "minimize_mantissa mx man e = (m', e')" by fastforce
    have v: "unat m' * 10 ^ e' = unat man * 10 ^ e" "e' \<le> mx" "0 < m'" "m' \<le> man" "e \<le> e'"
      using minimize_mantissa_value [OF me assms(3)] False by (auto simp: word_neq_0_conv)
    have "unat m' \<le> unat man" using v(4) by (simp add: word_le_nat_alt)
    moreover have "e = 0" if "e' = 0" using v(5) that by simp
    ultimately have m': "unat m' \<le> 2 ^ (if d then 11 else 35) - (if e' = 0 then 1 else 0)"
      using b by (cases "e = 0"; cases "e' = 0") auto
    then have "unat m' - (if e' > 0 then 1 else 0) < 2 ^ (if d then 11 else 35)"
      using v(3) by (auto simp: word_less_nat_alt split: if_splits)
    then have "(unat m' - (if e' > 0 then 1 else 0)) * 32 + e' < 2 ^ (if d then 16 else 40)"
      using v(2) assms(4) by (cases d) auto
    moreover have "unat m' \<le> 2 ^ 36" using m' by (cases d) (auto split: if_splits)
    ultimately have "fp_value (push_bit 5 (m' - (if e' > 0 then 1 else 0)) OR of_nat e') = unat man * 10 ^ e \<and>
      unat (push_bit 5 (m' - (if e' > 0 then 1 else 0)) OR of_nat e') < 2 ^ (if d then 16 else 40)"
      using fp_value_pack [of m' e'] unat_pack [of m' e'] v assms(4) by simp
    then show ?thesis
      using Some n False me by (simp add: encode_mantissa_def tx_consts unat_eq_zero)
  qed
qed

lemma encode_unfold:
  assumes "r < 4" "mx \<le> 31"
  shows "encode_clipped B amount d (if d then TX_DONATION_BITS else TX_AMOUNT_BITS) TX_AMOUNT_EXPONENT_BITS mn mx r =
    (let over = (\<lambda>e. op_less B (amount_maxs B (round_index_of d r) e) amount);
         x = exponent_loop over (int mn) (int mx)
     in if bval amount = 0 then 0
        else if x < int mn \<and> over mn then (if r = 2 then -1 else of_nat mn)
        else if (if x < int mn then int mn else x) > int mx then (if r = 2 \<or> (d \<and> r \<noteq> 3) then -1 else cap_fp d mx)
        else encode_mantissa B d r amount mx (nat (if x < int mn then int mn else x)))"
proof -
  have "push_bit 5 (push_bit ((if d then 16 else 40) - 5) 1 - 1) OR of_nat mx = cap_fp d mx"
    using or_fields [of mx "2 ^ (if d then 11 else 35) - 1"] assms
    by (cases d) (simp_all add: cap_fp_def push_bit_eq_mult)
  then show ?thesis
    unfolding encode_clipped_def Let_def round_index_of_def tx_consts big_true_iff by simp
qed

text \<open>What the encoder returns, by cases on where the amount lies.\<close>

lemma encode_cases:
  assumes wf: "wf_bigint amount" and r: "r < 4" and m: "mn \<le> mx" "mx \<le> 31"
  obtains (zero) "bval amount = 0" "encode_clipped B amount d (if d then TX_DONATION_BITS else TX_AMOUNT_BITS)
      TX_AMOUNT_EXPONENT_BITS mn mx r = 0"
  | (above) "max_value (round_index_of d r) mx < bval amount"
      "encode_clipped B amount d (if d then TX_DONATION_BITS else TX_AMOUNT_BITS)
      TX_AMOUNT_EXPONENT_BITS mn mx r = (if r = 2 \<or> d \<and> r \<noteq> 3 then -1 else cap_fp d mx)"
  | (fit) e where "0 < bval amount" "mn \<le> e" "e \<le> mx" "bval amount \<le> max_value (round_index_of d r) e"
      "e = mn \<or> max_value (round_index_of d r) (e - 1) < bval amount"
      "encode_clipped B amount d (if d then TX_DONATION_BITS else TX_AMOUNT_BITS)
      TX_AMOUNT_EXPONENT_BITS mn mx r = encode_mantissa B d r amount mx e"
proof -
  define over where "over = (\<lambda>e. op_less B (amount_maxs B (round_index_of d r) e) amount)"
  have over: "over e \<longleftrightarrow> max_value (round_index_of d r) e < bval amount" if "e \<le> 31" for e
    using max_table [OF that] wf by (simp add: over_def less_iff)
  note enc = encode_unfold [OF r m(2), of amount d mn, folded over_def, unfolded Let_def]
  show thesis
  proof (cases "bval amount = 0")
    case True
    then show thesis using enc by (intro zero) auto
  next
    case False
    show thesis
    proof (cases rule: exponent_choice [OF m(1), of over, case_names above low fit])
      case above
      then show thesis using enc False m over [of mx] by (intro that(2)) auto
    next
      case low
      then show thesis using enc False m over [of mn] by (intro that(3) [of mn]) auto
    next
      case (fit e)
      then show thesis using enc False m over [of e] over [of "e - 1"] by (intro that(3) [of e]) auto
    qed
  qed
qed

end

section \<open>Properties of the encoding\<close>

lemma clip_bounds: "clip_min mn \<le> clip_max mn mx" "clip_max mn mx \<le> 31" "clip_min mn \<le> 31"
  by (auto simp: clip_min_def clip_max_def tx_consts Let_def)

lemma max_value_mono:
  assumes "i \<le> j" shows "max_value r i \<le> max_value r j"
proof (rule lift_Suc_mono_le [OF _ assms])
  fix n :: nat
  define p :: nat where "p = 10 ^ n"
  have p: "0 < p" "10 ^ Suc n = 10 * p" by (simp_all add: p_def)
  show "max_value r n \<le> max_value r (Suc n)"
    using p(1) unfolding max_value_def Let_def p(2) p_def [symmetric] by auto
qed

lemma previous_exponent_small:
  assumes "max_value 3 (e - 1) < a" "e \<noteq> 0" shows "2 ^ 35 * 10 ^ e \<le> 10 * a"
proof -
  obtain k where k: "e = Suc k" using assms(2) by (cases e) auto
  define p :: nat where "p = 10 ^ (e - 1)"
  have p: "0 < p" "10 ^ e = 10 * p" by (simp_all add: p_def k)
  have "2 ^ 35 * p \<le> max_value 3 (e - 1) + 1"
    using p(1) unfolding max_value_def Let_def p_def [symmetric] by (auto simp: p_def)
  then show ?thesis using assms(1) p(2) by simp
qed

lemma encode_round_down:
  assumes B: "bigint_lib B" and wf: "wf_bigint amount" and r: "r mod 4 = 3"
  obtains w where "tx_amount_encode B amount False TX_AMOUNT_BITS TX_AMOUNT_EXPONENT_BITS mn mx r = Inr w"
    "fp_value w \<le> bval amount" "unat w < 2 ^ 40"
    "10 ^ clip_min mn \<le> bval amount \<Longrightarrow> 0 < fp_value w"
    "bval amount \<le> max_value 3 (clip_max mn mx) \<Longrightarrow>
      bval amount - fp_value w < 10 ^ clip_min mn \<or> (bval amount - fp_value w) * 2 ^ 35 < 10 * bval amount"
proof -
  let ?mn = "clip_min mn" and ?mx = "clip_max mn mx" and ?a = "bval amount"
  have c: "tx_amount_encode B amount False TX_AMOUNT_BITS TX_AMOUNT_EXPONENT_BITS mn mx r =
      Inr (encode_clipped B amount False TX_AMOUNT_BITS TX_AMOUNT_EXPONENT_BITS ?mn ?mx 3)"
    by (simp add: tx_amount_encode_def r)
  have ri: "round_index_of False 3 = 3" by (simp add: round_index_of_def)
  have three: "(3 :: nat) < 4" by simp
  show thesis
  proof (cases rule: bigint_lib.encode_cases [OF B wf three clip_bounds(1,2) [of mn mx], where d = False, unfolded ri if_False,
        case_names zero above fit])
    case zero
    then show thesis using c by (intro that [of 0]) (auto simp: fp_value_def)
  next
    case above
    define p :: nat where "p = 10 ^ ?mx"
    have "0 < p" by (simp add: p_def)
    then have "fp_value (cap_fp False ?mx) \<le> max_value 3 ?mx" "0 < fp_value (cap_fp False ?mx)"
      using fp_value_cap [OF clip_bounds(2), of False mn mx] unfolding max_value_def Let_def p_def [symmetric] by auto
    then show thesis
      using above c fp_value_cap [OF clip_bounds(2), of False mn mx]
      by (intro that [of "cap_fp False ?mx"]) auto
  next
    case (fit e)
    let ?w = "encode_mantissa B False 3 amount ?mx e" and ?q = "?a div 10 ^ e"
    have "round_nat False 3 ?a e = Some ?q" by (simp add: round_nat_def Let_def)
    then have w: "fp_value ?w = ?q * 10 ^ e" "unat ?w < 2 ^ 40"
      using bigint_lib.encode_mantissa_value [OF B wf three fit(3) clip_bounds(2), where d = False, unfolded ri, OF fit(4)]
      by (cases "?q = 0"; auto simp: fp_value_def)+
    have err: "?a - ?q * 10 ^ e < 10 ^ e"
      by (metis minus_div_mult_eq_mod mod_less_divisor zero_less_numeral zero_less_power)
    have large: "2 ^ 35 * 10 ^ e \<le> 10 * ?a" if "e \<noteq> ?mn"
      using previous_exponent_small [of e ?a] fit(2,5) that by auto
    have "0 < ?q" if "10 ^ ?mn \<le> ?a"
      using that large by (cases "e = ?mn") (auto simp: div_greater_zero_iff)
    moreover have "?a - ?q * 10 ^ e < 10 ^ ?mn \<or> (?a - ?q * 10 ^ e) * 2 ^ 35 < 10 * ?a"
      using err large by (cases "e = ?mn") auto
    ultimately show thesis using c fit w by (intro that [of ?w]) (auto simp: w)
  qed
qed

lemma representable_fits:
  assumes "m \<le> 2 ^ (if d then 11 else 35) - (if e = 0 then 1 else 0)"
  shows "m * 10 ^ e \<le> max_value (round_index_of d r) e"
proof -
  define p :: nat where "p = 10 ^ e"
  have p: "0 < p" "e \<noteq> 0 \<Longrightarrow> 2 \<le> p" by (simp_all add: p_def) (cases e; simp)
  define X where "X = m * p"
  have "X \<le> (2 ^ (if d then 11 else 35) - (if e = 0 then 1 else 0)) * p"
    unfolding X_def using assms by (rule mult_le_mono1)
  then show ?thesis
    using p unfolding max_value_def round_index_of_def Let_def p_def [symmetric] X_def [symmetric]
    by (cases "e = 0"; cases d) auto
qed


lemma limb_lib: "bigint_lib limb_bigops"
  by unfold_locales


text \<open>
  C34. Every amount that has a 40-bit representation (16 bits for a donation) is encoded exactly,
  whatever the rounding mode: decoding gives it back.
\<close>

theorem tx_amount_exact:
  assumes "bigint_lib B" "unat x < 2 ^ (if d then TX_DONATION_BITS else TX_AMOUNT_BITS)"
    and "tx_amount_decode B x d (if d then TX_DONATION_BITS else TX_AMOUNT_BITS) TX_AMOUNT_EXPONENT_BITS = Inr v"
  shows "\<exists>w. tx_amount_encode B v d (if d then TX_DONATION_BITS else TX_AMOUNT_BITS) TX_AMOUNT_EXPONENT_BITS
      0 (2 ^ 32 - 1) r = Inr w \<and>
    unat w < 2 ^ (if d then TX_DONATION_BITS else TX_AMOUNT_BITS) \<and>
    (\<exists>v'. tx_amount_decode B w d (if d then TX_DONATION_BITS else TX_AMOUNT_BITS) TX_AMOUNT_EXPONENT_BITS = Inr v' \<and>
      bval v' = bval v)"
proof -
  let ?bits = "if d then TX_DONATION_BITS else TX_AMOUNT_BITS" and ?r = "r mod 4"
  let ?ri = "round_index_of d ?r" and ?E = "unat x mod 32" and ?M = "unat x div 32 + (if unat x mod 32 > 0 then 1 else 0)"
  have x63: "unat x < 2 ^ 63" using assms(2) by (cases d) (auto simp: tx_consts)
  have v: "wf_bigint v" "bval v = ?M * 10 ^ ?E"
    using bigint_lib.decode_value [OF assms(1) x63, of d] assms(3) by (auto simp: fp_value_def)
  have M: "?M \<le> 2 ^ (if d then 11 else 35) - (if ?E = 0 then 1 else 0)"
    using assms(2) by (cases d; cases "?E = 0") (auto simp: tx_consts div_less_iff_less_mult less_Suc_eq_le [symmetric])
  have vE: "bval v \<le> max_value ?ri ?E"
    unfolding v(2) by (rule representable_fits [OF M])
  have enc: "tx_amount_encode B v d ?bits TX_AMOUNT_EXPONENT_BITS 0 (2 ^ 32 - 1) r =
      Inr (encode_clipped B v d ?bits TX_AMOUNT_EXPONENT_BITS 0 31 ?r)"
    by (simp add: tx_amount_encode_def clip_min_def clip_max_def tx_consts)
  have four: "?r < 4" by simp
  have "\<exists>w. encode_clipped B v d ?bits TX_AMOUNT_EXPONENT_BITS 0 31 ?r = w \<and> fp_value w = bval v \<and> unat w < 2 ^ ?bits"
  proof (cases rule: bigint_lib.encode_cases [OF assms(1) v(1) four le0 order_refl, where d = d, case_names zero above fit])
    case zero
    then show ?thesis by (auto simp: fp_value_def)
  next
    case above
    moreover have "max_value ?ri ?E \<le> max_value ?ri 31" by (rule max_value_mono) simp
    ultimately show ?thesis using vE by simp
  next
    case (fit e)
    have "e \<le> ?E"
    proof (rule ccontr)
      assume "\<not> e \<le> ?E"
      then have "?E \<le> e - 1" "e \<noteq> 0" by linarith+
      then show False using fit(5) vE max_value_mono [of ?E "e - 1" ?ri] by simp
    qed
    then have "10 ^ e dvd bval v" unfolding v(2) by (simp add: le_imp_power_dvd dvd_mult)
    then have "round_nat d ?r (bval v) e = Some (bval v div 10 ^ e)" "bval v div 10 ^ e * 10 ^ e = bval v"
      by (simp_all add: round_nat_def Let_def)
    then show ?thesis
      using bigint_lib.encode_mantissa_value [OF assms(1) v(1) four fit(3) order_refl fit(4)] fit(1,6)
      by (cases d) (auto simp: tx_consts split: if_splits)
  qed
  then obtain w where w: "encode_clipped B v d ?bits TX_AMOUNT_EXPONENT_BITS 0 31 ?r = w" "fp_value w = bval v" "unat w < 2 ^ ?bits"
    by blast
  then have "unat w < 2 ^ 63" by (cases d) (auto simp: tx_consts)
  then show ?thesis
    using bigint_lib.decode_value [OF assms(1), of w d] enc w by auto
qed

theorem tx_amount_exact_witness:
  "\<exists>w. tx_amount_encode limb_bigops (op_mul limb_bigops (ofULong limb_bigops 43) (amount_factors limb_bigops 2)) False 40 5
      0 (2 ^ 32 - 1) 2 = Inr w \<and> unat w < 2 ^ 40 \<and>
    (\<exists>v'. tx_amount_decode limb_bigops w False 40 5 = Inr v' \<and>
      bval v' = bval (op_mul limb_bigops (ofULong limb_bigops 43) (amount_factors limb_bigops 2)))"
proof -
  have "tx_amount_decode limb_bigops (42 * 32 + 2) False 40 5 =
      Inr (op_mul limb_bigops (ofULong limb_bigops 43) (amount_factors limb_bigops 2))"
    by (simp add: tx_amount_decode_def tx_consts unat_and_31 drop_bit_eq_div)
  then show ?thesis
    using tx_amount_exact [OF limb_lib, of "42 * 32 + 2" False _ 2] by (simp add: tx_consts)
qed

end
