(* ===== verification/Exchange.thy ===== *)
theory Exchange
  imports Bigint
begin

text \<open>
  Exchange requests and matches (cclib/src/xtransaction.hpp, xtransaction-xreq.hpp, xmatch.hpp and
  xmatch.cpp): the type predicates, the copy of a request that a match keeps, and the match itself.
  Fields that only the wallet uses for its own bookkeeping (ids, poll times) are left out.

  The floating-point type \<open>UniFloat\<close> (a rounded \<open>double\<close>) is a type variable \<open>'f\<close>, with the
  operations that the code applies to it collected in a record: \<open>uf_lit m e\<close> is the constant
  \<open>m * 10 ^ e\<close>, the first argument of the arithmetic operations is their rounding mode (0 the
  default), \<open>uf_max\<close> is \<open>DBL_MAX\<close>, \<open>uf_asset\<close> is \<open>Xtx::asUniFloat\<close> and \<open>uf_amount\<close> is \<open>amount_from_float\<close> with its result
  code.
\<close>

section \<open>Floating-point numbers\<close>

record 'f ufops =
  uf_lit :: "int \<Rightarrow> int \<Rightarrow> 'f"
  uf_add :: "int \<Rightarrow> 'f \<Rightarrow> 'f \<Rightarrow> 'f"
  uf_mul :: "int \<Rightarrow> 'f \<Rightarrow> 'f \<Rightarrow> 'f"
  uf_div :: "int \<Rightarrow> 'f \<Rightarrow> 'f \<Rightarrow> 'f"
  uf_neg :: "'f \<Rightarrow> 'f"
  uf_less :: "'f \<Rightarrow> 'f \<Rightarrow> bool"
  uf_eq :: "'f \<Rightarrow> 'f \<Rightarrow> bool"
  uf_asset :: "u64 \<Rightarrow> bigint \<Rightarrow> 'f"
  uf_amount :: "u64 \<Rightarrow> 'f \<Rightarrow> bool \<times> bigint"
  uf_max :: 'f
  uf_average :: "'f \<Rightarrow> 'f \<Rightarrow> 'f"
  uf_power :: "'f \<Rightarrow> int \<Rightarrow> 'f"
  uf_check_le :: "'f \<Rightarrow> 'f \<Rightarrow> bool"

definition uf_zero :: "'f ufops \<Rightarrow> 'f" where
  "uf_zero U = uf_lit U 0 0"

definition uf_le :: "'f ufops \<Rightarrow> 'f \<Rightarrow> 'f \<Rightarrow> bool" where
  "uf_le U a b = (uf_less U a b \<or> uf_eq U a b)"

section \<open>Transaction types\<close>

definition CC_TYPE_MINT :: nat where "CC_TYPE_MINT = 1"
definition CC_TYPE_TXPAY :: nat where "CC_TYPE_TXPAY = 2"
definition CC_TYPE_XCX_NAKED_BUY :: nat where "CC_TYPE_XCX_NAKED_BUY = 4"
definition CC_TYPE_XCX_NAKED_SELL :: nat where "CC_TYPE_XCX_NAKED_SELL = 5"
definition CC_TYPE_XCX_SIMPLE_BUY :: nat where "CC_TYPE_XCX_SIMPLE_BUY = 6"
definition CC_TYPE_XCX_SIMPLE_SELL :: nat where "CC_TYPE_XCX_SIMPLE_SELL = 7"
definition CC_TYPE_XCX_REQ_BUY :: nat where "CC_TYPE_XCX_REQ_BUY = 8"
definition CC_TYPE_XCX_REQ_SELL :: nat where "CC_TYPE_XCX_REQ_SELL = 9"
definition CC_TYPE_XCX_ACCEPT :: nat where "CC_TYPE_XCX_ACCEPT = 10"
definition CC_TYPE_XCX_CANCEL :: nat where "CC_TYPE_XCX_CANCEL = 11"
definition CC_TYPE_XCX_PAYMENT :: nat where "CC_TYPE_XCX_PAYMENT = 12"
definition CC_TYPE_XCX_MINING_TRADE :: nat where "CC_TYPE_XCX_MINING_TRADE = 13"
definition CC_TYPE_XCX_MINING_BUY :: nat where "CC_TYPE_XCX_MINING_BUY = 14"
definition CC_TYPE_XCX_MINING_SELL :: nat where "CC_TYPE_XCX_MINING_SELL = 15"
definition XREQ_BLOCKCHAIN_BCH :: u64 where "XREQ_BLOCKCHAIN_BCH = 2"

lemmas type_consts = CC_TYPE_MINT_def CC_TYPE_TXPAY_def CC_TYPE_XCX_NAKED_BUY_def CC_TYPE_XCX_NAKED_SELL_def
  CC_TYPE_XCX_SIMPLE_BUY_def CC_TYPE_XCX_SIMPLE_SELL_def CC_TYPE_XCX_REQ_BUY_def CC_TYPE_XCX_REQ_SELL_def
  CC_TYPE_XCX_ACCEPT_def CC_TYPE_XCX_CANCEL_def CC_TYPE_XCX_PAYMENT_def CC_TYPE_XCX_MINING_TRADE_def
  CC_TYPE_XCX_MINING_BUY_def CC_TYPE_XCX_MINING_SELL_def

definition TypeIsXtx :: "nat \<Rightarrow> bool" where
  "TypeIsXtx t = (t \<ge> CC_TYPE_XCX_NAKED_BUY \<and> t \<le> CC_TYPE_XCX_MINING_SELL)"

definition TypeIsCrosschain :: "nat \<Rightarrow> bool" where
  "TypeIsCrosschain t = (t \<ge> CC_TYPE_XCX_NAKED_BUY \<and> t \<le> CC_TYPE_XCX_MINING_SELL)"

definition TypeIsXpay :: "nat \<Rightarrow> bool" where
  "TypeIsXpay t = (t = CC_TYPE_XCX_PAYMENT)"

definition TypeIsXreq :: "nat \<Rightarrow> bool" where
  "TypeIsXreq t = (t \<ge> CC_TYPE_XCX_NAKED_BUY \<and> t \<le> CC_TYPE_XCX_REQ_SELL \<or>
     t \<ge> CC_TYPE_XCX_MINING_TRADE \<and> t \<le> CC_TYPE_XCX_MINING_SELL)"

definition TypeHasBareMsg :: "nat \<Rightarrow> bool" where
  "TypeHasBareMsg t = (t = CC_TYPE_XCX_NAKED_BUY \<or> t = CC_TYPE_XCX_ACCEPT \<or> t = CC_TYPE_XCX_CANCEL \<or> t = CC_TYPE_XCX_PAYMENT)"

definition TypeIsBuyer :: "nat \<Rightarrow> bool" where
  "TypeIsBuyer t = (t = CC_TYPE_XCX_REQ_BUY \<or> t = CC_TYPE_XCX_SIMPLE_BUY \<or> t = CC_TYPE_XCX_NAKED_BUY \<or>
     t = CC_TYPE_XCX_MINING_BUY \<or> t = CC_TYPE_XCX_MINING_TRADE)"

definition TypeIsSeller :: "nat \<Rightarrow> bool" where
  "TypeIsSeller t = (t = CC_TYPE_XCX_REQ_SELL \<or> t = CC_TYPE_XCX_SIMPLE_SELL \<or> t = CC_TYPE_XCX_NAKED_SELL \<or>
     t = CC_TYPE_XCX_MINING_SELL \<or> t = CC_TYPE_XCX_MINING_TRADE)"

section \<open>Requests\<close>

record req_flags =
  add_immediately_to_blockchain :: bool
  auto_accept_matches :: bool
  no_minimum_after_first_match :: bool
  must_liquidate_crossing_minimum :: bool
  must_liquidate_below_minimum :: bool
  has_signing_key :: bool

record 'f xreq =
  xq_type :: nat
  xq_expire_time :: u64
  xq_destination :: bigint
  xq_min_amount :: bigint
  xq_max_amount :: bigint
  xq_open_amount :: bigint
  xq_best_amount :: bigint
  xq_signing_public_key :: "byte list"
  xq_objid :: "byte list"
  xq_seqnum :: int
  xq_linked_seqnum :: int
  xq_best_other_seqnum :: int
  xq_blocktime :: u64
  xq_xreqnum :: u64
  xq_base_asset :: u64
  xq_quote_asset :: u64
  xq_net_rate_required :: 'f
  xq_wait_discount :: 'f
  xq_base_costs :: 'f
  xq_quote_costs :: 'f
  xq_best_rate :: 'f
  xq_consideration_required :: u16
  xq_consideration_offered :: u16
  xq_pledge :: u16
  xq_hold_time :: u16
  xq_hold_time_required :: u16
  xq_min_wait_time :: u16
  xq_accept_time_required :: u16
  xq_accept_time_offered :: u16
  xq_payment_time :: u16
  xq_confirmations :: u16
  xq_flags :: req_flags
  xq_foreign_asset :: string
  xq_foreign_address :: string
  xq_matching_amount :: bigint
  xq_best_other_matching_amount :: bigint
  xq_pending_match_amount :: bigint
  xq_db_search_max_xreqnum :: u64
  xq_db_search_max :: nat
  xq_recalc_time :: u64
  xq_last_matched :: u64
  xq_best_other_xreqnum :: u64
  xq_pending_match_epoch :: u64
  xq_pending_match_order :: u64
  xq_open_rate_required :: 'f
  xq_matching_rate_required :: 'f
  xq_best_net_rate :: 'f
  xq_best_other_net_rate :: 'f
  xq_pending_match_rate :: 'f
  xq_pending_match_hold_time :: u16
  xq_for_testnet :: bool
  xq_for_witness :: bool
  xq_recalc :: bool
  xq_changed :: bool

record 'f xmatchreq =
  mr_destination :: bigint
  mr_open_amount :: bigint
  mr_signing_public_key :: "byte list"
  mr_objid :: "byte list"
  mr_expire_time :: u64
  mr_delete_time :: u64
  mr_xreqnum :: u64
  mr_base_asset :: u64
  mr_quote_asset :: u64
  mr_min_amount :: bigint
  mr_max_amount :: bigint
  mr_net_rate_required :: 'f
  mr_wait_discount :: 'f
  mr_base_costs :: 'f
  mr_quote_costs :: 'f
  mr_type :: nat
  mr_disposition :: nat
  mr_consideration_required :: u16
  mr_consideration_offered :: u16
  mr_match_consideration :: u16
  mr_pledge :: u16
  mr_hold_time :: u16
  mr_hold_time_required :: u16
  mr_min_wait_time :: u16
  mr_accept_time_required :: u16
  mr_accept_time_offered :: u16
  mr_payment_time :: u16
  mr_confirmations :: u16
  mr_have_matching :: bool
  mr_flags :: req_flags
  mr_foreign_asset :: string
  mr_foreign_address :: string

definition XMATCH_REQ_DISPOSITION_VOID :: nat where "XMATCH_REQ_DISPOSITION_VOID = 0"
definition XMATCH_REQ_DISPOSITION_CANCELLED_REM :: nat where "XMATCH_REQ_DISPOSITION_CANCELLED_REM = 2"
definition XMATCH_REQ_DISPOSITION_EXPIRED_ALL :: nat where "XMATCH_REQ_DISPOSITION_EXPIRED_ALL = 3"
definition XMATCH_REQ_DISPOSITION_EXPIRED_REM :: nat where "XMATCH_REQ_DISPOSITION_EXPIRED_REM = 4"
definition XMATCH_REQ_DISPOSITION_OPEN_ALL :: nat where "XMATCH_REQ_DISPOSITION_OPEN_ALL = 5"
definition XMATCH_REQ_DISPOSITION_OPEN_PART :: nat where "XMATCH_REQ_DISPOSITION_OPEN_PART = 6"
definition XMATCH_REQ_DISPOSITION_MATCHED_PART :: nat where "XMATCH_REQ_DISPOSITION_MATCHED_PART = 7"
definition XMATCH_REQ_DISPOSITION_MATCHED_ALL :: nat where "XMATCH_REQ_DISPOSITION_MATCHED_ALL = 8"

lemmas disposition_consts = XMATCH_REQ_DISPOSITION_VOID_def XMATCH_REQ_DISPOSITION_CANCELLED_REM_def
  XMATCH_REQ_DISPOSITION_EXPIRED_ALL_def XMATCH_REQ_DISPOSITION_EXPIRED_REM_def XMATCH_REQ_DISPOSITION_OPEN_ALL_def
  XMATCH_REQ_DISPOSITION_OPEN_PART_def XMATCH_REQ_DISPOSITION_MATCHED_PART_def XMATCH_REQ_DISPOSITION_MATCHED_ALL_def

definition xreq_disposition :: "'f xreq \<Rightarrow> nat" where
  "xreq_disposition xreq =
     (if \<not> big_true (xq_open_amount xreq) \<and> \<not> big_true (xq_max_amount xreq) then XMATCH_REQ_DISPOSITION_EXPIRED_ALL
      else if xq_open_amount xreq = xq_max_amount xreq then XMATCH_REQ_DISPOSITION_OPEN_ALL
      else if big_true (xq_open_amount xreq) \<and> xq_foreign_address xreq \<noteq> [] then XMATCH_REQ_DISPOSITION_MATCHED_PART
      else if big_true (xq_open_amount xreq) then XMATCH_REQ_DISPOSITION_OPEN_PART
      else XMATCH_REQ_DISPOSITION_MATCHED_ALL)"

definition Xmatchreq_Init :: "'f xreq \<Rightarrow> 'f xreq \<Rightarrow> 'f xmatchreq outcome" where
  "Xmatchreq_Init xreq other =
     (if xq_xreqnum xreq \<noteq> xq_xreqnum other \<and>
         \<not> (xq_best_other_seqnum xreq = xq_seqnum other \<and>
            xq_consideration_offered xreq \<ge> xq_consideration_required other \<and>
            xq_accept_time_required xreq \<le> xq_accept_time_offered other)
      then Inl AssertFail
      else Inr
       \<lparr>mr_destination = xq_destination xreq,
        mr_open_amount = xq_open_amount xreq,
        mr_signing_public_key = xq_signing_public_key xreq,
        mr_objid = xq_objid xreq,
        mr_expire_time = xq_expire_time xreq,
        mr_delete_time = xq_expire_time xreq + ucast (xq_payment_time xreq),
        mr_xreqnum = xq_xreqnum xreq,
        mr_base_asset = xq_base_asset xreq,
        mr_quote_asset = xq_quote_asset xreq,
        mr_min_amount = xq_min_amount xreq,
        mr_max_amount = xq_max_amount xreq,
        mr_net_rate_required = xq_net_rate_required xreq,
        mr_wait_discount = xq_wait_discount xreq,
        mr_base_costs = xq_base_costs xreq,
        mr_quote_costs = xq_quote_costs xreq,
        mr_type = xq_type xreq,
        mr_disposition = xreq_disposition xreq,
        mr_consideration_required = xq_consideration_required xreq,
        mr_consideration_offered = xq_consideration_offered xreq,
        mr_match_consideration = xq_consideration_required other,
        mr_pledge = xq_pledge xreq,
        mr_hold_time = xq_hold_time xreq,
        mr_hold_time_required = xq_hold_time_required xreq,
        mr_min_wait_time = xq_min_wait_time xreq,
        mr_accept_time_required = xq_accept_time_required xreq,
        mr_accept_time_offered = xq_accept_time_offered xreq,
        mr_payment_time = xq_payment_time xreq,
        mr_confirmations = xq_confirmations xreq,
        mr_have_matching = True,
        mr_flags = xq_flags xreq,
        mr_foreign_asset = xq_foreign_asset xreq,
        mr_foreign_address = xq_foreign_address xreq\<rparr>)"

definition IsOpen :: "'f xmatchreq \<Rightarrow> bool" where
  "IsOpen m = (mr_disposition m = XMATCH_REQ_DISPOSITION_VOID \<or> mr_disposition m = XMATCH_REQ_DISPOSITION_OPEN_ALL \<or>
     mr_disposition m = XMATCH_REQ_DISPOSITION_OPEN_PART)"

definition IsClosed :: "'f xmatchreq \<Rightarrow> bool" where
  "IsClosed m = (\<not> IsOpen m)"

definition HasMatches :: "'f xmatchreq \<Rightarrow> bool" where
  "HasMatches m = (mr_disposition m = XMATCH_REQ_DISPOSITION_CANCELLED_REM \<or>
     mr_disposition m = XMATCH_REQ_DISPOSITION_EXPIRED_REM \<or> mr_disposition m = XMATCH_REQ_DISPOSITION_OPEN_PART \<or>
     mr_disposition m = XMATCH_REQ_DISPOSITION_MATCHED_PART \<or> mr_disposition m = XMATCH_REQ_DISPOSITION_MATCHED_ALL)"

definition ExpectingFunds :: "'f xmatchreq \<Rightarrow> bool" where
  "ExpectingFunds m = (mr_type m \<noteq> CC_TYPE_XCX_NAKED_BUY \<and> mr_disposition m \<noteq> XMATCH_REQ_DISPOSITION_MATCHED_ALL)"

section \<open>Matches\<close>

definition XMATCH_STATUS_ACCEPTED :: nat where "XMATCH_STATUS_ACCEPTED = 6"
definition XMATCH_STATUS_PART_PAID_OPEN :: nat where "XMATCH_STATUS_PART_PAID_OPEN = 7"
definition XMATCH_STATUS_PART_PAID_EXPIRED :: nat where "XMATCH_STATUS_PART_PAID_EXPIRED = 8"
definition XMATCH_STATUS_PAID :: nat where "XMATCH_STATUS_PAID = 9"
definition XMATCH_STATUS_UNPAID_EXPIRED :: nat where "XMATCH_STATUS_UNPAID_EXPIRED = 10"
definition MINED_ASSET :: u64 where "MINED_ASSET = 0"

lemmas status_consts = XMATCH_STATUS_ACCEPTED_def XMATCH_STATUS_PART_PAID_OPEN_def XMATCH_STATUS_PART_PAID_EXPIRED_def
  XMATCH_STATUS_PAID_def XMATCH_STATUS_UNPAID_EXPIRED_def

record 'f xmatch =
  xm_type :: nat
  xm_status :: nat
  xm_xmatchnum :: u64
  xm_next_deadline :: u64
  xm_match_timestamp :: u64
  xm_accept_timestamp :: u64
  xm_final_timestamp :: u64
  xm_base_amount :: bigint
  xm_rate :: 'f
  xm_amount_paid :: 'f
  xm_mining_amount :: 'f
  xm_have_xreqs :: bool
  xm_accept_time :: u16
  xm_match_pledge :: u16
  xm_xbuy :: "'f xmatchreq"
  xm_xsell :: "'f xmatchreq"

text \<open>\<open>xmatchnum\<close> is kept: \<open>Init\<close> does not set it.\<close>

definition Xmatch_Init :: "'f ufops \<Rightarrow> u64 \<Rightarrow> u64 \<Rightarrow> 'f xreq \<Rightarrow> 'f xreq \<Rightarrow> 'f xmatch outcome" where
  "Xmatch_Init U xmatchnum matchtime buyer seller =
     (if \<not> (xq_base_asset buyer = xq_base_asset seller \<and> xq_quote_asset buyer = xq_quote_asset seller \<and>
            xq_foreign_asset buyer = xq_foreign_asset seller \<and> xq_best_amount buyer = xq_best_amount seller \<and>
            uf_eq U (xq_best_rate buyer) (xq_best_rate seller) \<and> xq_pledge buyer \<ge> xq_pledge seller \<and>
            xq_payment_time buyer \<ge> xq_payment_time seller)
      then Inl AssertFail
      else bind_outcome (Xmatchreq_Init buyer seller) (\<lambda>xbuy.
           bind_outcome (Xmatchreq_Init seller buyer) (\<lambda>xsell.
        let accept_time = max (xq_accept_time_required buyer) (xq_accept_time_required seller);
            next_deadline = matchtime + ucast (xq_payment_time seller)
        in if accept_time \<noteq> 0 then Inl AssertFail
           else if \<not> (mr_have_matching xbuy \<and> mr_have_matching xsell \<and>
                    auto_accept_matches (mr_flags xbuy) \<and> auto_accept_matches (mr_flags xsell))
           then Inl AssertFail
           else let xbuy = (if mr_delete_time xbuy < next_deadline then xbuy\<lparr>mr_delete_time := next_deadline\<rparr> else xbuy)
             in if mr_delete_time xsell < next_deadline \<and> mr_foreign_address xsell \<noteq> [] then Inl AssertFail
                else let xsell = (if mr_delete_time xsell < next_deadline then xsell\<lparr>mr_delete_time := next_deadline\<rparr> else xsell)
                  in Inr \<lparr>xm_type = xq_type buyer,
                          xm_status = XMATCH_STATUS_ACCEPTED,
                          xm_xmatchnum = xmatchnum,
                          xm_next_deadline = next_deadline,
                          xm_match_timestamp = matchtime,
                          xm_accept_timestamp = matchtime,
                          xm_final_timestamp = 0,
                          xm_base_amount = xq_best_amount buyer,
                          xm_rate = xq_best_rate buyer,
                          xm_amount_paid = uf_zero U,
                          xm_mining_amount = uf_zero U,
                          xm_have_xreqs = True,
                          xm_accept_time = accept_time,
                          xm_match_pledge = xq_pledge buyer,
                          xm_xbuy = xbuy,
                          xm_xsell = xsell\<rparr>)))"

definition QuoteAmount :: "'f ufops \<Rightarrow> 'f xmatch \<Rightarrow> 'f" where
  "QuoteAmount U m = uf_mul U 1 (uf_asset U (mr_base_asset (xm_xsell m)) (xm_base_amount m)) (xm_rate m)"

text \<open>\<open>AmountToPay\<close> with its argument \<open>roundup\<close> false, as the node calls it.\<close>

definition AmountToPay :: "'f ufops \<Rightarrow> 'f xmatch \<Rightarrow> 'f" where
  "AmountToPay U m =
     (if xm_status m = XMATCH_STATUS_PAID then uf_zero U
      else let amount = uf_add U 1 (QuoteAmount U m) (uf_neg U (xm_amount_paid m))
        in if uf_less U amount (uf_zero U) then uf_zero U else amount)"

section \<open>Properties\<close>

lemma Xmatchreq_Init_cases:
  "Xmatchreq_Init xreq other = Inr m \<Longrightarrow>
    mr_have_matching m \<and> mr_pledge m = xq_pledge xreq \<and> mr_flags m = xq_flags xreq \<and>
    mr_base_asset m = xq_base_asset xreq \<and> mr_foreign_address m = xq_foreign_address xreq \<and>
    mr_destination m = xq_destination xreq"
  by (auto simp: Xmatchreq_Init_def split: if_splits)

text \<open>
  A new match is accepted at once, pays by the seller's payment time, carries the buyer's pledge,
  which is at least what the seller asks for, and both copies of the requests it refers to are kept
  until its payment deadline, so that settlement finds their destinations.
\<close>

lemma Xmatch_Init_kept:
  assumes "Xmatch_Init U n t buyer seller = Inr m"
  shows "xm_status m = XMATCH_STATUS_ACCEPTED \<and>
    xm_next_deadline m = t + ucast (xq_payment_time seller) \<and>
    xm_next_deadline m \<le> mr_delete_time (xm_xbuy m) \<and> xm_next_deadline m \<le> mr_delete_time (xm_xsell m) \<and>
    xm_match_pledge m = mr_pledge (xm_xbuy m) \<and> mr_pledge (xm_xsell m) \<le> xm_match_pledge m \<and>
    mr_base_asset (xm_xbuy m) = mr_base_asset (xm_xsell m) \<and>
    mr_destination (xm_xbuy m) = xq_destination buyer \<and> mr_destination (xm_xsell m) = xq_destination seller \<and>
    mr_have_matching (xm_xbuy m) \<and> mr_have_matching (xm_xsell m)"
proof -
  obtain xbuy xsell where x: "Xmatchreq_Init buyer seller = Inr xbuy" "Xmatchreq_Init seller buyer = Inr xsell"
    using assms by (auto simp: Xmatch_Init_def bind_outcome_eq_Inr split: if_splits)
  show ?thesis
    using assms Xmatchreq_Init_cases [OF x(1)] Xmatchreq_Init_cases [OF x(2)]
    by (auto simp: Xmatch_Init_def x Let_def split: if_splits)
qed

definition sample_flags :: req_flags where
  "sample_flags = \<lparr>add_immediately_to_blockchain = False, auto_accept_matches = True, no_minimum_after_first_match = False,
     must_liquidate_crossing_minimum = False, must_liquidate_below_minimum = False, has_signing_key = False\<rparr>"

text \<open>Sample requests over integers as floating-point numbers, for the witnesses.\<close>

definition int_ufops :: "int ufops" where
  "int_ufops = \<lparr>uf_lit = (\<lambda>m e. if e < 0 then m div 10 ^ nat (- e) else m * 10 ^ nat e),
     uf_add = (\<lambda>_ a b. a + b), uf_mul = (\<lambda>_ a b. a * b), uf_div = (\<lambda>_ a b. a div b), uf_neg = uminus,
     uf_less = (<), uf_eq = (=), uf_asset = (\<lambda>_ b. int (bval b)), uf_amount = (\<lambda>_ f. (False, big_of_nat (nat f))),
     uf_max = 10 ^ 30, uf_average = (\<lambda>a b. (a + b) div 2), uf_power = (\<lambda>a n. a ^ nat n), uf_check_le = (\<le>)\<rparr>"

definition sample_xreq :: "nat \<Rightarrow> int \<Rightarrow> int \<Rightarrow> u64 \<Rightarrow> int xreq" where
  "sample_xreq ty sn other num = \<lparr>xq_type = ty, xq_expire_time = 1000, xq_destination = big_of_nat (7 + unat num),
     xq_min_amount = big_of_nat 10, xq_max_amount = big_of_nat 1000, xq_open_amount = big_of_nat 0,
     xq_best_amount = big_of_nat 1000, xq_signing_public_key = [], xq_objid = [], xq_seqnum = sn, xq_linked_seqnum = 0,
     xq_best_other_seqnum = other, xq_blocktime = 500, xq_xreqnum = num, xq_base_asset = 0, xq_quote_asset = 2,
     xq_net_rate_required = 3, xq_wait_discount = 0, xq_base_costs = 0, xq_quote_costs = 0, xq_best_rate = 3,
     xq_consideration_required = 0, xq_consideration_offered = 0, xq_pledge = 50, xq_hold_time = 60,
     xq_hold_time_required = 0, xq_min_wait_time = 0, xq_accept_time_required = 0, xq_accept_time_offered = 0,
     xq_payment_time = 900, xq_confirmations = 2, xq_flags = sample_flags, xq_foreign_asset = [], xq_foreign_address = [],
     xq_matching_amount = big_of_nat 0, xq_best_other_matching_amount = big_of_nat 0, xq_pending_match_amount = big_of_nat 0,
     xq_db_search_max_xreqnum = 0, xq_db_search_max = 0, xq_recalc_time = 0, xq_last_matched = 0, xq_best_other_xreqnum = 0, xq_pending_match_epoch = 0,
     xq_pending_match_order = 0, xq_open_rate_required = 0, xq_matching_rate_required = 0, xq_best_net_rate = 0,
     xq_best_other_net_rate = 0, xq_pending_match_rate = 0, xq_pending_match_hold_time = 0, xq_for_testnet = False,
     xq_for_witness = False, xq_recalc = False, xq_changed = False\<rparr>"

lemmas sample_simps = sample_xreq_def sample_flags_def int_ufops_def

lemma Xmatch_Init_kept_witness:
  "\<exists>m. Xmatch_Init int_ufops 1 600 (sample_xreq 6 1 2 11) (sample_xreq 7 2 1 12) = Inr m \<and>
     xm_status m = XMATCH_STATUS_ACCEPTED \<and> xm_next_deadline m \<le> mr_delete_time (xm_xbuy m)"
proof -
  obtain m where "Xmatch_Init int_ufops 1 600 (sample_xreq 6 1 2 11) (sample_xreq 7 2 1 12) = Inr m"
    by (simp add: Xmatch_Init_def Xmatchreq_Init_def sample_simps Let_def)
  then show ?thesis using Xmatch_Init_kept by blast
qed

text \<open>
  The disposition recorded for a request is open exactly when something of it is left to match and
  it may match again: either nothing was matched yet, or it has no foreign address (a crosschain
  sale matches once).
\<close>

lemma Xmatchreq_Init_open:
  assumes "Xmatchreq_Init xreq other = Inr m"
  shows "IsOpen m \<longleftrightarrow> 0 < bval (xq_open_amount xreq) \<and>
    (xq_open_amount xreq = xq_max_amount xreq \<or> xq_foreign_address xreq = [])"
  using assms
  by (auto simp: Xmatchreq_Init_def IsOpen_def xreq_disposition_def disposition_consts big_true_iff split: if_splits)

end
