(* ===== verification/Mining.thy ===== *)
theory Mining
  imports Exchange
begin

text \<open>
  Exchange mining (ccnode/src/exchange_mining.cpp): the mined currency that settlement adds to a paid
  match. The state is the set of parameters that is stored with the block chain (\<open>saved\<close>), the copy
  of it for readers, and the update counters. Amounts of currency are big integers; rates, weights
  and the amounts that steer the schedule are floating-point numbers of the parameter type \<open>'f\<close>.
\<close>

record 'f mining_stats =
  avg_amount :: 'f
  avg_amount_weight :: 'f
  avg_match_rate_required :: 'f
  avg_match_rate_required_weight :: 'f
  avg_match_rate :: 'f
  avg_match_rate_weight :: 'f

record 'f mining_params =
  total_mined :: bigint
  total_remaining_to_mine :: bigint
  mp_stats :: "'f mining_stats"
  mining_remaining_fraction_per_interval :: 'f
  mining_min_amount_per_interval :: 'f
  mining_max_currently_mineable_intervals :: 'f
  last_nominal_mineable_amount_increase :: 'f
  currently_mineable_amount :: 'f
  max_currently_mineable_amount :: 'f
  mining_short_decay_factor :: 'f
  mining_long_decay_factor :: 'f
  mining_amount_multiplier :: 'f
  mining_max_fraction_per_match :: 'f
  mining_min_fraction_per_match :: 'f
  mining_period :: u64
  mining_update_time_increment :: u16

record 'f mining =
  saved :: "'f mining_params"
  copy_params :: "'f mining_params"
  saved_data_update_counter :: u32
  copy_data_update_counter :: u32
  mining_start_time :: u64
  mined_asset :: u64

definition XCX_MATCHING_SECS_PER_EPOCH :: u64 where
  "XCX_MATCHING_SECS_PER_EPOCH = 20"

definition zero_mining_params :: "bigops \<Rightarrow> 'f ufops \<Rightarrow> 'f mining_params" where
  "zero_mining_params B U =
     (let z = uf_zero U
      in \<lparr>total_mined = ofULong B 0, total_remaining_to_mine = ofULong B 0,
          mp_stats = \<lparr>avg_amount = z, avg_amount_weight = z, avg_match_rate_required = z,
            avg_match_rate_required_weight = z, avg_match_rate = z, avg_match_rate_weight = z\<rparr>,
          mining_remaining_fraction_per_interval = z, mining_min_amount_per_interval = z,
          mining_max_currently_mineable_intervals = z, last_nominal_mineable_amount_increase = z,
          currently_mineable_amount = z, max_currently_mineable_amount = z, mining_short_decay_factor = z,
          mining_long_decay_factor = z, mining_amount_multiplier = z, mining_max_fraction_per_match = z,
          mining_min_fraction_per_match = z, mining_period = 0, mining_update_time_increment = 0\<rparr>)"

definition Mining_Init :: "bigops \<Rightarrow> 'f ufops \<Rightarrow> bool \<Rightarrow> 'f mining" where
  "Mining_Init B U testnet =
     (let lit = uf_lit U;
          start = (if testnet then 1718193600 else 1718467200);
          start = (start + (XCX_MATCHING_SECS_PER_EPOCH - 1)) div XCX_MATCHING_SECS_PER_EPOCH * XCX_MATCHING_SECS_PER_EPOCH;
          stats = \<lparr>avg_amount = lit 500 0, avg_amount_weight = lit 100 0,
                   avg_match_rate_required = lit 2 (-4),
                   avg_match_rate_required_weight = uf_mul U 0 (lit 100 0) (lit 500 0),
                   avg_match_rate = lit 2 (-4), avg_match_rate_weight = uf_zero U\<rparr>;
          p = \<lparr>total_mined = ofULong B 0,
               total_remaining_to_mine = snd (uf_amount U MINED_ASSET (lit 2 9)),
               mp_stats = stats,
               mining_remaining_fraction_per_interval = lit 17583627 (-13),
               mining_min_amount_per_interval = lit 100 0,
               mining_max_currently_mineable_intervals = uf_div U 1 (lit 3600 0) (lit 240 0),
               last_nominal_mineable_amount_increase = uf_zero U,
               currently_mineable_amount = uf_zero U,
               max_currently_mineable_amount = uf_zero U,
               mining_short_decay_factor = lit 97716 (-5),
               mining_long_decay_factor = lit 99615659 (-8),
               mining_amount_multiplier = lit 1 0,
               mining_max_fraction_per_match = lit 5 (-2),
               mining_min_fraction_per_match = lit 1 (-2),
               mining_period = 0,
               mining_update_time_increment = 240\<rparr>
      in \<lparr>saved = p, copy_params = zero_mining_params B U,
          saved_data_update_counter = 0, copy_data_update_counter = -1,
          mining_start_time = start, mined_asset = MINED_ASSET\<rparr>)"

definition SnapshotMiningParams :: "'f mining \<Rightarrow> 'f mining" where
  "SnapshotMiningParams m = m\<lparr>copy_params := saved m, copy_data_update_counter := saved_data_update_counter m\<rparr>"

text \<open>
  \<open>ins\<close> is the database call \<open>ParameterInsert(DB_KEY_XMINING, ...)\<close>, with its result code and
  the database after it.
\<close>

definition SaveMining ::
  "bool \<Rightarrow> ('f mining_params \<Rightarrow> 'db \<Rightarrow> int \<times> 'db) \<Rightarrow> 'f mining \<Rightarrow> 'db \<Rightarrow> int \<times> 'f mining \<times> 'db" where
  "SaveMining shutdown ins m db =
     (if shutdown then (0, m, db)
      else if saved_data_update_counter m = copy_data_update_counter m then (0, m, db)
      else let (rc, db) = ins (saved m) db in (rc, SnapshotMiningParams m, db))"

text \<open>\<open>stored\<close> is what \<open>ParameterSelect\<close> leaves in the buffer \<open>copy\<close>, and \<open>rc\<close> its result code.\<close>

definition RestoreMining :: "int \<Rightarrow> 'f mining_params \<Rightarrow> 'f mining \<Rightarrow> int \<times> 'f mining" where
  "RestoreMining rc stored m =
     (if rc < 0 then (-1, m\<lparr>copy_params := stored\<rparr>)
      else if rc = 0 then (0, m\<lparr>copy_params := stored, saved := stored\<rparr>)
      else (0, m\<lparr>copy_params := stored\<rparr>))"

definition GetMiningParams :: "'f mining \<Rightarrow> 'f mining_params" where
  "GetMiningParams m = copy_params m"

definition UpdateWeightedAverage :: "'f ufops \<Rightarrow> 'f \<Rightarrow> 'f \<Rightarrow> 'f \<Rightarrow> 'f \<Rightarrow> 'f \<times> 'f" where
  "UpdateWeightedAverage U avg weight amt new_weight =
     (let avg = uf_mul U 0 avg weight;
          avg = uf_add U 0 avg amt;
          weight = uf_add U 0 weight new_weight
      in (uf_div U 0 avg weight, weight))"

definition MatchRateRequired :: "'f ufops \<Rightarrow> bool \<Rightarrow> 'f \<Rightarrow> 'f \<Rightarrow> 'f \<Rightarrow> 'f \<Rightarrow> 'f" where
  "MatchRateRequired U is_buyer base_costs quote_costs net_rate_required base_amount =
     (let sgn = (\<lambda>x. if is_buyer then uf_neg U x else x)
      in if uf_eq U base_amount (uf_zero U) then sgn (uf_max U)
         else let result = uf_add U 0 base_amount (sgn base_costs);
                  result = uf_mul U 0 result net_rate_required;
                  result = uf_add U 0 result (sgn quote_costs);
                  result = uf_div U 0 result base_amount
           in if (is_buyer \<and> uf_less U net_rate_required result) \<or> (\<not> is_buyer \<and> uf_less U result net_rate_required)
              then net_rate_required else result)"

text \<open>
  \<open>UpdateMiningStats\<close> returns true if the match is not mineable; its reference arguments
  \<open>base_amount\<close> and \<open>buyer_match_rate_required\<close> are the last two components (used by the caller only
  after a false result).
\<close>

definition UpdateMiningStats :: "'f ufops \<Rightarrow> 'f xmatch \<Rightarrow> 'f mining \<Rightarrow> bool \<times> 'f mining \<times> 'f \<times> 'f" where
  "UpdateMiningStats U match m =
     (let base_amount = uf_asset U (mr_base_asset (xm_xsell match)) (xm_base_amount match);
          zero = uf_zero U
      in if uf_le U base_amount zero then (True, m, base_amount, zero)
         else let st = mp_stats (saved m);
                  (a, w) = UpdateWeightedAverage U (avg_amount st) (avg_amount_weight st) base_amount (uf_lit U 1 0);
                  st = st\<lparr>avg_amount := a, avg_amount_weight := w\<rparr>;
                  m = m\<lparr>saved := (saved m)\<lparr>mp_stats := st\<rparr>\<rparr>
           in if uf_less U base_amount (uf_mul U 0 (avg_amount st) (uf_lit U 5 (-2))) then (True, m, base_amount, zero)
              else if uf_less U (uf_mul U 0 (avg_amount st) (uf_lit U 2 0)) base_amount then (True, m, base_amount, zero)
              else if uf_le U (mr_net_rate_required (xm_xbuy match)) zero then (True, m, base_amount, zero)
              else let b = xm_xbuy match;
                       rate = MatchRateRequired U (TypeIsBuyer (mr_type b)) (mr_base_costs b) (mr_quote_costs b)
                                (mr_net_rate_required b) base_amount;
                       rate = (if mr_type b = CC_TYPE_XCX_MINING_BUY then uf_mul U 0 rate (uf_lit U 2 0) else rate)
                in if uf_le U rate zero then (True, m, base_amount, rate)
                   else let weighted_rate = uf_mul U 0 base_amount rate;
                            (a, w) = UpdateWeightedAverage U (avg_match_rate_required st)
                                       (avg_match_rate_required_weight st) weighted_rate base_amount;
                            st = st\<lparr>avg_match_rate_required := a, avg_match_rate_required_weight := w\<rparr>
                     in (False, m\<lparr>saved := (saved m)\<lparr>mp_stats := st\<rparr>\<rparr>, base_amount, rate))"

definition mining_period_step :: "'f ufops \<Rightarrow> 'f mining_params \<Rightarrow> 'f mining_params" where
  "mining_period_step U p =
     (let p = p\<lparr>mining_period := mining_period p + 1\<rparr>;
          st = mp_stats p;
          st = st\<lparr>avg_amount_weight := uf_mul U 0 (avg_amount_weight st) (mining_long_decay_factor p),
                  avg_match_rate_required_weight :=
                    uf_mul U 0 (avg_match_rate_required_weight st) (mining_short_decay_factor p),
                  avg_match_rate_weight := uf_mul U 0 (avg_match_rate_weight st) (mining_long_decay_factor p)\<rparr>;
          remaining = uf_asset U MINED_ASSET (total_remaining_to_mine p);
          inc = uf_mul U 0 remaining (mining_remaining_fraction_per_interval p);
          inc = (if uf_less U inc (mining_min_amount_per_interval p) then mining_min_amount_per_interval p else inc);
          mx = uf_mul U 0 inc (mining_max_currently_mineable_intervals p);
          cur = uf_add U 0 (currently_mineable_amount p) inc;
          cur = (if uf_less U mx cur then mx else cur);
          frac = uf_div U 0 cur mx;
          mult = mining_amount_multiplier p;
          mult = (if uf_less U (uf_lit U 5 (-1)) frac
                  then let mult = uf_add U 0 mult (uf_lit U 2 (-2))
                       in if uf_less U (uf_lit U 1 0) mult then uf_lit U 1 0 else mult
                  else mult)
      in p\<lparr>mp_stats := st, last_nominal_mineable_amount_increase := inc, max_currently_mineable_amount := mx,
           currently_mineable_amount := cur, mining_amount_multiplier := mult\<rparr>)"

function mining_period_loop :: "'f ufops \<Rightarrow> u64 \<Rightarrow> 'f mining_params \<Rightarrow> 'f mining_params" where
  "mining_period_loop U period p =
     (if period > mining_period p then mining_period_loop U period (mining_period_step U p) else p)"
  by pat_completeness auto
termination
proof (relation "measure (\<lambda>(U, period, p). unat period - unat (mining_period p))", goal_cases)
  case 1
  then show ?case by simp
next
  case (2 U period p)
  then have "unat (mining_period p + 1) = unat (mining_period p) + 1" "unat (mining_period p) < unat period"
    using unat_succ_less [of "mining_period p" period] by (auto simp: word_less_nat_alt)
  then show ?case by (simp add: mining_period_step_def Let_def)
qed

declare mining_period_loop.simps [simp del]

text \<open>\<open>UpdateMiningTime\<close> returns true before mining has started.\<close>

definition UpdateMiningTime :: "'f ufops \<Rightarrow> u64 \<Rightarrow> 'f mining \<Rightarrow> (bool \<times> 'f mining) outcome" where
  "UpdateMiningTime U timestamp m =
     (if timestamp < mining_start_time m \<or> mining_start_time m = 0 then Inr (True, m)
      else if mining_update_time_increment (saved m) = 0 then Inl DivideByZero
      else let period = (timestamp - mining_start_time m) div ucast (mining_update_time_increment (saved m)) + 1;
               m = (if period \<noteq> mining_period (saved m)
                    then m\<lparr>saved_data_update_counter := saved_data_update_counter m + 1\<rparr> else m)
        in if \<not> period \<ge> mining_period (saved m) then Inl AssertFail
           else Inr (False, m\<lparr>saved := mining_period_loop U period (saved m)\<rparr>))"

definition ComputeMiningAmount :: "'f ufops \<Rightarrow> 'f \<Rightarrow> 'f \<Rightarrow> 'f mining_params \<Rightarrow> 'f \<times> 'f mining_params" where
  "ComputeMiningAmount U base_amount rate p =
     (let zero = uf_zero U
      in if uf_le U (currently_mineable_amount p) zero then (zero, p)
         else if uf_le U rate (avg_match_rate_required (mp_stats p)) then (zero, p)
         else let frac = uf_div U 0 (currently_mineable_amount p) (max_currently_mineable_amount p);
                  amount = uf_mul U 0 base_amount (mining_amount_multiplier p);
                  mx = uf_mul U 0 (currently_mineable_amount p) (mining_max_fraction_per_match p);
                  min_max = uf_mul U 0 (max_currently_mineable_amount p) (mining_min_fraction_per_match p);
                  min_max = (if uf_less U min_max (uf_lit U 1 0) then uf_lit U 1 0 else min_max);
                  mx = (if uf_less U mx min_max then min_max else mx);
                  amount = (if uf_less U mx amount then mx else amount);
                  amount = (if uf_less U (currently_mineable_amount p) amount then currently_mineable_amount p else amount)
           in if uf_less U amount (uf_lit U 1 0) then (zero, p)
              else let mult = mining_amount_multiplier p;
                       mult = (if uf_less U frac (uf_lit U 5 (-1))
                               then let mult = uf_mul U 0 mult (uf_lit U 98 (-2))
                                    in if uf_less U mult (uf_lit U 1 (-2)) then uf_lit U 1 (-2) else mult
                               else mult)
                in (amount, p\<lparr>mining_amount_multiplier := mult\<rparr>))"

definition not_mining_match :: "'f xmatch \<Rightarrow> bool" where
  "not_mining_match match =
     (let b = xm_xbuy match
      in (mr_type b \<noteq> CC_TYPE_XCX_SIMPLE_BUY \<and> mr_type b \<noteq> CC_TYPE_XCX_MINING_BUY) \<or>
         mr_quote_asset b \<noteq> XREQ_BLOCKCHAIN_BCH \<or> mr_base_asset b \<noteq> 0)"

definition SetMiningAmount :: "'f ufops \<Rightarrow> 'f xmatch \<Rightarrow> 'f mining \<Rightarrow> ('f xmatch \<times> 'f mining) outcome" where
  "SetMiningAmount U match m =
     (if \<not> big_true (total_remaining_to_mine (saved m)) then Inr (match, m)
      else if not_mining_match match then Inr (match, m)
      else if \<not> mr_have_matching (xm_xbuy match) then Inl AssertFail
      else if \<not> big_true (mr_destination (xm_xbuy match)) then Inl AssertFail
      else bind_outcome (UpdateMiningTime U (xm_match_timestamp match) m) (\<lambda>(early, m).
        if early then Inr (match, m)
        else let m = m\<lparr>saved_data_update_counter := saved_data_update_counter m + 1\<rparr>;
                 (skip, m, base_amount, rate) = UpdateMiningStats U match m
          in if skip then Inr (match, m)
             else let (amount, p) = ComputeMiningAmount U base_amount rate (saved m);
                      match = match\<lparr>xm_mining_amount := amount\<rparr>;
                      (rc, _) = uf_amount U MINED_ASSET amount
               in if rc then Inl AssertFail
                  else if \<not> uf_le U amount (currently_mineable_amount p) then Inl AssertFail
                  else Inr (match, m\<lparr>saved := p\<lparr>currently_mineable_amount :=
                         uf_add U 0 (currently_mineable_amount p) (uf_neg U amount)\<rparr>\<rparr>)))"

definition GetAdjustedMiningAmount :: "bigops \<Rightarrow> 'f ufops \<Rightarrow> 'f xmatch \<Rightarrow> 'f mining \<Rightarrow> bigint outcome" where
  "GetAdjustedMiningAmount B U match m =
     (if uf_eq U (xm_mining_amount match) (uf_zero U) then Inr (ofULong B 0)
      else if xm_status match \<noteq> XMATCH_STATUS_PAID then Inl AssertFail
      else let (rc, adj) = uf_amount U MINED_ASSET (xm_mining_amount match)
        in if rc then Inl AssertFail
           else Inr (if op_less B (total_remaining_to_mine (saved m)) adj then total_remaining_to_mine (saved m) else adj))"

definition FinalizeMiningAmount ::
  "bigops \<Rightarrow> 'f ufops \<Rightarrow> 'f xmatch \<Rightarrow> bigint \<Rightarrow> 'f mining \<Rightarrow> ('f xmatch \<times> 'f mining) outcome" where
  "FinalizeMiningAmount B U match adj m =
     (if uf_eq U (xm_mining_amount match) (uf_zero U) then Inr (match, m)
      else if xm_status match \<noteq> XMATCH_STATUS_PAID then Inl AssertFail
      else let match = match\<lparr>xm_mining_amount := uf_asset U MINED_ASSET adj\<rparr>;
               m = m\<lparr>saved_data_update_counter := saved_data_update_counter m + 1\<rparr>;
               p = saved m
        in if op_less B (total_remaining_to_mine p) adj then Inl AssertFail
           else let p = p\<lparr>total_remaining_to_mine := op_sub B (total_remaining_to_mine p) adj,
                          total_mined := op_add B (total_mined p) adj\<rparr>;
                    p = (if \<not> big_true (total_remaining_to_mine p) then p\<lparr>currently_mineable_amount := uf_zero U\<rparr> else p)
             in Inr (match, m\<lparr>saved := p\<rparr>))"

definition UpdateMatchStats :: "'f ufops \<Rightarrow> 'f xmatch \<Rightarrow> bigint \<Rightarrow> 'f mining \<Rightarrow> 'f mining" where
  "UpdateMatchStats U match buyer_amount m =
     (if not_mining_match match then m
      else if \<not> big_true buyer_amount then m
      else let base_amount = uf_asset U (mr_base_asset (xm_xbuy match)) buyer_amount;
               rate = uf_div U 0 (xm_amount_paid match) base_amount;
               weighted_rate = uf_mul U 0 base_amount rate;
               st = mp_stats (saved m);
               (a, w) = UpdateWeightedAverage U (avg_match_rate st) (avg_match_rate_weight st) weighted_rate base_amount
        in m\<lparr>saved := (saved m)\<lparr>mp_stats := st\<lparr>avg_match_rate := a, avg_match_rate_weight := w\<rparr>\<rparr>\<rparr>)"

section \<open>Properties\<close>

definition mining_wf :: "'f mining_params \<Rightarrow> bool" where
  "mining_wf p \<longleftrightarrow> wf_bigint (total_mined p) \<and> wf_bigint (total_remaining_to_mine p)"

definition mining_total :: "'f mining_params \<Rightarrow> nat" where
  "mining_total p = bval (total_mined p) + bval (total_remaining_to_mine p)"

definition mining_same_totals :: "'f mining_params \<Rightarrow> 'f mining_params \<Rightarrow> bool" where
  "mining_same_totals p q \<longleftrightarrow> total_mined q = total_mined p \<and> total_remaining_to_mine q = total_remaining_to_mine p"

lemma same_totals_trans: "mining_same_totals p q \<Longrightarrow> mining_same_totals q r \<Longrightarrow> mining_same_totals p r"
  by (simp add: mining_same_totals_def)

lemma mining_period_step_totals: "mining_same_totals p (mining_period_step U p)"
  by (simp add: mining_same_totals_def mining_period_step_def Let_def)

lemma mining_period_loop_period:
  "mining_period p \<le> period \<Longrightarrow> mining_period (mining_period_loop U period p) = period"
proof (induction U period p rule: mining_period_loop.induct)
  case (1 U period p)
  show ?case
  proof (cases "mining_period p < period")
    case True
    have "mining_period (mining_period_step U p) = mining_period p + 1"
      by (simp add: mining_period_step_def Let_def)
    moreover have "mining_period p + 1 \<le> period"
      using True by (simp add: inc_le)
    ultimately have "mining_period (mining_period_loop U period (mining_period_step U p)) = period"
      using True by (intro "1.IH") auto
    then show ?thesis using True by (simp add: mining_period_loop.simps [of U period p])
  next
    case False
    then show ?thesis using "1.prems" by (simp add: mining_period_loop.simps [of U period p])
  qed
qed

lemma mining_period_loop_totals: "mining_same_totals p (mining_period_loop U period p)"
proof (induction U period p rule: mining_period_loop.induct)
  case (1 U period p)
  then show ?case
    using same_totals_trans [OF mining_period_step_totals]
    by (subst mining_period_loop.simps) (auto simp: mining_same_totals_def)
qed

lemmas mining_loop_keeps [simp] = mining_period_loop_totals [unfolded mining_same_totals_def, THEN conjunct1]
  mining_period_loop_totals [unfolded mining_same_totals_def, THEN conjunct2]

lemma UpdateMiningTime_totals:
  "UpdateMiningTime U t m = Inr (b, m') \<Longrightarrow> mining_same_totals (saved m) (saved m')"
  by (auto simp: UpdateMiningTime_def Let_def mining_same_totals_def split: if_splits)

lemma UpdateMiningStats_totals:
  "UpdateMiningStats U match m = (b, m', x, y) \<Longrightarrow> mining_same_totals (saved m) (saved m')"
  by (auto simp: UpdateMiningStats_def Let_def mining_same_totals_def split: if_splits prod.splits)

lemma ComputeMiningAmount_totals:
  "ComputeMiningAmount U x y p = (a, p') \<Longrightarrow> mining_same_totals p p'"
  by (auto simp: ComputeMiningAmount_def Let_def mining_same_totals_def split: if_splits)

lemma SetMiningAmount_totals:
  assumes "SetMiningAmount U match m = Inr (match', m')"
  shows "mining_same_totals (saved m) (saved m')"
proof (cases "match' = match \<and> m' = m")
  case True
  then show ?thesis by (simp add: mining_same_totals_def)
next
  case False
  then obtain early m1 where u: "UpdateMiningTime U (xm_match_timestamp match) m = Inr (early, m1)"
    using assms by (auto simp: SetMiningAmount_def bind_outcome_eq_Inr split: if_splits)
  let ?m1 = "m1\<lparr>saved_data_update_counter := saved_data_update_counter m1 + 1\<rparr>"
  obtain sk m2 base rate where s: "UpdateMiningStats U match ?m1 = (sk, m2, base, rate)"
    by (cases "UpdateMiningStats U match ?m1") auto
  obtain a p where c: "ComputeMiningAmount U base rate (saved m2) = (a, p)" by fastforce
  have t: "mining_same_totals (saved m) (saved m1)" "mining_same_totals (saved m1) (saved m2)"
    "mining_same_totals (saved m2) p"
    using UpdateMiningTime_totals [OF u] UpdateMiningStats_totals [OF s] ComputeMiningAmount_totals [OF c] by auto
  show ?thesis
    using assms u s c t False
    by (auto simp: SetMiningAmount_def Let_def mining_same_totals_def split: if_splits prod.splits)
qed

lemma UpdateMatchStats_totals: "mining_same_totals (saved m) (saved (UpdateMatchStats U match a m))"
  by (auto simp: UpdateMatchStats_def Let_def mining_same_totals_def split: prod.splits)

lemma FinalizeMiningAmount_totals:
  assumes B: "bigint_lib B" and m: "mining_wf (saved m)" "mining_total (saved m) < field_prime" "wf_bigint adj"
    and f: "FinalizeMiningAmount B U match adj m = Inr (match', m')"
  shows "mining_wf (saved m')" "mining_total (saved m') = mining_total (saved m)"
    "bval (total_mined (saved m')) = bval (total_mined (saved m)) +
      (if uf_eq U (xm_mining_amount match) (uf_zero U) then 0 else bval adj)"
proof -
  let ?p = "saved m"
  have wf: "wf_bigint (total_mined ?p)" "wf_bigint (total_remaining_to_mine ?p)"
    using m(1) by (auto simp: mining_wf_def)
  note ops = bigint_lib.wf_ops [OF B] bigint_lib.less_iff [OF B]
  show "mining_wf (saved m')"
    using f wf m(3) by (auto simp: FinalizeMiningAmount_def Let_def mining_wf_def ops split: if_splits)
  have "bval (op_sub B (total_remaining_to_mine ?p) adj) = bval (total_remaining_to_mine ?p) - bval adj"
    "bval (op_add B (total_mined ?p) adj) = bval (total_mined ?p) + bval adj"
    if "bval adj \<le> bval (total_remaining_to_mine ?p)"
    using that wf m(2,3) bigint_lib.val_sub [OF B] bigint_lib.val_add [OF B]
    by (simp_all add: mining_total_def)
  then show "mining_total (saved m') = mining_total ?p"
    "bval (total_mined (saved m')) = bval (total_mined ?p) +
      (if uf_eq U (xm_mining_amount match) (uf_zero U) then 0 else bval adj)"
    using f wf m(3)
    by (auto simp: FinalizeMiningAmount_def Let_def mining_total_def ops not_less split: if_splits)
qed

text \<open>
  C28. The mining schedule neither makes nor loses currency: every operation that changes its state
  keeps the sum of what was mined and what remains to be mined. Setting a mining amount, updating
  the statistics and advancing the time keep both parts; settling a match moves from the remaining
  to the mined part exactly the amount settled.
\<close>

theorem mining_conserved:
  assumes "bigint_lib B" "mining_wf (saved m)" "mining_total (saved m) < field_prime" "wf_bigint adj"
  shows "(\<forall>match'. SetMiningAmount U match m = Inr (match', m') \<longrightarrow> mining_same_totals (saved m) (saved m')) \<and>
    (\<forall>b. UpdateMiningTime U t m = Inr (b, m') \<longrightarrow> mining_same_totals (saved m) (saved m')) \<and>
    mining_same_totals (saved m) (saved (UpdateMatchStats U match a m)) \<and>
    (\<forall>match'. FinalizeMiningAmount B U match adj m = Inr (match', m') \<longrightarrow>
      mining_wf (saved m') \<and> mining_total (saved m') = mining_total (saved m) \<and>
      bval (total_mined (saved m')) = bval (total_mined (saved m)) +
        (if uf_eq U (xm_mining_amount match) (uf_zero U) then 0 else bval adj))"
  by (intro conjI allI impI)
    (rule SetMiningAmount_totals UpdateMiningTime_totals UpdateMatchStats_totals FinalizeMiningAmount_totals [OF assms], assumption?)+

definition sample_match :: "int xmatch" where
  "sample_match = (case Xmatch_Init int_ufops 1 600 (sample_xreq 6 1 2 11) (sample_xreq 7 2 1 12) of
     Inr m \<Rightarrow> m\<lparr>xm_status := XMATCH_STATUS_PAID, xm_amount_paid := 3000, xm_mining_amount := 40\<rparr> | Inl _ \<Rightarrow> undefined)"

lemma sample_match_fields:
  "xm_status sample_match = XMATCH_STATUS_PAID" "xm_mining_amount sample_match = 40" "xm_amount_paid sample_match = 3000"
  "xm_base_amount sample_match = big_of_nat 1000" "xm_match_pledge sample_match = 50"
  "mr_pledge (xm_xbuy sample_match) = 50" "mr_base_asset (xm_xbuy sample_match) = 0"
  "mr_base_asset (xm_xsell sample_match) = 0"
  "mr_destination (xm_xbuy sample_match) = big_of_nat 18" "mr_destination (xm_xsell sample_match) = big_of_nat 19"
  "mr_have_matching (xm_xbuy sample_match)" "mr_have_matching (xm_xsell sample_match)"
  "mr_type (xm_xbuy sample_match) = 6" "mr_quote_asset (xm_xbuy sample_match) = 2"
  by (simp_all add: sample_match_def Xmatch_Init_def Xmatchreq_Init_def sample_simps Let_def)

definition sample_mining :: "int mining" where
  "sample_mining = Mining_Init limb_bigops int_ufops True"

lemma sample_mining_fields:
  "total_mined (saved sample_mining) = big_of_nat 0" "total_remaining_to_mine (saved sample_mining) = big_of_nat 2000000000"
  by (simp_all add: sample_mining_def Mining_Init_def Let_def limb_bigops_def int_ufops_def)

lemma sample_mining_wf: "mining_wf (saved sample_mining)" "mining_total (saved sample_mining) < field_prime"
  by (simp_all add: mining_wf_def mining_total_def sample_mining_fields bval_big_of_nat field_prime_def)

theorem mining_conserved_witness:
  "\<exists>match' m'. FinalizeMiningAmount limb_bigops int_ufops sample_match (big_of_nat 40) sample_mining = Inr (match', m') \<and>
     mining_total (saved m') = mining_total (saved sample_mining) \<and> bval (total_mined (saved m')) = 40"
proof -
  obtain match' m' where f: "FinalizeMiningAmount limb_bigops int_ufops sample_match (big_of_nat 40) sample_mining = Inr (match', m')"
    by (simp add: FinalizeMiningAmount_def sample_match_fields sample_mining_fields Let_def int_ufops_def uf_zero_def
        limb_bigops_def bval_big_of_nat)
  moreover have "\<not> uf_eq int_ufops (xm_mining_amount sample_match) (uf_zero int_ufops)"
    by (simp add: sample_match_fields int_ufops_def uf_zero_def)
  ultimately show ?thesis
    using mining_conserved [OF limb.bigint_lib_axioms sample_mining_wf wf_big_of_nat, of int_ufops sample_match m' 0 "big_of_nat 0" 40]
    by (auto simp: sample_mining_fields bval_big_of_nat)
qed

text \<open>
  C29. The amount that settlement may mine for a paid match never exceeds what remains to be mined, and
  settling with it or with less, as when an output could not take all of it, passes the assertion
  on the remaining amount.
\<close>

theorem adjusted_mining_settles:
  assumes "bigint_lib B" "wf_bigint (total_remaining_to_mine (saved m))" "wf_bigint adj'"
    and "\<forall>f. wf_bigint (snd (uf_amount U MINED_ASSET f))"
    and "GetAdjustedMiningAmount B U match m = Inr adj" "bval adj' \<le> bval adj" "xm_status match = XMATCH_STATUS_PAID"
  shows "wf_bigint adj \<and> (uf_eq U (xm_mining_amount match) (uf_zero U) \<or> bval adj \<le> bval (total_remaining_to_mine (saved m))) \<and>
    (\<exists>r. FinalizeMiningAmount B U match adj' m = Inr r)"
proof -
  note ops = bigint_lib.wf_ops [OF assms(1)] bigint_lib.less_iff [OF assms(1)] bigint_lib.val_ofULong [OF assms(1)]
  have "wf_bigint adj"
    using assms(2,4,5) by (auto simp: GetAdjustedMiningAmount_def Let_def ops split: if_splits prod.splits dest: spec)
      (metis snd_conv)
  moreover have le: "uf_eq U (xm_mining_amount match) (uf_zero U) \<or> bval adj \<le> bval (total_remaining_to_mine (saved m))"
  proof -
    have "wf_bigint (snd (uf_amount U MINED_ASSET (xm_mining_amount match)))" using assms(4) by blast
    then show ?thesis
      using assms(2,5) by (cases "uf_amount U MINED_ASSET (xm_mining_amount match)")
        (auto simp: GetAdjustedMiningAmount_def ops not_less split: if_splits)
  qed
  ultimately show ?thesis
    using assms(2,3,6,7) by (auto simp: FinalizeMiningAmount_def Let_def ops)
qed

theorem adjusted_mining_settles_witness:
  "\<exists>adj r. GetAdjustedMiningAmount limb_bigops int_ufops sample_match sample_mining = Inr adj \<and>
     FinalizeMiningAmount limb_bigops int_ufops sample_match (big_of_nat 39) sample_mining = Inr r"
proof -
  have g: "GetAdjustedMiningAmount limb_bigops int_ufops sample_match sample_mining = Inr (big_of_nat 40)"
    by (simp add: GetAdjustedMiningAmount_def sample_match_fields sample_mining_fields int_ufops_def uf_zero_def
        limb_bigops_def bval_big_of_nat)
  have "\<forall>f. wf_bigint (snd (uf_amount int_ufops MINED_ASSET f))" by (simp add: int_ufops_def)
  then show ?thesis
    using adjusted_mining_settles [OF limb.bigint_lib_axioms _ _ _ g, of "big_of_nat 39"] g
    by (auto simp: sample_match_fields sample_mining_fields bval_big_of_nat)
qed

text \<open>
  Advancing the time ends and leaves the period of the given time, however many periods have
  passed, or reports that mining has not started; a time before the recorded period is refused.
\<close>

lemma UpdateMiningTime_period:
  assumes "mining_update_time_increment (saved m) \<noteq> 0"
  shows "let period = (t - mining_start_time m) div ucast (mining_update_time_increment (saved m)) + 1 in
    UpdateMiningTime U t m =
      (if t < mining_start_time m \<or> mining_start_time m = 0 then Inr (True, m)
       else if period < mining_period (saved m) then Inl AssertFail
       else Inr (False, m\<lparr>saved_data_update_counter := saved_data_update_counter m +
                          (if period = mining_period (saved m) then 0 else 1),
                        saved := mining_period_loop U period (saved m)\<rparr>)) \<and>
    (mining_period (saved m) \<le> period \<longrightarrow> mining_period (mining_period_loop U period (saved m)) = period)"
  using assms mining_period_loop_period by (auto simp: UpdateMiningTime_def Let_def not_le)

lemma UpdateMiningTime_period_witness:
  "mining_update_time_increment (saved sample_mining) \<noteq> 0 \<and>
   mining_period (mining_period_loop int_ufops 3 (saved sample_mining)) = 3"
proof -
  have i: "mining_update_time_increment (saved sample_mining) = 240" "mining_period (saved sample_mining) = 0"
    "mining_start_time sample_mining = 1718193600"
    by (simp_all add: sample_mining_def Mining_Init_def Let_def XCX_MATCHING_SECS_PER_EPOCH_def)
  then show ?thesis
    using UpdateMiningTime_period [of sample_mining 1718194080 int_ufops] by (simp add: Let_def)
qed

end
