(* ===== verification/Settlement.thy ===== *)
theory Settlement
  imports Mining Tx_Amount
begin

unbundle bit_operations_syntax

text \<open>
  Settlement of exchange matches (ccnode/src/blockchain.cpp, functions \<open>CreateTxOutputs\<close>,
  \<open>ProcessXpayment\<close>, \<open>ComputeMatchSplit\<close>, \<open>SettleMatch\<close>, \<open>ExpireMatches\<close>).

  The database is a parameter: a state of type \<open>'db\<close> and a record of the calls made on it, each with
  its result code. The hash functions of the proof system are a second record. The node state that
  settlement changes is the database, the mining schedule and the next commitment number.
\<close>

section \<open>State and interfaces\<close>

record txbuf =
  tb_param_level :: u64
  tb_merkle_root :: bigint
  tb_commitment_iv :: bigint

record ('db, 'f) xstate =
  xs_db :: 'db
  xs_mining :: "'f mining"
  xs_next_commitnum :: u64
  xs_last_indelible_level :: u64
  xs_shutdown :: bool

record ('db, 'f) dbops =
  CommitRootsSelectLevel :: "u64 \<Rightarrow> 'db \<Rightarrow> bool \<times> bigint"
  CommitTreeInsert :: "u64 \<Rightarrow> bigint \<Rightarrow> 'db \<Rightarrow> bool \<times> 'db"
  TxOutputInsert :: "bigint \<Rightarrow> u32 \<Rightarrow> u64 \<Rightarrow> u64 \<Rightarrow> u64 \<Rightarrow> u64 \<Rightarrow> 'db \<Rightarrow> 'db"
  XmatchSelect :: "u64 \<Rightarrow> 'db \<Rightarrow> bool \<times> 'f xmatch"
  XmatchInsert :: "'f xmatch \<Rightarrow> 'db \<Rightarrow> bool \<times> 'db"
  XmatchSelectNextDeadline :: "u64 \<Rightarrow> 'db \<Rightarrow> int \<times> 'f xmatch"

record zkops =
  tx_set_commit_iv :: "txbuf \<Rightarrow> txbuf"
  compute_commitment :: "bigint \<Rightarrow> bigint \<Rightarrow> u32 \<Rightarrow> u32 \<Rightarrow> u64 \<Rightarrow> u64 \<Rightarrow> bigint"
  compute_address :: "bigint \<Rightarrow> u64 \<Rightarrow> u32 \<Rightarrow> bigint"

record proof_params =
  outvalmin :: u16
  outvalmax :: u16
  donation_per_xcx_pay :: bigint
  default_domain :: u32
  blockchain_num :: u64

record ('db, 'f) settle_env =
  se_B :: bigops
  se_U :: "'f ufops"
  se_D :: "('db, 'f) dbops"
  se_Z :: zkops
  se_P :: proof_params

definition TX_CC_MINT_EXPONENT :: nat where
  "TX_CC_MINT_EXPONENT = 22"

definition GetNextCommitnum :: "bool \<Rightarrow> ('db, 'f) xstate \<Rightarrow> u64 \<times> ('db, 'f) xstate" where
  "GetNextCommitnum increment st =
     (xs_next_commitnum st, if increment then st\<lparr>xs_next_commitnum := xs_next_commitnum st + 1\<rparr> else st)"

definition AddCommitment :: "('db, 'f) dbops \<Rightarrow> u64 \<Rightarrow> bigint \<Rightarrow> ('db, 'f) xstate \<Rightarrow> bool \<times> ('db, 'f) xstate" where
  "AddCommitment D commitnum commitment st =
     (let (rc, db) = CommitTreeInsert D commitnum commitment (xs_db st) in (rc, st\<lparr>xs_db := db\<rparr>))"

section \<open>Transaction outputs\<close>

text \<open>
  One pass of the loop: \<open>Some rc\<close> tells that the function returns \<open>rc\<close>, \<open>None\<close> that an output was
  made.
\<close>

definition create_one_output ::
  "('db, 'f) settle_env \<Rightarrow> u64 \<Rightarrow> bigint \<Rightarrow> bigint \<Rightarrow> u32 \<Rightarrow> nat \<Rightarrow> nat \<Rightarrow> bool \<Rightarrow> bool \<Rightarrow> u32 \<Rightarrow> txbuf \<Rightarrow> ('db, 'f) xstate
   \<Rightarrow> (bool option \<times> bigint \<times> txbuf \<times> ('db, 'f) xstate) outcome" where
  "create_one_output E asset tot dest domain valmin valmax bindex no_encypt paynum tb st =
     (let B = se_B E; D = se_D E; Z = se_Z E
      in bind_outcome (tx_amount_encode B tot False TX_AMOUNT_BITS TX_AMOUNT_EXPONENT_BITS valmin valmax (2 ^ 32 - 1)) (\<lambda>amount_fp.
         bind_outcome (tx_amount_decode B amount_fp False TX_AMOUNT_BITS TX_AMOUNT_EXPONENT_BITS) (\<lambda>amount.
           if \<not> big_true amount then Inr (Some False, tot, tb, st)
           else let tb = tb\<lparr>tb_param_level := xs_last_indelible_level st\<rparr>;
                    (rc, root) = CommitRootsSelectLevel D (tb_param_level tb) (xs_db st);
                    tb = tb\<lparr>tb_merkle_root := root\<rparr>
             in if rc then Inr (Some True, tot, tb, st)
                else let tb = tx_set_commit_iv Z tb;
                         commitment = compute_commitment Z (tb_commitment_iv tb) dest paynum domain asset amount_fp;
                         (commitnum, st) = GetNextCommitnum True st;
                         (rc, st) = AddCommitment D commitnum commitment st
                  in if rc then Inr (Some True, tot, tb, st)
                     else let st = (if bindex
                                    then st\<lparr>xs_db := TxOutputInsert D (compute_address Z dest (blockchain_num (se_P E)) paynum)
                                               (push_bit 1 domain OR (if no_encypt then 1 else 0))
                                               asset amount_fp (tb_param_level tb) commitnum (xs_db st)\<rparr>
                                    else st)
                       in if op_less B tot amount then Inl AssertFail
                          else Inr (None, op_sub B tot amount, tb, st))))"

fun create_outputs_loop ::
  "nat \<Rightarrow> ('db, 'f) settle_env \<Rightarrow> u64 \<Rightarrow> bigint \<Rightarrow> bigint \<Rightarrow> u32 \<Rightarrow> nat \<Rightarrow> nat \<Rightarrow> bool \<Rightarrow> bool \<Rightarrow> u32 \<Rightarrow> bool \<Rightarrow> txbuf
   \<Rightarrow> ('db, 'f) xstate \<Rightarrow> (bool \<times> bigint \<times> txbuf \<times> ('db, 'f) xstate) outcome" where
  "create_outputs_loop 0 E asset tot dest domain valmin valmax bindex no_encypt paynum one_output tb st = Inl OutOfFuel"
| "create_outputs_loop (Suc fuel) E asset tot dest domain valmin valmax bindex no_encypt paynum one_output tb st =
     (if big_true tot \<and> \<not> xs_shutdown st then
        bind_outcome (create_one_output E asset tot dest domain valmin valmax bindex no_encypt paynum tb st) (\<lambda>(r, tot, tb, st).
          case r of
            Some rc \<Rightarrow> Inr (rc, tot, tb, st)
          | None \<Rightarrow> if one_output then Inr (False, tot, tb, st)
                    else create_outputs_loop fuel E asset tot dest domain valmin valmax bindex no_encypt paynum one_output tb st)
      else Inr (False, tot, tb, st))"

definition CreateTxOutputs ::
  "nat \<Rightarrow> ('db, 'f) settle_env \<Rightarrow> u64 \<Rightarrow> bigint \<Rightarrow> bigint \<Rightarrow> u32 \<Rightarrow> bool \<Rightarrow> bool \<Rightarrow> u32 \<Rightarrow> bool \<Rightarrow> bool \<Rightarrow> txbuf
   \<Rightarrow> ('db, 'f) xstate \<Rightarrow> (bool \<times> bigint \<times> txbuf \<times> ('db, 'f) xstate) outcome" where
  "CreateTxOutputs fuel E asset tot dest domain bindex no_encypt paynum one_output is_mint tb st =
     (if \<not> big_true dest then Inl AssertFail
      else let valmin = (if is_mint then TX_CC_MINT_EXPONENT else if asset = 0 then unat (outvalmin (se_P E)) else 0);
               valmax = (if is_mint then TX_CC_MINT_EXPONENT else if asset = 0 then unat (outvalmax (se_P E)) else 2 ^ 32 - 1)
        in create_outputs_loop fuel E asset tot dest domain valmin valmax bindex no_encypt paynum one_output tb st)"

section \<open>Settling a match\<close>

text \<open>The result is \<open>match_amount\<close>, \<open>buyer_amount\<close> and \<open>seller_amount\<close>.\<close>

definition ComputeMatchSplit :: "bigops \<Rightarrow> 'f ufops \<Rightarrow> 'f xmatch \<Rightarrow> bigint \<times> bigint \<times> bigint" where
  "ComputeMatchSplit B U match =
     (let match_amount = xm_base_amount match
      in if xm_status match = XMATCH_STATUS_PAID then (match_amount, match_amount, ofULong B 0)
         else if uf_le U (xm_amount_paid match) (uf_zero U) then (match_amount, ofULong B 0, match_amount)
         else let sell = xm_xsell match;
                  base_amount = uf_asset U (mr_base_asset sell) (xm_base_amount match);
                  net = uf_add U 0 (xm_amount_paid match) (uf_neg U (mr_quote_costs sell));
                  temp = uf_add U 0 base_amount (mr_base_costs sell);
                  net = uf_mul U 0 net temp;
                  temp = uf_mul U 0 base_amount (xm_rate match);
                  temp = uf_add U 0 temp (uf_neg U (mr_quote_costs sell));
                  net = uf_div U 0 net temp;
                  net = uf_add U 0 net (uf_neg U (mr_base_costs sell));
                  net = (if uf_le U net (uf_zero U) then uf_zero U else net);
                  buyer_amount = snd (uf_amount U (mr_base_asset (xm_xbuy match)) net);
                  buyer_amount = (if op_less B match_amount buyer_amount then match_amount else buyer_amount)
           in (match_amount, buyer_amount, op_sub B match_amount buyer_amount))"

definition pledge_of :: "bigops \<Rightarrow> bigint \<Rightarrow> u16 \<Rightarrow> bigint" where
  "pledge_of B amount pledge = op_div B (op_mul B amount (ofULong B (ucast pledge))) (ofULong B 100)"

text \<open>
  The part of \<open>SettleMatch\<close> that computes the amounts, up to the creation of the outputs: buyer's
  and seller's amount, donation and the amount mined.
\<close>

definition settle_pledge ::
  "bigops \<Rightarrow> 'f ufops \<Rightarrow> 'f xmatch \<Rightarrow> 'f mining \<Rightarrow> bigint \<Rightarrow> bigint \<Rightarrow> bigint \<Rightarrow> (bigint \<times> bigint \<times> bigint \<times> bigint) outcome" where
  "settle_pledge B U match m match_amount buyer_amount seller_amount =
     (let zero = ofULong B 0
      in if xm_match_pledge match \<noteq> 0 then
           let pledge_amount = pledge_of B match_amount (xm_match_pledge match)
           in if uf_eq U (xm_amount_paid match) (uf_zero U) then
                Inr (buyer_amount, op_add B seller_amount pledge_amount, pledge_amount, zero)
              else if xm_status match = XMATCH_STATUS_PAID then
                bind_outcome (GetAdjustedMiningAmount B U match m) (\<lambda>adj.
                  Inr (op_add B (op_add B buyer_amount pledge_amount) adj, seller_amount, pledge_amount, adj))
              else
                let split = op_div B (op_add B (op_mul B seller_amount (ofULong B (ucast (xm_match_pledge match)))) (ofULong B 99))
                              (ofULong B 100);
                    split = (if op_less B pledge_amount split then pledge_amount else split)
                in Inr (op_sub B (op_add B buyer_amount pledge_amount) split, op_add B seller_amount split, pledge_amount, zero)
         else Inr (buyer_amount, seller_amount, zero, zero))"

definition settle_extra_pledge ::
  "bigops \<Rightarrow> 'f xmatch \<Rightarrow> bigint \<Rightarrow> bigint \<Rightarrow> bigint \<Rightarrow> bigint outcome" where
  "settle_extra_pledge B match match_amount pledge_amount buyer_amount =
     (if mr_pledge (xm_xbuy match) > xm_match_pledge match then
        let buyer_pledge = pledge_of B match_amount (mr_pledge (xm_xbuy match))
        in if op_less B buyer_pledge pledge_amount then Inl AssertFail
           else let extra_pledge = op_sub B buyer_pledge pledge_amount
             in Inr (if big_true extra_pledge then op_add B buyer_amount extra_pledge else buyer_amount)
      else Inr buyer_amount)"

definition settle_donation :: "bigops \<Rightarrow> proof_params \<Rightarrow> 'f xmatch \<Rightarrow> bigint \<Rightarrow> bigint \<Rightarrow> bigint \<times> bigint" where
  "settle_donation B P match buyer_amount donation =
     (let donation = (if xm_status match = XMATCH_STATUS_PAID then donation_per_xcx_pay P else donation)
      in if \<not> op_less B donation buyer_amount then (ofULong B 0, buyer_amount)
         else (op_sub B buyer_amount donation, donation))"

definition settle_amounts ::
  "('db, 'f) settle_env \<Rightarrow> 'f xmatch \<Rightarrow> bigint \<Rightarrow> 'f mining \<Rightarrow> (bigint \<times> bigint \<times> bigint \<times> bigint \<times> 'f mining) outcome" where
  "settle_amounts E match donation m =
     (let B = se_B E; U = se_U E;
          (match_amount, buyer_amount, seller_amount) = ComputeMatchSplit B U match;
          m = UpdateMatchStats U match buyer_amount m
      in bind_outcome (settle_pledge B U match m match_amount buyer_amount seller_amount)
          (\<lambda>(buyer_amount, seller_amount, pledge_amount, adj).
         bind_outcome (settle_extra_pledge B match match_amount pledge_amount buyer_amount) (\<lambda>buyer_amount.
           let (buyer_amount, donation) = settle_donation B (se_P E) match buyer_amount donation
           in Inr (buyer_amount, seller_amount, donation, adj, m))))"

text \<open>
  \<open>SettleMatch\<close>: the result code, the reference arguments after the call (donation, match and
  transaction buffer) and the state.
\<close>

definition SettleMatch ::
  "('db, 'f) settle_env \<Rightarrow> 'f xmatch \<Rightarrow> bigint \<Rightarrow> txbuf \<Rightarrow> ('db, 'f) xstate
   \<Rightarrow> (bool \<times> bigint \<times> 'f xmatch \<times> txbuf \<times> ('db, 'f) xstate) outcome" where
  "SettleMatch E match donation tb st =
     bind_outcome (settle_amounts E match donation (xs_mining st)) (\<lambda>(buyer_amount, seller_amount, donation, adj, m).
       let B = se_B E; st = st\<lparr>xs_mining := m\<rparr>; domain = default_domain (se_P E)
       in if \<not> mr_have_matching (xm_xbuy match) \<or> \<not> mr_have_matching (xm_xsell match) then Inl AssertFail
          else bind_outcome (CreateTxOutputs 1 E (mr_base_asset (xm_xbuy match)) buyer_amount (mr_destination (xm_xbuy match))
                  domain True True 0 True False tb st) (\<lambda>(rc, buyer_amount, tb, st).
            if rc then Inr (True, donation, match, tb, st)
            else let seller_amount = op_add B seller_amount buyer_amount
            in bind_outcome (CreateTxOutputs 1 E (mr_base_asset (xm_xsell match)) seller_amount (mr_destination (xm_xsell match))
                  domain True True 0 True False tb st) (\<lambda>(rc, seller_amount, tb, st).
              if rc then Inr (True, donation, match, tb, st)
              else let adj = (if op_less B adj seller_amount then ofULong B 0 else op_sub B adj seller_amount)
              in bind_outcome (if xm_status match = XMATCH_STATUS_PAID
                               then FinalizeMiningAmount B (se_U E) match adj (xs_mining st) else Inr (match, xs_mining st))
                   (\<lambda>(match, m).
                     let (rc, db) = XmatchInsert (se_D E) match (xs_db st)
                     in Inr (rc, donation, match, tb, st\<lparr>xs_mining := m, xs_db := db\<rparr>)))))"

record 'f xpay =
  xp_match_left_to_pay :: 'f
  xp_foreign_amount :: 'f
  xp_foreign_amount_fp :: u64
  xp_xmatchnum :: u64
  xp_match_timestamp :: u64
  xp_foreign_blockchain :: u64
  xp_foreign_confirmations_required :: u32
  xp_payment_time :: u16
  xp_foreign_block_id :: string
  xp_foreign_txid :: string
  xp_foreign_address :: string

definition ProcessXpayment ::
  "('db, 'f) settle_env \<Rightarrow> u64 \<Rightarrow> 'f xpay \<Rightarrow> bigint \<Rightarrow> txbuf \<Rightarrow> ('db, 'f) xstate
   \<Rightarrow> (bool \<times> bigint \<times> txbuf \<times> ('db, 'f) xstate) outcome" where
  "ProcessXpayment E blocktime xpay donation tb st =
     (let U = se_U E; D = se_D E
      in if uf_le U (xp_foreign_amount xpay) (uf_zero U) then Inr (True, donation, tb, st)
         else let (rc, match) = XmatchSelect D (xp_xmatchnum xpay) (xs_db st)
           in if rc then Inr (True, donation, tb, st)
              else if xm_status match \<noteq> XMATCH_STATUS_ACCEPTED \<and> xm_status match \<noteq> XMATCH_STATUS_PART_PAID_OPEN
              then Inr (False, donation, tb, st)
              else let match = match\<lparr>xm_amount_paid := uf_add U 0 (xm_amount_paid match) (xp_foreign_amount xpay)\<rparr>
                in if uf_less U (uf_zero U) (AmountToPay U match) then
                     let match = match\<lparr>xm_status := XMATCH_STATUS_PART_PAID_OPEN\<rparr>;
                         (rc, db) = XmatchInsert D match (xs_db st)
                     in Inr (rc, donation, tb, st\<lparr>xs_db := db\<rparr>)
                   else
                     let match = match\<lparr>xm_status := XMATCH_STATUS_PAID, xm_final_timestamp := blocktime, xm_next_deadline := 0\<rparr>
                     in bind_outcome (SettleMatch E match donation tb st) (\<lambda>(rc, donation, _, tb, st).
                          Inr (rc, donation, tb, st)))"

text \<open>\<open>ExpireMatches\<close> runs until no match is past its deadline; the first argument bounds the passes.\<close>

definition expired_match :: "u64 \<Rightarrow> 'f xmatch \<Rightarrow> 'f xmatch outcome" where
  "expired_match blocktime match =
     (if xm_status match = XMATCH_STATUS_ACCEPTED
      then Inr (match\<lparr>xm_status := XMATCH_STATUS_UNPAID_EXPIRED, xm_final_timestamp := blocktime, xm_next_deadline := 0\<rparr>)
      else if xm_status match = XMATCH_STATUS_PART_PAID_OPEN
      then Inr (match\<lparr>xm_status := XMATCH_STATUS_PART_PAID_EXPIRED, xm_final_timestamp := blocktime, xm_next_deadline := 0\<rparr>)
      else Inl AssertFail)"

fun ExpireMatches ::
  "nat \<Rightarrow> ('db, 'f) settle_env \<Rightarrow> u64 \<Rightarrow> txbuf \<Rightarrow> ('db, 'f) xstate \<Rightarrow> (bool \<times> txbuf \<times> ('db, 'f) xstate) outcome" where
  "ExpireMatches 0 E blocktime tb st = Inl OutOfFuel"
| "ExpireMatches (Suc fuel) E blocktime tb st =
     (if xs_shutdown st then Inr (False, tb, st)
      else let (rc, match) = XmatchSelectNextDeadline (se_D E) blocktime (xs_db st)
        in if rc > 0 then Inr (False, tb, st)
           else if rc \<noteq> 0 then Inr (True, tb, st)
           else bind_outcome (expired_match blocktime match) (\<lambda>match.
                bind_outcome (SettleMatch E match (ofULong (se_B E) 0) tb st) (\<lambda>(rc, donation, _, tb, st).
                  if rc then Inr (True, tb, st)
                  else if big_true donation then Inl AssertFail
                  else ExpireMatches fuel E blocktime tb st)))"

end
