(* ===== verification/Settle_Props.thy ===== *)
theory Settle_Props
  imports Settlement
begin

text \<open>
  Properties of settlement: the amounts that \<open>SettleMatch\<close> pays out, donates and mines add up to
  what the two parties put in, and the outputs it creates carry those amounts.
\<close>

context bigint_lib
begin

lemma add_small:
  assumes "wf_bigint x" "wf_bigint y" "bval x < 2 ^ 240" "bval y < 2 ^ 240"
  shows "wf_bigint (op_add B x y)" "bval (op_add B x y) = bval x + bval y"
proof -
  have "bval x + bval y < field_prime" using assms(3,4) by (simp add: field_prime_def)
  then show "wf_bigint (op_add B x y)" "bval (op_add B x y) = bval x + bval y"
    using assms by (simp_all add: wf_ops val_add)
qed

lemma sub_small:
  assumes "wf_bigint x" "wf_bigint y" "bval x < 2 ^ 241" "bval y \<le> bval x"
  shows "wf_bigint (op_sub B x y)" "bval (op_sub B x y) = bval x - bval y"
proof -
  have "bval x < field_prime" using assms(3) by (simp add: field_prime_def)
  then show "wf_bigint (op_sub B x y)" "bval (op_sub B x y) = bval x - bval y"
    using assms by (simp_all add: wf_ops val_sub)
qed

lemma pledge_value:
  assumes "wf_bigint a" "bval a < 2 ^ 200"
  shows "wf_bigint (pledge_of B a p) \<and> bval (pledge_of B a p) = bval a * unat p div 100"
proof -
  have p: "unat (ucast p :: u64) = unat p" "unat p < 2 ^ 16"
    using unsigned_less [of p, where ?'a = nat] by (simp_all add: unsigned_ucast_eq take_bit_nat_eq_self less_trans [of _ "2 ^ 16"])
  have "bval a * unat p \<le> 2 ^ 200 * 2 ^ 16"
    using assms(2) p(2) by (intro mult_le_mono) auto
  then have "bval a * unat p < field_prime" by (simp add: field_prime_def)
  then show ?thesis
    using assms p by (simp add: pledge_of_def wf_ops val_div val_mul val_ofULong)
qed

lemma pledge_less: "bval a < 2 ^ 200 \<Longrightarrow> bval a * unat (p :: u16) div 100 < 2 ^ 216"
proof -
  assume "bval a < 2 ^ 200"
  moreover have "unat p < 2 ^ 16" using unsigned_less [of p, where ?'a = nat] by simp
  ultimately have "bval a * unat p < 2 ^ 200 * 2 ^ 16" by (intro mult_strict_mono) auto
  then show ?thesis by (simp add: le_less_trans [OF div_le_dividend])
qed

lemma split_sum:
  assumes "ComputeMatchSplit B U match = (ma, ba, sa)" "wf_bigint (xm_base_amount match)"
    and "bval (xm_base_amount match) < field_prime" "\<forall>x f. wf_bigint (snd (uf_amount U x f))"
  shows "ma = xm_base_amount match \<and> wf_bigint ba \<and> wf_bigint sa \<and> bval ba + bval sa = bval ma"
proof -
  have "bval ba + bval (op_sub B ma ba) = bval ma"
    if "\<not> bval ma < bval ba" "wf_bigint ma" "wf_bigint ba" "bval ma < field_prime"
    using that by (simp add: val_sub)
  then show ?thesis
    using assms unfolding ComputeMatchSplit_def Let_def
    by (auto simp: wf_ops val_ofULong less_iff val_sub split: if_splits)
qed

lemma adjusted_bound:
  assumes "GetAdjustedMiningAmount B U match m = Inr adj" "wf_bigint (total_remaining_to_mine (saved m))"
    and "\<forall>x f. wf_bigint (snd (uf_amount U x f))"
  shows "wf_bigint adj \<and> bval adj \<le> bval (total_remaining_to_mine (saved m))"
proof -
  have "wf_bigint (snd (uf_amount U MINED_ASSET (xm_mining_amount match)))" using assms(3) by blast
  then show ?thesis
    using assms(1,2) by (cases "uf_amount U MINED_ASSET (xm_mining_amount match)")
      (auto simp: GetAdjustedMiningAmount_def wf_ops less_iff val_ofULong not_less split: if_splits)
qed

lemma settle_pledge_sum:
  assumes "settle_pledge B U match m ma ba sa = Inr (b, s, pl, adj)"
    and wf: "wf_bigint ma" "wf_bigint ba" "wf_bigint sa" "bval ba + bval sa = bval ma" "bval ma < 2 ^ 200"
    and mining: "wf_bigint (total_remaining_to_mine (saved m))" "bval (total_remaining_to_mine (saved m)) < 2 ^ 200"
    and uf: "\<forall>x f. wf_bigint (snd (uf_amount U x f))"
  shows "wf_bigint b \<and> wf_bigint s \<and> wf_bigint pl \<and> wf_bigint adj \<and>
    bval pl = bval ma * unat (xm_match_pledge match) div 100 \<and> bval adj < 2 ^ 200 \<and>
    bval adj \<le> bval (total_remaining_to_mine (saved m)) \<and> bval b + bval s = bval ma + bval pl + bval adj"
proof (cases "xm_match_pledge match = 0")
  case True
  then show ?thesis using assms by (auto simp: settle_pledge_def Let_def wf_ops val_ofULong)
next
  case False
  let ?pl = "pledge_of B ma (xm_match_pledge match)"
  have p: "wf_bigint ?pl" "bval ?pl = bval ma * unat (xm_match_pledge match) div 100" "bval ?pl < 2 ^ 216"
    using pledge_value [OF wf(1,5)] pledge_less [OF wf(5)] by auto
  have lt: "bval ba < 2 ^ 200" "bval sa < 2 ^ 200" using wf(4,5) by auto
  have small: "bval ba < 2 ^ 240" "bval sa < 2 ^ 240" "bval ?pl < 2 ^ 240" using lt p(3) by simp_all
  note b1 = add_small [OF wf(2) p(1) small(1,3)] and s1 = add_small [OF wf(3) p(1) small(2,3)]
  have b240: "bval (op_add B ba ?pl) < 2 ^ 240" using b1(2) lt(1) p(3) by simp
  consider (unpaid) "uf_eq U (xm_amount_paid match) (uf_zero U)"
    | (paid) "\<not> uf_eq U (xm_amount_paid match) (uf_zero U)" "xm_status match = XMATCH_STATUS_PAID"
    | (part) "\<not> uf_eq U (xm_amount_paid match) (uf_zero U)" "xm_status match \<noteq> XMATCH_STATUS_PAID" by blast
  then show ?thesis
  proof cases
    case unpaid
    then have "b = ba" "s = op_add B sa ?pl" "pl = ?pl" "adj = ofULong B 0"
      using assms(1) False by (auto simp: settle_pledge_def Let_def)
    then show ?thesis using p(1,2) s1 wf(1-4) wf_ofULong [of 0] val_ofULong [of 0] by simp
  next
    case paid
    have a: "GetAdjustedMiningAmount B U match m = Inr adj \<and> b = op_add B (op_add B ba ?pl) adj \<and> s = sa \<and> pl = ?pl"
    proof (cases "GetAdjustedMiningAmount B U match m")
      case (Inr r)
      then show ?thesis using assms(1) False paid by (simp add: settle_pledge_def Let_def) (elim conjE, hypsubst, rule refl)
    qed (use assms(1) False paid in \<open>simp add: settle_pledge_def Let_def\<close>)
    have w: "wf_bigint adj" "bval adj < 2 ^ 200" "bval adj \<le> bval (total_remaining_to_mine (saved m))"
      using adjusted_bound [OF conjunct1 [OF a] mining(1) uf] mining(2) by linarith+
    then have "bval adj < 2 ^ 240" by simp
    note b2 = add_small [OF b1(1) w(1) b240 this]
    show ?thesis using a p(1,2) b1 b2 w wf(1-4) by simp
  next
    case part
    define sp where "sp = op_div B (op_add B (op_mul B sa (ofULong B (ucast (xm_match_pledge match)))) (ofULong B 99)) (ofULong B 100)"
    define sq where "sq = (if op_less B ?pl sp then ?pl else sp)"
    have wsp: "wf_bigint sp" using wf by (simp add: sp_def wf_ops)
    have q: "wf_bigint sq" "bval sq \<le> bval ?pl" using wsp p(1) by (auto simp: sq_def less_iff)
    have eqs: "b = op_sub B (op_add B ba ?pl) sq" "s = op_add B sa sq" "pl = ?pl" "adj = ofULong B 0"
      using assms(1) False part by (auto simp: settle_pledge_def Let_def sp_def sq_def)
    have "bval sq < 2 ^ 240" using q(2) small(3) by linarith
    note s2 = add_small [OF wf(3) q(1) small(2) this]
    have "bval (op_add B ba ?pl) < 2 ^ 241" "bval sq \<le> bval (op_add B ba ?pl)" using b240 b1(2) q(2) by simp_all
    note b2 = sub_small [OF b1(1) q(1) this]
    show ?thesis using eqs p q b1 b2 s2 wf(1-4) by (simp add: wf_ops val_ofULong)
  qed
qed

lemma settle_pledge_mines:
  assumes "settle_pledge B U match m ma ba sa = Inr (b, s, pl, adj)" "bval adj \<noteq> 0"
  shows "xm_status match = XMATCH_STATUS_PAID \<and> \<not> uf_eq U (xm_mining_amount match) (uf_zero U)"
  using assms by (auto simp: settle_pledge_def Let_def val_ofULong bind_outcome_eq_Inr GetAdjustedMiningAmount_def split: if_splits)

lemma settle_extra_sum:
  assumes "wf_bigint ma" "bval ma < 2 ^ 200" "wf_bigint pl" "wf_bigint b" "bval b < 2 ^ 220"
    and "bval pl = bval ma * unat (xm_match_pledge match) div 100"
  shows "\<exists>b'. settle_extra_pledge B match ma pl b = Inr b' \<and> wf_bigint b' \<and>
    bval b' + bval pl = bval b + bval ma * unat (max (mr_pledge (xm_xbuy match)) (xm_match_pledge match)) div 100"
proof (cases "mr_pledge (xm_xbuy match) > xm_match_pledge match")
  case True
  let ?bp = "pledge_of B ma (mr_pledge (xm_xbuy match))"
  have bp: "wf_bigint ?bp" "bval ?bp = bval ma * unat (mr_pledge (xm_xbuy match)) div 100" "bval ?bp < 2 ^ 216"
    using pledge_value [OF assms(1,2)] pledge_less [OF assms(2)] by auto
  have le: "bval pl \<le> bval ?bp"
    unfolding assms(6) bp(2) using True by (intro div_le_mono mult_le_mono2) (simp add: word_less_nat_alt)
  have e: "wf_bigint (op_sub B ?bp pl)" "bval (op_sub B ?bp pl) = bval ?bp - bval pl"
    using le bp assms(3) by (simp_all add: wf_ops val_sub field_prime_def)
  have mx: "max (mr_pledge (xm_xbuy match)) (xm_match_pledge match) = mr_pledge (xm_xbuy match)"
    using True by simp
  show ?thesis
    using True le e bp assms(3-5) unfolding settle_extra_pledge_def Let_def mx
    by (auto simp: less_iff big_true_iff wf_ops val_add field_prime_def)
next
  case False
  then have "max (mr_pledge (xm_xbuy match)) (xm_match_pledge match) = xm_match_pledge match" by (simp add: not_less)
  then show ?thesis using False assms by (simp add: settle_extra_pledge_def)
qed

lemma settle_donation_sum:
  assumes "settle_donation B P match b d = (b', d')" "wf_bigint b" "wf_bigint d" "wf_bigint (donation_per_xcx_pay P)" "bval b < field_prime"
  shows "wf_bigint b' \<and> wf_bigint d' \<and> bval b' + bval d' = bval b \<and>
    (xm_status match \<noteq> XMATCH_STATUS_PAID \<and> bval d = 0 \<longrightarrow> bval d' = 0)"
  using assms by (auto simp: settle_donation_def Let_def less_iff wf_ops val_sub val_ofULong split: if_splits)

end



section \<open>The amounts of a settled match\<close>

text \<open>The conditions on the numbers that settlement starts from.\<close>

definition settle_wf :: "('db, 'f) settle_env \<Rightarrow> 'f xmatch \<Rightarrow> bigint \<Rightarrow> 'f mining \<Rightarrow> bool" where
  "settle_wf E match donation m \<longleftrightarrow>
     wf_bigint (xm_base_amount match) \<and> bval (xm_base_amount match) < 2 ^ 200 \<and> wf_bigint donation \<and>
     wf_bigint (donation_per_xcx_pay (se_P E)) \<and> wf_bigint (total_remaining_to_mine (saved m)) \<and>
     bval (total_remaining_to_mine (saved m)) < 2 ^ 200"

definition converts :: "'f ufops \<Rightarrow> bool" where
  "converts U \<longleftrightarrow> (\<forall>x f. wf_bigint (snd (uf_amount U x f)))"

text \<open>What the two parties have put in: the amount of the match and the larger of the two pledges.\<close>

definition match_funds :: "'f xmatch \<Rightarrow> nat" where
  "match_funds match = bval (xm_base_amount match) +
     bval (xm_base_amount match) * unat (max (mr_pledge (xm_xbuy match)) (xm_match_pledge match)) div 100"

lemma settle_amounts_stages:
  assumes "settle_amounts E match donation m = Inr (b, s, d, adj, m')"
    and "ComputeMatchSplit (se_B E) (se_U E) match = (ma, ba, sa)"
  obtains b1 pl b2 where "m' = UpdateMatchStats (se_U E) match ba m"
    "settle_pledge (se_B E) (se_U E) match m' ma ba sa = Inr (b1, s, pl, adj)"
    "settle_extra_pledge (se_B E) match ma pl b1 = Inr b2"
    "settle_donation (se_B E) (se_P E) match b2 donation = (b, d)"
proof -
  let ?m = "UpdateMatchStats (se_U E) match ba m"
  note unfold = settle_amounts_def Let_def assms(2)
  obtain r where "settle_pledge (se_B E) (se_U E) match ?m ma ba sa = Inr r"
    using assms(1) by (cases "settle_pledge (se_B E) (se_U E) match ?m ma ba sa") (auto simp: unfold)
  then obtain b1 s1 pl a1 where p: "settle_pledge (se_B E) (se_U E) match ?m ma ba sa = Inr (b1, s1, pl, a1)"
    by (cases r) auto
  obtain b2 where x: "settle_extra_pledge (se_B E) match ma pl b1 = Inr b2"
    using assms(1) p by (cases "settle_extra_pledge (se_B E) match ma pl b1") (auto simp: unfold)
  obtain b' d' where "settle_donation (se_B E) (se_P E) match b2 donation = (b', d')" by fastforce
  then show thesis using assms(1) p x that by (auto simp: unfold)
qed

lemma settle_amounts_sum:
  assumes B: "bigint_lib (se_B E)" and s: "settle_amounts E match donation m = Inr (b, s, d, adj, m')"
    and wf: "settle_wf E match donation m" and U: "converts (se_U E)"
  shows "wf_bigint b \<and> wf_bigint s \<and> wf_bigint d \<and> wf_bigint adj \<and>
    bval b + bval s + bval d = match_funds match + bval adj \<and> bval adj < 2 ^ 200 \<and>
    bval adj \<le> bval (total_remaining_to_mine (saved m)) \<and>
    mining_same_totals (saved m) (saved m') \<and>
    (bval adj \<noteq> 0 \<longrightarrow> xm_status match = XMATCH_STATUS_PAID \<and> \<not> uf_eq (se_U E) (xm_mining_amount match) (uf_zero (se_U E))) \<and>
    (xm_status match \<noteq> XMATCH_STATUS_PAID \<and> bval donation = 0 \<longrightarrow> bval d = 0)"
proof -
  let ?B = "se_B E" and ?U = "se_U E"
  obtain ma ba sa where sp: "ComputeMatchSplit ?B ?U match = (ma, ba, sa)" by (cases "ComputeMatchSplit ?B ?U match") auto
  have U': "\<forall>x f. wf_bigint (snd (uf_amount ?U x f))" using U by (simp add: converts_def)
  have w0: "wf_bigint (xm_base_amount match)" "bval (xm_base_amount match) < 2 ^ 200" "wf_bigint donation"
    "wf_bigint (donation_per_xcx_pay (se_P E))" "wf_bigint (total_remaining_to_mine (saved m))"
    "bval (total_remaining_to_mine (saved m)) < 2 ^ 200" using wf by (auto simp: settle_wf_def)
  have "bval (xm_base_amount match) < field_prime" using w0(2) by (simp add: field_prime_def)
  from bigint_lib.split_sum [OF B sp w0(1) this U']
  have sum: "ma = xm_base_amount match" "wf_bigint ba" "wf_bigint sa" "bval ba + bval sa = bval ma" by auto
  obtain b1 pl b2' where mm: "m' = UpdateMatchStats ?U match ba m"
    and p: "settle_pledge ?B ?U match m' ma ba sa = Inr (b1, s, pl, adj)"
    and x: "settle_extra_pledge ?B match ma pl b1 = Inr b2'" and dn': "settle_donation ?B (se_P E) match b2' donation = (b, d)"
    by (rule settle_amounts_stages [OF s sp])
  have tot: "mining_same_totals (saved m) (saved m')" unfolding mm by (rule UpdateMatchStats_totals)
  then have tr: "total_remaining_to_mine (saved m') = total_remaining_to_mine (saved m)"
    by (simp add: mining_same_totals_def)
  have lt: "bval ma < 2 ^ 200" using w0(2) sum(1) by simp
  from bigint_lib.settle_pledge_sum [OF B p _ sum(2,3,4) lt, unfolded tr, OF _ w0(5,6) U'] w0(1) sum(1)
  have q: "wf_bigint b1" "wf_bigint s" "wf_bigint pl" "wf_bigint adj" "bval adj < 2 ^ 200"
    "bval adj \<le> bval (total_remaining_to_mine (saved m))"
    "bval pl = bval ma * unat (xm_match_pledge match) div 100" "bval b1 + bval s = bval ma + bval pl + bval adj" by auto
  have "bval pl < 2 ^ 216" unfolding q(7) by (rule bigint_lib.pledge_less [OF B lt])
  then have "bval b1 < 2 ^ 220" using q(5,8) lt by simp
  moreover have wma: "wf_bigint ma" using w0(1) sum(1) by simp
  ultimately obtain b2 where b2: "settle_extra_pledge ?B match ma pl b1 = Inr b2" "wf_bigint b2"
    "bval b2 + bval pl = bval b1 + bval ma * unat (max (mr_pledge (xm_xbuy match)) (xm_match_pledge match)) div 100"
    using bigint_lib.settle_extra_sum [OF B _ lt q(3) q(1) _ q(7)] by blast
  have big: "bval b2 < field_prime"
  proof -
    have "bval ma * unat (max (mr_pledge (xm_xbuy match)) (xm_match_pledge match)) div 100 < 2 ^ 216"
      by (rule bigint_lib.pledge_less [OF B lt])
    then have "bval b2 < 2 ^ 220 + 2 ^ 216" using b2(3) \<open>bval b1 < 2 ^ 220\<close> by linarith
    then show ?thesis by (simp add: field_prime_def)
  qed
  have dn: "settle_donation ?B (se_P E) match b2 donation = (b, d)" using x dn' b2(1) by simp
  from bigint_lib.settle_donation_sum [OF B dn b2(2) w0(3,4) big] show ?thesis
    using q b2 tot sum(1) bigint_lib.settle_pledge_mines [OF B p] by (auto simp: match_funds_def)
qed

section \<open>The outputs\<close>

text \<open>
  A count of the value put out: a number read off the database that an output recorded by
  \<open>TxOutputInsert\<close> raises by its value and the other calls leave alone.
\<close>

definition counts_outputs :: "('db, 'f) dbops \<Rightarrow> ('db \<Rightarrow> nat) \<Rightarrow> bool" where
  "counts_outputs D issued \<longleftrightarrow>
     (\<forall>n c db. issued (snd (CommitTreeInsert D n c db)) = issued db) \<and>
     (\<forall>match db. issued (snd (XmatchInsert D match db)) = issued db) \<and>
     (\<forall>a dm x fp l n db. issued (TxOutputInsert D a dm x fp l n db) = issued db + fp_value fp)"

text \<open>A database whose calls all succeed.\<close>

definition db_succeeds :: "('db, 'f) dbops \<Rightarrow> bool" where
  "db_succeeds D \<longleftrightarrow> (\<forall>l db. \<not> fst (CommitRootsSelectLevel D l db)) \<and> (\<forall>n c db. \<not> fst (CommitTreeInsert D n c db)) \<and>
     (\<forall>match db. \<not> fst (XmatchInsert D match db))"

lemma create_one_output_value:
  assumes B: "bigint_lib (se_B E)" and D: "counts_outputs (se_D E) issued"
    and tot: "wf_bigint tot" "bval tot < 2 ^ 230"
  obtains (zero) fp where "create_one_output E asset tot dest domain mn mx True ne pn tb st = Inr (Some False, tot, tb, st)"
  | (error) tb' st' where "create_one_output E asset tot dest domain mn mx True ne pn tb st = Inr (Some True, tot, tb', st')"
      "\<not> db_succeeds (se_D E)"
  | (made) rest tb' st' where "create_one_output E asset tot dest domain mn mx True ne pn tb st = Inr (None, rest, tb', st')"
      "wf_bigint rest" "bval rest + issued (xs_db st') = bval tot + issued (xs_db st)"
      "bval rest < bval tot" "xs_mining st' = xs_mining st"
proof -
  obtain w where w: "tx_amount_encode (se_B E) tot False TX_AMOUNT_BITS TX_AMOUNT_EXPONENT_BITS mn mx (2 ^ 32 - 1) = Inr w"
    "fp_value w \<le> bval tot" "unat w < 2 ^ 40"
    by (rule encode_round_down [OF B tot(1), of "2 ^ 32 - 1" mn mx]) auto
  obtain v where v: "tx_amount_decode (se_B E) w False TX_AMOUNT_BITS TX_AMOUNT_EXPONENT_BITS = Inr v" "wf_bigint v" "bval v = fp_value w"
    using bigint_lib.decode_value [OF B, of w False] w(3) by auto
  have le: "\<not> op_less (se_B E) tot v" using bigint_lib.less_iff [OF B tot(1) v(2)] w(2) v(3) by simp
  have "bval tot < field_prime" using tot(2) by (simp add: field_prime_def)
  then have r: "wf_bigint (op_sub (se_B E) tot v)" "bval (op_sub (se_B E) tot v) = bval tot - bval v"
    using bigint_lib.wf_sub [OF B] bigint_lib.val_sub [OF B] tot(1) v w(2) by auto
  have ins: "issued db' = issued db" if "CommitTreeInsert (se_D E) n c db = (rc, db')" for n c db rc db'
    using D that by (metis counts_outputs_def snd_conv)
  obtain rc root where sel: "CommitRootsSelectLevel (se_D E) (xs_last_indelible_level st) (xs_db st) = (rc, root)" by fastforce
  let ?tb = "tx_set_commit_iv (se_Z E) (tb\<lparr>tb_param_level := xs_last_indelible_level st, tb_merkle_root := root\<rparr>)"
  obtain rc2 db where ct: "CommitTreeInsert (se_D E) (xs_next_commitnum st)
      (compute_commitment (se_Z E) (tb_commitment_iv ?tb) dest pn domain asset w) (xs_db st) = (rc2, db)" by fastforce
  note step = create_one_output_def Let_def GetNextCommitnum_def AddCommitment_def w(1) [simplified] v(1) sel ct
  have fails: "\<not> db_succeeds (se_D E)" if "rc \<or> rc2"
    using that sel ct unfolding db_succeeds_def by (metis fst_conv)
  consider "\<not> big_true v" | "big_true v" "rc" | "big_true v" "\<not> rc" "rc2" | (ok) "big_true v" "\<not> rc" "\<not> rc2" by blast
  then show thesis
  proof cases
    case ok
    define st2 where "st2 = st\<lparr>xs_next_commitnum := xs_next_commitnum st + 1,
      xs_db := TxOutputInsert (se_D E) (compute_address (se_Z E) dest (blockchain_num (se_P E)) pn)
        (push_bit 1 domain OR (if ne then 1 else 0)) asset w (tb_param_level ?tb) (xs_next_commitnum st) db\<rparr>"
    have "create_one_output E asset tot dest domain mn mx True ne pn tb st = Inr (None, op_sub (se_B E) tot v, ?tb, st2)"
      using ok le by (simp add: step st2_def)
    then show thesis using made r ins [OF ct] D v w(2) ok(1) by (auto simp: st2_def counts_outputs_def big_true_iff)
  qed (use zero error fails in \<open>simp_all add: step\<close>)
qed

text \<open>With a single output the loop is passed once, so one unit of fuel is enough.\<close>

lemma CreateTxOutputs_value:
  assumes B: "bigint_lib (se_B E)" and D: "counts_outputs (se_D E) issued"
    and tot: "wf_bigint tot" "bval tot < 2 ^ 230" and dest: "big_true dest"
  shows "\<exists>rc rest tb' st'. CreateTxOutputs 1 E asset tot dest domain True ne pn True mint tb st = Inr (rc, rest, tb', st') \<and>
      (rc \<longrightarrow> \<not> db_succeeds (se_D E)) \<and> (\<not> rc \<longrightarrow> wf_bigint rest \<and> bval rest + issued (xs_db st') = bval tot + issued (xs_db st) \<and>
        bval rest \<le> bval tot \<and> xs_mining st' = xs_mining st)"
proof (cases "big_true tot \<and> \<not> xs_shutdown st")
  case False
  then have "CreateTxOutputs 1 E asset tot dest domain True ne pn True mint tb st = Inr (False, tot, tb, st)"
    using dest by (auto simp: CreateTxOutputs_def Let_def)
  then show ?thesis using tot(1) by blast
next
  case True
  define mn where "mn = (if mint then TX_CC_MINT_EXPONENT else if asset = 0 then unat (outvalmin (se_P E)) else 0)"
  define mx where "mx = (if mint then TX_CC_MINT_EXPONENT else if asset = 0 then unat (outvalmax (se_P E)) else (2 :: nat) ^ 32 - 1)"
  have eq: "CreateTxOutputs 1 E asset tot dest domain True ne pn True mint tb st =
      create_outputs_loop (Suc 0) E asset tot dest domain mn mx True ne pn True tb st"
    using dest by (simp add: CreateTxOutputs_def Let_def mn_def mx_def)
  show ?thesis
  proof (rule create_one_output_value [OF B D tot, of asset dest domain mn mx ne pn tb st])
    fix rest tb' st'
    assume c: "create_one_output E asset tot dest domain mn mx True ne pn tb st = Inr (None, rest, tb', st')"
      "wf_bigint rest" "bval rest + issued (xs_db st') = bval tot + issued (xs_db st)"
      "bval rest < bval tot" "xs_mining st' = xs_mining st"
    have "create_outputs_loop (Suc 0) E asset tot dest domain mn mx True ne pn True tb st = Inr (False, rest, tb', st')"
      using True c(1) by simp
    then show ?thesis unfolding eq using c(2-5) by fastforce
  qed (unfold eq, use True tot(1) in auto)
qed

lemma CreateTxOutputs_rest:
  assumes B: "bigint_lib (se_B E)" and D: "counts_outputs (se_D E) issued"
    and tot: "wf_bigint tot" "bval tot < 2 ^ 230" and dest: "big_true dest"
    and ok: "CreateTxOutputs 1 E asset tot dest domain True ne pn True mint tb st = Inr (False, rest, tb', st')"
  shows "wf_bigint rest" "bval rest + issued (xs_db st') = bval tot + issued (xs_db st)" "bval rest \<le> bval tot"
    "xs_mining st' = xs_mining st"
proof -
  obtain rc rest1 tb1 st1 where o: "CreateTxOutputs 1 E asset tot dest domain True ne pn True mint tb st = Inr (rc, rest1, tb1, st1)"
    "\<not> rc \<longrightarrow> wf_bigint rest1 \<and> bval rest1 + issued (xs_db st1) = bval tot + issued (xs_db st) \<and>
        bval rest1 \<le> bval tot \<and> xs_mining st1 = xs_mining st"
    using CreateTxOutputs_value [OF B D tot dest] by blast
  have "rc = False" "rest1 = rest" "st1 = st'" using o(1) unfolding ok by simp_all
  then show "wf_bigint rest" "bval rest + issued (xs_db st') = bval tot + issued (xs_db st)" "bval rest \<le> bval tot"
    "xs_mining st' = xs_mining st" using o(2) by simp_all
qed

lemma CreateTxOutputs_succeeds:
  assumes B: "bigint_lib (se_B E)" and D: "counts_outputs (se_D E) issued" "db_succeeds (se_D E)"
    and tot: "wf_bigint tot" "bval tot < 2 ^ 230" and dest: "big_true dest"
  obtains rest tb' st' where
    "CreateTxOutputs 1 E asset tot dest domain True ne pn True mint tb st = Inr (False, rest, tb', st')"
proof -
  obtain rc rest tb' st' where "CreateTxOutputs 1 E asset tot dest domain True ne pn True mint tb st = Inr (rc, rest, tb', st')" "\<not> rc"
    using CreateTxOutputs_value [OF B D(1) tot dest, of asset domain ne pn mint tb st] D(2) by blast
  then show thesis using that by simp
qed

text \<open>
  C25. Splitting an amount into outputs ends, with more fuel than the amount has units and thus for
  every amount, and no assertion fails; when it succeeds, the value of the outputs and the rest that
  is too small for an output add up to the amount.
\<close>

theorem CreateTxOutputs_complete:
  assumes "bigint_lib (se_B E)" "counts_outputs (se_D E) issued" "wf_bigint tot" "bval tot < 2 ^ 230"
    and "big_true dest" "bval tot < fuel"
  shows "\<exists>rc rest tb' st'. CreateTxOutputs fuel E asset tot dest domain True ne pn one mint tb st = Inr (rc, rest, tb', st') \<and>
      (\<not> rc \<longrightarrow> wf_bigint rest \<and> bval rest + issued (xs_db st') = bval tot + issued (xs_db st))"
proof -
  have "\<exists>rc rest tb' st'. create_outputs_loop fuel E asset tot dest domain mn mx True ne pn one tb st = Inr (rc, rest, tb', st') \<and>
      (\<not> rc \<longrightarrow> wf_bigint rest \<and> bval rest + issued (xs_db st') = bval tot + issued (xs_db st))" for mn mx
    using assms(3,4,6)
  proof (induction fuel arbitrary: tot tb st)
    case (Suc fuel)
    show ?case
    proof (cases "big_true tot \<and> \<not> xs_shutdown st")
      case True
      show ?thesis
      proof (rule create_one_output_value [OF assms(1,2) Suc.prems(1,2), of asset dest domain mn mx ne pn tb st])
        fix rest tb' st'
        assume c: "create_one_output E asset tot dest domain mn mx True ne pn tb st = Inr (None, rest, tb', st')"
          "wf_bigint rest" "bval rest + issued (xs_db st') = bval tot + issued (xs_db st)" "bval rest < bval tot"
        have "bval rest < 2 ^ 230" "bval rest < fuel" using c(4) Suc.prems(2,3) by linarith+
        from Suc.IH [OF c(2) this, of tb' st'] show ?thesis using True c by auto
      qed (use True Suc.prems(1) in auto)
    qed (use Suc.prems(1) in auto)
  qed simp
  then show ?thesis using assms(5) by (simp add: CreateTxOutputs_def Let_def)
qed

section \<open>The effect of settlement\<close>

lemma match_funds_less:
  assumes "bval (xm_base_amount match) < 2 ^ 200"
  shows "match_funds match < 2 ^ 217"
proof -
  have "bval (xm_base_amount match) * unat (max (mr_pledge (xm_xbuy match)) (xm_match_pledge match)) div 100 < 2 ^ 216"
    by (rule limb.pledge_less [OF assms])
  then show ?thesis using assms by (simp add: match_funds_def)
qed

lemma settle_amounts_small:
  assumes "bigint_lib (se_B E)" "settle_amounts E match donation m = Inr (b, s, d, adj, m')"
    and "settle_wf E match donation m" "converts (se_U E)"
  shows "bval b + bval s < 2 ^ 230"
proof -
  have "match_funds match < 2 ^ 217" using assms(3) by (intro match_funds_less) (simp add: settle_wf_def)
  then have "bval b + bval s < 2 ^ 217 + 2 ^ 200" using settle_amounts_sum [OF assms] by linarith
  then show ?thesis by (rule less_trans) simp
qed

lemma SettleMatch_stages:
  assumes "SettleMatch E match donation tb st = Inr (False, d, match', tb', st')"
  obtains b s adj m b1 tb1 st1 s1 st2 m2 where "settle_amounts E match donation (xs_mining st) = Inr (b, s, d, adj, m)"
    "CreateTxOutputs 1 E (mr_base_asset (xm_xbuy match)) b (mr_destination (xm_xbuy match))
       (default_domain (se_P E)) True True 0 True False tb (st\<lparr>xs_mining := m\<rparr>) = Inr (False, b1, tb1, st1)"
    "CreateTxOutputs 1 E (mr_base_asset (xm_xsell match)) (op_add (se_B E) s b1) (mr_destination (xm_xsell match))
       (default_domain (se_P E)) True True 0 True False tb1 st1 = Inr (False, s1, tb', st2)"
    "(if xm_status match = XMATCH_STATUS_PAID
      then FinalizeMiningAmount (se_B E) (se_U E) match
        (if op_less (se_B E) adj s1 then ofULong (se_B E) 0 else op_sub (se_B E) adj s1) (xs_mining st2)
      else Inr (match, xs_mining st2)) = Inr (match', m2)"
    "st' = st2\<lparr>xs_mining := m2, xs_db := snd (XmatchInsert (se_D E) match' (xs_db st2))\<rparr>"
proof -
  let ?B = "se_B E" and ?D = "default_domain (se_P E)"
  note unfold = SettleMatch_def Let_def
  obtain b s d1 adj m where a: "settle_amounts E match donation (xs_mining st) = Inr (b, s, d1, adj, m)"
    using assms by (cases "settle_amounts E match donation (xs_mining st)") (auto simp: unfold)
  let ?o1 = "CreateTxOutputs 1 E (mr_base_asset (xm_xbuy match)) b (mr_destination (xm_xbuy match)) ?D True True 0 True False tb (st\<lparr>xs_mining := m\<rparr>)"
  have hm: "mr_have_matching (xm_xbuy match)" "mr_have_matching (xm_xsell match)"
    using assms a by (auto simp: unfold split: if_splits)
  obtain b1 tb1 st1 where o1: "?o1 = Inr (False, b1, tb1, st1)"
    using assms a hm by (cases ?o1) (auto simp: unfold split: if_splits)
  let ?o2 = "CreateTxOutputs 1 E (mr_base_asset (xm_xsell match)) (op_add ?B s b1) (mr_destination (xm_xsell match)) ?D True True 0 True False tb1 st1"
  obtain s1 tb2 st2 where o2: "?o2 = Inr (False, s1, tb2, st2)"
    using assms a hm o1 by (cases ?o2) (auto simp: unfold split: if_splits)
  let ?f = "if xm_status match = XMATCH_STATUS_PAID
      then FinalizeMiningAmount ?B (se_U E) match (if op_less ?B adj s1 then ofULong ?B 0 else op_sub ?B adj s1) (xs_mining st2)
      else Inr (match, xs_mining st2)"
  have r: "bind_outcome ?f (\<lambda>(match, m). case XmatchInsert (se_D E) match (xs_db st2) of (rc, db) \<Rightarrow>
      Inr (rc, d1, match, tb2, st2\<lparr>xs_mining := m, xs_db := db\<rparr>)) = Inr (False, d, match', tb', st')"
    using assms a hm o1 o2 by (simp add: unfold)
  obtain match2 m2 where f: "?f = Inr (match2, m2)"
    using r by (cases ?f) (auto simp del: if_split)
  obtain rc db where x: "XmatchInsert (se_D E) match2 (xs_db st2) = (rc, db)" by fastforce
  have e: "d1 = d" "match2 = match'" "tb2 = tb'" "st' = st2\<lparr>xs_mining := m2, xs_db := db\<rparr>"
    using r unfolding f by (simp_all add: x)
  show thesis
    using that [OF a [unfolded e(1)] o1 o2 [unfolded e(3)] f [unfolded e(2)]] e(4) x e(2) by simp
qed

text \<open>
  Settlement up to the mining amount: the two outputs and the donation take what was there, up to a
  rest too small for an output.
\<close>

lemma SettleMatch_outputs:
  assumes B: "bigint_lib (se_B E)" and D: "counts_outputs (se_D E) issued" and U: "converts (se_U E)"
    and wf: "settle_wf E match donation (xs_mining st)"
    and dest: "big_true (mr_destination (xm_xbuy match))" "big_true (mr_destination (xm_xsell match))"
    and ok: "SettleMatch E match donation tb st = Inr (False, d, match', tb', st')"
  obtains b s adj m rest where "settle_amounts E match donation (xs_mining st) = Inr (b, s, d, adj, m)"
    "wf_bigint rest" "bval rest + issued (xs_db st') + bval d = issued (xs_db st) + match_funds match + bval adj"
    "(if xm_status match = XMATCH_STATUS_PAID
      then FinalizeMiningAmount (se_B E) (se_U E) match
        (if op_less (se_B E) adj rest then ofULong (se_B E) 0 else op_sub (se_B E) adj rest) m
      else Inr (match, m)) = Inr (match', xs_mining st')"
proof -
  obtain b s adj m b1 tb1 st1 s1 st2 m2 where a: "settle_amounts E match donation (xs_mining st) = Inr (b, s, d, adj, m)"
    and o1: "CreateTxOutputs 1 E (mr_base_asset (xm_xbuy match)) b (mr_destination (xm_xbuy match))
       (default_domain (se_P E)) True True 0 True False tb (st\<lparr>xs_mining := m\<rparr>) = Inr (False, b1, tb1, st1)"
    and o2: "CreateTxOutputs 1 E (mr_base_asset (xm_xsell match)) (op_add (se_B E) s b1) (mr_destination (xm_xsell match))
       (default_domain (se_P E)) True True 0 True False tb1 st1 = Inr (False, s1, tb', st2)"
    and f: "(if xm_status match = XMATCH_STATUS_PAID
      then FinalizeMiningAmount (se_B E) (se_U E) match
        (if op_less (se_B E) adj s1 then ofULong (se_B E) 0 else op_sub (se_B E) adj s1) (xs_mining st2)
      else Inr (match, xs_mining st2)) = Inr (match', m2)"
    and st': "st' = st2\<lparr>xs_mining := m2, xs_db := snd (XmatchInsert (se_D E) match' (xs_db st2))\<rparr>"
    by (rule SettleMatch_stages [OF ok])
  note q = settle_amounts_sum [OF B a wf U]
  have bs: "bval b + bval s < 2 ^ 230" by (rule settle_amounts_small [OF B a wf U])
  then have b: "bval b < 2 ^ 230" by linarith
  note r1 = CreateTxOutputs_rest [OF B D conjunct1 [OF q] b dest(1) o1]
  have "bval s + bval b1 < field_prime" using bs r1(3) by (simp add: field_prime_def)
  then have add: "wf_bigint (op_add (se_B E) s b1)" "bval (op_add (se_B E) s b1) = bval s + bval b1"
    using bigint_lib.wf_add [OF B] bigint_lib.val_add [OF B] q r1(1) by auto
  then have "bval (op_add (se_B E) s b1) < 2 ^ 230" using bs r1(3) by linarith
  note r2 = CreateTxOutputs_rest [OF B D add(1) this dest(2) o2]
  have iss: "issued (xs_db st') = issued (xs_db st2)" using D by (simp add: st' counts_outputs_def)
  have sum: "bval s1 + issued (xs_db st') + bval d = issued (xs_db st) + match_funds match + bval adj"
    using r1(2) r2(2) add(2) q iss by simp
  have mm: "xs_mining st2 = m" "xs_mining st' = m2" using r1(4) r2(4) st' by simp_all
  show thesis by (rule that [OF a r2(1) sum f [unfolded mm(1), folded mm(2)]])
qed

lemma SettleMatch_balance:
  assumes B: "bigint_lib (se_B E)" and D: "counts_outputs (se_D E) issued" and U: "converts (se_U E)"
    and wf: "settle_wf E match donation (xs_mining st)" "mining_wf (saved (xs_mining st))"
    and small: "mining_total (saved (xs_mining st)) < field_prime"
    and dest: "big_true (mr_destination (xm_xbuy match))" "big_true (mr_destination (xm_xsell match))"
    and ok: "SettleMatch E match donation tb st = Inr (False, d, match', tb', st')"
  shows "mining_wf (saved (xs_mining st'))" "mining_total (saved (xs_mining st')) = mining_total (saved (xs_mining st))"
    "bval (total_mined (saved (xs_mining st))) \<le> bval (total_mined (saved (xs_mining st')))"
    "issued (xs_db st') + bval d + bval (total_mined (saved (xs_mining st))) \<le>
      issued (xs_db st) + match_funds match + bval (total_mined (saved (xs_mining st')))"
    "xm_status match \<noteq> XMATCH_STATUS_PAID \<Longrightarrow> bval donation = 0 \<Longrightarrow> bval d = 0"
    "wf_bigint d"
proof -
  obtain b s adj m rest where a: "settle_amounts E match donation (xs_mining st) = Inr (b, s, d, adj, m)"
    and r: "wf_bigint rest" "bval rest + issued (xs_db st') + bval d = issued (xs_db st) + match_funds match + bval adj"
    and f: "(if xm_status match = XMATCH_STATUS_PAID
      then FinalizeMiningAmount (se_B E) (se_U E) match
        (if op_less (se_B E) adj rest then ofULong (se_B E) 0 else op_sub (se_B E) adj rest) m
      else Inr (match, m)) = Inr (match', xs_mining st')"
    by (rule SettleMatch_outputs [OF B D U wf(1) dest ok])
  note q = settle_amounts_sum [OF B a wf(1) U]
  define x where "x = (if op_less (se_B E) adj rest then ofULong (se_B E) 0 else op_sub (se_B E) adj rest)"
  have "bval adj < field_prime" using q by (simp add: field_prime_def)
  then have x: "wf_bigint x" "bval x = bval adj - bval rest"
    using q r(1) bigint_lib.less_iff [OF B] bigint_lib.wf_ops [OF B] bigint_lib.val_sub [OF B] bigint_lib.val_ofULong [OF B]
    by (auto simp: x_def)
  have t: "total_mined (saved m) = total_mined (saved (xs_mining st))" "mining_wf (saved m)"
    "mining_total (saved m) = mining_total (saved (xs_mining st))"
    using q wf(2) by (auto simp: mining_same_totals_def mining_wf_def mining_total_def)
  have m2: "mining_wf (saved (xs_mining st')) \<and> mining_total (saved (xs_mining st')) = mining_total (saved m) \<and>
      bval (total_mined (saved (xs_mining st'))) = bval (total_mined (saved m)) + bval x"
  proof (cases "xm_status match = XMATCH_STATUS_PAID")
    case True
    then have "FinalizeMiningAmount (se_B E) (se_U E) match x m = Inr (match', xs_mining st')" using f by (simp add: x_def)
    from FinalizeMiningAmount_totals [OF B t(2) small [folded t(3)] x(1) this] show ?thesis using q x(2) by auto
  qed (use f q x(2) t in auto)
  show "wf_bigint d" "xm_status match \<noteq> XMATCH_STATUS_PAID \<Longrightarrow> bval donation = 0 \<Longrightarrow> bval d = 0" using q by auto
  show "mining_wf (saved (xs_mining st'))" "mining_total (saved (xs_mining st')) = mining_total (saved (xs_mining st))"
    "bval (total_mined (saved (xs_mining st))) \<le> bval (total_mined (saved (xs_mining st')))"
    "issued (xs_db st') + bval d + bval (total_mined (saved (xs_mining st))) \<le>
      issued (xs_db st) + match_funds match + bval (total_mined (saved (xs_mining st')))"
    using m2 t r(2) x(2) by auto
qed

text \<open>
  C2. Settling a match makes no money. Whatever database keeps count of the outputs, when
  \<open>SettleMatch\<close> succeeds, the value of the outputs it made plus the donation is at most the amount
  of the match, the larger pledge and what was newly mined; and what was newly mined was taken from
  what remained to be mined.
\<close>

theorem SettleMatch_no_inflation:
  assumes "bigint_lib (se_B E)" "counts_outputs (se_D E) issued" "converts (se_U E)"
    and "settle_wf E match donation (xs_mining st)" "mining_wf (saved (xs_mining st))"
    and "mining_total (saved (xs_mining st)) < field_prime"
    and "big_true (mr_destination (xm_xbuy match))" "big_true (mr_destination (xm_xsell match))"
    and "SettleMatch E match donation tb st = Inr (False, d, match', tb', st')"
  shows "issued (xs_db st') + bval d + bval (total_mined (saved (xs_mining st))) \<le>
      issued (xs_db st) + match_funds match + bval (total_mined (saved (xs_mining st'))) \<and>
    mining_wf (saved (xs_mining st')) \<and>
    mining_total (saved (xs_mining st')) = mining_total (saved (xs_mining st))"
  using SettleMatch_balance [OF assms] by simp

lemma settle_pledge_total:
  assumes "xm_status match = XMATCH_STATUS_PAID \<Longrightarrow> \<not> fst (uf_amount U MINED_ASSET (xm_mining_amount match))"
  shows "\<exists>r. settle_pledge B U match m ma ba sa = Inr r"
  using assms by (auto simp: settle_pledge_def Let_def GetAdjustedMiningAmount_def split: prod.splits)

lemma settle_amounts_total:
  assumes B: "bigint_lib (se_B E)" and wf: "settle_wf E match donation m" and U: "converts (se_U E)"
    and amt: "xm_status match = XMATCH_STATUS_PAID \<Longrightarrow> \<not> fst (uf_amount (se_U E) MINED_ASSET (xm_mining_amount match))"
  shows "\<exists>r. settle_amounts E match donation m = Inr r"
proof -
  obtain ma ba sa where sp: "ComputeMatchSplit (se_B E) (se_U E) match = (ma, ba, sa)"
    by (cases "ComputeMatchSplit (se_B E) (se_U E) match") auto
  let ?m = "UpdateMatchStats (se_U E) match ba m"
  obtain b s pl adj where p: "settle_pledge (se_B E) (se_U E) match ?m ma ba sa = Inr (b, s, pl, adj)"
    using settle_pledge_total [OF amt, of "se_B E" ?m ma ba sa] by auto
  have "\<exists>b'. settle_extra_pledge (se_B E) match ma pl b = Inr b'"
  proof -
    have "bval (xm_base_amount match) < field_prime" using wf by (simp add: settle_wf_def field_prime_def)
    then have sum: "wf_bigint ma" "wf_bigint ba" "wf_bigint sa" "bval ba + bval sa = bval ma" "bval ma < 2 ^ 200"
      using bigint_lib.split_sum [OF B sp] wf U by (auto simp: settle_wf_def converts_def)
    have "total_remaining_to_mine (saved ?m) = total_remaining_to_mine (saved m)"
      using UpdateMatchStats_totals [of m "se_U E" match ba] by (simp add: mining_same_totals_def)
    then have "wf_bigint (total_remaining_to_mine (saved ?m))" "bval (total_remaining_to_mine (saved ?m)) < 2 ^ 200"
      using wf by (simp_all add: settle_wf_def)
    from bigint_lib.settle_pledge_sum [OF B p sum this U [unfolded converts_def]]
    have q: "wf_bigint pl" "wf_bigint b" "bval pl = bval ma * unat (xm_match_pledge match) div 100"
      "bval b + bval s = bval ma + bval pl + bval adj" "bval adj < 2 ^ 200" by auto
    have "bval pl < 2 ^ 216" unfolding q(3) by (rule bigint_lib.pledge_less [OF B sum(5)])
    then have "bval b < 2 ^ 220" using q(4,5) sum(5) by simp
    then show ?thesis using bigint_lib.settle_extra_sum [OF B sum(1,5) q(1,2) _ q(3)] by blast
  qed
  then show ?thesis using sp p by (auto simp: settle_amounts_def Let_def split: prod.splits)
qed

lemma FinalizeMiningAmount_total:
  assumes B: "bigint_lib B" and "wf_bigint adj" "wf_bigint (total_remaining_to_mine (saved m))"
    and "xm_status match = XMATCH_STATUS_PAID" "bval adj \<le> bval (total_remaining_to_mine (saved m))"
  shows "\<exists>match' m'. FinalizeMiningAmount B U match adj m = Inr (match', m')"
  using assms(2-) bigint_lib.less_iff [OF B] by (auto simp: FinalizeMiningAmount_def Let_def)

lemma SettleMatch_total:
  assumes B: "bigint_lib (se_B E)" and D: "counts_outputs (se_D E) issued" "db_succeeds (se_D E)" and U: "converts (se_U E)"
    and wf: "settle_wf E match donation (xs_mining st)" "mr_have_matching (xm_xbuy match)" "mr_have_matching (xm_xsell match)"
    and dest: "big_true (mr_destination (xm_xbuy match))" "big_true (mr_destination (xm_xsell match))"
    and amt: "xm_status match = XMATCH_STATUS_PAID \<Longrightarrow> \<not> fst (uf_amount (se_U E) MINED_ASSET (xm_mining_amount match))"
  shows "\<exists>d match' tb' st'. SettleMatch E match donation tb st = Inr (False, d, match', tb', st')"
proof -
  obtain b s d adj m where a: "settle_amounts E match donation (xs_mining st) = Inr (b, s, d, adj, m)"
    using settle_amounts_total [OF B wf(1) U amt] by auto
  note q = settle_amounts_sum [OF B a wf(1) U]
  have bs: "bval b + bval s < 2 ^ 230" by (rule settle_amounts_small [OF B a wf(1) U])
  then have b: "bval b < 2 ^ 230" by linarith
  let ?dom = "default_domain (se_P E)"
  obtain b1 tb1 st1 where o1: "CreateTxOutputs 1 E (mr_base_asset (xm_xbuy match)) b (mr_destination (xm_xbuy match))
       ?dom True True 0 True False tb (st\<lparr>xs_mining := m\<rparr>) = Inr (False, b1, tb1, st1)"
    by (rule CreateTxOutputs_succeeds [OF B D conjunct1 [OF q] b dest(1)])
  note r1 = CreateTxOutputs_rest [OF B D(1) conjunct1 [OF q] b dest(1) o1]
  have "bval s + bval b1 < field_prime" using bs r1(3) by (simp add: field_prime_def)
  then have add: "wf_bigint (op_add (se_B E) s b1)" "bval (op_add (se_B E) s b1) = bval s + bval b1"
    using bigint_lib.wf_add [OF B] bigint_lib.val_add [OF B] q r1(1) by auto
  have small: "bval (op_add (se_B E) s b1) < 2 ^ 230" using bs r1(3) add(2) by linarith
  obtain s1 tb2 st2 where o2: "CreateTxOutputs 1 E (mr_base_asset (xm_xsell match)) (op_add (se_B E) s b1)
       (mr_destination (xm_xsell match)) ?dom True True 0 True False tb1 st1 = Inr (False, s1, tb2, st2)"
    by (rule CreateTxOutputs_succeeds [OF B D add(1) small dest(2)])
  note r2 = CreateTxOutputs_rest [OF B D(1) add(1) small dest(2) o2]
  define x where "x = (if op_less (se_B E) adj s1 then ofULong (se_B E) 0 else op_sub (se_B E) adj s1)"
  have "bval adj < field_prime" using q by (simp add: field_prime_def)
  then have x: "wf_bigint x" "bval x \<le> bval adj"
    using q r2(1) bigint_lib.less_iff [OF B] bigint_lib.wf_ops [OF B] bigint_lib.val_sub [OF B] bigint_lib.val_ofULong [OF B]
    by (auto simp: x_def)
  have tr: "total_remaining_to_mine (saved (xs_mining st2)) = total_remaining_to_mine (saved (xs_mining st))"
    using q r1(4) r2(4) by (simp add: mining_same_totals_def)
  obtain match' m2 where f: "(if xm_status match = XMATCH_STATUS_PAID
      then FinalizeMiningAmount (se_B E) (se_U E) match x (xs_mining st2) else Inr (match, xs_mining st2)) = Inr (match', m2)"
    using FinalizeMiningAmount_total [OF B x(1), of "xs_mining st2" match "se_U E"] x(2) q wf(1)
    unfolding tr settle_wf_def by (cases "xm_status match = XMATCH_STATUS_PAID") auto
  obtain db where "XmatchInsert (se_D E) match' (xs_db st2) = (False, db)"
    using D(2) by (cases "XmatchInsert (se_D E) match' (xs_db st2)") (metis db_succeeds_def fst_conv)
  then show ?thesis
    using wf(2,3)
    by (simp add: SettleMatch_def a o1 [simplified] o2 [simplified] Let_def f [unfolded x_def] split del: if_split)
qed

section \<open>Expiry\<close>

text \<open>What the exchange guarantees of a match that waits for payment.\<close>

definition open_match :: "'f xmatch \<Rightarrow> bool" where
  "open_match match \<longleftrightarrow> (xm_status match = XMATCH_STATUS_ACCEPTED \<or> xm_status match = XMATCH_STATUS_PART_PAID_OPEN) \<and>
     wf_bigint (xm_base_amount match) \<and> bval (xm_base_amount match) < 2 ^ 200 \<and>
     mr_have_matching (xm_xbuy match) \<and> mr_have_matching (xm_xsell match) \<and>
     big_true (mr_destination (xm_xbuy match)) \<and> big_true (mr_destination (xm_xsell match))"

definition serves_open_matches :: "('db, 'f) dbops \<Rightarrow> bool" where
  "serves_open_matches D \<longleftrightarrow> (\<forall>t db match. XmatchSelectNextDeadline D t db = (0, match) \<longrightarrow> open_match match)"

definition mining_ready :: "'f mining_params \<Rightarrow> bool" where
  "mining_ready p \<longleftrightarrow> mining_wf p \<and> mining_total p < 2 ^ 200"

lemma expired_match_cases:
  assumes "open_match match"
  obtains match' where "expired_match t match = Inr match'" "xm_status match' \<noteq> XMATCH_STATUS_PAID"
    "mr_have_matching (xm_xbuy match')" "mr_have_matching (xm_xsell match')"
    "big_true (mr_destination (xm_xbuy match'))" "big_true (mr_destination (xm_xsell match'))"
    "wf_bigint (xm_base_amount match')" "bval (xm_base_amount match') < 2 ^ 200"
  using assms by (auto simp: open_match_def expired_match_def status_consts)

lemma expire_one:
  assumes B: "bigint_lib (se_B E)" and D: "counts_outputs (se_D E) issued" "db_succeeds (se_D E)" and U: "converts (se_U E)"
    and P: "wf_bigint (donation_per_xcx_pay (se_P E))" and m: "mining_ready (saved (xs_mining st))" and o: "open_match match"
  obtains match' d match2 tb' st' where "expired_match t match = Inr match'"
    "SettleMatch E match' (ofULong (se_B E) 0) tb st = Inr (False, d, match2, tb', st')" "\<not> big_true d"
    "mining_ready (saved (xs_mining st'))"
proof -
  obtain match' where e: "expired_match t match = Inr match'" "xm_status match' \<noteq> XMATCH_STATUS_PAID"
    "mr_have_matching (xm_xbuy match')" "mr_have_matching (xm_xsell match')"
    "big_true (mr_destination (xm_xbuy match'))" "big_true (mr_destination (xm_xsell match'))"
    "wf_bigint (xm_base_amount match')" "bval (xm_base_amount match') < 2 ^ 200"
    by (rule expired_match_cases [OF o, of t])
  have mw: "mining_wf (saved (xs_mining st))" "mining_total (saved (xs_mining st)) < field_prime"
    using m by (simp_all add: mining_ready_def field_prime_def)
  have z: "wf_bigint (ofULong (se_B E) 0)" "bval (ofULong (se_B E) 0) = 0"
    using bigint_lib.wf_ofULong [OF B] bigint_lib.val_ofULong [OF B] by auto
  have wf: "settle_wf E match' (ofULong (se_B E) 0) (xs_mining st)"
    using e(7,8) P m z(1) by (simp add: settle_wf_def mining_ready_def mining_wf_def mining_total_def)
  obtain d match2 tb' st' where s: "SettleMatch E match' (ofULong (se_B E) 0) tb st = Inr (False, d, match2, tb', st')"
    using SettleMatch_total [OF B D U wf e(3-6)] e(2) by blast
  note q = SettleMatch_balance [OF B D(1) U wf mw e(5,6) s]
  have "mining_ready (saved (xs_mining st'))" using q(1,2) m by (simp add: mining_ready_def)
  moreover have "\<not> big_true d" using q(5,6) e(2) z(2) by (simp add: big_true_iff)
  ultimately show thesis using that e(1) s by blast
qed

section \<open>A database in memory\<close>

text \<open>
  An instance of the database interface: the representations of the outputs made and the matches
  held. It satisfies the conditions of the theorems.
\<close>

type_synonym mem_db = "u64 list \<times> int xmatch list"

definition mem_dbops :: "(mem_db, int) dbops" where
  "mem_dbops = \<lparr>CommitRootsSelectLevel = (\<lambda>l db. (False, big_of_nat 7)),
     CommitTreeInsert = (\<lambda>n c db. (False, db)),
     TxOutputInsert = (\<lambda>a dm x fp l n db. (fp # fst db, snd db)),
     XmatchSelect = (\<lambda>n db. case find (\<lambda>m. xm_xmatchnum m = n) (snd db) of Some m \<Rightarrow> (False, m) | None \<Rightarrow> (True, sample_match)),
     XmatchInsert = (\<lambda>m db. (False, (fst db, m # filter (\<lambda>n. xm_xmatchnum n \<noteq> xm_xmatchnum m) (snd db)))),
     XmatchSelectNextDeadline = (\<lambda>t db. case find (\<lambda>m. open_match m \<and> 0 < xm_next_deadline m \<and> xm_next_deadline m \<le> t) (snd db)
        of Some m \<Rightarrow> (0, m) | None \<Rightarrow> (1, sample_match))\<rparr>"

definition mem_issued :: "mem_db \<Rightarrow> nat" where
  "mem_issued db = sum_list (map fp_value (fst db))"

lemma mem_dbops_laws: "counts_outputs mem_dbops mem_issued" "db_succeeds mem_dbops" "serves_open_matches mem_dbops"
  by (auto simp: counts_outputs_def db_succeeds_def serves_open_matches_def mem_dbops_def mem_issued_def
      find_Some_iff split: option.splits)

definition sample_env :: "(mem_db, int) settle_env" where
  "sample_env = \<lparr>se_B = limb_bigops, se_U = int_ufops, se_D = mem_dbops,
     se_Z = \<lparr>tx_set_commit_iv = (\<lambda>tb. tb), compute_commitment = (\<lambda>iv dest pn dm x fp. dest),
       compute_address = (\<lambda>dest chain pn. dest)\<rparr>,
     se_P = \<lparr>outvalmin = 0, outvalmax = 31, donation_per_xcx_pay = big_of_nat 3, default_domain = 1, blockchain_num = 1\<rparr>\<rparr>"

definition sample_state :: "int xmatch list \<Rightarrow> (mem_db, int) xstate" where
  "sample_state ms = \<lparr>xs_db = ([], ms), xs_mining = sample_mining, xs_next_commitnum = 0, xs_last_indelible_level = 5,
     xs_shutdown = False\<rparr>"

definition sample_txbuf :: txbuf where
  "sample_txbuf = \<lparr>tb_param_level = 0, tb_merkle_root = big_of_nat 0, tb_commitment_iv = big_of_nat 0\<rparr>"

lemma sample_env_laws:
  "bigint_lib (se_B sample_env)" "counts_outputs (se_D sample_env) mem_issued" "db_succeeds (se_D sample_env)"
  "serves_open_matches (se_D sample_env)" "converts (se_U sample_env)" "wf_bigint (donation_per_xcx_pay (se_P sample_env))"
  using limb_lib mem_dbops_laws by (simp_all add: sample_env_def converts_def int_ufops_def)

lemma sample_settle_wf: "settle_wf sample_env sample_match (big_of_nat 0) (xs_mining (sample_state ms))"
  by (simp add: settle_wf_def sample_match_fields sample_state_def sample_mining_fields sample_env_def bval_big_of_nat)

lemma sample_mining_ready: "mining_ready (saved (xs_mining (sample_state ms)))"
  using sample_mining_wf(1)
  by (simp add: mining_ready_def sample_state_def mining_total_def sample_mining_fields bval_big_of_nat)

theorem CreateTxOutputs_complete_witness:
  "\<exists>rc rest tb' st'. CreateTxOutputs 100 sample_env 0 (big_of_nat 77) (big_of_nat 18) 1 True True 0 False False sample_txbuf (sample_state []) =
     Inr (rc, rest, tb', st') \<and> (\<not> rc \<longrightarrow> bval rest + mem_issued (xs_db st') = 77)"
  using CreateTxOutputs_complete [OF sample_env_laws(1,2) wf_big_of_nat, of 77 "big_of_nat 18" 100 0 1 True 0 False False sample_txbuf "sample_state []"]
  by (auto simp: bval_big_of_nat big_true_iff sample_state_def mem_issued_def)

theorem SettleMatch_no_inflation_witness:
  "\<exists>d match' tb' st'. SettleMatch sample_env sample_match (big_of_nat 0) sample_txbuf (sample_state []) = Inr (False, d, match', tb', st') \<and>
     mem_issued (xs_db st') + bval d \<le> 1500 + bval (total_mined (saved (xs_mining st')))"
proof -
  have dest: "big_true (mr_destination (xm_xbuy sample_match))" "big_true (mr_destination (xm_xsell sample_match))"
    by (simp_all add: sample_match_fields big_true_iff bval_big_of_nat)
  have m: "mining_wf (saved (xs_mining (sample_state [])))" "mining_total (saved (xs_mining (sample_state []))) < field_prime"
    using sample_mining_wf by (simp_all add: sample_state_def)
  have am: "\<not> fst (uf_amount (se_U sample_env) MINED_ASSET (xm_mining_amount sample_match))"
    by (simp add: sample_env_def int_ufops_def)
  obtain d match' tb' st' where s: "SettleMatch sample_env sample_match (big_of_nat 0) sample_txbuf (sample_state []) = Inr (False, d, match', tb', st')"
    using SettleMatch_total [OF sample_env_laws(1-3,5) sample_settle_wf sample_match_fields(11,12) dest, of sample_txbuf "[]"] am
    by blast
  from SettleMatch_no_inflation [OF sample_env_laws(1,2,5) sample_settle_wf m dest s] s show ?thesis
    by (simp add: match_funds_def sample_match_fields bval_big_of_nat sample_state_def mem_issued_def sample_mining_fields)
qed

definition waiting_match :: "int xmatch" where
  "waiting_match = sample_match\<lparr>xm_status := XMATCH_STATUS_ACCEPTED, xm_next_deadline := 100\<rparr>"

end
