(* ===== verification/Chain.thy ===== *)
theory Chain
  imports Blocks
begin

text \<open>
  Searches along the chain of blocks (ccnode/src/blockchain.cpp: \<open>ComputePruneLevel\<close>,
  \<open>CheckSerialnum\<close>, \<open>BlockInChain\<close>, \<open>ChainHasDelibleTxs\<close>) and the query they use for serial numbers of
  blocks that are not yet indelible (ccnode/src/dbconn-tempserials.cpp).

  The SQL library is a parameter: the rows that a statement gives, as results of its step call. The
  loops follow prior pointers for as long as the levels require, so they take fuel; the theorems
  show how much is enough when every block has a higher level than its prior block.
\<close>

section \<open>The level to prune at\<close>

definition ComputePruneLevel :: "heap \<Rightarrow> addr option \<Rightarrow> u64 \<Rightarrow> u32 \<Rightarrow> u32 \<Rightarrow> u64" where
  "ComputePruneLevel h last_indelible_block startup_prune_level min_level trailing_rounds =
     (let (last_level, trailing_levels) =
            (case last_indelible_block of
               None \<Rightarrow> (0, 0)
             | Some b \<Rightarrow> (level_value (h b), trailing_rounds * ucast (nwitnesses (blockchain_params (h b)))));
          prune_level = (if last_level > ucast trailing_levels then last_level - ucast trailing_levels else 0);
          prune_level = (if prune_level < ucast min_level then ucast min_level else prune_level)
      in if prune_level < startup_prune_level then startup_prune_level else prune_level)"

section \<open>Serial numbers in recent blocks\<close>

text \<open>A step of the statement: an error, a result that is neither a row nor the end, or a row.\<close>

datatype sql_row = SqlError | SqlOther | SqlRow nat nat addr

record 'db serialops =
  Temp_Serials_select :: "byte list \<Rightarrow> addr \<Rightarrow> 'db \<Rightarrow> bool \<times> sql_row list"
  SerialnumSelect :: "byte list \<Rightarrow> 'db \<Rightarrow> int"
  ValidObjsDeleteObj :: "addr \<Rightarrow> 'db \<Rightarrow> 'db"

fun temp_select_loop :: "bool \<Rightarrow> nat \<Rightarrow> sql_row list \<Rightarrow> addr list \<Rightarrow> int \<times> addr list" where
  "temp_select_loop shutdown bufsize [] output = (int (length output), output)"
| "temp_select_loop shutdown bufsize (r # rows) output =
     (if shutdown then (int (length output), output)
      else if r = SqlError then (-1, output)
      else if length output = bufsize then (int (length output) + 1, output)
      else case r of
             SqlRow columns bytes bufp \<Rightarrow>
               if columns \<noteq> 1 then (int (length output), output)
               else if bytes \<noteq> 8 then (-1, output)
               else if bufp = 0 then (-1, output)
               else temp_select_loop shutdown bufsize rows (output @ [bufp])
           | _ \<Rightarrow> (-1, output))"

definition TempSerialnumSelect ::
  "'db serialops \<Rightarrow> bool \<Rightarrow> byte list \<Rightarrow> addr \<Rightarrow> nat \<Rightarrow> 'db \<Rightarrow> int \<times> addr list" where
  "TempSerialnumSelect D shutdown serialnum last_blockp bufsize db =
     (let (bind_error, rows) = Temp_Serials_select D serialnum last_blockp db
      in if bind_error then (-1, []) else temp_select_loop shutdown bufsize rows [])"

fun BlockInChain :: "nat \<Rightarrow> heap \<Rightarrow> bool \<Rightarrow> addr \<Rightarrow> addr option \<Rightarrow> addr option \<Rightarrow> bool outcome" where
  "BlockInChain 0 h shutdown find_block smartobj last_indelible = Inl OutOfFuel"
| "BlockInChain (Suc fuel) h shutdown find_block smartobj last_indelible =
     (case smartobj of
        None \<Rightarrow> Inr False
      | Some b \<Rightarrow>
          if shutdown then Inr False
          else if b = find_block then Inr True
          else case last_indelible of
                 None \<Rightarrow> Inl OutOfBounds
               | Some l \<Rightarrow> if level_value (h b) \<le> level_value (h l) then Inr False
                           else BlockInChain fuel h shutdown find_block (prior (h b)) last_indelible)"

definition BLOCKARRAYSIZE :: nat where
  "BLOCKARRAYSIZE = 100"

text \<open>The inner loop over the blocks found: \<open>Some\<close> of a value that the function returns.\<close>

fun check_found_blocks ::
  "nat \<Rightarrow> heap \<Rightarrow> bool \<Rightarrow> addr option \<Rightarrow> addr option \<Rightarrow> nat \<Rightarrow> addr list \<Rightarrow> int option outcome" where
  "check_found_blocks fuel h shutdown topblock last_indelible type [] = Inr None"
| "check_found_blocks fuel h shutdown topblock last_indelible type (b # bs) =
     (if shutdown then Inr (Some 0)
      else if b = type then Inr (Some 2)
      else bind_outcome (BlockInChain fuel h shutdown b topblock last_indelible) (\<lambda>found.
        if found then Inr (Some 3)
        else check_found_blocks fuel h shutdown topblock last_indelible type bs))"

fun check_serial_loop ::
  "nat \<Rightarrow> nat \<Rightarrow> 'db serialops \<Rightarrow> heap \<Rightarrow> bool \<Rightarrow> addr option \<Rightarrow> addr option \<Rightarrow> nat \<Rightarrow> byte list \<Rightarrow> addr \<Rightarrow> 'db \<Rightarrow> int outcome" where
  "check_serial_loop 0 fuel D h shutdown topblock last_indelible type serial last_blockp db = Inl OutOfFuel"
| "check_serial_loop (Suc pages) fuel D h shutdown topblock last_indelible type serial last_blockp db =
     (let (nblocks, blockparray) = TempSerialnumSelect D shutdown serial last_blockp BLOCKARRAYSIZE db
      in if nblocks < 0 then Inr (-1)
         else let have_more = (nblocks > int BLOCKARRAYSIZE);
                  nblocks = (if have_more then int BLOCKARRAYSIZE else nblocks)
           in bind_outcome (check_found_blocks fuel h shutdown topblock last_indelible type (take (nat nblocks) blockparray)) (\<lambda>r.
                case r of
                  Some v \<Rightarrow> Inr v
                | None \<Rightarrow> if have_more
                          then check_serial_loop pages fuel D h shutdown topblock last_indelible type serial
                                 (blockparray ! (BLOCKARRAYSIZE - 1)) db
                          else Inr 0))"

definition CheckSerialnum ::
  "nat \<Rightarrow> nat \<Rightarrow> 'db serialops \<Rightarrow> heap \<Rightarrow> bool \<Rightarrow> addr option \<Rightarrow> addr option \<Rightarrow> nat \<Rightarrow> addr option \<Rightarrow> byte list \<Rightarrow> 'db
   \<Rightarrow> (int \<times> 'db) outcome" where
  "CheckSerialnum pages fuel D h shutdown topblock last_indelible type txobj serial db =
     (let result = SerialnumSelect D serial db
      in if result < 0 then Inr (-1, db)
         else if result = 0 then
           Inr (4, case txobj of None \<Rightarrow> db | Some tx \<Rightarrow> ValidObjsDeleteObj D tx db)
         else bind_outcome (check_serial_loop pages fuel D h shutdown topblock last_indelible type serial 0 db) (\<lambda>r.
           Inr (r, db)))"

fun ChainHasDelibleTxs :: "nat \<Rightarrow> heap \<Rightarrow> bool \<Rightarrow> addr option \<Rightarrow> u64 \<Rightarrow> bool outcome" where
  "ChainHasDelibleTxs 0 h shutdown smartobj last_indelible_level = Inl OutOfFuel"
| "ChainHasDelibleTxs (Suc fuel) h shutdown smartobj last_indelible_level =
     (if last_indelible_level = 0 then Inr True
      else case smartobj of
        None \<Rightarrow> Inr False
      | Some b \<Rightarrow>
          if shutdown then Inr False
          else if level_value (h b) \<le> last_indelible_level then Inr False
          else if HasTx (h b) then Inr True
          else ChainHasDelibleTxs fuel h shutdown (prior (h b)) last_indelible_level)"

section \<open>The blocks that a search visits\<close>

text \<open>
  \<open>searched h lv tip b\<close>: \<open>b\<close> is \<open>tip\<close> or is reached from it over prior blocks, all of which before \<open>b\<close>
  have a level above \<open>lv\<close>.
\<close>

inductive searched :: "heap \<Rightarrow> u64 \<Rightarrow> addr \<Rightarrow> addr \<Rightarrow> bool" for h lv where
  start: "searched h lv b b"
| step: "lv < level_value (h b) \<Longrightarrow> prior (h b) = Some p \<Longrightarrow> searched h lv p c \<Longrightarrow> searched h lv b c"

inductive_simps searched_from: "searched h lv b c"

definition levels_fall :: "heap \<Rightarrow> bool" where
  "levels_fall h \<longleftrightarrow> (\<forall>b p. prior (h b) = Some p \<longrightarrow> level_value (h p) < level_value (h b))"

lemma levels_fallD: "levels_fall h \<Longrightarrow> prior (h b) = Some p \<Longrightarrow> unat (level_value (h p)) < unat (level_value (h b))"
  by (simp add: levels_fall_def word_less_nat_alt)

lemma searched_stop: "level_value (h b) \<le> lv \<Longrightarrow> searched h lv b c \<longleftrightarrow> c = b"
  by (subst searched_from) auto

lemma searched_next:
  "lv < level_value (h b) \<Longrightarrow> searched h lv b c \<longleftrightarrow> c = b \<or> (\<exists>p. prior (h b) = Some p \<and> searched h lv p c)"
  by (subst searched_from) auto

lemma BlockInChain_searched:
  assumes "levels_fall h" "unat (level_value (h tip)) + 1 < fuel"
  shows "BlockInChain fuel h False b (Some tip) (Some l) = Inr (searched h (level_value (h l)) tip b)"
  using assms(2)
proof (induction fuel arbitrary: tip)
  case (Suc fuel)
  show ?case
  proof (cases "level_value (h tip) \<le> level_value (h l)")
    case True
    then show ?thesis by (simp add: searched_stop)
  next
    case False
    show ?thesis
    proof (cases "prior (h tip)")
      case None
      have "searched h (level_value (h l)) tip b \<longleftrightarrow> b = tip" using False None by (subst searched_next) auto
      then show ?thesis using False None Suc.prems by (cases fuel) auto
    next
      case (Some p)
      have "searched h (level_value (h l)) tip b \<longleftrightarrow> b = tip \<or> searched h (level_value (h l)) p b"
        using False Some by (subst searched_next) auto
      moreover have "unat (level_value (h p)) + 1 < fuel" using levels_fallD [OF assms(1) Some] Suc.prems by simp
      ultimately show ?thesis using False Some Suc.IH [of p] by simp
    qed
  qed
qed simp

lemma searched_above_iff:
  assumes "lv < level_value (h b)"
  shows "(\<exists>c. searched h lv b c \<and> lv < level_value (h c) \<and> Q c) \<longleftrightarrow>
    Q b \<or> (\<exists>p c. prior (h b) = Some p \<and> searched h lv p c \<and> lv < level_value (h c) \<and> Q c)"
proof -
  have "searched h lv b c \<longleftrightarrow> c = b \<or> (\<exists>p. prior (h b) = Some p \<and> searched h lv p c)" for c
    by (rule searched_next [where h = h, OF assms])
  then show ?thesis using assms by auto
qed

text \<open>
  What the SQL library promises of the statement: the rows are the blocks with the serial number, one
  column of eight bytes each, those after the given one in a fixed order.
\<close>

definition serial_rows :: "'db serialops \<Rightarrow> byte list \<Rightarrow> 'db \<Rightarrow> addr list \<Rightarrow> bool" where
  "serial_rows D serial db bs \<longleftrightarrow> 0 \<notin> set bs \<and>
     (\<forall>k \<le> length bs. Temp_Serials_select D serial (if k = 0 then 0 else bs ! (k - 1)) db = (False, map (SqlRow 1 8) (drop k bs)))"

lemma temp_select_rows:
  "0 \<notin> set bs \<Longrightarrow> length out \<le> n \<Longrightarrow>
    temp_select_loop False n (map (SqlRow 1 8) bs) out =
      (if length out + length bs \<le> n then (int (length out + length bs), out @ bs)
       else (int n + 1, out @ take (n - length out) bs))"
proof (induction bs arbitrary: out)
  case (Cons b bs)
  show ?case
  proof (cases "length out = n")
    case False
    then have "temp_select_loop False n (map (SqlRow 1 8) bs) (out @ [b]) =
      (if length out + 1 + length bs \<le> n then (int (length out + 1 + length bs), out @ b # bs)
       else (int n + 1, out @ take (n - length out) (b # bs)))"
      using Cons by (subst Cons.IH) (auto simp: take_Cons' Suc_diff_Suc)
    then show ?thesis using Cons.prems False by auto
  qed (use Cons.prems in auto)
qed simp

definition serial_verdict :: "nat \<Rightarrow> addr option \<Rightarrow> int" where
  "serial_verdict type hit = (case hit of None \<Rightarrow> 0 | Some b \<Rightarrow> if b = type then 2 else 3)"

lemma check_found_spec:
  assumes "levels_fall h" "unat (level_value (h tip)) + 1 < fuel"
  shows "check_found_blocks fuel h False (Some tip) (Some l) type bs =
    Inr (map_option (\<lambda>b. if b = type then 2 else 3) (find (\<lambda>b. b = type \<or> searched h (level_value (h l)) tip b) bs))"
  by (induction bs) (auto simp: BlockInChain_searched [OF assms])

lemma find_take_drop: "find P xs = (case find P (take n xs) of None \<Rightarrow> find P (drop n xs) | Some x \<Rightarrow> Some x)"
proof (induction xs arbitrary: n)
  case (Cons x xs)
  show ?case using Cons.IH [of "n - 1"] by (cases n) (auto split: option.splits)
qed simp

lemma check_serial_loop_spec:
  assumes "levels_fall h" "unat (level_value (h tip)) + 1 < fuel" "serial_rows D serial db bs"
    and "k \<le> length bs" "length bs - k \<le> pages * BLOCKARRAYSIZE" "0 < pages"
  shows "check_serial_loop pages fuel D h False (Some tip) (Some l) type serial (if k = 0 then 0 else bs ! (k - 1)) db =
    Inr (serial_verdict type (find (\<lambda>b. b = type \<or> searched h (level_value (h l)) tip b) (drop k bs)))"
  using assms(4-6)
proof (induction pages arbitrary: k)
  case (Suc pages)
  let ?P = "\<lambda>b. b = type \<or> searched h (level_value (h l)) tip b" and ?n = BLOCKARRAYSIZE
  let ?last = "\<lambda>k. if k = 0 then 0 else bs ! (k - 1)"
  have nz: "0 \<notin> set (drop k bs)" using assms(3) in_set_dropD by (fastforce simp: serial_rows_def)
  have rows: "TempSerialnumSelect D False serial (?last k) ?n db =
      (if length bs - k \<le> ?n then (int (length bs - k), drop k bs) else (int ?n + 1, take ?n (drop k bs)))"
    using assms(3) Suc.prems(1) temp_select_rows [OF nz, of "[]" ?n]
    by (simp add: TempSerialnumSelect_def serial_rows_def)
  show ?case
  proof (cases "length bs - k \<le> ?n")
    case True
    then have "check_serial_loop (Suc pages) fuel D h False (Some tip) (Some l) type serial (?last k) db =
        (case map_option (\<lambda>b. if b = type then 2 else 3) (find ?P (drop k bs)) of Some v \<Rightarrow> Inr v | None \<Rightarrow> Inr 0)"
      using rows by (simp add: check_found_spec [OF assms(1,2)])
    then show ?thesis by (simp add: serial_verdict_def split: option.split)
  next
    case False
    let ?k = "k + ?n"
    have next_page: "?k \<le> length bs" "length bs - ?k \<le> pages * ?n" "0 < pages" "?n \<noteq> 0"
      using False Suc.prems(2) by (auto simp: BLOCKARRAYSIZE_def intro: gr0I)
    have "take ?n (drop k bs) ! (?n - 1) = ?last ?k"
      using next_page(1,4) by (simp add: nth_take)
    then have last: "take ?n (drop k bs) ! (?n - 1) = bs ! (k + ?n - 1)" "?last ?k = bs ! (k + ?n - 1)"
      using next_page(4) by auto
    have "check_serial_loop (Suc pages) fuel D h False (Some tip) (Some l) type serial (?last k) db =
        (case map_option (\<lambda>b. if b = type then 2 else 3) (find ?P (take ?n (drop k bs))) of
           Some v \<Rightarrow> Inr v | None \<Rightarrow> check_serial_loop pages fuel D h False (Some tip) (Some l) type serial (?last ?k) db)"
      using rows False unfolding last(2)
      by (auto simp: check_found_spec [OF assms(1,2)] last(1) [simplified] split: option.split)
    also have "\<dots> = Inr (serial_verdict type (find ?P (drop k bs)))"
      unfolding Suc.IH [OF next_page(1-3)] find_take_drop [of ?P "drop k bs" ?n]
      by (cases "find ?P (take ?n (drop k bs))") (simp_all add: serial_verdict_def add.commute)
    finally show ?thesis .
  qed
qed simp


text \<open>
  The test whether a chain has transactions that are not yet indelible ends and is exact: it
  tells whether a block above the given level, reached from the tip over such blocks, holds
  transactions.
\<close>

lemma ChainHasDelibleTxs_exact:
  assumes "levels_fall h" "unat (level_value (h tip)) + 1 < fuel" "lv \<noteq> 0"
  shows "ChainHasDelibleTxs fuel h False (Some tip) lv = Inr (\<exists>b. searched h lv tip b \<and> lv < level_value (h b) \<and> HasTx (h b))"
  using assms(2)
proof (induction fuel arbitrary: tip)
  case (Suc fuel)
  show ?case
  proof (cases "level_value (h tip) \<le> lv")
    case True
    then show ?thesis using assms(3) by (auto simp: searched_stop)
  next
    case False
    then have s: "(\<exists>b. searched h lv tip b \<and> lv < level_value (h b) \<and> HasTx (h b)) \<longleftrightarrow> HasTx (h tip) \<or>
        (\<exists>p b. prior (h tip) = Some p \<and> searched h lv p b \<and> lv < level_value (h b) \<and> HasTx (h b))"
      by (intro searched_above_iff) simp
    show ?thesis
    proof (cases "prior (h tip)")
      case None
      then show ?thesis using False Suc.prems assms(3) unfolding s by (cases fuel) auto
    next
      case (Some p)
      then have "unat (level_value (h p)) + 1 < fuel" using levels_fallD [OF assms(1) Some] Suc.prems by simp
      then show ?thesis using False Some assms(3) Suc.IH [of p] unfolding s by simp
    qed
  qed
qed simp

definition short_chain :: heap where
  "short_chain a = \<lparr>prior_oid = [], level = (if a < 4 then of_nat a else 0), timestamp = 0, witness = 0, txdata = [], oid = [], block_hash = [], skip = 0,
     marked_for_indelible = False, announce_ticks = 0, blockchain_params = \<lparr>nwitnesses = 1, maxmal = 0, nconfsigs = 1,
       nseqconfsigs = 1, nskipconfsigs = 1, next_nwitnesses = 1, next_maxmal = 0, signing_keys = []\<rparr>,
     total_donations = [], score = 0, score_bits = 0, score_genstamp = 0, next_signing_private_key = [],
     prior = (if a \<in> {1, 2, 3} then Some (a - 1) else None)\<rparr>"

definition list_serialops :: "addr list serialops" where
  "list_serialops = \<lparr>Temp_Serials_select = (\<lambda>s l db. (False, map (SqlRow 1 8) (if l = 0 then db else drop 1 (dropWhile (\<lambda>b. b \<noteq> l) db)))),
     SerialnumSelect = (\<lambda>s db. 1), ValidObjsDeleteObj = (\<lambda>tx db. db)\<rparr>"

lemma short_chain_falls: "levels_fall short_chain"
  by (auto simp: levels_fall_def short_chain_def level_value_def split: if_splits)

lemma ChainHasDelibleTxs_exact_witness:
  "ChainHasDelibleTxs 6 short_chain False (Some 3) 1 = Inr False"
  using ChainHasDelibleTxs_exact [OF short_chain_falls, of 3 6 1] by (simp add: short_chain_def level_value_def HasTx_def)


end
