(* ===== verification/Commit_Tree.thy ===== *)
theory Commit_Tree
  imports Bigint
begin

unbundle bit_operations_syntax

text \<open>
  The Merkle tree of commitments (ccnode/src/commitments.cpp). \<open>UpdateCommitTree\<close> brings the tree up to
  date after a block: it recomputes only the nodes above the commitments added since the last update,
  and pads the right edge of every row with a value taken from the hash of the block.

  The database is a parameter: tables written by insert-or-replace and read by key, each call with
  its result code. The hash functions of the tree are parameters too. The theorem shows that the tree
  in the database is the one a reference definition computes from all commitments.
\<close>

section \<open>The update\<close>

definition TX_MERKLE_DEPTH :: nat where
  "TX_MERKLE_DEPTH = 40"

definition DB_KEY_COMMIT_BLOCKLEVEL :: nat where "DB_KEY_COMMIT_BLOCKLEVEL = 3"
definition DB_KEY_COMMIT_COMMITNUM_HI :: nat where "DB_KEY_COMMIT_COMMITNUM_HI = 5"
definition DB_KEY_COMMIT_NULL_INPUT :: nat where "DB_KEY_COMMIT_NULL_INPUT = 6"

record 'db treeops =
  param_insert :: "nat \<Rightarrow> nat \<Rightarrow> byte list \<Rightarrow> 'db \<Rightarrow> int \<times> 'db"
  param_select :: "nat \<Rightarrow> nat \<Rightarrow> 'db \<Rightarrow> int \<times> byte list"
  tree_select :: "nat \<Rightarrow> u64 \<Rightarrow> 'db \<Rightarrow> int \<times> bigint"
  tree_insert :: "nat \<Rightarrow> u64 \<Rightarrow> bigint \<Rightarrow> 'db \<Rightarrow> int \<times> 'db"
  roots_insert :: "u64 \<Rightarrow> u64 \<Rightarrow> u64 \<Rightarrow> bigint \<Rightarrow> 'db \<Rightarrow> int \<times> 'db"

record treehash =
  tx_commit_tree_hash_leaf :: "bigint \<Rightarrow> u64 \<Rightarrow> bigint"
  tx_commit_tree_hash_node :: "bigint \<Rightarrow> bigint \<Rightarrow> bool \<Rightarrow> bigint"

record commitments =
  m_next_commitnum :: u64
  m_next_tree_update_commitnum :: u64

definition Commitments :: commitments where
  "Commitments = \<lparr>m_next_commitnum = 0, m_next_tree_update_commitnum = 0\<rparr>"

text \<open>\<open>Init\<close> tells whether the fatal error was set.\<close>

definition Commitments_Init :: "'db treeops \<Rightarrow> 'db \<Rightarrow> commitments \<Rightarrow> bool \<times> commitments" where
  "Commitments_Init T db c =
     (let (rc, row_end) = param_select T DB_KEY_COMMIT_COMMITNUM_HI 0 db
      in if rc < 0 then (True, c)
         else if rc = 0 then
           let next = of_nat (le_val row_end) + 1
           in (False, c\<lparr>m_next_tree_update_commitnum := next, m_next_commitnum := next\<rparr>)
         else (False, c))"

text \<open>A value read at the given height: the commitments at the bottom are hashed with their number.\<close>

definition tree_input :: "treehash \<Rightarrow> nat \<Rightarrow> bigint \<Rightarrow> u64 \<Rightarrow> bigint" where
  "tree_input K height x offset = (if height = 0 then tx_commit_tree_hash_leaf K x offset else x)"

text \<open>
  The loop over a row. The result is the error flag, the last hash computed and the database; the
  first argument bounds the number of passes.
\<close>

fun update_row ::
  "nat \<Rightarrow> treehash \<Rightarrow> 'db treeops \<Rightarrow> nat \<Rightarrow> bigint \<Rightarrow> u64 \<Rightarrow> u64 \<Rightarrow> bigint \<Rightarrow> 'db \<Rightarrow> (bool \<times> bigint \<times> 'db) outcome" where
  "update_row 0 K T height nullhash row_end offset hash db = Inl OutOfFuel"
| "update_row (Suc fuel) K T height nullhash row_end offset hash db =
     (if offset \<le> row_end then
        let (rc, hash1) = tree_select T height offset db
        in if rc \<noteq> 0 then Inr (True, hash, db)
           else let hash1 = tree_input K height hash1 offset;
                    (rc, hash2) = (if offset \<ge> row_end then (0, nullhash)
                                   else let (rc, hash2) = tree_select T height (offset + 1) db
                                     in (rc, tree_input K height hash2 (offset + 1)))
             in if rc \<noteq> 0 then Inr (True, hash, db)
                else let hash = tx_commit_tree_hash_node K hash1 hash2 (height < TX_MERKLE_DEPTH - 1);
                         (rc, db) = tree_insert T (height + 1) (offset div 2) hash db
                  in if rc \<noteq> 0 then Inr (True, hash, db)
                     else update_row fuel K T height nullhash row_end (offset + 2) hash db
      else Inr (False, hash, db))"

text \<open>The loop over the heights, with the number of heights that remain.\<close>

fun update_rows ::
  "nat \<Rightarrow> nat \<Rightarrow> treehash \<Rightarrow> 'db treeops \<Rightarrow> bigint \<Rightarrow> u64 \<Rightarrow> u64 \<Rightarrow> bigint \<Rightarrow> 'db \<Rightarrow> (bool \<times> bigint \<times> 'db) outcome" where
  "update_rows fuel 0 K T nullhash row_start row_end hash db = Inr (False, hash, db)"
| "update_rows fuel (Suc n) K T nullhash row_start row_end hash db =
     bind_outcome (update_row fuel K T (TX_MERKLE_DEPTH - Suc n) nullhash row_end row_start hash db) (\<lambda>(err, hash, db).
       if err then Inr (True, hash, db)
       else update_rows fuel n K T nullhash ((row_start div 2) AND (-2)) (row_end div 2) hash db)"

definition update_changed_tree ::
  "nat \<Rightarrow> bigops \<Rightarrow> treehash \<Rightarrow> 'db treeops \<Rightarrow> bigint \<Rightarrow> bigint \<Rightarrow> commitments \<Rightarrow> 'db \<Rightarrow> (bool \<times> bigint \<times> commitments \<times> 'db) outcome" where
  "update_changed_tree fuel B K T block_hash hash c db =
     (let row_start = m_next_tree_update_commitnum c AND (-2);
          c = c\<lparr>m_next_tree_update_commitnum := m_next_commitnum c\<rparr>;
          row_end = m_next_tree_update_commitnum c - 1;
          nullhash = op_mul B block_hash (ofULong B 1);
          (rc, db) = param_insert T DB_KEY_COMMIT_COMMITNUM_HI 0 (le_bytes 8 (unat row_end)) db
      in if rc \<noteq> 0 then Inr (True, hash, c, db)
         else let (rc, db) = param_insert T DB_KEY_COMMIT_NULL_INPUT 0 (bigint_mem nullhash) db
           in if rc \<noteq> 0 then Inr (True, hash, c, db)
              else bind_outcome (update_rows fuel TX_MERKLE_DEPTH K T nullhash row_start row_end hash db) (\<lambda>(err, hash, db).
                Inr (err, hash, c, db)))"

definition UpdateCommitTree ::
  "nat \<Rightarrow> bigops \<Rightarrow> treehash \<Rightarrow> 'db treeops \<Rightarrow> u64 \<Rightarrow> u32 \<Rightarrow> bigint \<Rightarrow> u64 \<Rightarrow> commitments \<Rightarrow> 'db \<Rightarrow> (bool \<times> commitments \<times> 'db) outcome" where
  "UpdateCommitTree fuel B K T blockchain level block_hash timestamp c db =
     (let treechanged = (m_next_tree_update_commitnum c \<noteq> m_next_commitnum c);
          (rc, db) = (if level = 0 \<or> treechanged
                      then param_insert T DB_KEY_COMMIT_BLOCKLEVEL 0 (le_bytes 4 (unat level)) db else (0, db))
      in if rc \<noteq> 0 then Inr (True, c, db)
         else bind_outcome (if treechanged then update_changed_tree fuel B K T block_hash (ofULong B blockchain) c db
                            else Inr (False, ofULong B blockchain, c, db)) (\<lambda>(err, hash, c, db).
           if err then Inr (True, c, db)
           else let (rc, db) = (if level = 0 \<or> treechanged
                                then roots_insert T (ucast level) (if level = 0 then 0 else timestamp) (m_next_commitnum c) hash db
                                else (0, db))
             in Inr (rc \<noteq> 0, c, db)))"

section \<open>The reference tree\<close>

definition row_last :: "nat \<Rightarrow> nat \<Rightarrow> nat" where
  "row_last n h = (n - 1) div 2 ^ h"

fun merkle_node :: "treehash \<Rightarrow> (nat \<Rightarrow> bigint) \<Rightarrow> bigint \<Rightarrow> nat \<Rightarrow> nat \<Rightarrow> nat \<Rightarrow> bigint" where
  "merkle_node K c null n 0 i = tx_commit_tree_hash_leaf K (c i) (of_nat i)"
| "merkle_node K c null n (Suc h) i =
     tx_commit_tree_hash_node K (merkle_node K c null n h (2 * i))
       (if row_last n h \<le> 2 * i then null else merkle_node K c null n h (2 * i + 1)) (h < TX_MERKLE_DEPTH - 1)"

text \<open>The tables of the database: a successful insert sets one entry, and a select reads it.\<close>

definition tree_tables :: "'db treeops \<Rightarrow> ('db \<Rightarrow> nat \<Rightarrow> u64 \<Rightarrow> bigint option) \<Rightarrow> ('db \<Rightarrow> u64 \<Rightarrow> bigint option) \<Rightarrow> bool" where
  "tree_tables T tree roots \<longleftrightarrow>
     (\<forall>h i db. tree_select T h i db = (case tree db h i of None \<Rightarrow> (1, ofULong limb_bigops 0) | Some x \<Rightarrow> (0, x))) \<and>
     (\<forall>h i x db. \<exists>db'. tree_insert T h i x db = (0, db') \<and> tree db' = (tree db)(h := (tree db h)(i := Some x)) \<and> roots db' = roots db) \<and>
     (\<forall>k s v db. \<exists>db'. param_insert T k s v db = (0, db') \<and> tree db' = tree db \<and> roots db' = roots db) \<and>
     (\<forall>l t n x db. \<exists>db'. roots_insert T l t n x db = (0, db') \<and> tree db' = tree db \<and> roots db' = (roots db)(l := Some x))"

text \<open>The row of a given height holds the reference nodes.\<close>

definition row_ok :: "treehash \<Rightarrow> (nat \<Rightarrow> bigint) \<Rightarrow> bigint \<Rightarrow> nat \<Rightarrow> (nat \<Rightarrow> u64 \<Rightarrow> bigint option) \<Rightarrow> nat \<Rightarrow> bool" where
  "row_ok K c null n tr h \<longleftrightarrow>
     (\<forall>i \<le> row_last n h. tr h (of_nat i) = Some (if h = 0 then c i else merkle_node K c null n h i))"

definition tree_ok :: "treehash \<Rightarrow> (nat \<Rightarrow> bigint) \<Rightarrow> bigint \<Rightarrow> nat \<Rightarrow> (nat \<Rightarrow> u64 \<Rightarrow> bigint option) \<Rightarrow> bool" where
  "tree_ok K c null n tr \<longleftrightarrow> (n > 0 \<longrightarrow> (\<forall>h \<le> TX_MERKLE_DEPTH. row_ok K c null n tr h))"

section \<open>Arithmetic of rows\<close>

lemma row_last_Suc: "row_last n (Suc h) = row_last n h div 2"
  by (simp only: row_last_def power_Suc2 div_mult2_eq)

lemma row_last_le: "row_last n h \<le> n - 1"
  by (simp add: row_last_def)

lemma unat_and_minus_2: "unat (x AND (-2) :: u64) = 2 * (unat x div 2)"
proof -
  have "(-2 :: u64) = NOT (mask 1)" by (simp add: mask_eq_exp_minus_1)
  then have "x AND (-2) = push_bit 1 (drop_bit 1 x)"
    by (simp only:) (rule bit_eqI, unfold bit_and_iff bit_not_iff bit_mask_iff bit_push_bit_iff bit_drop_bit_eq o_def, auto)
  moreover have "unat (push_bit 1 (drop_bit 1 x)) = 2 * (unat x div 2)"
  proof -
    have "2 * (unat x div 2) \<le> unat x" by simp
    moreover have "unat x < 2 ^ 64" using unsigned_less [of x, where ?'a = nat] by simp
    ultimately have "2 * (unat x div 2) < 2 ^ 64" by (rule le_less_trans)
    then show ?thesis by (simp add: push_bit_eq_mult drop_bit_eq_div unat_word_ariths(2) unat_div)
  qed
  ultimately show ?thesis by simp
qed

text \<open>A node whose leaves all exist depends neither on the padding nor on further leaves.\<close>

lemma full_node:
  "(i + 1) * 2 ^ h \<le> m \<Longrightarrow> m \<le> n \<Longrightarrow> merkle_node K c null n h i = merkle_node K c null' m h i"
proof (induction h arbitrary: i)
  case (Suc h)
  have le: "(2 * i + 2) * 2 ^ h \<le> m" using Suc.prems(1) by (simp add: algebra_simps)
  have "2 * i < row_last k h" if "m \<le> k" for k
  proof -
    have "(2 * i + 1) * 2 ^ h + 2 ^ h \<le> k" using le that by (simp add: algebra_simps)
    moreover have "(1 :: nat) \<le> 2 ^ h" by simp
    ultimately have "(2 * i + 1) * 2 ^ h \<le> k - 1" by linarith
    then show ?thesis by (simp add: row_last_def less_eq_div_iff_mult_less_eq Suc_le_eq [symmetric])
  qed
  then have "2 * i < row_last n h" "2 * i < row_last m h" using Suc.prems(2) by auto
  moreover have "(2 * i + 1) * 2 ^ h \<le> m" using le by (simp add: algebra_simps)
  ultimately show ?case using Suc.IH [of "2 * i"] Suc.IH [of "2 * i + 1"] le Suc.prems(2) by simp
qed simp

section \<open>The loops\<close>

lemma tree_input_node:
  "tree_input K h (if h = 0 then c i else merkle_node K c null n h i) (of_nat i) = merkle_node K c null n h i"
  by (cases h) (simp_all add: tree_input_def)

lemma tree_select_row:
  assumes "tree_tables T tree roots" "row_ok K c null n (tree db) h" "i \<le> row_last n h"
  shows "tree_select T h (of_nat i) db = (0, if h = 0 then c i else merkle_node K c null n h i)"
  using assms by (simp add: tree_tables_def row_ok_def)

text \<open>The row above after the loop: the nodes from the given one on are the reference nodes.\<close>

definition row_updated ::
  "treehash \<Rightarrow> (nat \<Rightarrow> bigint) \<Rightarrow> bigint \<Rightarrow> nat \<Rightarrow> nat \<Rightarrow> nat \<Rightarrow> (nat \<Rightarrow> u64 \<Rightarrow> bigint option) \<Rightarrow> (nat \<Rightarrow> u64 \<Rightarrow> bigint option) \<Rightarrow> bool" where
  "row_updated K c null n h i tr tr' \<longleftrightarrow>
     (\<forall>h' j. tr' h' j = (if h' = Suc h \<and> i \<le> unat j \<and> unat j \<le> row_last n h div 2
       then Some (merkle_node K c null n (Suc h) (unat j)) else tr h' j))"

lemma update_row_step:
  assumes T: "tree_tables T tree roots" and row: "row_ok K c null n (tree db) h"
    and k: "even k" "k \<le> row_last n h" "row_last n h < 2 ^ 63"
  obtains db' where "update_row (Suc fuel) K T h null (of_nat (row_last n h)) (of_nat k) hash db =
      update_row fuel K T h null (of_nat (row_last n h)) (of_nat (k + 2)) (merkle_node K c null n (Suc h) (k div 2)) db'"
    "tree db' = (tree db)(Suc h := (tree db (Suc h))(of_nat (k div 2) := Some (merkle_node K c null n (Suc h) (k div 2))))"
    "roots db' = roots db"
proof -
  let ?L = "row_last n h" and ?N = "merkle_node K c null n"
  have le: "(of_nat k :: u64) \<le> of_nat ?L" "(of_nat ?L :: u64) \<le> of_nat k \<longleftrightarrow> ?L \<le> k"
    using k by (simp_all add: word_le_nat_alt unat_of_nat)
  have half: "of_nat k div 2 = (of_nat (k div 2) :: u64)"
    using k by (simp add: word_unat_eq_iff unat_div unat_of_nat)
  have s1: "tree_select T h (of_nat k) db = (0, if h = 0 then c k else ?N h k)"
    by (rule tree_select_row [OF T row k(2)])
  have s2: "tree_select T h (of_nat k + 1) db = (0, if h = 0 then c (k + 1) else ?N h (k + 1))" if "\<not> ?L \<le> k"
    using tree_select_row [OF T row, of "k + 1"] that by (simp add: add.commute)
  obtain db' where i: "tree_insert T (Suc h) (of_nat (k div 2)) (?N (Suc h) (k div 2)) db = (0, db')"
    "tree db' = (tree db)(Suc h := (tree db (Suc h))(of_nat (k div 2) := Some (?N (Suc h) (k div 2))))" "roots db' = roots db"
    using T unfolding tree_tables_def by blast
  have n: "?N (Suc h) (k div 2) = tx_commit_tree_hash_node K (?N h k) (if ?L \<le> k then null else ?N h (k + 1)) (h < TX_MERKLE_DEPTH - 1)"
    using k(1) by simp
  have i1: "tree_insert T (h + 1) (of_nat (k div 2)) (tx_commit_tree_hash_node K (?N h k) x (h < TX_MERKLE_DEPTH - 1)) db = (0, db')"
    if "x = (if ?L \<le> k then null else ?N h (k + 1))" for x
    using i(1) unfolding n that by simp
  have in2: "tree_input K h (if h = 0 then c (k + 1) else ?N h (k + 1)) (of_nat k + 1) = ?N h (k + 1)"
    using tree_input_node [of K h c "k + 1" null n] by (simp add: add.commute)
  have nx: "of_nat k + 2 = (of_nat (k + 2) :: u64)" by simp
  show thesis
  proof (rule that [OF _ i(2,3)])
    show "update_row (Suc fuel) K T h null (of_nat ?L) (of_nat k) hash db =
        update_row fuel K T h null (of_nat ?L) (of_nat (k + 2)) (?N (Suc h) (k div 2)) db'"
      unfolding update_row.simps Let_def s1 prod.case tree_input_node le half nx [symmetric]
      by (cases "?L \<le> k") (simp_all add: le s2 in2 n i1 del: merkle_node.simps One_nat_def)
  qed
qed

lemma update_row_spec:
  assumes T: "tree_tables T tree roots" and L: "row_last n h < 2 ^ 63"
    and "row_ok K c null n (tree db) h" "even k" "k \<le> row_last n h + 2" "row_last n h + 2 < k + 2 * fuel"
  shows "\<exists>db'. update_row fuel K T h null (of_nat (row_last n h)) (of_nat k) hash db =
      Inr (False, if k \<le> row_last n h then merkle_node K c null n (Suc h) (row_last n h div 2) else hash, db') \<and>
    row_updated K c null n h (k div 2) (tree db) (tree db') \<and> roots db' = roots db"
  using assms(3-6)
proof (induction fuel arbitrary: k hash db)
  case (Suc fuel)
  let ?L = "row_last n h" and ?N = "merkle_node K c null n"
  show ?case
  proof (cases "k \<le> ?L")
    case False
    then have "\<not> (of_nat k :: u64) \<le> of_nat ?L" using Suc.prems(3) L by (simp add: word_le_nat_alt unat_of_nat)
    moreover have "row_updated K c null n h (k div 2) (tree db) (tree db)"
      using False Suc.prems(2) by (auto simp: row_updated_def elim!: evenE)
    ultimately show ?thesis using False by auto
  next
    case True
    obtain db1 where s: "update_row (Suc fuel) K T h null (of_nat ?L) (of_nat k) hash db =
        update_row fuel K T h null (of_nat ?L) (of_nat (k + 2)) (?N (Suc h) (k div 2)) db1"
      and t: "tree db1 = (tree db)(Suc h := (tree db (Suc h))(of_nat (k div 2) := Some (?N (Suc h) (k div 2))))"
        "roots db1 = roots db"
      by (rule update_row_step [OF T Suc.prems(1,2) True L])
    have "row_ok K c null n (tree db1) h" using Suc.prems(1) by (simp add: row_ok_def t(1))
    then obtain db' where r: "update_row fuel K T h null (of_nat ?L) (of_nat (k + 2)) (?N (Suc h) (k div 2)) db1 =
        Inr (False, if k + 2 \<le> ?L then ?N (Suc h) (?L div 2) else ?N (Suc h) (k div 2), db')"
      and u: "row_updated K c null n h ((k + 2) div 2) (tree db1) (tree db')" "roots db' = roots db1"
      using Suc.IH [of db1 "k + 2" "?N (Suc h) (k div 2)"] Suc.prems(2-4) True by auto
    have last: "?L div 2 = k div 2" if "\<not> k + 2 \<le> ?L"
      using that True Suc.prems(2) by (auto elim!: evenE)
    have lt: "k div 2 < 2 ^ 64" using True L by simp
    have "row_updated K c null n h (k div 2) (tree db) (tree db')"
      unfolding row_updated_def
    proof (intro allI)
      fix h' and j :: u64
      have j: "j = of_nat (k div 2) \<longleftrightarrow> unat j = k div 2"
        using lt by (simp add: word_unat_eq_iff unat_of_nat)
      show "tree db' h' j = (if h' = Suc h \<and> k div 2 \<le> unat j \<and> unat j \<le> ?L div 2 then Some (?N (Suc h) (unat j)) else tree db h' j)"
        using u(1) True unfolding row_updated_def t(1) by (auto simp: j simp del: merkle_node.simps)
    qed
    then show ?thesis using s r u(2) t(2) True last by (auto simp del: merkle_node.simps)
  qed
qed simp

lemma le_row_last: "(i + 1) * 2 ^ h \<le> n \<Longrightarrow> i \<le> row_last n h"
proof -
  assume "(i + 1) * 2 ^ h \<le> n"
  then have "i * 2 ^ h + 2 ^ h \<le> n" by simp
  moreover have "(1 :: nat) \<le> 2 ^ h" by simp
  ultimately have "i * 2 ^ h \<le> n - 1" by linarith
  then show ?thesis by (simp add: row_last_def less_eq_div_iff_mult_less_eq)
qed

lemma of_nat_div_2: "k < 2 ^ 64 \<Longrightarrow> of_nat k div 2 = (of_nat (k div 2) :: u64)"
  by (simp add: word_unat_eq_iff unat_div unat_of_nat)

lemma next_row_start: "k < 2 ^ 64 \<Longrightarrow> (of_nat k div 2) AND (-2) = (of_nat (2 * (k div 2 div 2)) :: u64)"
proof -
  assume k: "k < 2 ^ 64"
  then have "2 * (k div 2 div 2) < 2 ^ 64" by (auto intro: le_less_trans [of _ k])
  then show ?thesis using k
    by (simp add: word_unat_eq_iff unat_and_minus_2 of_nat_div_2 unat_of_nat del: of_nat_mult)
qed

text \<open>The row above is right as a whole: below the nodes just made stand full nodes of the old tree.\<close>

lemma row_above_ok:
  assumes u: "row_updated K c null n h (k div 2) tr tr'" and old: "tree_ok K c null0 n0 told" "tr (Suc h) = told (Suc h)"
    and k: "even k" "k * 2 ^ h \<le> n0" and n: "n0 \<le> n" "h < TX_MERKLE_DEPTH" "row_last n h < 2 ^ 63"
  shows "row_ok K c null n tr' (Suc h)"
  unfolding row_ok_def
proof (intro allI impI)
  fix i assume i: "i \<le> row_last n (Suc h)"
  have ui: "unat (of_nat i :: u64) = i"
    using i n(3) by (simp add: row_last_Suc unat_of_nat)
  have eq: "tr' (Suc h) (of_nat i) = (if k div 2 \<le> i then Some (merkle_node K c null n (Suc h) i) else told (Suc h) (of_nat i))"
    using u i unfolding row_updated_def ui old(2) row_last_Suc by (simp add: ui old(2) del: merkle_node.simps)
  have "told (Suc h) (of_nat i) = Some (merkle_node K c null n (Suc h) i)" if "i < k div 2"
  proof -
    have "(i + 1) * 2 \<le> k" using that k(1) by (auto elim!: evenE)
    then have "(i + 1) * 2 * 2 ^ h \<le> k * 2 ^ h" by (rule mult_le_mono1)
    then have full: "(i + 1) * 2 ^ Suc h \<le> n0" using k(2) by (simp add: mult.assoc)
    have "row_ok K c null0 n0 told (Suc h)" using old(1) full n(2) by (auto simp: tree_ok_def intro: gr0I)
    then have "told (Suc h) (of_nat i) = Some (merkle_node K c null0 n0 (Suc h) i)"
      using le_row_last [OF full] by (simp add: row_ok_def)
    then show ?thesis using full_node [OF full n(1), of K c null null0] by simp
  qed
  then show "tr' (Suc h) (of_nat i) = Some (if Suc h = 0 then c i else merkle_node K c null n (Suc h) i)"
    using eq by (auto simp del: merkle_node.simps)
qed

lemma update_rows_spec:
  assumes T: "tree_tables T tree roots" and old: "tree_ok K c null0 n0 told" "n0 \<le> n"
    and n: "0 < n" "n \<le> 2 ^ 63" "n + 2 \<le> fuel"
  shows "m \<le> TX_MERKLE_DEPTH \<Longrightarrow> h = TX_MERKLE_DEPTH - m \<Longrightarrow> (\<And>h'. h' \<le> h \<Longrightarrow> row_ok K c null n (tree db) h') \<Longrightarrow>
    (\<And>h'. h < h' \<Longrightarrow> tree db h' = told h') \<Longrightarrow> even k \<Longrightarrow> k * 2 ^ h \<le> n0 \<Longrightarrow> k \<le> row_last n h \<Longrightarrow>
    \<exists>db'. update_rows fuel m K T null (of_nat k) (of_nat (row_last n h)) hash db =
      Inr (False, if m = 0 then hash else merkle_node K c null n TX_MERKLE_DEPTH (row_last n TX_MERKLE_DEPTH), db') \<and>
    (\<forall>h' \<le> TX_MERKLE_DEPTH. row_ok K c null n (tree db') h') \<and> roots db' = roots db"
proof (induction m arbitrary: h k hash db)
  case (Suc m)
  let ?L = "row_last n h"
  have h: "h < TX_MERKLE_DEPTH" "Suc h = TX_MERKLE_DEPTH - m" "TX_MERKLE_DEPTH - Suc m = h" using Suc.prems(1,2) by auto
  have L: "?L < 2 ^ 63" "?L + 2 < k + 2 * fuel" using row_last_le [of n h] n by linarith+
  have k64: "k < 2 ^ 64" "?L < 2 ^ 64" using L(1) Suc.prems(7) by auto
  have rk: "row_ok K c null n (tree db) h" using Suc.prems(3) by simp
  obtain db1 where r: "update_row fuel K T h null (of_nat ?L) (of_nat k) hash db =
      Inr (False, merkle_node K c null n (Suc h) (?L div 2), db1)"
    and u: "row_updated K c null n h (k div 2) (tree db) (tree db1)" "roots db1 = roots db"
    using update_row_spec [OF T L(1) rk Suc.prems(5) _ L(2), of hash] Suc.prems(7) by auto
  have above: "row_ok K c null n (tree db1) (Suc h)"
    by (rule row_above_ok [OF u(1) old(1) _ Suc.prems(5,6) old(2) h(1) L(1)]) (simp add: Suc.prems(4))
  have same: "tree db1 h' = tree db h'" if "h' \<noteq> Suc h" for h' using u(1) that by (auto simp: row_updated_def)
  have rows: "row_ok K c null n (tree db1) h'" if "h' \<le> Suc h" for h'
    using above Suc.prems(3) [of h'] same [of h'] that by (cases "h' = Suc h") (auto simp: row_ok_def simp del: merkle_node.simps)
  let ?k = "2 * (k div 2 div 2)"
  have half: "2 * (k div 2 div 2) \<le> k div 2" by simp
  then have "2 * (k div 2 div 2) * 2 ^ Suc h \<le> k div 2 * 2 * 2 ^ h" by (simp add: algebra_simps)
  also have "\<dots> \<le> k * 2 ^ h" by (intro mult_le_mono1) simp
  finally have "?k * 2 ^ Suc h \<le> n0" using Suc.prems(6) by linarith
  moreover have "?k \<le> row_last n (Suc h)" using half Suc.prems(7) by (simp add: row_last_Suc)
  moreover have "tree db1 h' = told h'" if "Suc h < h'" for h' using same [of h'] Suc.prems(4) that by simp
  ultimately obtain db' where fin: "update_rows fuel m K T null (of_nat ?k) (of_nat (row_last n (Suc h))) (merkle_node K c null n (Suc h) (?L div 2)) db1 =
      Inr (False, if m = 0 then merkle_node K c null n (Suc h) (?L div 2)
                  else merkle_node K c null n TX_MERKLE_DEPTH (row_last n TX_MERKLE_DEPTH), db')"
    "\<forall>h' \<le> TX_MERKLE_DEPTH. row_ok K c null n (tree db') h'" "roots db' = roots db1"
    using Suc.IH [of "Suc h" db1 ?k "merkle_node K c null n (Suc h) (?L div 2)"] Suc.prems(1) h rows by auto
  have top: "merkle_node K c null n TX_MERKLE_DEPTH (row_last n TX_MERKLE_DEPTH) = merkle_node K c null n (Suc h) (?L div 2)" if "m = 0"
    using h(2) that row_last_Suc [of n h] by (simp del: merkle_node.simps)
  show ?case
    using r fin u(2) top by (simp add: h(3) next_row_start [OF k64(1)] of_nat_div_2 [OF k64(2)] row_last_Suc del: merkle_node.simps)
qed simp

lemma update_changed_spec:
  assumes T: "tree_tables T tree roots" and old: "tree_ok K c null0 n0 (tree db)" "n0 < n" "n \<le> 2 ^ 40" "n + 2 \<le> fuel"
    and num: "m_next_tree_update_commitnum cm = of_nat n0" "m_next_commitnum cm = of_nat n"
    and leaves: "\<forall>i < n. tree db 0 (of_nat i) = Some (c i)"
    and null_def: "null = op_mul B block_hash (ofULong B 1)"
  obtains db' where "update_changed_tree fuel B K T block_hash hash cm db =
      Inr (False, merkle_node K c null n TX_MERKLE_DEPTH 0, cm\<lparr>m_next_tree_update_commitnum := of_nat n\<rparr>, db')"
    "tree_ok K c null n (tree db')" "roots db' = roots db"
proof -
  obtain db1 where p1: "param_insert T DB_KEY_COMMIT_COMMITNUM_HI 0 (le_bytes 8 (unat (of_nat n - 1 :: u64))) db = (0, db1)"
    "tree db1 = tree db" "roots db1 = roots db" using T unfolding tree_tables_def by blast
  obtain db2 where p2: "param_insert T DB_KEY_COMMIT_NULL_INPUT 0 (bigint_mem null) db1 = (0, db2)"
    "tree db2 = tree db1" "roots db2 = roots db1" using T unfolding tree_tables_def by blast
  have n: "0 < n" "n \<le> 2 ^ 63" "n0 \<le> n" using old(2,3) by auto
  have start: "of_nat n0 AND (-2) = (of_nat (2 * (n0 div 2)) :: u64)"
  proof -
    have "n0 < 2 ^ 64" using n(2,3) by simp
    moreover have "2 * (n0 div 2) \<le> n0" by simp
    ultimately have "2 * (n0 div 2) < 2 ^ 64" "n0 < 2 ^ 64" by linarith+
    then show ?thesis by (simp add: word_unat_eq_iff unat_and_minus_2 unat_of_nat del: of_nat_mult)
  qed
  have fin: "(of_nat n - 1 :: u64) = of_nat (row_last n 0)" using n(1) by (simp add: row_last_def of_nat_diff)
  have row0: "row_ok K c null n (tree db2) 0"
    using leaves n(1) by (auto simp: row_ok_def row_last_def p1(2) p2(2))
  have k0: "2 * (n0 div 2) \<le> row_last n 0" "2 * (n0 div 2) \<le> n0"
  proof -
    show "2 * (n0 div 2) \<le> n0" by simp
    then show "2 * (n0 div 2) \<le> row_last n 0" using old(2) by (simp add: row_last_def)
  qed
  have depth: "row_last n TX_MERKLE_DEPTH = 0" using old(3) n(1) by (simp add: row_last_def TX_MERKLE_DEPTH_def)
  obtain db' where "update_rows fuel TX_MERKLE_DEPTH K T null (of_nat (2 * (n0 div 2))) (of_nat (row_last n 0)) hash db2 =
      Inr (False, merkle_node K c null n TX_MERKLE_DEPTH 0, db')"
    "\<forall>h' \<le> TX_MERKLE_DEPTH. row_ok K c null n (tree db') h'" "roots db' = roots db2"
    using update_rows_spec [OF T old(1) n(3,1,2) old(4), where m = TX_MERKLE_DEPTH and h = 0 and db = db2 and k = "2 * (n0 div 2)" and hash = hash and null = null] row0 k0
    by (auto simp: depth p1(2) p2(2) TX_MERKLE_DEPTH_def [THEN arg_cong, of "\<lambda>d. d = 0"] simp del: merkle_node.simps of_nat_mult)
  then show thesis
    using that p1 p2 by (auto simp: update_changed_tree_def Let_def num start fin null_def [symmetric] tree_ok_def
        simp del: merkle_node.simps of_nat_mult)
qed

text \<open>
  C4. Updating the commitment tree is equivalent to building it anew. If the tree in the database is
  the reference tree over the commitments at the last update and all commitments up to the next
  number are stored, then after the update, which recomputes only the rows above the new commitments,
  it is the reference tree over all of them, padded with the value of this block, and the root
  recorded for the level of the block is its root.
\<close>

theorem UpdateCommitTree_reference:
  assumes "tree_tables T tree roots" "tree_ok K c null0 n0 (tree db)" "n0 < n" "n \<le> 2 ^ 40" "n + 2 \<le> fuel"
    and "m_next_tree_update_commitnum cm = of_nat n0" "m_next_commitnum cm = of_nat n"
    and "\<forall>i < n. tree db 0 (of_nat i) = Some (c i)"
  shows "\<exists>db'. UpdateCommitTree fuel B K T blockchain level block_hash timestamp cm db =
      Inr (False, cm\<lparr>m_next_tree_update_commitnum := of_nat n\<rparr>, db') \<and>
    tree_ok K c (op_mul B block_hash (ofULong B 1)) n (tree db') \<and>
    roots db' = (roots db)(ucast level := Some (merkle_node K c (op_mul B block_hash (ofULong B 1)) n TX_MERKLE_DEPTH 0))"
proof -
  let ?null = "op_mul B block_hash (ofULong B 1)" and ?cm = "cm\<lparr>m_next_tree_update_commitnum := of_nat n\<rparr>"
  have ch: "(of_nat n0 :: u64) \<noteq> of_nat n" using assms(3,4) by (simp add: word_unat_eq_iff unat_of_nat)
  obtain db1 where p: "param_insert T DB_KEY_COMMIT_BLOCKLEVEL 0 (le_bytes 4 (unat level)) db = (0, db1)"
    "tree db1 = tree db" "roots db1 = roots db" using assms(1) unfolding tree_tables_def by blast
  obtain db2 where u: "update_changed_tree fuel B K T block_hash (ofULong B blockchain) cm db1 =
      Inr (False, merkle_node K c ?null n TX_MERKLE_DEPTH 0, ?cm, db2)"
    "tree_ok K c ?null n (tree db2)" "roots db2 = roots db1"
    using update_changed_spec [OF assms(1) assms(2) [folded p(2)] assms(3-7) assms(8) [folded p(2)] refl] by blast
  obtain db3 where r: "roots_insert T (ucast level) (if level = 0 then 0 else timestamp) (of_nat n)
      (merkle_node K c ?null n TX_MERKLE_DEPTH 0) db2 = (0, db3)" "tree db3 = tree db2"
    "roots db3 = (roots db2)(ucast level := Some (merkle_node K c ?null n TX_MERKLE_DEPTH 0))"
    using assms(1) unfolding tree_tables_def by blast
  show ?thesis
    using p u r ch assms(6,7) by (auto simp: UpdateCommitTree_def Let_def simp del: merkle_node.simps)
qed

definition map_treeops :: "((nat \<Rightarrow> u64 \<Rightarrow> bigint option) \<times> (u64 \<Rightarrow> bigint option)) treeops" where
  "map_treeops = \<lparr>param_insert = (\<lambda>k s v db. (0, db)), param_select = (\<lambda>k s db. (1, [])),
     tree_select = (\<lambda>h i db. case fst db h i of None \<Rightarrow> (1, ofULong limb_bigops 0) | Some x \<Rightarrow> (0, x)),
     tree_insert = (\<lambda>h i x db. (0, ((fst db)(h := (fst db h)(i := Some x)), snd db))),
     roots_insert = (\<lambda>l t n x db. (0, (fst db, (snd db)(l := Some x))))\<rparr>"

lemma map_treeops_tables: "tree_tables map_treeops fst snd"
  by (simp add: tree_tables_def map_treeops_def)

definition sum_hash :: treehash where
  "sum_hash = \<lparr>tx_commit_tree_hash_leaf = (\<lambda>x i. addBigInt limb_bigops x (ofULong limb_bigops i)),
     tx_commit_tree_hash_node = (\<lambda>x y s. addBigInt limb_bigops x y)\<rparr>"

theorem UpdateCommitTree_reference_witness:
  "\<exists>db'. UpdateCommitTree 5 limb_bigops sum_hash map_treeops 1 7 (big_of_nat 99) 1000
      \<lparr>m_next_commitnum = 3, m_next_tree_update_commitnum = 0\<rparr> (\<lambda>h i. if h = 0 then Some (big_of_nat (unat i)) else None, \<lambda>l. None) =
      Inr (False, \<lparr>m_next_commitnum = 3, m_next_tree_update_commitnum = 3\<rparr>, db') \<and>
    snd db' 7 = Some (merkle_node sum_hash big_of_nat (op_mul limb_bigops (big_of_nat 99) (ofULong limb_bigops 1)) 3 TX_MERKLE_DEPTH 0)"
proof -
  let ?db = "(\<lambda>h i :: u64. if h = (0 :: nat) then Some (big_of_nat (unat i)) else None, \<lambda>l :: u64. None :: bigint option)"
  have "tree_ok sum_hash big_of_nat (big_of_nat 0) 0 (fst ?db)" by (simp add: tree_ok_def)
  from UpdateCommitTree_reference [OF map_treeops_tables this, of 3 5 "\<lparr>m_next_commitnum = 3, m_next_tree_update_commitnum = 0\<rparr>"
      limb_bigops 1 7 "big_of_nat 99" 1000]
  show ?thesis by (auto simp: unat_of_nat simp del: merkle_node.simps)
qed

end
