(* ===== verification/Seqnum.thy ===== *)
theory Seqnum
  imports Prelude
begin

text \<open>
  Sequence numbers of objects (ccnode/src/seqnum.hpp and seqnum.cpp). A counter is a signed 64-bit
  number, kept here as a 64-bit word and read with \<open>sint\<close>; \<open>fetch_add\<close> and the subtraction in the
  overflow test wrap around.
\<close>

section \<open>Counters\<close>

definition BLOCK_SEQNUM_MAX :: int where
  "BLOCK_SEQNUM_MAX = -7000000000000000000"

definition BLOCKSEQ :: nat where "BLOCKSEQ = 0"
definition TXSEQ :: nat where "TXSEQ = 1"
definition XREQSEQ :: nat where "XREQSEQ = 2"
definition VALIDSEQ :: nat where "VALIDSEQ = 0"
definition RELAYSEQ :: nat where "RELAYSEQ = 1"

record seqnum =
  sq_num :: u64
  sq_min :: u64
  sq_max :: u64

definition mk_seqnum :: "int \<Rightarrow> int \<Rightarrow> seqnum" where
  "mk_seqnum mn mx = \<lparr>sq_num = of_int mn, sq_min = of_int mn, sq_max = of_int mx\<rparr>"

definition seq_range :: "nat \<Rightarrow> int \<times> int" where
  "seq_range obj = (if obj = BLOCKSEQ then (- (2 ^ 63) + 1, BLOCK_SEQNUM_MAX)
     else if obj = TXSEQ then (BLOCK_SEQNUM_MAX + 1, -1)
     else (1, 2 ^ 63 - 2))"

text \<open>The initial table \<open>g_seqnum[obj][type]\<close>.\<close>

definition g_seqnum :: "nat \<Rightarrow> nat \<Rightarrow> seqnum" where
  "g_seqnum obj type = mk_seqnum (fst (seq_range obj)) (snd (seq_range obj))"

definition Peek :: "seqnum \<Rightarrow> int" where
  "Peek s = sint (sq_num s)"

text \<open>The number, whether the fatal error is set, and the counter after the call.\<close>

definition NextNum :: "seqnum \<Rightarrow> int \<times> bool \<times> seqnum" where
  "NextNum s =
     (let next = sq_num s; s = s\<lparr>sq_num := sq_num s + 1\<rparr>
      in if sint (next - sq_max s) > 0 then (0, True, s) else (sint next, False, s))"

section \<open>Properties\<close>

text \<open>The state after a number of draws.\<close>

definition draws :: "nat \<Rightarrow> seqnum \<Rightarrow> seqnum" where
  "draws k s = ((\<lambda>s. snd (snd (NextNum s))) ^^ k) s"

lemma draws_simps [simp]: "sq_num (draws k s) = sq_num s + of_nat k" "sq_max (draws k s) = sq_max s"
  by (induction k) (simp_all add: draws_def NextNum_def Let_def)

lemma sint_small: "- (2 ^ 63) \<le> i \<Longrightarrow> i < 2 ^ 63 \<Longrightarrow> sint (of_int i :: u64) = i"
  by (simp add: sint_sbintrunc' signed_take_bit_int_eq_self)

lemma range_bounds:
  assumes "seq_range obj = (mn, mx)"
  shows "- (2 ^ 63) < mn" "mn \<le> mx" "mx < 2 ^ 63 - 1" "mx - mn < 2 ^ 63"
  using assms by (auto simp: seq_range_def BLOCK_SEQNUM_MAX_def split: if_splits)

text \<open>
  A counter gives consecutive numbers from the start of its range to its end; after that it gives
  zero with a fatal error, for as long as the program can run. The ranges of blocks, transactions and
  exchange requests do not meet and leave out zero, so a number tells the kind of its object.
\<close>

lemma NextNum_sequence:
  assumes "seq_range obj = (mn, mx)" "k < 2 ^ 63"
  shows "(\<exists>s. NextNum (draws k (g_seqnum obj type)) =
      (if mn + int k \<le> mx then (mn + int k, False, s) else (0, True, s))) \<and>
    0 \<notin> {mn..mx} \<and> (obj \<in> {BLOCKSEQ, TXSEQ, XREQSEQ} \<longrightarrow> (\<forall>obj' \<in> {BLOCKSEQ, TXSEQ, XREQSEQ}. obj' \<noteq> obj \<longrightarrow>
      {fst (seq_range obj')..snd (seq_range obj')} \<inter> {mn..mx} = {}))"
proof -
  let ?s = "draws k (g_seqnum obj type)"
  note b = range_bounds [OF assms(1)]
  have e: "sq_num ?s - sq_max ?s = of_int (mn + int k - mx)"
    using assms(1) by (simp add: g_seqnum_def mk_seqnum_def)
  have "int k < 2 ^ 63" using assms(2) by simp
  then have d: "sint (sq_num ?s - sq_max ?s) = mn + int k - mx"
    unfolding e using b by (intro sint_small) linarith+
  have "sint (sq_num ?s) = mn + int k" if "mn + int k \<le> mx"
    using sint_small [of "mn + int k"] that b assms(1) by (simp add: g_seqnum_def mk_seqnum_def)
  then have "\<exists>s. NextNum ?s = (if mn + int k \<le> mx then (mn + int k, False, s) else (0, True, s))"
    using d by (auto simp: NextNum_def Let_def)
  moreover have "0 \<notin> {mn..mx} \<and> (obj \<in> {BLOCKSEQ, TXSEQ, XREQSEQ} \<longrightarrow> (\<forall>obj' \<in> {BLOCKSEQ, TXSEQ, XREQSEQ}. obj' \<noteq> obj \<longrightarrow>
      {fst (seq_range obj')..snd (seq_range obj')} \<inter> {mn..mx} = {}))"
    using assms(1) by (auto simp: seq_range_def BLOCK_SEQNUM_MAX_def BLOCKSEQ_def TXSEQ_def XREQSEQ_def split: if_splits)
  ultimately show ?thesis by blast
qed

lemma NextNum_sequence_witness:
  "\<exists>s. NextNum (draws 41 (g_seqnum XREQSEQ VALIDSEQ)) = (42, False, s)"
  using NextNum_sequence [of XREQSEQ 1 "2 ^ 63 - 2" 41 VALIDSEQ]
  by (simp add: seq_range_def BLOCKSEQ_def TXSEQ_def XREQSEQ_def)

end
