(* ===== verification/Index_Txs.thy ===== *)
theory Index_Txs
  imports Settlement Blocks Seqnum
begin

unbundle bit_operations_syntax

text \<open>
  Processing of the transactions of a block that becomes indelible (ccnode/src/blockchain.cpp:
  \<open>IndexTxs\<close>, \<open>CheckCreatePseudoSerialnum\<close>, \<open>IndexTxOutputs\<close>, \<open>AddXreq\<close>, \<open>AddOneXreq\<close>; ccnode/src/processtx.cpp:
  \<open>ExtractXtx\<close>; ccnode/src/process-xreq.cpp: \<open>AddRequest\<close>; ccnode/src/exchange.cpp: \<open>GetNextXreqnum\<close>, \<open>GetNextXmatchnum\<close>; cclib/src/xtransaction-xpay.cpp:
  \<open>ComputePaymentIdHash\<close>).

  Parameters are the parsers of the two wire formats, the hash functions, and the tables of the
  database. The fatal error flag of the node is part of the state; a function that sets it returns
  true.
\<close>

section \<open>Transactions and state\<close>

record txin =
  no_serialnum :: bool
  S_serialnum :: bigint
  S_hashkey :: bigint

record txout =
  M_commitment :: bigint
  M_domain :: u32
  asset_mask :: u64
  amount_mask :: u64
  no_address :: bool
  M_address :: bigint
  M_asset_enc :: u64
  M_amount_enc :: u64

record txpay =
  tp_tag_type :: nat
  tp_buf :: txbuf
  tp_nin :: nat
  tp_inputs :: "txin list"
  tp_outputs :: "txout list"
  tp_donation_fp :: u64
  tp_append_data :: "byte list"

datatype 'f xtx = XtxReq "'f xreq" | XtxPay "'f xpay" | XtxOther

record ('db, 'f) bcstate =
  bc_x :: "('db, 'f) xstate"
  bc_heap :: heap
  bc_next_xreqnum :: u64
  bc_xreq_seqnum :: seqnum
  bc_fatal :: bool
  bc_last_indelible_block :: "addr option"
  bc_new_indelible_block :: "addr option"
  bc_last_indelible_timestamp :: u64
  bc_last_indelible_ticks :: u32
  bc_total_donations :: bigint
  bc_next_xmatchnum :: u64
  bc_nums_saved :: bool
  bc_next_tree_update_commitnum :: u64
  bc_tx_work_difficulty :: u64
  bc_last_matching_completed_block_time :: u64
  bc_last_matching_start_block_time :: u64
  bc_last_matched_block_time :: u64
  bc_matching_block_time :: u64
  bc_matching_max_xreqnum :: u64
  bc_matching_state :: int
  bc_last_matching_epoch :: u64
  bc_passnum :: u64
  bc_exchange_work_time :: u64
  bc_pending_exchange_work_time :: u64

definition TX_MAXIN :: nat where "TX_MAXIN = 8"

record ('db, 'f) indexops =
  ix_is_witness :: bool
  ix_ComputeMessageObjId :: "byte list \<Rightarrow> byte list"
  ix_ValidObjsGetObj :: "byte list \<Rightarrow> 'db \<Rightarrow> bool \<times> addr"
  ix_ValidObjsDeleteObj :: "addr \<Rightarrow> 'db \<Rightarrow> 'db"
  ix_tx_from_wire :: "byte list \<Rightarrow> txpay option"
  ix_xtx_from_wire :: "nat \<Rightarrow> byte list \<Rightarrow> 'f xtx option"
  ix_obj_type :: "byte list \<Rightarrow> nat"
  ix_obj_body :: "byte list \<Rightarrow> byte list"
  ix_blake2b :: "byte list \<Rightarrow> byte list \<Rightarrow> bigint"
  ix_blake2s :: "byte list \<Rightarrow> byte list \<Rightarrow> bigint"
  ix_XreqsInsert :: "'f xreq \<Rightarrow> 'db \<Rightarrow> bool \<times> 'db"
  ix_XmatchreqInsert :: "'f xmatchreq \<Rightarrow> 'db \<Rightarrow> bool \<times> 'db"
  ix_SerialnumInsert :: "bigint \<Rightarrow> bigint \<Rightarrow> u64 \<Rightarrow> 'db \<Rightarrow> bool \<times> 'db"
  ix_mint_outputs :: "bigint list"
  ix_mint_amounts :: "bigint \<times> bigint"
  ix_index_mint_donations :: bool

definition SetFatalError :: "('db, 'f) bcstate \<Rightarrow> ('db, 'f) bcstate" where
  "SetFatalError st = st\<lparr>bc_fatal := True\<rparr>"

definition upd_db :: "'db \<Rightarrow> ('db, 'f) bcstate \<Rightarrow> ('db, 'f) bcstate" where
  "upd_db db st = st\<lparr>bc_x := (bc_x st)\<lparr>xs_db := db\<rparr>\<rparr>"

definition bc_db :: "('db, 'f) bcstate \<Rightarrow> 'db" where
  "bc_db st = xs_db (bc_x st)"

definition bytes_of_string :: "string \<Rightarrow> byte list" where
  "bytes_of_string s = map (\<lambda>c. of_nat (of_char c)) s"

section \<open>Exchange messages\<close>

definition SetMatchFieldsinXpay :: "'f ufops \<Rightarrow> 'f xmatch \<Rightarrow> 'f xpay \<Rightarrow> 'f xpay" where
  "SetMatchFieldsinXpay U match xpay =
     xpay\<lparr>xp_match_timestamp := xm_match_timestamp match,
          xp_foreign_blockchain := mr_quote_asset (xm_xsell match),
          xp_foreign_address := mr_foreign_address (xm_xsell match),
          xp_foreign_confirmations_required := ucast (mr_confirmations (xm_xsell match)),
          xp_payment_time := mr_payment_time (xm_xsell match),
          xp_match_left_to_pay := AmountToPay U match\<rparr>"

definition ExtractXtxFailed :: "txpay \<Rightarrow> bool \<Rightarrow> bool" where
  "ExtractXtxFailed tx for_pseudo_serialnum =
     (if \<not> TypeIsXtx (tp_tag_type tx) then False
      else if for_pseudo_serialnum \<and> \<not> TypeIsXpay (tp_tag_type tx) then False
      else True)"

definition ExtractXtx :: "('db, 'f) settle_env \<Rightarrow> ('db, 'f) indexops \<Rightarrow> txpay \<Rightarrow> bool \<Rightarrow> 'db \<Rightarrow> 'f xtx option" where
  "ExtractXtx E I tx for_pseudo_serialnum db =
     (if \<not> ExtractXtxFailed tx for_pseudo_serialnum then None
      else case ix_xtx_from_wire I (tp_tag_type tx) (tp_append_data tx) of
             None \<Rightarrow> None
           | Some xtx \<Rightarrow>
               (case (TypeIsXpay (tp_tag_type tx), xtx) of
                  (True, XtxPay xpay) \<Rightarrow>
                    (let (rc, match) = XmatchSelect (se_D E) (xp_xmatchnum xpay) db
                     in if rc then None else Some (XtxPay (SetMatchFieldsinXpay (se_U E) match xpay)))
                | _ \<Rightarrow> Some xtx))"

text \<open>The payment that a message claims; the string of a hash key is its eight bytes in memory.\<close>

definition ComputePaymentIdHash :: "('db, 'f) indexops \<Rightarrow> 'f xpay \<Rightarrow> bigint outcome" where
  "ComputePaymentIdHash I xpay =
     (if xp_foreign_blockchain xpay = 0 then Inl AssertFail
      else Inr (ix_blake2s I (le_bytes 8 (unat (xp_foreign_blockchain xpay)))
        ((if xp_foreign_blockchain xpay > XREQ_BLOCKCHAIN_BCH then bytes_of_string (xp_foreign_block_id xpay) else []) @
         bytes_of_string (xp_foreign_txid xpay) @ bytes_of_string (xp_foreign_address xpay))))"

definition ConvertTradeToBuy :: "'f xreq \<Rightarrow> 'f xreq outcome" where
  "ConvertTradeToBuy xreq =
     (if xq_type xreq \<noteq> CC_TYPE_XCX_MINING_TRADE then Inl AssertFail
      else Inr (xreq\<lparr>xq_type := CC_TYPE_XCX_MINING_BUY, xq_foreign_address := []\<rparr>))"

definition ConvertTradeObjIdToSellObjId :: "byte list \<Rightarrow> byte list outcome" where
  "ConvertTradeObjIdToSellObjId objid = (case objid of [] \<Rightarrow> Inl OutOfBounds | b # bs \<Rightarrow> Inr ((b XOR 1) # bs))"

definition ConvertTradeToSell :: "'f xreq \<Rightarrow> 'f xreq outcome" where
  "ConvertTradeToSell xreq =
     (if xq_type xreq \<noteq> CC_TYPE_XCX_MINING_TRADE then Inl AssertFail
      else bind_outcome (ConvertTradeObjIdToSellObjId (xq_objid xreq)) (\<lambda>objid.
        Inr (xreq\<lparr>xq_type := CC_TYPE_XCX_MINING_SELL, xq_seqnum := 0, xq_xreqnum := 0, xq_objid := objid\<rparr>)))"

definition XREQ_RECALC_NEXT :: u64 where "XREQ_RECALC_NEXT = 1"

definition AddRequest ::
  "('db, 'f) settle_env \<Rightarrow> ('db, 'f) indexops \<Rightarrow> 'f xreq \<Rightarrow> ('db, 'f) bcstate \<Rightarrow> bool \<times> 'f xreq \<times> ('db, 'f) bcstate" where
  "AddRequest E I xreq st =
     (let U = se_U E;
          xreq = xreq\<lparr>xq_open_amount := xq_max_amount xreq\<rparr>;
          xreq = xreq\<lparr>xq_open_rate_required :=
            MatchRateRequired U (TypeIsBuyer (xq_type xreq)) (xq_base_costs xreq) (xq_quote_costs xreq) (xq_net_rate_required xreq)
              (uf_asset U (xq_base_asset xreq) (xq_open_amount xreq))\<rparr>;
          xreq = xreq\<lparr>xq_recalc_time := XREQ_RECALC_NEXT\<rparr>;
          (rc, db) = ix_XreqsInsert I xreq (bc_db st)
      in (rc, xreq, upd_db db st))"

definition AddOneXreq ::
  "('db, 'f) settle_env \<Rightarrow> ('db, 'f) indexops \<Rightarrow> 'f xreq \<Rightarrow> ('db, 'f) bcstate \<Rightarrow> (bool \<times> ('db, 'f) bcstate) outcome" where
  "AddOneXreq E I xreq st =
     (let (rc, xreq, st) = AddRequest E I xreq st
      in if rc then Inr (True, st)
         else bind_outcome (Xmatchreq_Init xreq xreq) (\<lambda>xmatchreq.
           let (rc, db) = ix_XmatchreqInsert I xmatchreq (bc_db st)
           in Inr (rc, upd_db db st)))"

definition GetNextXreqnum :: "bool \<Rightarrow> ('db, 'f) bcstate \<Rightarrow> u64 \<times> ('db, 'f) bcstate" where
  "GetNextXreqnum increment st =
     (bc_next_xreqnum st, if increment then st\<lparr>bc_next_xreqnum := bc_next_xreqnum st + 1, bc_nums_saved := False\<rparr> else st)"

definition GetNextXmatchnum :: "bool \<Rightarrow> ('db, 'f) bcstate \<Rightarrow> u64 \<times> ('db, 'f) bcstate" where
  "GetNextXmatchnum increment st =
     (bc_next_xmatchnum st, if increment then st\<lparr>bc_next_xmatchnum := bc_next_xmatchnum st + 1, bc_nums_saved := False\<rparr> else st)"

definition AddXreq ::
  "('db, 'f) settle_env \<Rightarrow> ('db, 'f) indexops \<Rightarrow> u64 \<Rightarrow> 'f xreq \<Rightarrow> byte list \<Rightarrow> ('db, 'f) bcstate \<Rightarrow> (bool \<times> ('db, 'f) bcstate) outcome" where
  "AddXreq E I blocktime xreq wire st =
     (let (num, st) = GetNextXreqnum True st;
          xreq = xreq\<lparr>xq_xreqnum := num, xq_blocktime := blocktime, xq_objid := ix_ComputeMessageObjId I wire\<rparr>
      in if xq_type xreq \<noteq> CC_TYPE_XCX_MINING_TRADE then AddOneXreq E I xreq st
         else bind_outcome (ConvertTradeToSell xreq) (\<lambda>xreq2.
              bind_outcome (ConvertTradeToBuy xreq) (\<lambda>xreq.
                let (sn, overflow, sq) = NextNum (bc_xreq_seqnum st);
                    st = st\<lparr>bc_xreq_seqnum := sq, bc_fatal := bc_fatal st \<or> overflow\<rparr>;
                    (num2, st) = GetNextXreqnum True st;
                    xreq2 = xreq2\<lparr>xq_seqnum := sn, xq_xreqnum := num2\<rparr>;
                    xreq = xreq\<lparr>xq_linked_seqnum := sn\<rparr>
                in bind_outcome (AddOneXreq E I xreq st) (\<lambda>(rc, st).
                     if rc then Inr (True, st)
                     else AddOneXreq E I (xreq2\<lparr>xq_linked_seqnum := xq_seqnum xreq\<rparr>) st))))"

section \<open>Serial numbers and outputs\<close>

definition CheckCreatePseudoSerialnum ::
  "('db, 'f) indexops \<Rightarrow> txpay \<Rightarrow> 'f xtx option \<Rightarrow> byte list \<Rightarrow> bool \<Rightarrow> txpay outcome" where
  "CheckCreatePseudoSerialnum I tx xtx wire bpersistent =
     (let type = tp_tag_type tx;
          xchain_sell = (\<not> bpersistent \<and> TypeIsXreq type \<and> TypeIsCrosschain type \<and> TypeIsSeller type);
          need_pseudo = (xchain_sell \<or> type = CC_TYPE_MINT)
      in if \<not> need_pseudo \<and> list_ex (\<lambda>i. \<not> no_serialnum i) (take (tp_nin tx) (tp_inputs tx)) then Inr tx
         else if type = CC_TYPE_MINT \<and> tp_nin tx = 0 then Inl AssertFail
         else let i = (if type = CC_TYPE_MINT then tp_nin tx - 1 else tp_nin tx);
                  objtype = ix_obj_type I wire;
                  set_in = (\<lambda>serial hashkey. tx\<lparr>tp_nin := i + 1, tp_inputs := (tp_inputs tx)[i :=
                    (tp_inputs tx ! i)\<lparr>no_serialnum := False, S_serialnum := serial, S_hashkey := hashkey\<rparr>]\<rparr>);
                  old_key = S_hashkey (tp_inputs tx ! i)
           in if \<not> i < TX_MAXIN then Inl AssertFail
              else if objtype = 0 then Inl AssertFail
              else if xchain_sell then
                (case xtx of
                   Some (XtxReq xreq) \<Rightarrow>
                     if length (xq_foreign_address xreq) = 0 then Inl AssertFail
                     else Inr (set_in (ix_blake2b I [] (bytes_of_string (xq_foreign_address xreq))) old_key)
                 | _ \<Rightarrow> Inl OutOfBounds)
              else if TypeIsXpay type then
                (case xtx of
                   Some (XtxPay xpay) \<Rightarrow>
                     bind_outcome (ComputePaymentIdHash I xpay) (\<lambda>serial.
                       Inr (set_in serial (ix_blake2b I (le_bytes 8 objtype) (ix_obj_body I wire))))
                 | _ \<Rightarrow> Inl OutOfBounds)
              else Inr (set_in (ix_blake2b I (le_bytes 8 objtype) (ix_obj_body I wire)) old_key))"

definition CC_MINT_FOUNDATION_DOMAIN :: u32 where "CC_MINT_FOUNDATION_DOMAIN = 2"

text \<open>The two outputs of a mint go to addresses that depend on the level.\<close>

definition mint_output ::
  "('db, 'f) settle_env \<Rightarrow> ('db, 'f) indexops \<Rightarrow> u64 \<Rightarrow> nat \<Rightarrow> txpay \<Rightarrow> ('db, 'f) bcstate \<Rightarrow> (bool \<times> txpay \<times> ('db, 'f) bcstate) outcome" where
  "mint_output E I lvl i tx st =
     (let half = length (ix_mint_outputs I) div 2;
          index = unat lvl mod half + i * half;
          bindex = (ix_index_mint_donations I \<or> lvl \<le> of_nat half + CC_MINT_ACCEPT_SPAN)
      in if \<not> length (tp_outputs tx) \<le> 1 then Inl AssertFail
         else bind_outcome (CreateTxOutputs 1 E 0 (if i = 0 then fst (ix_mint_amounts I) else snd (ix_mint_amounts I))
                (ix_mint_outputs I ! index) (if i = 0 then CC_MINT_FOUNDATION_DOMAIN else default_domain (se_P E))
                bindex True 0 True True (tp_buf tx) (bc_x st)) (\<lambda>(rc, _, tb, x).
              Inr (rc, tx\<lparr>tp_buf := tb\<rparr>, st\<lparr>bc_x := x\<rparr>)))"

definition IndexTxOutputs ::
  "('db, 'f) settle_env \<Rightarrow> ('db, 'f) indexops \<Rightarrow> u64 \<Rightarrow> txpay \<Rightarrow> txout \<Rightarrow> ('db, 'f) bcstate
   \<Rightarrow> (bool \<times> txpay \<times> ('db, 'f) bcstate) outcome" where
  "IndexTxOutputs E I lvl tx txout st =
     (let (commitnum, x) = GetNextCommitnum True (bc_x st);
          (rc, x) = AddCommitment (se_D E) commitnum (M_commitment txout) x;
          st = st\<lparr>bc_x := x\<rparr>
      in if rc then Inr (True, tx, st)
         else if Implement_CCMint (blockchain_num (se_P E)) \<and> lvl \<le> 1 then Inr (False, tx, st)
         else let domain = (if M_domain txout = 0 then default_domain (se_P E) else M_domain txout);
                  no_encypt = (asset_mask txout = 0 \<and> amount_mask txout = 0);
                  domain = push_bit 1 domain OR (if no_encypt then 1 else 0);
                  st = (if no_address txout then st
                        else upd_db (TxOutputInsert (se_D E) (M_address txout) domain (M_asset_enc txout) (M_amount_enc txout)
                               (tb_param_level (tp_buf tx)) commitnum (bc_db st)) st)
           in if \<not> Implement_CCMint (blockchain_num (se_P E)) \<or> tp_tag_type tx \<noteq> CC_TYPE_MINT then Inr (False, tx, st)
              else bind_outcome (mint_output E I lvl 0 tx st) (\<lambda>(rc, tx, st).
                if rc then Inr (True, tx, st) else mint_output E I lvl 1 tx st))"

fun index_outputs ::
  "('db, 'f) settle_env \<Rightarrow> ('db, 'f) indexops \<Rightarrow> u64 \<Rightarrow> txpay \<Rightarrow> txout list \<Rightarrow> ('db, 'f) bcstate \<Rightarrow> (bool \<times> txpay \<times> ('db, 'f) bcstate) outcome" where
  "index_outputs E I lvl tx [] st = Inr (False, tx, st)"
| "index_outputs E I lvl tx (out # outs) st =
     bind_outcome (IndexTxOutputs E I lvl tx out st) (\<lambda>(rc, tx, st).
       if rc then Inr (True, tx, SetFatalError st) else index_outputs E I lvl tx outs st)"

fun insert_serialnums ::
  "('db, 'f) indexops \<Rightarrow> u64 \<Rightarrow> txin list \<Rightarrow> ('db, 'f) bcstate \<Rightarrow> bool \<times> ('db, 'f) bcstate" where
  "insert_serialnums I commitnum [] st = (False, st)"
| "insert_serialnums I commitnum (i # is) st =
     (if no_serialnum i then insert_serialnums I commitnum is st
      else let (rc, db) = ix_SerialnumInsert I (S_serialnum i) (S_hashkey i) commitnum (bc_db st); st = upd_db db st
        in if rc then (True, SetFatalError st) else insert_serialnums I commitnum is st)"

section \<open>The transactions of a block\<close>

definition forget_valid_obj :: "('db, 'f) indexops \<Rightarrow> byte list \<Rightarrow> ('db, 'f) bcstate \<Rightarrow> ('db, 'f) bcstate" where
  "forget_valid_obj I msg st =
     (if ix_is_witness I then
        let (rc, obj) = ix_ValidObjsGetObj I (ix_ComputeMessageObjId I msg) (bc_db st)
        in if rc then st else upd_db (ix_ValidObjsDeleteObj I obj (bc_db st)) st
      else st)"

text \<open>The donation that a transaction brings, with the settlement of a match that it pays for.\<close>

definition tx_donation ::
  "('db, 'f) settle_env \<Rightarrow> u64 \<Rightarrow> txpay \<Rightarrow> 'f xtx option \<Rightarrow> ('db, 'f) bcstate \<Rightarrow> (bool \<times> bigint \<times> txbuf \<times> ('db, 'f) bcstate) outcome" where
  "tx_donation E blocktime tx xtx st =
     (let B = se_B E; zero = ofULong B 0
      in if TypeIsXpay (tp_tag_type tx) then
           (case xtx of
              Some (XtxPay xpay) \<Rightarrow>
                bind_outcome (ProcessXpayment E blocktime xpay zero (tp_buf tx) (bc_x st)) (\<lambda>(rc, donation, tb, x).
                  let st = st\<lparr>bc_x := x\<rparr> in Inr (rc, donation, tb, if rc then SetFatalError st else st))
            | _ \<Rightarrow> Inl OutOfBounds)
         else if tp_tag_type tx \<noteq> CC_TYPE_MINT then
           bind_outcome (tx_amount_decode B (tp_donation_fp tx) True TX_DONATION_BITS TX_AMOUNT_EXPONENT_BITS) (\<lambda>donation.
             Inr (False, donation, tp_buf tx, st))
         else Inr (False, zero, tp_buf tx, st))"

definition index_one_tx ::
  "('db, 'f) settle_env \<Rightarrow> ('db, 'f) indexops \<Rightarrow> u64 \<Rightarrow> addr \<Rightarrow> byte list \<Rightarrow> txbuf \<Rightarrow> ('db, 'f) bcstate
   \<Rightarrow> (bool \<times> txbuf \<times> ('db, 'f) bcstate) outcome" where
  "index_one_tx E I blocktime b msg tb st =
     (let st = forget_valid_obj I msg st
      in case ix_tx_from_wire I msg of
           None \<Rightarrow> Inr (True, tb, SetFatalError st)
         | Some tx \<Rightarrow>
             let (rc, root) = CommitRootsSelectLevel (se_D E) (tb_param_level (tp_buf tx)) (bc_db st)
             in if rc then Inr (True, tp_buf tx, SetFatalError st)
                else let tx = tx\<lparr>tp_buf := tx_set_commit_iv (se_Z E) ((tp_buf tx)\<lparr>tb_merkle_root := root\<rparr>)\<rparr>;
                         xtx = ExtractXtx E I tx False (bc_db st)
                  in if xtx = None \<and> ExtractXtxFailed tx False then Inr (True, tp_buf tx, st)
                     else bind_outcome (CheckCreatePseudoSerialnum I tx xtx msg True) (\<lambda>tx.
                       bind_outcome (if TypeIsXreq (tp_tag_type tx)
                                     then (case xtx of Some (XtxReq xreq) \<Rightarrow> AddXreq E I blocktime xreq msg st | _ \<Rightarrow> Inl OutOfBounds)
                                     else Inr (False, st)) (\<lambda>(rc, st).
                       if rc then Inr (True, tp_buf tx, SetFatalError st)
                       else let (tx_commitnum, _) = GetNextCommitnum False (bc_x st);
                                (rc, st) = insert_serialnums I tx_commitnum (take (tp_nin tx) (tp_inputs tx)) st
                         in if rc then Inr (True, tp_buf tx, st)
                            else if \<not> list_ex (\<lambda>i. \<not> no_serialnum i) (take (tp_nin tx) (tp_inputs tx)) then Inl AssertFail
                            else bind_outcome (index_outputs E I (level_value (bc_heap st b)) tx (tp_outputs tx) st) (\<lambda>(rc, tx, st).
                              if rc then Inr (True, tp_buf tx, st)
                              else bind_outcome (tx_donation E blocktime tx xtx st) (\<lambda>(rc, donation, tb, st).
                                if rc then Inr (True, tb, st)
                                else let blk = bc_heap st b
                                  in Inr (False, tb, st\<lparr>bc_heap := (bc_heap st)(b := blk\<lparr>total_donations :=
                                       op_add (se_B E) (total_donations blk) donation\<rparr>)\<rparr>))))))"

fun index_txs_loop ::
  "nat \<Rightarrow> ('db, 'f) settle_env \<Rightarrow> ('db, 'f) indexops \<Rightarrow> u64 \<Rightarrow> addr \<Rightarrow> byte list \<Rightarrow> txbuf \<Rightarrow> ('db, 'f) bcstate
   \<Rightarrow> (bool \<times> txbuf \<times> ('db, 'f) bcstate) outcome" where
  "index_txs_loop 0 E I blocktime b data tb st = Inl OutOfFuel"
| "index_txs_loop (Suc fuel) E I blocktime b data tb st =
     (if data = [] \<or> xs_shutdown (bc_x st) then Inr (False, tb, st)
      else if length data < 4 then Inl OutOfBounds
      else let txsize = le_val (take 4 data)
        in if length data < txsize then Inl OutOfBounds
           else bind_outcome (index_one_tx E I blocktime b (take txsize data) tb st) (\<lambda>(rc, tb, st).
             if rc then Inr (True, tb, st)
             else index_txs_loop fuel E I blocktime b (drop txsize data) tb st))"

definition IndexTxs ::
  "nat \<Rightarrow> ('db, 'f) settle_env \<Rightarrow> ('db, 'f) indexops \<Rightarrow> u64 \<Rightarrow> addr \<Rightarrow> txbuf \<Rightarrow> ('db, 'f) bcstate
   \<Rightarrow> (bool \<times> txbuf \<times> ('db, 'f) bcstate) outcome" where
  "IndexTxs fuel E I blocktime b tb st = index_txs_loop fuel E I blocktime b (txdata (bc_heap st b)) tb st"

end
