(* ===== verification/Index_Props.thy ===== *)
theory Index_Props
  imports Index_Txs Settle_Props Consensus
begin

text \<open>
  What processing the transactions of a block leaves in the database: the serial numbers of all its
  transactions, and nothing that was recorded before is lost.
\<close>

section \<open>Serial numbers are never forgotten\<close>

text \<open>
  \<open>spent\<close> reads the set of serial numbers off the database. A successful insert adds to it; no call
  that block processing makes takes anything away.
\<close>

definition keeps_spent :: "('db, 'f) settle_env \<Rightarrow> ('db, 'f) indexops \<Rightarrow> ('db \<Rightarrow> bigint set) \<Rightarrow> bool" where
  "keeps_spent E I spent \<longleftrightarrow>
     (\<forall>n c db. spent db \<subseteq> spent (snd (CommitTreeInsert (se_D E) n c db))) \<and>
     (\<forall>a dm x fp l n db. spent db \<subseteq> spent (TxOutputInsert (se_D E) a dm x fp l n db)) \<and>
     (\<forall>match db. spent db \<subseteq> spent (snd (XmatchInsert (se_D E) match db))) \<and>
     (\<forall>obj db. spent db \<subseteq> spent (ix_ValidObjsDeleteObj I obj db)) \<and>
     (\<forall>q db. spent db \<subseteq> spent (snd (ix_XreqsInsert I q db))) \<and>
     (\<forall>q db. spent db \<subseteq> spent (snd (ix_XmatchreqInsert I q db))) \<and>
     (\<forall>s k n db. spent db \<subseteq> spent (snd (ix_SerialnumInsert I s k n db)) \<and>
       (\<not> fst (ix_SerialnumInsert I s k n db) \<longrightarrow> s \<in> spent (snd (ix_SerialnumInsert I s k n db))))"

lemma create_one_output_mono:
  assumes "keeps_spent E I spent" "create_one_output E asset tot dest domain mn mx bx ne pn tb st = Inr (r, rest, tb', st')"
  shows "spent (xs_db st) \<subseteq> spent (xs_db st')"
  using assms
  by (auto simp: create_one_output_def Let_def bind_outcome_eq_Inr case_prod_beta GetNextCommitnum_def AddCommitment_def
      keeps_spent_def split: if_splits) blast+

lemma create_outputs_loop_mono:
  "keeps_spent E I spent \<Longrightarrow>
    create_outputs_loop fuel E asset tot dest domain mn mx bx ne pn one tb st = Inr (rc, rest, tb', st') \<Longrightarrow>
    spent (xs_db st) \<subseteq> spent (xs_db st')"
proof (induction fuel arbitrary: tot tb st)
  case (Suc fuel)
  show ?case
  proof (cases "big_true tot \<and> \<not> xs_shutdown st")
    case True
    then obtain r rest1 tb1 st1 where c: "create_one_output E asset tot dest domain mn mx bx ne pn tb st = Inr (r, rest1, tb1, st1)"
      using Suc.prems(2) by (cases "create_one_output E asset tot dest domain mn mx bx ne pn tb st") auto
    note m = create_one_output_mono [OF Suc.prems(1) c]
    show ?thesis
      using Suc.prems True c m Suc.IH [OF Suc.prems(1), of rest1 tb1 st1] by (auto split: option.splits if_splits)
  qed (use Suc.prems in auto)
qed simp

lemma CreateTxOutputs_mono:
  "keeps_spent E I spent \<Longrightarrow> CreateTxOutputs fuel E asset tot dest domain bx ne pn one mint tb st = Inr (rc, rest, tb', st') \<Longrightarrow>
    spent (xs_db st) \<subseteq> spent (xs_db st')"
  by (auto simp: CreateTxOutputs_def Let_def dest: create_outputs_loop_mono split: if_splits)

text \<open>
  \<open>grows m s r p\<close>: the state that \<open>p\<close> reads off a successful result \<open>r\<close> has at least what the state
  \<open>s\<close> has. The rules follow the structure of the code.
\<close>

definition grows :: "('s \<Rightarrow> 'x set) \<Rightarrow> 's \<Rightarrow> 'r outcome \<Rightarrow> ('r \<Rightarrow> 's) \<Rightarrow> bool" where
  "grows m s r p \<longleftrightarrow> (\<forall>y. r = Inr y \<longrightarrow> m s \<subseteq> m (p y))"

lemma grows_simps [simp]: "grows m s (Inl e) p" "grows m s (Inr y) p \<longleftrightarrow> m s \<subseteq> m (p y)"
  by (simp_all add: grows_def)

lemma grows_if: "(c \<Longrightarrow> grows m s x p) \<Longrightarrow> (\<not> c \<Longrightarrow> grows m s y p) \<Longrightarrow> grows m s (if c then x else y) p"
  by simp

lemma grows_bind:
  "grows m s' r p \<Longrightarrow> m s \<subseteq> m s' \<Longrightarrow> (\<And>y. r = Inr y \<Longrightarrow> grows m (p y) (f y) q) \<Longrightarrow> grows m s (bind_outcome r f) q"
  by (cases r) (fastforce simp: grows_def)+

lemma grows_pure: "(\<And>y. r = Inr y \<Longrightarrow> grows m s (f y) q) \<Longrightarrow> grows m s (bind_outcome r f) q"
  by (cases r) (auto simp: grows_def)

lemma CreateTxOutputs_grows:
  "keeps_spent E I spent \<Longrightarrow>
    grows (\<lambda>st. spent (xs_db st)) st (CreateTxOutputs fuel E asset tot dest domain bx ne pn one mint tb st) (\<lambda>(rc, rest, tb, st). st)"
  by (auto simp: grows_def dest: CreateTxOutputs_mono)

lemma grows_prod: "(\<And>a b. y = (a, b) \<Longrightarrow> grows m s (f a b) q) \<Longrightarrow> grows m s (case y of (a, b) \<Rightarrow> f a b) q"
  by (cases y) simp

lemma grows_bind4:
  "grows m s' r (\<lambda>(a, b, c, d). d) \<Longrightarrow> m s \<subseteq> m s' \<Longrightarrow>
    (\<And>a b c d. r = Inr (a, b, c, d) \<Longrightarrow> grows m d (f a b c d) q) \<Longrightarrow>
    grows m s (bind_outcome r (\<lambda>(a, b, c, d). f a b c d)) q"
  by (rule grows_bind) auto

lemma grows_bind3:
  "grows m s' r (\<lambda>(a, b, c). c) \<Longrightarrow> m s \<subseteq> m s' \<Longrightarrow>
    (\<And>a b c. r = Inr (a, b, c) \<Longrightarrow> grows m c (f a b c) q) \<Longrightarrow> grows m s (bind_outcome r (\<lambda>(a, b, c). f a b c)) q"
  by (rule grows_bind) auto

lemma grows_bind2:
  "grows m s' r (\<lambda>(a, b). b) \<Longrightarrow> m s \<subseteq> m s' \<Longrightarrow>
    (\<And>a b. r = Inr (a, b) \<Longrightarrow> grows m b (f a b) q) \<Longrightarrow> grows m s (bind_outcome r (\<lambda>(a, b). f a b)) q"
  by (rule grows_bind) auto

lemma grows_le: "grows m s' r p \<Longrightarrow> m s \<subseteq> m s' \<Longrightarrow> grows m s r p"
  by (auto simp: grows_def)

lemma SettleMatch_grows:
  assumes E: "keeps_spent E I spent"
  shows "grows (\<lambda>st. spent (xs_db st)) st (SettleMatch E match donation tb st) (\<lambda>(rc, d, match, tb, st). st)"
proof -
  have x: "spent db \<subseteq> spent (snd (XmatchInsert (se_D E) m db))" for m db using E by (auto simp: keeps_spent_def)
  note bind = grows_bind4 [OF CreateTxOutputs_grows [OF E]]
  show ?thesis
    unfolding SettleMatch_def Let_def
    by (rule grows_pure, (rule grows_prod)+, rule grows_if, simp, rule bind, simp, rule grows_if, simp, rule bind, simp,
        rule grows_if, simp, rule grows_pure, simp add: case_prod_beta x)
qed

lemma ProcessXpayment_grows:
  assumes E: "keeps_spent E I spent"
  shows "grows (\<lambda>st. spent (xs_db st)) st (ProcessXpayment E blocktime xpay donation tb st) (\<lambda>(rc, d, tb, st). st)"
proof -
  have x: "spent db \<subseteq> spent (snd (XmatchInsert (se_D E) m db))" for m db using E by (auto simp: keeps_spent_def)
  show ?thesis
    unfolding ProcessXpayment_def Let_def
    by (rule grows_if, simp, rule grows_prod, rule grows_if, simp, rule grows_if, simp, rule grows_if, simp add: case_prod_beta x,
        rule grows_bind [OF SettleMatch_grows [OF E]]) auto
qed

section \<open>Processing one transaction\<close>

abbreviation spent_in :: "('db \<Rightarrow> bigint set) \<Rightarrow> ('db, 'f) bcstate \<Rightarrow> bigint set" where
  "spent_in spent st \<equiv> spent (bc_db st)"

lemma bc_db_simps [simp]:
  "bc_db (upd_db db st) = db" "bc_db (SetFatalError st) = bc_db st" "bc_db (st\<lparr>bc_heap := h\<rparr>) = bc_db st"
  "bc_db (st\<lparr>bc_x := x\<rparr>) = xs_db x" "bc_db (st\<lparr>bc_next_xreqnum := n\<rparr>) = bc_db st"
  "bc_db (st\<lparr>bc_xreq_seqnum := sq\<rparr>) = bc_db st" "bc_db (st\<lparr>bc_fatal := f\<rparr>) = bc_db st"
  "bc_db (st\<lparr>bc_nums_saved := f\<rparr>) = bc_db st"
  by (simp_all add: bc_db_def upd_db_def SetFatalError_def)

lemma AddOneXreq_grows:
  assumes "keeps_spent E I spent"
  shows "grows (spent_in spent) st (AddOneXreq E I xreq st) (\<lambda>(rc, st). st)"
proof -
  have x: "spent db \<subseteq> spent (snd (ix_XreqsInsert I q db))" "spent db \<subseteq> spent (snd (ix_XmatchreqInsert I r db))" for q r db
    using assms by (auto simp: keeps_spent_def)
  show ?thesis
    using x order_trans [OF x(1) x(2)]
    by (auto simp: AddOneXreq_def AddRequest_def Let_def case_prod_beta intro!: grows_if grows_pure)
qed

lemma AddXreq_grows:
  assumes E: "keeps_spent E I spent"
  shows "grows (spent_in spent) st (AddXreq E I blocktime xreq wire st) (\<lambda>(rc, st). st)"
proof -
  note one = AddOneXreq_grows [OF E]
  show ?thesis
    unfolding AddXreq_def Let_def GetNextXreqnum_def
    by (simp only: if_True prod.case, rule grows_if, rule grows_le [OF one], simp, rule grows_pure, rule grows_pure,
        rule grows_prod, rule grows_prod, rule grows_bind2 [OF one], simp, rule grows_if, simp, rule one)
qed

lemma mint_output_grows:
  assumes "keeps_spent E I spent"
  shows "grows (spent_in spent) st (mint_output E I lvl i tx st) (\<lambda>(rc, tx, st). st)"
  unfolding mint_output_def Let_def
  by (rule grows_if, simp, rule grows_pure)
    (auto simp: bc_db_def [symmetric] dest!: CreateTxOutputs_mono [OF assms])

lemma IndexTxOutputs_grows:
  assumes E: "keeps_spent E I spent"
  shows "grows (spent_in spent) st (IndexTxOutputs E I lvl tx out st) (\<lambda>(rc, tx, st). st)"
proof -
  have x: "spent db \<subseteq> spent (snd (CommitTreeInsert (se_D E) n c db))" "spent db \<subseteq> spent (TxOutputInsert (se_D E) a dm xx fp l n db)"
    for n c a dm xx fp l db
    using E by (auto simp: keeps_spent_def)
  note m = mint_output_grows [OF E] and xx = order_trans [OF x(1) x(2)]
  show ?thesis
    unfolding IndexTxOutputs_def Let_def GetNextCommitnum_def AddCommitment_def
    by (simp only: case_prod_beta [of _ "_ :: u64 \<times> _"] case_prod_beta [of _ "_ :: bool \<times> 'a"]
        case_prod_beta [of _ "_ :: bool \<times> ('a, 'b) xstate"] fst_conv snd_conv if_True,
        rule grows_if, simp add: x flip: bc_db_def, rule grows_if, simp add: x flip: bc_db_def,
        rule grows_if, simp add: x xx flip: bc_db_def, rule grows_bind3 [OF m], simp add: x xx flip: bc_db_def,
        rule grows_if, simp, rule m)
qed

lemma index_outputs_grows:
  assumes E: "keeps_spent E I spent"
  shows "grows (spent_in spent) st (index_outputs E I lvl tx outs st) (\<lambda>(rc, tx, st). st)"
proof (induction outs arbitrary: tx st)
  case (Cons out outs)
  then show ?case
    by (simp, intro grows_bind3 [OF IndexTxOutputs_grows [OF E]] grows_if) auto
qed simp

lemma tx_donation_grows:
  "keeps_spent E I spent \<Longrightarrow> grows (spent_in spent) st (tx_donation E blocktime tx xtx st) (\<lambda>(rc, d, tb, st). st)"
  using ProcessXpayment_grows [of E I spent]
  by (fastforce simp: grows_def tx_donation_def Let_def bind_outcome_eq_Inr case_prod_beta bc_db_def SetFatalError_def
      split: if_splits option.splits xtx.splits)

text \<open>The serial numbers of the inputs are recorded, one insert for each.\<close>

definition serials :: "txin list \<Rightarrow> bigint set" where
  "serials ins = S_serialnum ` {i \<in> set ins. \<not> no_serialnum i}"

lemma insert_serialnums_mono:
  "keeps_spent E I spent \<Longrightarrow> insert_serialnums I n ins st = (rc, st') \<Longrightarrow>
    spent_in spent st \<subseteq> spent_in spent st' \<and> (\<not> rc \<longrightarrow> serials ins \<subseteq> spent_in spent st')"
proof (induction ins arbitrary: st)
  case (Cons i ins)
  define r where "r = ix_SerialnumInsert I (S_serialnum i) (S_hashkey i) n (bc_db st)"
  have "spent_in spent st \<subseteq> spent (snd r) \<and> (\<not> fst r \<longrightarrow> S_serialnum i \<in> spent (snd r))"
    using Cons.prems(1) unfolding keeps_spent_def r_def by blast
  then show ?case
    using Cons.prems(2) Cons.IH [OF Cons.prems(1), of st] Cons.IH [OF Cons.prems(1), of "upd_db (snd r) st"]
    by (cases "no_serialnum i"; cases r; cases "fst r")
      (auto simp: r_def [symmetric] serials_def)
qed (auto simp: serials_def)

lemma take_update: "i < length xs \<Longrightarrow> take (Suc i) (xs[i := v]) = take i xs @ [v]"
  by (simp add: take_Suc_conv_app_nth)

text \<open>
  A transaction without a serial number gets one; all those that it has are kept, except in a mint,
  whose last input is replaced.
\<close>

lemma CheckCreatePseudoSerialnum_cases:
  assumes "CheckCreatePseudoSerialnum I tx xtx wire b = Inr tx'"
  shows "(tx' = tx \<and> list_ex (\<lambda>i. \<not> no_serialnum i) (take (tp_nin tx) (tp_inputs tx))) \<or>
    (\<exists>i v. i < TX_MAXIN \<and> i = (if tp_tag_type tx = CC_TYPE_MINT then tp_nin tx - 1 else tp_nin tx) \<and> \<not> no_serialnum v \<and>
      tx' = tx\<lparr>tp_nin := i + 1, tp_inputs := (tp_inputs tx)[i := v]\<rparr>)"
proof -
  define i where "i = (if tp_tag_type tx = CC_TYPE_MINT then tp_nin tx - 1 else tp_nin tx)"
  define Q where "Q t \<longleftrightarrow> (\<exists>v. \<not> no_serialnum v \<and> t = tx\<lparr>tp_nin := i + 1, tp_inputs := (tp_inputs tx)[i := v]\<rparr>)" for t
  have Q: "\<not> no_serialnum v \<Longrightarrow> Q (tx\<lparr>tp_nin := i + 1, tp_inputs := (tp_inputs tx)[i := v]\<rparr>)" for v unfolding Q_def by blast
  have "(tx' = tx \<and> list_ex (\<lambda>i. \<not> no_serialnum i) (take (tp_nin tx) (tp_inputs tx))) \<or> i < TX_MAXIN \<and> Q tx'"
    using assms unfolding CheckCreatePseudoSerialnum_def Let_def i_def [symmetric]
    by (clarsimp simp: bind_outcome_eq_Inr Q simp del: One_nat_def list_ex_iff split: if_split_asm option.split_asm xtx.split_asm)
  then show ?thesis unfolding Q_def i_def by blast
qed

lemma CheckCreatePseudoSerialnum_serials:
  assumes "CheckCreatePseudoSerialnum I tx xtx wire b = Inr tx'" "length (tp_inputs tx) = TX_MAXIN"
  shows "list_ex (\<lambda>i. \<not> no_serialnum i) (take (tp_nin tx') (tp_inputs tx'))"
    "tp_tag_type tx \<noteq> CC_TYPE_MINT \<Longrightarrow>
      serials (take (tp_nin tx) (tp_inputs tx)) \<subseteq> serials (take (tp_nin tx') (tp_inputs tx'))"
  using assms(2) CheckCreatePseudoSerialnum_cases [OF assms(1)]
  by (auto simp: take_update serials_def split: if_splits)

lemma forget_valid_obj_grows: "keeps_spent E I spent \<Longrightarrow> spent_in spent st \<subseteq> spent_in spent (forget_valid_obj I msg st)"
  by (auto simp: forget_valid_obj_def keeps_spent_def case_prod_beta Let_def)

text \<open>
  \<open>tx_recorded\<close>: the serial numbers of the transaction in a message are in a set, among them all that
  the message itself carries, and there is at least one.
\<close>

definition tx_recorded :: "('db, 'f) indexops \<Rightarrow> byte list \<Rightarrow> bigint set \<Rightarrow> bool" where
  "tx_recorded I msg S \<longleftrightarrow>
     (\<exists>tx tb xtx tx'. ix_tx_from_wire I msg = Some tx \<and> CheckCreatePseudoSerialnum I (tx\<lparr>tp_buf := tb\<rparr>) xtx msg True = Inr tx' \<and>
       serials (take (tp_nin tx') (tp_inputs tx')) \<subseteq> S \<and> serials (take (tp_nin tx') (tp_inputs tx')) \<noteq> {} \<and>
       (tp_tag_type tx \<noteq> CC_TYPE_MINT \<longrightarrow> serials (take (tp_nin tx) (tp_inputs tx)) \<subseteq> S))"

lemma tx_recorded_mono: "tx_recorded I msg S \<Longrightarrow> S \<subseteq> S' \<Longrightarrow> tx_recorded I msg S'"
  unfolding tx_recorded_def by (blast intro: subset_trans)

text \<open>The inputs of a parsed transaction are an array of \<open>TX_MAXIN\<close> entries.\<close>

definition parses_arrays :: "('db, 'f) indexops \<Rightarrow> bool" where
  "parses_arrays I \<longleftrightarrow> (\<forall>msg tx. ix_tx_from_wire I msg = Some tx \<longrightarrow> length (tp_inputs tx) = TX_MAXIN)"

lemma index_one_tx_cases:
  assumes "index_one_tx E I blocktime b msg tb st = Inr (False, tb', st')"
  obtains tx tb1 xtx tx1 st1 st2 tx2 st3 donation st4 where
    "ix_tx_from_wire I msg = Some tx" "CheckCreatePseudoSerialnum I (tx\<lparr>tp_buf := tb1\<rparr>) xtx msg True = Inr tx1"
    "st1 = forget_valid_obj I msg st \<or> (\<exists>xreq. AddXreq E I blocktime xreq msg (forget_valid_obj I msg st) = Inr (False, st1))"
    "insert_serialnums I (fst (GetNextCommitnum False (bc_x st1))) (take (tp_nin tx1) (tp_inputs tx1)) st1 = (False, st2)"
    "index_outputs E I (level_value (bc_heap st2 b)) tx1 (tp_outputs tx1) st2 = Inr (False, tx2, st3)"
    "tx_donation E blocktime tx2 xtx st3 = Inr (False, donation, tb', st4)"
    "st' = st4\<lparr>bc_heap := (bc_heap st4)(b := (bc_heap st4 b)\<lparr>total_donations :=
       op_add (se_B E) (total_donations (bc_heap st4 b)) donation\<rparr>)\<rparr>"
  using assms unfolding index_one_tx_def Let_def
  by (clarsimp simp: bind_outcome_eq_Inr case_prod_beta prod_eq_iff split: option.split_asm if_split_asm xtx.split_asm) metis+

lemma index_one_tx_records:
  assumes E: "keeps_spent E I spent" and I: "parses_arrays I"
    and r: "index_one_tx E I blocktime b msg tb st = Inr (False, tb', st')"
  shows "spent_in spent st \<subseteq> spent_in spent st'" "tx_recorded I msg (spent_in spent st')"
proof -
  from r obtain tx tb1 xtx tx1 st1 st2 tx2 st3 donation st4 where
    c: "ix_tx_from_wire I msg = Some tx" "CheckCreatePseudoSerialnum I (tx\<lparr>tp_buf := tb1\<rparr>) xtx msg True = Inr tx1"
    "st1 = forget_valid_obj I msg st \<or> (\<exists>xreq. AddXreq E I blocktime xreq msg (forget_valid_obj I msg st) = Inr (False, st1))"
    "insert_serialnums I (fst (GetNextCommitnum False (bc_x st1))) (take (tp_nin tx1) (tp_inputs tx1)) st1 = (False, st2)"
    "index_outputs E I (level_value (bc_heap st2 b)) tx1 (tp_outputs tx1) st2 = Inr (False, tx2, st3)"
    "tx_donation E blocktime tx2 xtx st3 = Inr (False, donation, tb', st4)"
    "st' = st4\<lparr>bc_heap := (bc_heap st4)(b := (bc_heap st4 b)\<lparr>total_donations :=
       op_add (se_B E) (total_donations (bc_heap st4 b)) donation\<rparr>)\<rparr>"
    by (rule index_one_tx_cases)
  have "length (tp_inputs (tx\<lparr>tp_buf := tb1\<rparr>)) = TX_MAXIN" using I c(1) by (auto simp: parses_arrays_def)
  note p = CheckCreatePseudoSerialnum_serials [OF c(2) this]
  have s1: "spent_in spent st \<subseteq> spent_in spent st1"
    using c(3) forget_valid_obj_grows [OF E, of st msg] AddXreq_grows [OF E] by (auto simp: grows_def) blast
  note s2 = insert_serialnums_mono [OF E c(4)]
  have s3: "spent_in spent st2 \<subseteq> spent_in spent st'"
    using index_outputs_grows [OF E] tx_donation_grows [OF E] c(5-7) by (fastforce simp: grows_def)
  show "spent_in spent st \<subseteq> spent_in spent st'" using s1 s2 s3 by blast
  have "serials (take (tp_nin tx1) (tp_inputs tx1)) \<noteq> {}" using p(1) by (auto simp: serials_def list_ex_iff)
  then show "tx_recorded I msg (spent_in spent st')"
    unfolding tx_recorded_def using c(1,2) p(2) s2 s3 by (auto intro!: exI)
qed

text \<open>The messages of a block's transaction data: each starts with its size.\<close>

fun tx_messages :: "nat \<Rightarrow> byte list \<Rightarrow> byte list list" where
  "tx_messages 0 data = []"
| "tx_messages (Suc n) data =
     (if data = [] then [] else take (le_val (take 4 data)) data # tx_messages n (drop (le_val (take 4 data)) data))"

lemma index_txs_loop_records:
  "keeps_spent E I spent \<Longrightarrow> parses_arrays I \<Longrightarrow> index_txs_loop fuel E I blocktime b data tb st = Inr (False, tb', st') \<Longrightarrow>
    \<not> xs_shutdown (bc_x st') \<Longrightarrow>
    spent_in spent st \<subseteq> spent_in spent st' \<and> (\<forall>msg \<in> set (tx_messages fuel data). tx_recorded I msg (spent_in spent st'))"
proof (induction fuel arbitrary: data tb st)
  case (Suc fuel)
  show ?case
  proof (cases "data = [] \<or> xs_shutdown (bc_x st)")
    case False
    define msg rest where "msg = take (le_val (take 4 data)) data" and "rest = drop (le_val (take 4 data)) data"
    obtain tb1 st1 where one: "index_one_tx E I blocktime b msg tb st = Inr (False, tb1, st1)"
      "index_txs_loop fuel E I blocktime b rest tb1 st1 = Inr (False, tb', st')"
      using Suc.prems(3) False by (auto simp: msg_def rest_def Let_def bind_outcome_eq_Inr split: if_splits)
    note h = index_one_tx_records [OF Suc.prems(1,2) one(1)]
    note t = Suc.IH [OF Suc.prems(1,2) one(2) Suc.prems(4)]
    have "tx_recorded I msg (spent_in spent st')" by (rule tx_recorded_mono [OF h(2)]) (use t in blast)
    then show ?thesis using h(1) t False by (auto simp: msg_def rest_def)
  qed (use Suc.prems in auto)
qed simp

text \<open>
  C6. No serial number is lost. When the transactions of a block have been processed to the end,
  every transaction of the block has a serial number, real or made up, and all its serial numbers
  are recorded in the database as spent; every number that was recorded before still is.
\<close>

theorem IndexTxs_records_serialnums:
  assumes "keeps_spent E I spent" "parses_arrays I"
    and "IndexTxs fuel E I blocktime b tb st = Inr (False, tb', st')" "\<not> xs_shutdown (bc_x st')"
  shows "spent (bc_db st) \<subseteq> spent (bc_db st') \<and>
    (\<forall>msg \<in> set (tx_messages fuel (txdata (bc_heap st b))). tx_recorded I msg (spent (bc_db st')))"
  using assms index_txs_loop_records unfolding IndexTxs_def by metis

text \<open>A database that holds only serial numbers, and a block with one payment.\<close>

definition serial_env :: "(bigint list, int) settle_env" where
  "serial_env = \<lparr>se_B = limb_bigops, se_U = int_ufops,
     se_D = \<lparr>CommitRootsSelectLevel = (\<lambda>l db. (False, big_of_nat 7)), CommitTreeInsert = (\<lambda>n c db. (False, db)),
       TxOutputInsert = (\<lambda>a dm x fp l n db. db), XmatchSelect = (\<lambda>n db. (True, sample_match)),
       XmatchInsert = (\<lambda>m db. (False, db)), XmatchSelectNextDeadline = (\<lambda>t db. (1, sample_match))\<rparr>,
     se_Z = se_Z sample_env, se_P = se_P sample_env\<rparr>"

definition serial_input :: txin where
  "serial_input = \<lparr>no_serialnum = False, S_serialnum = big_of_nat 9, S_hashkey = big_of_nat 1\<rparr>"

definition serial_tx :: txpay where
  "serial_tx = \<lparr>tp_tag_type = CC_TYPE_TXPAY, tp_buf = sample_txbuf, tp_nin = 1, tp_inputs = replicate TX_MAXIN serial_input,
     tp_outputs = [], tp_donation_fp = 0, tp_append_data = []\<rparr>"

definition serial_ops :: "(bigint list, int) indexops" where
  "serial_ops = \<lparr>ix_is_witness = False, ix_ComputeMessageObjId = (\<lambda>m. m), ix_ValidObjsGetObj = (\<lambda>i db. (True, 0)),
     ix_ValidObjsDeleteObj = (\<lambda>a db. db), ix_tx_from_wire = (\<lambda>m. Some serial_tx), ix_xtx_from_wire = (\<lambda>t m. None),
     ix_obj_type = (\<lambda>m. 2), ix_obj_body = (\<lambda>m. m), ix_blake2b = (\<lambda>k m. big_of_nat (le_val m)),
     ix_blake2s = (\<lambda>k m. big_of_nat (le_val m)), ix_XreqsInsert = (\<lambda>q db. (False, db)), ix_XmatchreqInsert = (\<lambda>q db. (False, db)),
     ix_SerialnumInsert = (\<lambda>s k n db. (s \<in> set db, s # db)), ix_mint_outputs = [], ix_mint_amounts = (big_of_nat 0, big_of_nat 0),
     ix_index_mint_donations = False\<rparr>"

definition serial_state :: "(bigint list, int) bcstate" where
  "serial_state = \<lparr>bc_x = \<lparr>xs_db = [big_of_nat 4], xs_mining = sample_mining, xs_next_commitnum = 0, xs_last_indelible_level = 5,
       xs_shutdown = False\<rparr>,
     bc_heap = (\<lambda>a. (sample_heap a)\<lparr>txdata := [4, 0, 0, 0]\<rparr>), bc_next_xreqnum = 0, bc_xreq_seqnum = mk_seqnum 0 10, bc_fatal = False,
     bc_last_indelible_block = None, bc_new_indelible_block = None, bc_last_indelible_timestamp = 0,
     bc_last_indelible_ticks = 0, bc_total_donations = big_of_nat 0, bc_next_xmatchnum = 0, bc_nums_saved = False,
     bc_next_tree_update_commitnum = 0, bc_tx_work_difficulty = 1, bc_last_matching_completed_block_time = 0,
     bc_last_matching_start_block_time = 0, bc_last_matched_block_time = 0, bc_matching_block_time = 0,
     bc_matching_max_xreqnum = 0, bc_matching_state = 1, bc_last_matching_epoch = 0, bc_passnum = 1, bc_exchange_work_time = 0,
     bc_pending_exchange_work_time = 0\<rparr>"

lemma serial_laws: "keeps_spent serial_env serial_ops set" "parses_arrays serial_ops"
  by (auto simp: keeps_spent_def parses_arrays_def serial_env_def serial_ops_def serial_tx_def)

lemma big_9_4: "big_of_nat 9 \<noteq> big_of_nat 4"
  by (rule contrapos_nn [of "bval (big_of_nat 9) = bval (big_of_nat 4)"]) (simp add: bval_big_of_nat, rule arg_cong)

lemma serial_one_tx:
  "\<exists>tb' st'. index_one_tx serial_env serial_ops 100 1 [4, 0, 0, 0] sample_txbuf serial_state = Inr (False, tb', st') \<and>
    bc_x st' = (bc_x serial_state)\<lparr>xs_db := [big_of_nat 9, big_of_nat 4]\<rparr>"
  by (simp add: index_one_tx_def Let_def big_9_4 forget_valid_obj_def serial_ops_def serial_env_def serial_tx_def type_consts
      ExtractXtxFailed_def ExtractXtx_def TypeIsXtx_def CheckCreatePseudoSerialnum_def TypeIsXreq_def
      TX_MAXIN_def GetNextCommitnum_def serial_input_def bc_db_def serial_state_def upd_db_def tx_donation_def TypeIsXpay_def
      tx_amount_decode_def TX_AMOUNT_EXPONENT_BITS_def)

theorem IndexTxs_records_serialnums_witness:
  "\<exists>tb' st'. IndexTxs (Suc (Suc 0)) serial_env serial_ops 100 1 sample_txbuf serial_state = Inr (False, tb', st') \<and>
    tx_messages (Suc (Suc 0)) (txdata (bc_heap serial_state 1)) = [[4, 0, 0, 0]] \<and> tx_recorded serial_ops [4, 0, 0, 0] (set (bc_db st'))"
proof -
  obtain tb' st' where r: "IndexTxs (Suc (Suc 0)) serial_env serial_ops 100 1 sample_txbuf serial_state = Inr (False, tb', st')"
    "\<not> xs_shutdown (bc_x st')"
    using serial_one_tx by (auto simp: IndexTxs_def serial_state_def)
  from IndexTxs_records_serialnums [OF serial_laws r] r(1) show ?thesis
    by (auto simp: serial_state_def)
qed

end
