(* ===== verification/Packed_Amount.thy ===== *)
theory Packed_Amount
  imports Bigint "HOL-Library.List_Lexorder"
begin

unbundle bit_operations_syntax

text \<open>
  Amounts as the databases store them (cclib/src/amounts.cpp): conversion between the limb array and
  the 256-bit signed integers of the node and wallet, and the packed forms, whose bytes the database
  compares. The theorems show when packing succeeds, that unpacking undoes it, and that the order of
  the packed bytes is the order of the amounts.

  \<open>amtint_t\<close> is an integer with sign and a magnitude of 256 bits; no operation below leaves that
  range, so that it is modelled by \<open>int\<close>. A default-constructed \<open>bigint_t\<close> is zero.
\<close>

section \<open>Conversions\<close>

definition bigint_default :: bigint where
  "bigint_default = replicate numberLimbs 0"

definition amount_from_bigint :: "bigops \<Rightarrow> bigint \<Rightarrow> int" where
  "amount_from_bigint B amount =
     (let neg = (amount ! 3 AND push_bit 63 1 \<noteq> 0);
          adj_amount = (if neg then subBigInt B (ofULong B 0) amount else amount);
          val = uint (adj_amount ! 3);
          val = push_bit 64 val;
          val = val OR uint (adj_amount ! 2);
          val = push_bit 64 val;
          val = val OR uint (adj_amount ! 1);
          val = push_bit 64 val;
          val = val OR uint (adj_amount ! 0)
      in if neg then - val else val)"

definition amount_to_bigint :: "bigops \<Rightarrow> int \<Rightarrow> bigint" where
  "amount_to_bigint B amount =
     (let adj_amount = (if amount < 0 then - amount else amount);
          w0 = of_int (adj_amount AND mask 64);
          adj_amount = drop_bit 64 adj_amount;
          w1 = of_int (adj_amount AND mask 64);
          adj_amount = drop_bit 64 adj_amount;
          w2 = of_int (adj_amount AND mask 64);
          adj_amount = drop_bit 64 adj_amount;
          w3 = of_int (adj_amount AND mask 64);
          val = [w0, w1, w2, w3]
      in if amount < 0 then subBigInt B (ofULong B 0) val else val)"

section \<open>Packed amounts\<close>

record packed_unsigned_amount =
  pu_hi :: u64
  pu_lo :: u64

record packed_signed_amount =
  ps_hi :: u64
  ps_mid :: u64
  ps_lo :: u64

text \<open>Unpacking writes the low limbs of its reference argument.\<close>

definition unpack_unsigned_amount :: "packed_unsigned_amount \<Rightarrow> bigint \<Rightarrow> bigint" where
  "unpack_unsigned_amount packed amount = amount[0 := bswap_64 (pu_lo packed), 1 := bswap_64 (pu_hi packed)]"

definition unpack_unsigned_amount_int :: "bigops \<Rightarrow> packed_unsigned_amount \<Rightarrow> int" where
  "unpack_unsigned_amount_int B packed = amount_from_bigint B (unpack_unsigned_amount packed bigint_default)"

definition pack_unsigned_amount :: "bigint \<Rightarrow> bool \<times> packed_unsigned_amount" where
  "pack_unsigned_amount amount =
     (let packed = \<lparr>pu_hi = bswap_64 (amount ! 1), pu_lo = bswap_64 (amount ! 0)\<rparr>;
          unpacked = unpack_unsigned_amount packed bigint_default
      in (unpacked \<noteq> amount, packed))"

definition pack_unsigned_amount_int :: "bigops \<Rightarrow> int \<Rightarrow> bool \<times> packed_unsigned_amount" where
  "pack_unsigned_amount_int B amount = pack_unsigned_amount (amount_to_bigint B amount)"

definition pack_offset :: "bigops \<Rightarrow> bigint" where
  "pack_offset B =
     op_mul B (op_mul B (op_mul B (ofULong B (push_bit 63 1)) (ofULong B (push_bit 63 1))) (ofULong B (push_bit 63 1))) (ofULong B 4)"

definition unpack_signed_amount :: "bigops \<Rightarrow> packed_signed_amount \<Rightarrow> bigint \<Rightarrow> bigint" where
  "unpack_signed_amount B packed amount =
     (let amount = amount[0 := bswap_64 (ps_lo packed), 1 := bswap_64 (ps_mid packed), 2 := bswap_64 (ps_hi packed)];
          amount = subBigInt B amount (pack_offset B)
      in if amount ! 2 AND push_bit 63 1 \<noteq> 0 then amount[3 := -1] else amount[3 := 0])"

definition unpack_signed_amount_int :: "bigops \<Rightarrow> packed_signed_amount \<Rightarrow> int" where
  "unpack_signed_amount_int B packed = amount_from_bigint B (unpack_signed_amount B packed bigint_default)"

definition pack_signed_amount :: "bigops \<Rightarrow> bigint \<Rightarrow> bool \<times> packed_signed_amount" where
  "pack_signed_amount B amount =
     (let adj_amount = addBigInt B amount (pack_offset B);
          packed = \<lparr>ps_hi = bswap_64 (adj_amount ! 2), ps_mid = bswap_64 (adj_amount ! 1), ps_lo = bswap_64 (adj_amount ! 0)\<rparr>;
          unpacked = unpack_signed_amount B packed bigint_default
      in (unpacked \<noteq> amount, packed))"

definition pack_signed_amount_int :: "bigops \<Rightarrow> int \<Rightarrow> bool \<times> packed_signed_amount" where
  "pack_signed_amount_int B amount = pack_signed_amount B (amount_to_bigint B amount)"

text \<open>The memory images, which the database compares byte by byte.\<close>

definition packed_unsigned_mem :: "packed_unsigned_amount \<Rightarrow> byte list" where
  "packed_unsigned_mem p = le_bytes 8 (unat (pu_hi p)) @ le_bytes 8 (unat (pu_lo p))"

definition packed_signed_mem :: "packed_signed_amount \<Rightarrow> byte list" where
  "packed_signed_mem p = le_bytes 8 (unat (ps_hi p)) @ le_bytes 8 (unat (ps_mid p)) @ le_bytes 8 (unat (ps_lo p))"

text \<open>A limb array as a two's complement number.\<close>

definition sval :: "bigint \<Rightarrow> int" where
  "sval b = (if bval b < 2 ^ 255 then int (bval b) else int (bval b) - 2 ^ 256)"

section \<open>Order of byte strings\<close>

lemma lex_less_le_val:
  "length xs = length ys \<Longrightarrow> xs < ys \<longleftrightarrow> le_val (rev xs) < le_val (rev (ys :: byte list))"
proof (induction xs ys rule: list_induct2)
  case (Cons x xs y ys)
  define n :: nat where "n = 256 ^ length xs"
  have b: "le_val (rev xs) < n" "le_val (rev ys) < n"
    using le_val_less [of "rev xs"] le_val_less [of "rev ys"] Cons.hyps by (simp_all add: n_def)
  have "le_val (rev xs) + n * unat x < le_val (rev ys) + n * unat y \<longleftrightarrow>
      unat x < unat y \<or> unat x = unat y \<and> le_val (rev xs) < le_val (rev ys)"
  proof (cases "unat x" "unat y" rule: linorder_cases)
    case less
    then have "n * unat x + n \<le> n * unat y" by (metis Suc_leI mult_Suc_right mult_le_mono2 add.commute)
    with b less show ?thesis by linarith
  next
    case greater
    then have "n * unat y + n \<le> n * unat x" by (metis Suc_leI mult_Suc_right mult_le_mono2 add.commute)
    with b greater show ?thesis by linarith
  qed simp
  then show ?case
    using Cons by (simp add: le_val_append n_def word_less_nat_alt word_unat_eq_iff)
qed simp

lemma length_packed_mem [simp]: "length (packed_unsigned_mem p) = 16" "length (packed_signed_mem q) = 24"
  by (simp_all add: packed_unsigned_mem_def packed_signed_mem_def)

lemma packed_unsigned_mem_val: "le_val (rev (packed_unsigned_mem p)) = bval [bswap_64 (pu_lo p), bswap_64 (pu_hi p)]"
  by (simp add: packed_unsigned_mem_def le_val_append flip: rev_le_bytes_bswap)
    (simp add: unat_of_le_bytes_8)

lemma packed_signed_mem_val:
  "le_val (rev (packed_signed_mem p)) = bval [bswap_64 (ps_lo p), bswap_64 (ps_mid p), bswap_64 (ps_hi p)]"
  by (simp add: packed_signed_mem_def le_val_append flip: rev_le_bytes_bswap)
    (simp add: unat_of_le_bytes_8 algebra_simps)

section \<open>Limbs\<close>

lemma wf_bigint_limbs: "wf_bigint b \<longleftrightarrow> (\<exists>w0 w1 w2 w3. b = [w0, w1, w2, w3])"
  by (auto simp: wf_bigint_def numberLimbs_def length_Suc_conv eval_nat_numeral)

lemma bigint_default_limbs: "bigint_default = [0, 0, 0, 0]"
  by (simp add: bigint_default_def numberLimbs_def numeral_nat)

lemma top_bit_iff: "w AND push_bit 63 1 \<noteq> (0 :: u64) \<longleftrightarrow> 2 ^ 63 \<le> unat w"
proof -
  have "w AND push_bit 63 1 \<noteq> 0 \<longleftrightarrow> bit w 63" by (simp only: push_bit_of_1 and_exp_eq_0_iff_not_bit not_not)
  also have "\<dots> \<longleftrightarrow> bit (unat w) 63" by (simp add: bit_unsigned_iff)
  also have "\<dots> \<longleftrightarrow> 2 ^ 63 \<le> unat w"
  proof -
    have "unat w < 2 * 2 ^ 63" using unat_u64_less [of w] by simp
    then have "unat w div 2 ^ 63 < 2" by (simp add: less_mult_imp_div_less)
    then show ?thesis by (auto simp: bit_iff_odd div_greater_zero_iff less_2_cases_iff)
  qed
  finally show ?thesis .
qed

lemma sval_inj: "wf_bigint a \<Longrightarrow> wf_bigint b \<Longrightarrow> sval a = sval b \<Longrightarrow> a = b"
  using bval_less_256 [of a] bval_less_256 [of b]
  by (intro bval_inj) (auto simp: wf_bigint_def sval_def split: if_splits)

lemma sval_range: "wf_bigint a \<Longrightarrow> - (2 ^ 255) \<le> sval a \<and> sval a < 2 ^ 255"
  using bval_less_256 [of a] by (auto simp: sval_def)

section \<open>Unsigned amounts\<close>

lemma pack_unsigned_ok: "wf_bigint a \<Longrightarrow> \<not> fst (pack_unsigned_amount a) \<longleftrightarrow> bval a < 2 ^ 128"
proof -
  assume "wf_bigint a"
  then obtain w0 w1 w2 w3 where a: "a = [w0, w1, w2, w3]" using wf_bigint_limbs by blast
  have lo: "unat w0 + 2 ^ 64 * unat w1 < 2 ^ 128" using unat_u64_less [of w0] unat_u64_less [of w1] by simp
  have v: "bval a = unat w0 + 2 ^ 64 * unat w1 + 2 ^ 128 * (unat w2 + 2 ^ 64 * unat w3)" by (simp add: a algebra_simps)
  have "\<not> fst (pack_unsigned_amount a) \<longleftrightarrow> w2 = 0 \<and> w3 = 0"
    by (auto simp: pack_unsigned_amount_def unpack_unsigned_amount_def bigint_default_limbs a)
  also have "\<dots> \<longleftrightarrow> unat w2 + 2 ^ 64 * unat w3 = 0" by (simp add: unat_eq_0)
  also have "\<dots> \<longleftrightarrow> bval a < 2 ^ 128" using lo by (auto simp: v)
  finally show ?thesis .
qed

lemma packed_unsigned_value:
  "wf_bigint a \<Longrightarrow> bval a < 2 ^ 128 \<Longrightarrow> le_val (rev (packed_unsigned_mem (snd (pack_unsigned_amount a)))) = bval a"
  using pack_unsigned_ok [of a]
  by (auto simp: packed_unsigned_mem_val wf_bigint_limbs pack_unsigned_amount_def unpack_unsigned_amount_def bigint_default_limbs
      numeral_2_eq_2)

text \<open>
  C22. Packing an unsigned amount fails exactly when the amount does not fit in 128 bits; otherwise
  unpacking gives the amount back, and the packed amounts compare byte by byte as the amounts do.
\<close>

theorem pack_unsigned_amount_order:
  assumes "wf_bigint a" "wf_bigint b"
  shows "(fst (pack_unsigned_amount a) \<longleftrightarrow> 2 ^ 128 \<le> bval a) \<and>
    (bval a < 2 ^ 128 \<longrightarrow> unpack_unsigned_amount (snd (pack_unsigned_amount a)) bigint_default = a) \<and>
    (bval a < 2 ^ 128 \<and> bval b < 2 ^ 128 \<longrightarrow>
      (packed_unsigned_mem (snd (pack_unsigned_amount a)) < packed_unsigned_mem (snd (pack_unsigned_amount b)) \<longleftrightarrow> bval a < bval b))"
proof (intro conjI impI)
  show "fst (pack_unsigned_amount a) \<longleftrightarrow> 2 ^ 128 \<le> bval a" using pack_unsigned_ok [OF assms(1)] by auto
  show "unpack_unsigned_amount (snd (pack_unsigned_amount a)) bigint_default = a" if "bval a < 2 ^ 128"
    using pack_unsigned_ok [OF assms(1)] that by (simp add: pack_unsigned_amount_def Let_def)
  show "packed_unsigned_mem (snd (pack_unsigned_amount a)) < packed_unsigned_mem (snd (pack_unsigned_amount b)) \<longleftrightarrow> bval a < bval b"
    if "bval a < 2 ^ 128 \<and> bval b < 2 ^ 128"
    using that assms by (simp add: lex_less_le_val packed_unsigned_value)
qed

theorem pack_unsigned_amount_order_witness:
  "bval (big_of_nat 5) < bval (big_of_nat 300) \<and>
   packed_unsigned_mem (snd (pack_unsigned_amount (big_of_nat 5))) < packed_unsigned_mem (snd (pack_unsigned_amount (big_of_nat 300)))"
  using pack_unsigned_amount_order [of "big_of_nat 5" "big_of_nat 300"] by (simp add: bval_big_of_nat)

section \<open>Signed amounts\<close>

text \<open>Three limbs taken as a number above the offset, and the sign filled in.\<close>

definition low3 :: "bigint \<Rightarrow> nat" where
  "low3 b = bval (take 3 b)"

lemma low3_less: "low3 b < 2 ^ 192"
proof -
  have "low3 b < 2 ^ (64 * length (take 3 b))" unfolding low3_def by (rule bval_less)
  also have "\<dots> \<le> 2 ^ 192" by (rule power_increasing) auto
  finally show ?thesis .
qed

lemma bval_low3: "wf_bigint b \<Longrightarrow> bval b = low3 b + 2 ^ 192 * unat (b ! 3)"
  by (auto simp: wf_bigint_limbs low3_def numeral_3_eq_3 algebra_simps)

lemma low3_mod: "wf_bigint b \<Longrightarrow> low3 b = bval b mod 2 ^ 192"
  using low3_less [of b] by (simp add: bval_low3)

lemma low3_top: "wf_bigint b \<Longrightarrow> 2 ^ 63 \<le> unat (b ! 2) \<longleftrightarrow> 2 ^ 191 \<le> low3 b"
proof -
  assume "wf_bigint b"
  then obtain w0 w1 w2 w3 where b: "b = [w0, w1, w2, w3]" using wf_bigint_limbs by blast
  have "unat w0 + 2 ^ 64 * unat w1 < 2 ^ 128" using unat_u64_less [of w0] unat_u64_less [of w1] by simp
  then show ?thesis by (simp add: b low3_def) linarith
qed

context bigint_lib
begin

lemma pack_offset_value: "wf_bigint (pack_offset B)" "bval (pack_offset B) = 2 ^ 191"
proof -
  have u: "unat (push_bit 63 1 :: u64) = 2 ^ 63" by (simp add: push_bit_of_1)
  let ?c = "ofULong B (push_bit 63 1)"
  have c: "wf_bigint ?c" "bval ?c = 2 ^ 63" using u by (simp_all add: wf_ops val_ofULong)
  have 2: "wf_bigint (op_mul B ?c ?c)" "bval (op_mul B ?c ?c) = 2 ^ 126"
    using c by (simp_all add: wf_ops val_mul field_prime_def)
  have 3: "wf_bigint (op_mul B (op_mul B ?c ?c) ?c)" "bval (op_mul B (op_mul B ?c ?c) ?c) = 2 ^ 189"
    using c 2 by (simp_all add: wf_ops val_mul field_prime_def)
  show "wf_bigint (pack_offset B)" "bval (pack_offset B) = 2 ^ 191"
    unfolding pack_offset_def using 3 by (simp_all add: wf_ops val_mul val_ofULong field_prime_def)
qed

lemma unpack_signed_value:
  fixes p :: packed_signed_amount
  defines "L \<equiv> bval [bswap_64 (ps_lo p), bswap_64 (ps_mid p), bswap_64 (ps_hi p)]"
  shows "wf_bigint (unpack_signed_amount B p bigint_default)" "sval (unpack_signed_amount B p bigint_default) = int L - 2 ^ 191"
proof -
  define x where "x = [bswap_64 (ps_lo p), bswap_64 (ps_mid p), bswap_64 (ps_hi p), 0]"
  define m where "m = subBigInt B x (pack_offset B)"
  define r where "r = unpack_signed_amount B p bigint_default"
  have x: "wf_bigint x" "bval x = L" "L < 2 ^ 192"
    using low3_less [of x] by (auto simp: x_def L_def wf_bigint_limbs low3_def numeral_3_eq_3)
  have wm: "wf_bigint m" using x pack_offset_value by (simp add: m_def wf_ops)
  have m: "bval m = (L + 2 ^ 256 - 2 ^ 191) mod 2 ^ 256"
    using x pack_offset_value by (simp add: m_def val_subBigInt)
  have r: "r = m[3 := if 2 ^ 191 \<le> low3 m then -1 else 0]"
  proof -
    have "bigint_default[0 := bswap_64 (ps_lo p), 1 := bswap_64 (ps_mid p), 2 := bswap_64 (ps_hi p)] = x"
      by (simp add: bigint_default_limbs x_def numeral_2_eq_2)
    then show ?thesis
      unfolding r_def unpack_signed_amount_def Let_def top_bit_iff using low3_top [OF wm] by (simp add: m_def)
  qed
  then have wr: "wf_bigint r" "low3 r = low3 m" "r ! 3 = (if 2 ^ 191 \<le> low3 m then -1 else 0)"
    using wm by (auto simp: wf_bigint_limbs low3_def numeral_3_eq_3)
  have u: "unat (-1 :: u64) = 2 ^ 64 - 1" by (simp add: unsigned_minus_1_eq_mask mask_eq_exp_minus_1)
  show "wf_bigint (unpack_signed_amount B p bigint_default)" using wr r_def by simp
  have "sval r = int L - 2 ^ 191"
  proof (cases "2 ^ 191 \<le> L")
    case True
    then have "L + 2 ^ 256 - 2 ^ 191 = (L - 2 ^ 191) + 2 ^ 256" by linarith
    moreover have "L - 2 ^ 191 < 2 ^ 256" by (rule le_less_trans [OF diff_le_self less_trans [OF x(3)]]) simp
    ultimately have "bval m = L - 2 ^ 191" using m by (simp only: mod_add_self2 mod_less)
    moreover from this have "low3 m = L - 2 ^ 191" using x(3) low3_mod [OF wm] by simp
    moreover have "L - 2 ^ 191 < 2 ^ 191" using True x(3) by (simp add: less_diff_conv2)
    ultimately show ?thesis
      using True x(3) bval_low3 [OF wr(1)] wr(2,3) by (simp add: sval_def not_le)
  next
    case False
    then have b: "bval m = L + (2 ^ 256 - 2 ^ 191)" using m by simp
    have "(L + (2 ^ 256 - 2 ^ 191)) mod 2 ^ 192 = L + 2 ^ 191"
    proof -
      have "L + (2 ^ 256 - 2 ^ 191) = L + 2 ^ 191 + (2 ^ 64 - 1) * 2 ^ 192" by simp
      then show ?thesis using False by (simp only: mod_mult_self1) simp
    qed
    then have "low3 m = L + 2 ^ 191" using low3_mod [OF wm] b by simp
    then show ?thesis
      using False bval_low3 [OF wr(1)] wr(2,3) u by (simp add: sval_def)
  qed
  then show "sval (unpack_signed_amount B p bigint_default) = int L - 2 ^ 191" by (simp add: r_def)
qed

lemma pack_signed_mem:
  assumes "wf_bigint a"
  shows "le_val (rev (packed_signed_mem (snd (pack_signed_amount B a)))) = (bval a + 2 ^ 191) mod 2 ^ 192"
proof -
  let ?d = "addBigInt B a (pack_offset B)"
  have d: "wf_bigint ?d" "bval ?d = (bval a + 2 ^ 191) mod 2 ^ 256"
    using assms pack_offset_value by (simp_all add: wf_ops val_addBigInt)
  have "le_val (rev (packed_signed_mem (snd (pack_signed_amount B a)))) = low3 ?d"
    using d(1) by (auto simp: packed_signed_mem_val pack_signed_amount_def Let_def low3_def wf_bigint_limbs)
  also have "\<dots> = (bval a + 2 ^ 191) mod 2 ^ 256 mod 2 ^ 192" using d low3_mod by simp
  also have "\<dots> = (bval a + 2 ^ 191) mod 2 ^ 192" by (rule mod_mod_cancel) (simp add: le_imp_power_dvd)
  finally show ?thesis .
qed

lemma sval_offset: "wf_bigint a \<Longrightarrow> - (2 ^ 191) \<le> sval a \<Longrightarrow> sval a < 2 ^ 191 \<Longrightarrow> int ((bval a + 2 ^ 191) mod 2 ^ 192) = sval a + 2 ^ 191"
proof -
  assume a: "wf_bigint a" "- (2 ^ 191) \<le> sval a" "sval a < 2 ^ 191"
  have "int ((bval a + 2 ^ 191) mod 2 ^ 192) = (int (bval a) + 2 ^ 191) mod 2 ^ 192" by (simp add: zmod_int)
  also have "\<dots> = (sval a + 2 ^ 191) mod 2 ^ 192"
    by (auto simp: sval_def mod_eq_dvd_iff)
  also have "\<dots> = sval a + 2 ^ 191" using a by (intro mod_pos_pos_trivial) simp_all
  finally show ?thesis .
qed

lemma pack_signed_ok:
  assumes "wf_bigint a"
  shows "\<not> fst (pack_signed_amount B a) \<longleftrightarrow> - (2 ^ 191) \<le> sval a \<and> sval a < 2 ^ 191"
proof -
  let ?p = "snd (pack_signed_amount B a)" and ?L = "(bval a + 2 ^ 191) mod 2 ^ 192"
  have L: "bval [bswap_64 (ps_lo ?p), bswap_64 (ps_mid ?p), bswap_64 (ps_hi ?p)] = ?L"
    using pack_signed_mem [OF assms] by (simp only: packed_signed_mem_val)
  note u = unpack_signed_value [of ?p, unfolded L]
  have "\<not> fst (pack_signed_amount B a) \<longleftrightarrow> unpack_signed_amount B ?p bigint_default = a"
    by (simp add: pack_signed_amount_def Let_def)
  also have "\<dots> \<longleftrightarrow> sval a = int ?L - 2 ^ 191" using u assms sval_inj by metis
  also have "\<dots> \<longleftrightarrow> - (2 ^ 191) \<le> sval a \<and> sval a < 2 ^ 191"
  proof
    assume "sval a = int ?L - 2 ^ 191"
    moreover have "int ?L < 2 ^ 192" by (simp add: zmod_int)
    ultimately show "- (2 ^ 191) \<le> sval a \<and> sval a < 2 ^ 191" by simp
  qed (use sval_offset [OF assms] in simp)
  finally show ?thesis .
qed

lemma unpack_pack_signed: "\<not> fst (pack_signed_amount B a) \<Longrightarrow> unpack_signed_amount B (snd (pack_signed_amount B a)) bigint_default = a"
  by (simp add: pack_signed_amount_def Let_def)

lemma pack_signed_less:
  assumes "wf_bigint a" "wf_bigint b" "\<not> fst (pack_signed_amount B a)" "\<not> fst (pack_signed_amount B b)"
  shows "packed_signed_mem (snd (pack_signed_amount B a)) < packed_signed_mem (snd (pack_signed_amount B b)) \<longleftrightarrow> sval a < sval b"
proof -
  have "int ((bval a + 2 ^ 191) mod 2 ^ 192) = sval a + 2 ^ 191" "int ((bval b + 2 ^ 191) mod 2 ^ 192) = sval b + 2 ^ 191"
    using assms pack_signed_ok sval_offset by blast+
  then show ?thesis using assms(1,2) by (simp add: lex_less_le_val pack_signed_mem) linarith
qed

end

text \<open>
  C23. Packing a signed amount fails exactly when the amount, read as a two's complement number, is
  outside the 192-bit signed range; otherwise unpacking gives it back with its sign, and the packed
  amounts compare byte by byte as the signed amounts do.
\<close>

theorem pack_signed_amount_order:
  assumes "bigint_lib B" "wf_bigint a" "wf_bigint b"
  shows "(fst (pack_signed_amount B a) \<longleftrightarrow> \<not> (- (2 ^ 191) \<le> sval a \<and> sval a < 2 ^ 191)) \<and>
    (\<not> fst (pack_signed_amount B a) \<longrightarrow> unpack_signed_amount B (snd (pack_signed_amount B a)) bigint_default = a) \<and>
    (\<not> fst (pack_signed_amount B a) \<and> \<not> fst (pack_signed_amount B b) \<longrightarrow>
      (packed_signed_mem (snd (pack_signed_amount B a)) < packed_signed_mem (snd (pack_signed_amount B b)) \<longleftrightarrow> sval a < sval b))"
  using bigint_lib.pack_signed_ok [OF assms(1,2)] bigint_lib.unpack_pack_signed [OF assms(1)]
    bigint_lib.pack_signed_less [OF assms] by blast

theorem pack_signed_amount_order_witness:
  "sval (big_of_nat (2 ^ 256 - 5)) = -5 \<and>
   packed_signed_mem (snd (pack_signed_amount limb_bigops (big_of_nat (2 ^ 256 - 5)))) <
     packed_signed_mem (snd (pack_signed_amount limb_bigops (big_of_nat 3)))"
proof -
  have s: "sval (big_of_nat (2 ^ 256 - 5)) = -5" "sval (big_of_nat 3) = 3" by (simp_all add: sval_def bval_big_of_nat)
  then show ?thesis
    using pack_signed_amount_order [OF limb.bigint_lib_axioms wf_big_of_nat wf_big_of_nat, of "2 ^ 256 - 5" 3]
      pack_signed_amount_order [OF limb.bigint_lib_axioms wf_big_of_nat wf_big_of_nat, of 3 3] by simp
qed

section \<open>Integers\<close>

text \<open>The value of the limbs put together from the top.\<close>

lemma or_shifted_limb: "push_bit 64 x OR uint (w :: u64) = 2 ^ 64 * x + uint w"
proof -
  have "push_bit 64 x + uint w = push_bit 64 x OR uint w"
    by (rule disjunctive_add) (auto simp: bit_push_bit_iff bit_uint_iff)
  then show ?thesis by (simp add: push_bit_eq_mult mult.commute)
qed

lemma assemble_limbs:
  "wf_bigint b \<Longrightarrow> push_bit 64 (push_bit 64 (push_bit 64 (uint (b ! 3)) OR uint (b ! 2)) OR uint (b ! 1)) OR uint (b ! 0) = int (bval b)"
  unfolding or_shifted_limb by (auto simp: wf_bigint_limbs algebra_simps)

context bigint_lib
begin

lemma amount_from_bigint_value:
  assumes "wf_bigint b"
  shows "amount_from_bigint B b = sval b"
proof -
  define n where "n = subBigInt B (ofULong B 0) b"
  have n: "wf_bigint n" "bval n = (2 ^ 256 - bval b) mod 2 ^ 256"
    using assms by (simp_all add: n_def wf_ops val_subBigInt val_ofULong)
  have neg: "2 ^ 63 \<le> unat (b ! 3) \<longleftrightarrow> 2 ^ 255 \<le> bval b"
    using low3_less [of b] bval_low3 [OF assms] by simp linarith
  have "amount_from_bigint B b = (if 2 ^ 255 \<le> bval b then - int (bval n) else int (bval b))"
    unfolding amount_from_bigint_def Let_def n_def [symmetric] top_bit_iff neg
    by (split if_split)+ (simp only: assemble_limbs [OF assms] assemble_limbs [OF n(1)] if_True if_False, simp)
  also have "\<dots> = sval b"
  proof (cases "2 ^ 255 \<le> bval b")
    case True
    then have "bval n = 2 ^ 256 - bval b" using n(2) by simp
    with True bval_less_256 [OF assms] show ?thesis by (simp add: sval_def of_nat_diff)
  qed (simp add: sval_def)
  finally show ?thesis .
qed

lemma amount_to_bigint_value:
  assumes "- (2 ^ 255) \<le> x" "x < 2 ^ 255"
  shows "wf_bigint (amount_to_bigint B x)" "sval (amount_to_bigint B x) = x"
proof -
  define a where "a = (if x < 0 then - x else x)"
  define a1 a2 a3 where "a1 = drop_bit 64 a" and "a2 = drop_bit 64 a1" and "a3 = drop_bit 64 a2"
  define v :: bigint where "v = [of_int (a AND mask 64), of_int (a1 AND mask 64), of_int (a2 AND mask 64), of_int (a3 AND mask 64)]"
  have a: "0 \<le> a" "a \<le> 2 ^ 255" using assms by (auto simp: a_def)
  have wv: "wf_bigint v" by (simp add: v_def wf_bigint_limbs)
  have limb: "uint (of_int (y AND mask 64) :: u64) = y mod 2 ^ 64" for y :: int
    by (simp add: take_bit_eq_mod uint_word_of_int flip: take_bit_eq_mask)
  have d: "a = 2 ^ 64 * a1 + a mod 2 ^ 64" "a1 = 2 ^ 64 * a2 + a1 mod 2 ^ 64" "a2 = 2 ^ 64 * a3 + a2 mod 2 ^ 64"
    unfolding a1_def a2_def a3_def drop_bit_eq_div by (simp_all only: mult_div_mod_eq)
  have "a3 = a div 2 ^ 192" unfolding a1_def a2_def a3_def by (simp add: drop_bit_eq_div flip: zdiv_zmult2_eq)
  then have "0 \<le> a3" "a3 \<le> 2 ^ 63" using a zdiv_mono1 [OF a(2), of "2 ^ 192"] by (simp_all add: pos_imp_zdiv_nonneg_iff)
  then have "a3 mod 2 ^ 64 = a3" by (intro mod_pos_pos_trivial) simp_all
  then have "int (bval v) = a" using d by (simp add: v_def limb)
  then have bv: "bval v = nat a" by simp
  have e: "amount_to_bigint B x = (if x < 0 then subBigInt B (ofULong B 0) v else v)"
    unfolding amount_to_bigint_def Let_def v_def a_def a1_def a2_def a3_def by (rule refl)
  then show w: "wf_bigint (amount_to_bigint B x)" using wv by (simp add: wf_ops)
  show "sval (amount_to_bigint B x) = x"
  proof (cases "x < 0")
    case True
    then have "bval v = nat (- x)" using bv by (simp add: a_def)
    then have "bval (amount_to_bigint B x) = 2 ^ 256 - nat (- x)"
      using True e wv by (simp add: val_subBigInt val_ofULong wf_ops)
    with True assms show ?thesis by (simp add: sval_def of_nat_diff)
  next
    case False
    then show ?thesis using e bv assms by (simp add: sval_def a_def)
  qed
qed

end

text \<open>
  The 256-bit signed integers and the limb arrays are the same numbers: converting a limb array
  gives its two's complement value, and every integer of that range survives the way there and back,
  also through the packed form when it fits in 192 bits.
\<close>

lemma amount_bigint_roundtrip:
  assumes "bigint_lib B" "wf_bigint b" "- (2 ^ 191) \<le> x" "x < 2 ^ 191"
  shows "amount_from_bigint B b = sval b \<and> amount_to_bigint B (amount_from_bigint B b) = b \<and>
    amount_from_bigint B (amount_to_bigint B x) = x \<and>
    \<not> fst (pack_signed_amount_int B x) \<and> unpack_signed_amount_int B (snd (pack_signed_amount_int B x)) = x"
proof -
  note lib = bigint_lib.amount_to_bigint_value [OF assms(1)] bigint_lib.amount_from_bigint_value [OF assms(1)]
  note r = sval_range [OF assms(2)]
  have x: "- (2 ^ 255) \<le> x" "x < 2 ^ 255" using assms(3,4) by simp_all
  note y = lib(1,2) [OF x]
  note z = lib(1,2) [OF conjunct1 [OF r] conjunct2 [OF r]]
  have "\<not> fst (pack_signed_amount B (amount_to_bigint B x))" using bigint_lib.pack_signed_ok [OF assms(1) y(1)] y(2) assms(3,4) by simp
  then show ?thesis
    using lib(3) [OF assms(2)] lib(3) [OF y(1)] y(2) sval_inj [OF z(1) assms(2) z(2)]
    by (simp add: pack_signed_amount_int_def unpack_signed_amount_int_def bigint_lib.unpack_pack_signed [OF assms(1)])
qed

lemma amount_bigint_roundtrip_witness:
  "amount_from_bigint limb_bigops (amount_to_bigint limb_bigops (-7)) = -7 \<and> amount_from_bigint limb_bigops (big_of_nat 3) = sval (big_of_nat 3)"
  using amount_bigint_roundtrip [OF limb.bigint_lib_axioms wf_big_of_nat, of "-7" 3] by simp

end
