(* ===== verification/Confirm.thy ===== *)
theory Confirm
  imports Index_Txs Commit_Tree Packed_Amount
begin

unbundle bit_operations_syntax

text \<open>
  How blocks become indelible (ccnode/src/blockchain.cpp: \<open>DoConfirmations\<close>, \<open>DoConfirmationLoop\<close>,
  \<open>DoConfirmOne\<close>, \<open>SetNewlyIndelibleBlock\<close>, \<open>SetLastIndelible\<close>, \<open>PruneMatchingReqs\<close>; ccnode/src/exchange.cpp:
  \<open>SaveNextNums\<close>).

  A new block confirms the blocks below it. As long as the lowest block that is not yet marked has
  enough blocks on it, it is marked, its transactions are processed and it becomes the newest
  indelible block; then everything is committed at once. The database, the matching engine and the
  clock are parameters. The first argument of the functions that loop bounds the passes of each loop.
\<close>

section \<open>Parameters\<close>

record ('db, 'f) confops =
  cf_BeginWrite :: "'db \<Rightarrow> int \<times> 'db"
  cf_EndWrite :: "bool \<Rightarrow> 'db \<Rightarrow> int \<times> 'db"
  cf_SynchronizeMatching ::
    "u64 \<Rightarrow> u64 \<Rightarrow> u64 \<Rightarrow> txbuf \<Rightarrow> ('db, 'f) bcstate \<Rightarrow> (bool \<times> txbuf \<times> ('db, 'f) bcstate) outcome"
  cf_XcxNumsInsert :: "u64 \<Rightarrow> u64 \<Rightarrow> u64 \<Rightarrow> u64 \<Rightarrow> 'db \<Rightarrow> int \<times> 'db"
  cf_XmatchingreqPrune :: "u64 \<Rightarrow> 'db \<Rightarrow> 'db"
  cf_BlockchainInsert :: "u64 \<Rightarrow> block \<Rightarrow> 'db \<Rightarrow> bool \<times> 'db"
  cf_tree :: "'db treeops"
  cf_hash :: treehash
  cf_SaveMiningInsert :: "'f mining_params \<Rightarrow> 'db \<Rightarrow> int \<times> 'db"
  cf_block_aux :: "block \<Rightarrow> byte list"
  cf_ccticks :: u32

definition DB_KEY_BLOCK_AUX :: nat where "DB_KEY_BLOCK_AUX = 2"
definition DB_KEY_DONATION_TOTALS :: nat where "DB_KEY_DONATION_TOTALS = 8"
definition CC_MINT_POW_FACTOR :: u64 where "CC_MINT_POW_FACTOR = 4"

section \<open>The work for one block\<close>

definition SaveNextNums :: "('db, 'f) confops \<Rightarrow> u64 \<Rightarrow> u64 \<Rightarrow> ('db, 'f) bcstate \<Rightarrow> (int \<times> ('db, 'f) bcstate) outcome" where
  "SaveNextNums C lvl ts st =
     (if bc_nums_saved st then Inr (0, st)
      else let st = st\<lparr>bc_nums_saved := True\<rparr>;
               (next_xreqnum, st) = GetNextXreqnum False st;
               (next_xmatchnum, st) = GetNextXmatchnum False st
        in if next_xreqnum = 0 then Inl AssertFail
           else let (rc, db) = cf_XcxNumsInsert C lvl ts next_xreqnum next_xmatchnum (bc_db st)
             in Inr (rc, upd_db db st))"

definition PruneMatchingReqs :: "('db, 'f) confops \<Rightarrow> u64 \<Rightarrow> ('db, 'f) bcstate \<Rightarrow> ('db, 'f) bcstate" where
  "PruneMatchingReqs C blocktime st = upd_db (cf_XmatchingreqPrune C blocktime (bc_db st)) st"

text \<open>
  The level and the object id of the prior block against the newest indelible block. The genesis
  block is the first.
\<close>

definition check_sequence :: "heap \<Rightarrow> addr option \<Rightarrow> addr \<Rightarrow> bool outcome" where
  "check_sequence h last_indelible_block b =
     (case last_indelible_block of
        None \<Rightarrow> if level_value (h b) \<noteq> 0 then Inl AssertFail else Inr False
      | Some l \<Rightarrow> Inr (level_value (h b) \<noteq> level_value (h l) + 1 \<or> prior_oid (h b) \<noteq> oid (h l)))"

text \<open>The split of the donations: \<open>big_split\<close> for the witness of the block, \<open>little_split\<close> for the others.\<close>

definition donation_split :: "bigops \<Rightarrow> bigint \<Rightarrow> u16 \<Rightarrow> bigint \<times> bigint" where
  "donation_split B tot nwit =
     (let big_split = tot;
          little_split = op_div B (op_mul B big_split (ofULong B 2)) (ofULong B (3 * ucast nwit));
          little_sum = op_mul B (ofULong B (ucast nwit - 1)) little_split
      in if op_less B little_sum big_split then (op_sub B big_split little_sum, little_split)
         else (big_split, ofULong B 0))"

definition packed_unsigned_of_mem :: "byte list \<Rightarrow> packed_unsigned_amount" where
  "packed_unsigned_of_mem bs = \<lparr>pu_hi = of_nat (le_val (take 8 bs)), pu_lo = of_nat (le_val (take 8 (drop 8 bs)))\<rparr>"

fun credit_witnesses :: "'db treeops \<Rightarrow> bigops \<Rightarrow> nat \<Rightarrow> bigint \<times> bigint \<Rightarrow> nat list \<Rightarrow> 'db \<Rightarrow> (bool \<times> 'db) outcome" where
  "credit_witnesses T B w split [] db = Inr (False, db)"
| "credit_witnesses T B w split (i # is) db =
     (let (rc, packed_amount) = param_select T DB_KEY_DONATION_TOTALS i db
      in if rc < 0 then Inr (True, db)
         else let tot = (if rc = 0 then unpack_unsigned_amount (packed_unsigned_of_mem packed_amount) bigint_default else ofULong B 0);
                  tot = op_add B tot (if i = w then fst split else snd split);
                  (err, packed) = pack_unsigned_amount tot
           in if err then Inl AssertFail
              else let (rc, db) = param_insert T DB_KEY_DONATION_TOTALS i (packed_unsigned_mem packed) db
                in if rc \<noteq> 0 then Inr (True, db) else credit_witnesses T B w split is db)"

definition credit_donations :: "'db treeops \<Rightarrow> bigops \<Rightarrow> block \<Rightarrow> 'db \<Rightarrow> (bool \<times> 'db) outcome" where
  "credit_donations T B blk db =
     (let nwit = nwitnesses (blockchain_params blk); tot = total_donations blk
      in if nwit = 0 then Inl AssertFail
         else credit_witnesses T B (unat (witness blk)) (donation_split B tot nwit)
                (if big_true tot then [0..<unat nwit] else []) db)"

text \<open>The tree of commitments is brought up to date from the counters of the state.\<close>

definition update_tree ::
  "nat \<Rightarrow> ('db, 'f) settle_env \<Rightarrow> ('db, 'f) confops \<Rightarrow> addr \<Rightarrow> ('db, 'f) bcstate \<Rightarrow> (bool \<times> ('db, 'f) bcstate) outcome" where
  "update_tree fuel E C b st =
     bind_outcome (UpdateCommitTree fuel (se_B E) (cf_hash C) (cf_tree C) (blockchain_num (se_P E)) (level (bc_heap st b))
        (block_hash (bc_heap st b)) (timestamp_value (bc_heap st b))
        \<lparr>m_next_commitnum = xs_next_commitnum (bc_x st), m_next_tree_update_commitnum = bc_next_tree_update_commitnum st\<rparr>
        (bc_db st)) (\<lambda>(rc, c, db).
       Inr (rc, upd_db db (st\<lparr>bc_next_tree_update_commitnum := m_next_tree_update_commitnum c\<rparr>)))"

definition mark_for_indelible :: "addr \<Rightarrow> ('db, 'f) bcstate \<Rightarrow> ('db, 'f) bcstate" where
  "mark_for_indelible b st = st\<lparr>bc_heap := (bc_heap st)(b := (bc_heap st b)\<lparr>marked_for_indelible := True\<rparr>)\<rparr>"

text \<open>
  What \<open>SetNewlyIndelibleBlock\<close> does after the transactions, the matching, the numbers and the expiry:
  the tree, the block itself, the donations and the saved parameters of the block.
\<close>

definition finish_indelible ::
  "nat \<Rightarrow> ('db, 'f) settle_env \<Rightarrow> ('db, 'f) confops \<Rightarrow> addr \<Rightarrow> ('db, 'f) bcstate \<Rightarrow> (bool \<times> ('db, 'f) bcstate) outcome" where
  "finish_indelible fuel E C b st =
     bind_outcome (update_tree fuel E C b st) (\<lambda>(rc, st).
       if rc then Inr (True, SetFatalError st)
       else let (rc, db) = cf_BlockchainInsert C (level_value (bc_heap st b)) (bc_heap st b) (bc_db st); st = upd_db db st
         in if rc then Inr (True, SetFatalError st)
            else let st = st\<lparr>bc_total_donations := op_add (se_B E) (bc_total_donations st) (total_donations (bc_heap st b))\<rparr>
              in bind_outcome (credit_donations (cf_tree C) (se_B E) (bc_heap st b) (bc_db st)) (\<lambda>(rc, db).
                let st = upd_db db st
                in if rc then Inr (True, SetFatalError st)
                   else let (rc, db) = param_insert (cf_tree C) DB_KEY_BLOCK_AUX (unat (level_value (bc_heap st b) AND 63))
                                         (cf_block_aux C (bc_heap st b)) (bc_db st);
                            st = upd_db db st
                     in if rc \<noteq> 0 then Inr (True, SetFatalError st)
                        else Inr (False, st\<lparr>bc_new_indelible_block := Some b\<rparr>)))"

definition SetNewlyIndelibleBlock ::
  "nat \<Rightarrow> ('db, 'f) settle_env \<Rightarrow> ('db, 'f) indexops \<Rightarrow> ('db, 'f) confops \<Rightarrow> addr \<Rightarrow> txbuf \<Rightarrow> ('db, 'f) bcstate
   \<Rightarrow> (bool \<times> txbuf \<times> ('db, 'f) bcstate) outcome" where
  "SetNewlyIndelibleBlock fuel E I C b tb st =
     (let lvl = level_value (bc_heap st b);
          ts = timestamp_value (bc_heap st b);
          (rc, db) = cf_BeginWrite C (bc_db st); st = upd_db db st
      in if rc < 0 then Inr (True, tb, SetFatalError st)
         else if marked_for_indelible (bc_heap st b) then Inr (True, tb, st)
         else let st = mark_for_indelible b st;
                  last_indelible_block = (case bc_new_indelible_block st of Some l \<Rightarrow> Some l | None \<Rightarrow> bc_last_indelible_block st)
           in bind_outcome (check_sequence (bc_heap st) last_indelible_block b) (\<lambda>err.
             if err then Inr (True, tb, SetFatalError st)
             else let (new_xreqnum, st) = GetNextXreqnum False st
               in bind_outcome (IndexTxs fuel E I ts b tb st) (\<lambda>(rc, tb, st).
                 if rc then Inr (True, tb, st)
                 else bind_outcome (cf_SynchronizeMatching C lvl ts new_xreqnum tb st) (\<lambda>(rc, tb, st).
                   if rc then Inr (True, tb, SetFatalError st)
                   else bind_outcome (SaveNextNums C lvl ts st) (\<lambda>(rc, st).
                     if rc \<noteq> 0 then Inr (True, tb, SetFatalError st)
                     else bind_outcome (ExpireMatches fuel E ts tb (bc_x st)) (\<lambda>(rc, tb, x).
                       let st = st\<lparr>bc_x := x\<rparr>
                       in if rc then Inr (True, tb, SetFatalError st)
                          else bind_outcome (finish_indelible fuel E C b (PruneMatchingReqs C ts st)) (\<lambda>(rc, st).
                            Inr (rc, tb, st))))))))"

section \<open>Confirmations\<close>

datatype scan_result = ScanShutdown | ScanLevelError | ScanDone addr u32

lemma prior_level:
  assumes "level_value p = level_value b - 1"
  shows "unat (level b) = unat (level p) + 1"
proof -
  have u: "unat (ucast x :: u64) = unat x" for x :: u32
    using unsigned_less [of x, where ?'a = nat] by (simp add: unsigned_ucast_eq take_bit_nat_eq_self)
  have lt: "unat (level p) < 2 ^ 32" using unsigned_less [of "level p", where ?'a = nat] by simp
  have e: "unat (level p) = unat (level_value b - 1)" using assms u by (metis level_value_def)
  have "level_value b \<noteq> 0" using e lt by (auto simp: unsigned_minus_1_eq_mask mask_eq_exp_minus_1)
  then have "unat (level_value b - 1) = unat (level_value b) - 1" "0 < unat (level_value b)"
    by (simp_all add: unat_minus_one unat_gt_0)
  then show ?thesis using e u by (simp add: level_value_def)
qed

text \<open>
  The scan back from the new block: \<open>nconfsigs\<close> counts the blocks, and it ends at the lowest block
  whose prior block is marked or missing.
\<close>

function confirm_scan :: "heap \<Rightarrow> bool \<Rightarrow> u32 \<Rightarrow> addr \<Rightarrow> scan_result" where
  "confirm_scan h shutdown nconf b =
     (if shutdown then ScanShutdown
      else case prior (h b) of
             None \<Rightarrow> ScanDone b nconf
           | Some p \<Rightarrow>
               if level_value (h p) \<noteq> level_value (h b) - 1 then ScanLevelError
               else if marked_for_indelible (h p) then ScanDone b nconf
               else confirm_scan h shutdown (nconf + 1) p)"
  by pat_completeness auto
termination
  by (relation "measure (\<lambda>(h, s, n, b). unat (level (h b)))") (auto dest: prior_level)

declare confirm_scan.simps [simp del]

definition DoConfirmOne ::
  "nat \<Rightarrow> ('db, 'f) settle_env \<Rightarrow> ('db, 'f) indexops \<Rightarrow> ('db, 'f) confops \<Rightarrow> addr \<Rightarrow> txbuf \<Rightarrow> ('db, 'f) bcstate
   \<Rightarrow> (bool \<times> txbuf \<times> ('db, 'f) bcstate) outcome" where
  "DoConfirmOne fuel E I C newobj tb st =
     (let h = bc_heap st
      in if marked_for_indelible (h newobj) then Inr (True, tb, st)
         else let nseq = nseqconfsigs (blockchain_params (h newobj)); nskip = nskipconfsigs (blockchain_params (h newobj))
           in case confirm_scan h (xs_shutdown (bc_x st)) 1 newobj of
                ScanShutdown \<Rightarrow> Inr (True, tb, st)
              | ScanLevelError \<Rightarrow> Inr (True, tb, SetFatalError st)
              | ScanDone lastobj nconf \<Rightarrow>
                  if bc_last_indelible_block st \<noteq> None \<and>
                     (nconf < ucast nseq \<or> skip (h lastobj) \<noteq> 0 \<and> nconf < ucast nskip)
                  then Inr (True, tb, st)
                  else let st = (if Implement_CCMint (blockchain_num (se_P E)) \<and>
                                    level_value (h lastobj) = CC_MINT_COUNT + CC_MINT_ACCEPT_SPAN
                                 then st\<lparr>bc_tx_work_difficulty := bc_tx_work_difficulty st * CC_MINT_POW_FACTOR\<rparr> else st)
                    in SetNewlyIndelibleBlock fuel E I C lastobj tb st)"

definition SetLastIndelible :: "('db, 'f) confops \<Rightarrow> addr \<Rightarrow> ('db, 'f) bcstate \<Rightarrow> ('db, 'f) bcstate outcome" where
  "SetLastIndelible C b st =
     (let blk = bc_heap st b; lvl = level_value blk; last = xs_last_indelible_level (bc_x st);
          st = st\<lparr>bc_last_indelible_block := Some b\<rparr>
      in if last \<noteq> 0 \<and> \<not> lvl \<le> last + ucast (nskipconfsigs (blockchain_params blk)) then Inl AssertFail
         else Inr (st\<lparr>bc_x := (bc_x st)\<lparr>xs_last_indelible_level := lvl\<rparr>,
                      bc_last_indelible_timestamp := timestamp_value blk,
                      bc_last_matching_completed_block_time := bc_last_matched_block_time st,
                      bc_last_matching_start_block_time := bc_matching_block_time st,
                      bc_last_indelible_ticks := cf_ccticks C\<rparr>))"

record blockchain_status =
  last_indelible_level :: u64
  last_indelible_timestamp :: u64
  last_matching_completed_block_time :: u64
  last_matching_start_block_time :: u64

definition GetLastIndelibleValues :: "('db, 'f) bcstate \<Rightarrow> blockchain_status" where
  "GetLastIndelibleValues st =
     \<lparr>last_indelible_level = xs_last_indelible_level (bc_x st),
      last_indelible_timestamp = bc_last_indelible_timestamp st,
      last_matching_completed_block_time = bc_last_matching_completed_block_time st,
      last_matching_start_block_time = bc_last_matching_start_block_time st\<rparr>"

text \<open>The loop of \<open>DoConfirmationLoop\<close>: whether it was left with an error, and \<open>have_new\<close>.\<close>

fun confirm_loop ::
  "nat \<Rightarrow> nat \<Rightarrow> ('db, 'f) settle_env \<Rightarrow> ('db, 'f) indexops \<Rightarrow> ('db, 'f) confops \<Rightarrow> addr \<Rightarrow> bool \<Rightarrow> txbuf \<Rightarrow> ('db, 'f) bcstate
   \<Rightarrow> (bool \<times> bool \<times> txbuf \<times> ('db, 'f) bcstate) outcome" where
  "confirm_loop 0 fuel E I C newobj have_new tb st = Inl OutOfFuel"
| "confirm_loop (Suc n) fuel E I C newobj have_new tb st =
     bind_outcome (DoConfirmOne fuel E I C newobj tb st) (\<lambda>(rc, tb, st).
       if bc_fatal st \<or> xs_shutdown (bc_x st) then Inr (True, have_new, tb, st)
       else if rc then Inr (False, have_new, tb, st)
       else confirm_loop n fuel E I C newobj True tb st)"

definition DoConfirmationLoop ::
  "nat \<Rightarrow> nat \<Rightarrow> ('db, 'f) settle_env \<Rightarrow> ('db, 'f) indexops \<Rightarrow> ('db, 'f) confops \<Rightarrow> addr \<Rightarrow> txbuf \<Rightarrow> ('db, 'f) bcstate
   \<Rightarrow> (bool \<times> txbuf \<times> ('db, 'f) bcstate) outcome" where
  "DoConfirmationLoop n fuel E I C newobj tb st =
     bind_outcome (confirm_loop n fuel E I C newobj False tb st) (\<lambda>(err, have_new, tb, st).
       if err \<or> \<not> have_new then Inr (True, tb, st)
       else case bc_new_indelible_block st of
              None \<Rightarrow> Inl AssertFail
            | Some b \<Rightarrow>
                let (rc, m, db) = SaveMining (xs_shutdown (bc_x st)) (cf_SaveMiningInsert C) (xs_mining (bc_x st)) (bc_db st);
                    st = upd_db db (st\<lparr>bc_x := (bc_x st)\<lparr>xs_mining := m\<rparr>\<rparr>)
                in if rc \<noteq> 0 then Inr (True, tb, SetFatalError st)
                   else let (rc, db) = cf_EndWrite C True (bc_db st); st = upd_db db st
                     in if rc \<noteq> 0 then Inr (True, tb, SetFatalError st)
                        else bind_outcome (SetLastIndelible C b st) (\<lambda>st.
                          Inr (False, tb, st\<lparr>bc_new_indelible_block := None\<rparr>)))"

definition DoConfirmations ::
  "nat \<Rightarrow> nat \<Rightarrow> ('db, 'f) settle_env \<Rightarrow> ('db, 'f) indexops \<Rightarrow> ('db, 'f) confops \<Rightarrow> addr \<Rightarrow> txbuf \<Rightarrow> ('db, 'f) bcstate
   \<Rightarrow> (bool \<times> txbuf \<times> ('db, 'f) bcstate) outcome" where
  "DoConfirmations n fuel E I C newobj tb st =
     (if bc_fatal st then Inr (True, tb, st)
      else let st = (if xs_last_indelible_level (bc_x st) = 0 then st\<lparr>bc_last_indelible_ticks := cf_ccticks C\<rparr> else st)
        in bind_outcome (DoConfirmationLoop n fuel E I C newobj tb st) (\<lambda>(rc, tb, st).
             let (_, db) = cf_EndWrite C False (bc_db st) in Inr (rc, tb, upd_db db st)))"

end
