(* ===== verification/Confirm_Props.thy ===== *)
theory Confirm_Props
  imports Confirm Index_Props
begin

text \<open>
  What makes a block indelible: a quorum of blocks on it, its place right after the newest indelible
  block, and the exact split of its donations. The loop over the blocks of a chain ends when no
  further block has a quorum.
\<close>

section \<open>The scan\<close>

text \<open>\<open>prior_path h b ps\<close>: the prior blocks of \<open>b\<close> are \<open>ps\<close>, nearest first.\<close>

fun prior_path :: "heap \<Rightarrow> addr \<Rightarrow> addr list \<Rightarrow> bool" where
  "prior_path h b [] = True"
| "prior_path h b (p # ps) = (prior (h b) = Some p \<and> prior_path h p ps)"

definition lowest_unmarked :: "heap \<Rightarrow> addr \<Rightarrow> bool" where
  "lowest_unmarked h b \<longleftrightarrow> (case prior (h b) of None \<Rightarrow> True | Some p \<Rightarrow> marked_for_indelible (h p))"

lemma confirm_scan_path:
  assumes "confirm_scan h shutdown n b = ScanDone l m"
  shows "\<exists>ps. prior_path h b ps \<and> l = last (b # ps) \<and> m = n + of_nat (length ps) \<and> lowest_unmarked h l \<and>
    (\<forall>p \<in> set ps. \<not> marked_for_indelible (h p)) \<and> unat (level (h b)) = unat (level (h l)) + length ps"
  using assms
proof (induction h shutdown n b rule: confirm_scan.induct)
  case (1 h shutdown n b)
  show ?case
  proof (cases "shutdown \<or> prior (h b) = None \<or> (\<exists>p. prior (h b) = Some p \<and> marked_for_indelible (h p))")
    case True
    then have "l = b" "m = n" "lowest_unmarked h b"
      using 1(2) by (auto simp: confirm_scan.simps [of h shutdown n b] lowest_unmarked_def split: if_splits option.splits)
    then show ?thesis by (intro exI [of _ "[]"]) simp
  next
    case False
    then obtain p where p: "\<not> shutdown" "prior (h b) = Some p" "\<not> marked_for_indelible (h p)" by auto
    then have lv: "level_value (h p) = level_value (h b) - 1" and r: "confirm_scan h shutdown (n + 1) p = ScanDone l m"
      using 1(2) unfolding confirm_scan.simps [of h shutdown n b] by (auto split: if_splits)
    obtain ps where "prior_path h p ps" "l = last (p # ps)" "m = n + 1 + of_nat (length ps)" "lowest_unmarked h l"
      "\<forall>p \<in> set ps. \<not> marked_for_indelible (h p)" "unat (level (h p)) = unat (level (h l)) + length ps"
      using 1(1) [OF p(1,2) _ p(3) r] lv by auto
    then show ?thesis using p prior_level [OF lv] by (intro exI [of _ "p # ps"]) simp
  qed
qed

lemma confirm_scan_not_shutdown: "confirm_scan h False n b \<noteq> ScanShutdown"
proof (induction h False n b rule: confirm_scan.induct)
  case (1 h n b)
  then show ?case by (subst confirm_scan.simps) (auto split: option.split)
qed

section \<open>Newly indelible blocks\<close>

lemma finish_indelible_new: "finish_indelible fuel E C b st = Inr (False, st') \<Longrightarrow> bc_new_indelible_block st' = Some b"
  unfolding finish_indelible_def Let_def
  by (auto simp: bind_outcome_eq_Inr case_prod_beta split: if_splits)

text \<open>The steps of a successful run.\<close>

lemma SetNewlyIndelibleBlock_cases:
  assumes "SetNewlyIndelibleBlock fuel E I C b tb st = Inr (False, tb', st')"
  obtains st0 st1 tb1 st2 tb2 st3 x where "st0 = upd_db (snd (cf_BeginWrite C (bc_db st))) st" "\<not> marked_for_indelible (bc_heap st b)"
    "check_sequence (bc_heap (mark_for_indelible b st0))
       (case bc_new_indelible_block st of Some l \<Rightarrow> Some l | None \<Rightarrow> bc_last_indelible_block st) b = Inr False"
    "IndexTxs fuel E I (timestamp_value (bc_heap st b)) b tb (mark_for_indelible b st0) = Inr (False, tb1, st1)"
    "cf_SynchronizeMatching C (level_value (bc_heap st b)) (timestamp_value (bc_heap st b)) (bc_next_xreqnum st) tb1 st1 = Inr (False, tb2, st2)"
    "SaveNextNums C (level_value (bc_heap st b)) (timestamp_value (bc_heap st b)) st2 = Inr (0, st3)"
    "ExpireMatches fuel E (timestamp_value (bc_heap st b)) tb2 (bc_x st3) = Inr (False, tb', x)"
    "finish_indelible fuel E C b (PruneMatchingReqs C (timestamp_value (bc_heap st b)) (st3\<lparr>bc_x := x\<rparr>)) = Inr (False, st')"
proof -
  have e: "bc_heap (upd_db db st) = bc_heap st" "bc_new_indelible_block (mark_for_indelible b (upd_db db st)) = bc_new_indelible_block st"
    "bc_last_indelible_block (mark_for_indelible b (upd_db db st)) = bc_last_indelible_block st"
    "bc_next_xreqnum (mark_for_indelible b (upd_db db st)) = bc_next_xreqnum st" for db
    by (simp_all add: upd_db_def mark_for_indelible_def)
  show thesis
    using assms unfolding SetNewlyIndelibleBlock_def Let_def GetNextXreqnum_def
    by (clarsimp simp: bind_outcome_eq_Inr case_prod_beta prod_eq_iff e split: if_split_asm cong: option.case_cong)
      (rule that [OF refl]; assumption)
qed

text \<open>A block has the quorum that the parameters of the newest block ask for.\<close>

definition has_quorum :: "heap \<Rightarrow> addr \<Rightarrow> addr \<Rightarrow> nat \<Rightarrow> bool" where
  "has_quorum h newobj b n \<longleftrightarrow> unat (nseqconfsigs (blockchain_params (h newobj))) \<le> n \<and>
     (skip (h b) \<noteq> 0 \<longrightarrow> unat (nskipconfsigs (blockchain_params (h newobj))) \<le> n)"

lemma quorum_word:
  fixes w :: u32 and k :: u16
  shows "w < ucast k \<longleftrightarrow> unat w < unat k"
  using less_trans [OF unat_u16_less, of "2 ^ 32" k] by (simp add: word_less_nat_alt unsigned_ucast_eq take_bit_nat_eq_self)

lemma DoConfirmOne_cases:
  assumes "DoConfirmOne fuel E I C newobj tb st = Inr (False, tb', st')"
  obtains b m st1 where "confirm_scan (bc_heap st) False 1 newobj = ScanDone b m" "\<not> marked_for_indelible (bc_heap st newobj)"
    "bc_last_indelible_block st = None \<or> has_quorum (bc_heap st) newobj b (unat m)"
    "SetNewlyIndelibleBlock fuel E I C b tb st1 = Inr (False, tb', st')" "\<exists>w. st1 = st\<lparr>bc_tx_work_difficulty := w\<rparr>"
proof -
  have s: "\<not> xs_shutdown (bc_x st)" "\<not> marked_for_indelible (bc_heap st newobj)"
    using assms by (auto simp: DoConfirmOne_def Let_def confirm_scan.simps [of _ True] split: if_splits)
  have w: "\<exists>w. st = st\<lparr>bc_tx_work_difficulty := w\<rparr>" by (rule exI [of _ "bc_tx_work_difficulty st"]) simp
  show thesis
    using assms s unfolding DoConfirmOne_def Let_def
    by (auto simp: has_quorum_def quorum_word not_less split: scan_result.split_asm if_split_asm intro: that w)
qed

text \<open>
  C3. A block becomes indelible only with a quorum. When a new block makes one indelible, that one is
  the lowest block of its chain that was not yet marked, the new block is at least as many blocks on
  as the consensus parameters ask for, more when the block skipped a witness, and it follows the
  newest indelible block at the next level and by object id.
\<close>

theorem DoConfirmOne_quorum:
  assumes "DoConfirmOne fuel E I C newobj tb st = Inr (False, tb', st')" "bc_last_indelible_block st = Some l" "bc_new_indelible_block st = None"
  shows "\<exists>ps b. b = last (newobj # ps) \<and> bc_new_indelible_block st' = Some b \<and> prior_path (bc_heap st) newobj ps \<and>
    has_quorum (bc_heap st) newobj b (length (newobj # ps)) \<and> lowest_unmarked (bc_heap st) b \<and>
    (\<forall>p \<in> set (newobj # ps). \<not> marked_for_indelible (bc_heap st p)) \<and>
    level_value (bc_heap st b) = level_value (bc_heap st l) + 1 \<and> prior_oid (bc_heap st b) = oid (bc_heap st l)"
proof -
  obtain b m st1 where c: "confirm_scan (bc_heap st) False 1 newobj = ScanDone b m" "\<not> marked_for_indelible (bc_heap st newobj)"
    "bc_last_indelible_block st = None \<or> has_quorum (bc_heap st) newobj b (unat m)"
    "SetNewlyIndelibleBlock fuel E I C b tb st1 = Inr (False, tb', st')" "\<exists>w. st1 = st\<lparr>bc_tx_work_difficulty := w\<rparr>"
    using assms(1) by (rule DoConfirmOne_cases)
  obtain ps where ps: "prior_path (bc_heap st) newobj ps" "b = last (newobj # ps)" "m = 1 + of_nat (length ps)"
    "lowest_unmarked (bc_heap st) b" "\<forall>p \<in> set ps. \<not> marked_for_indelible (bc_heap st p)"
    using confirm_scan_path [OF c(1)] by blast
  have "unat (1 + of_nat (length ps) :: u32) \<le> Suc (length ps)"
    by (metis mod_less_eq_dividend of_nat_Suc unat_of_nat)
  then have q: "has_quorum (bc_heap st) newobj b (length (newobj # ps))"
    using c(3) assms(2) ps(3) by (auto simp: has_quorum_def)
  show ?thesis
    using c(4)
  proof (rule SetNewlyIndelibleBlock_cases)
    fix st0 st2 tb1 st3 tb2 st4 x
    assume s: "st0 = upd_db (snd (cf_BeginWrite C (bc_db st1))) st1"
      "check_sequence (bc_heap (mark_for_indelible b st0))
         (case bc_new_indelible_block st1 of Some l \<Rightarrow> Some l | None \<Rightarrow> bc_last_indelible_block st1) b = Inr False"
      "finish_indelible fuel E C b (PruneMatchingReqs C (timestamp_value (bc_heap st1 b)) (st4\<lparr>bc_x := x\<rparr>)) = Inr (False, st')"
    obtain w where w: "st1 = st\<lparr>bc_tx_work_difficulty := w\<rparr>" using c(5) by blast
    have "check_sequence (bc_heap (mark_for_indelible b st0)) (Some l) b = Inr False"
      using s(2) assms(2,3) by (simp add: w)
    moreover have "level_value (bc_heap (mark_for_indelible b st0) a) = level_value (bc_heap st a) \<and>
        oid (bc_heap (mark_for_indelible b st0) a) = oid (bc_heap st a) \<and>
        prior_oid (bc_heap (mark_for_indelible b st0) a) = prior_oid (bc_heap st a)" for a
      by (simp add: s(1) w mark_for_indelible_def upd_db_def level_value_def)
    ultimately have "level_value (bc_heap st b) = level_value (bc_heap st l) + 1 \<and> prior_oid (bc_heap st b) = oid (bc_heap st l)"
      by (simp add: check_sequence_def)
    with ps(1,2,4,5) q c(2) finish_indelible_new [OF s(3)] show ?thesis
      by (intro exI [of _ ps] exI [of _ b] conjI) (simp_all del: last.simps)
  qed
qed

section \<open>Blocks are only marked\<close>

text \<open>The blocks of two heaps differ in their donations only.\<close>

definition same_blocks :: "heap \<Rightarrow> heap \<Rightarrow> bool" where
  "same_blocks h h' \<longleftrightarrow> (\<forall>a. \<exists>d. h' a = (h a)\<lparr>total_donations := d\<rparr>)"

lemma same_blocks_refl [simp]: "same_blocks h h"
proof -
  have "h a = (h a)\<lparr>total_donations := total_donations (h a)\<rparr>" for a by simp
  then show ?thesis unfolding same_blocks_def by blast
qed

lemma same_blocks_trans:
  assumes "same_blocks h h1" "same_blocks h1 h2"
  shows "same_blocks h h2"
  unfolding same_blocks_def
proof
  fix a
  obtain d e where "h1 a = (h a)\<lparr>total_donations := d\<rparr>" "h2 a = (h1 a)\<lparr>total_donations := e\<rparr>"
    using assms unfolding same_blocks_def by blast
  then have "h2 a = (h a)\<lparr>total_donations := e\<rparr>" by simp
  then show "\<exists>d. h2 a = (h a)\<lparr>total_donations := d\<rparr>" by (rule exI)
qed

lemma same_blocks_fields:
  assumes "same_blocks h h'"
  shows "prior (h' a) = prior (h a)" "marked_for_indelible (h' a) = marked_for_indelible (h a)" "level_value (h' a) = level_value (h a)"
    "skip (h' a) = skip (h a)" "blockchain_params (h' a) = blockchain_params (h a)"
proof -
  obtain d where "h' a = (h a)\<lparr>total_donations := d\<rparr>" using assms unfolding same_blocks_def by blast
  then show "prior (h' a) = prior (h a)" "marked_for_indelible (h' a) = marked_for_indelible (h a)" "level_value (h' a) = level_value (h a)"
    "skip (h' a) = skip (h a)" "blockchain_params (h' a) = blockchain_params (h a)" by (simp_all add: level_value_def)
qed

lemma heap_simps [simp]:
  "bc_heap (upd_db db st) = bc_heap st" "bc_heap (SetFatalError st) = bc_heap st"
  by (simp_all add: upd_db_def SetFatalError_def)

lemma AddOneXreq_heap: "AddOneXreq E I xreq st = Inr (rc, st') \<Longrightarrow> bc_heap st' = bc_heap st"
  by (auto simp: AddOneXreq_def AddRequest_def Let_def bind_outcome_eq_Inr case_prod_beta split: if_splits)

lemma AddXreq_heap: "AddXreq E I blocktime xreq wire st = Inr (rc, st') \<Longrightarrow> bc_heap st' = bc_heap st"
  by (auto simp: AddXreq_def Let_def bind_outcome_eq_Inr case_prod_beta GetNextXreqnum_def dest!: AddOneXreq_heap split: if_splits)

lemma insert_serialnums_heap: "insert_serialnums I n ins st = (rc, st') \<Longrightarrow> bc_heap st' = bc_heap st"
  by (induction ins arbitrary: st) (auto simp: Let_def case_prod_beta split: if_splits)

lemma mint_output_heap: "mint_output E I lvl i tx st = Inr (rc, tx', st') \<Longrightarrow> bc_heap st' = bc_heap st"
  by (auto simp: mint_output_def Let_def bind_outcome_eq_Inr case_prod_beta split: if_splits)

lemma IndexTxOutputs_heap: "IndexTxOutputs E I lvl tx out st = Inr (rc, tx', st') \<Longrightarrow> bc_heap st' = bc_heap st"
  by (auto simp: IndexTxOutputs_def Let_def bind_outcome_eq_Inr case_prod_beta dest!: mint_output_heap split: if_splits)

lemma index_outputs_heap: "index_outputs E I lvl tx outs st = Inr (rc, tx', st') \<Longrightarrow> bc_heap st' = bc_heap st"
proof (induction outs arbitrary: tx st)
  case (Cons out outs)
  obtain r tx1 st1 where o: "IndexTxOutputs E I lvl tx out st = Inr (r, tx1, st1)"
    using Cons.prems by (auto simp: bind_outcome_eq_Inr)
  show ?case using Cons.prems Cons.IH [of tx1 st1] IndexTxOutputs_heap [OF o] by (auto simp: o split: if_splits)
qed simp

lemma tx_donation_heap: "tx_donation E blocktime tx xtx st = Inr (rc, d, tb, st') \<Longrightarrow> bc_heap st' = bc_heap st"
  by (auto simp: tx_donation_def Let_def bind_outcome_eq_Inr case_prod_beta split: if_splits option.splits xtx.splits)

lemma forget_valid_obj_heap [simp]: "bc_heap (forget_valid_obj I msg st) = bc_heap st"
  by (simp add: forget_valid_obj_def Let_def case_prod_beta)

lemma index_one_tx_blocks:
  assumes "index_one_tx E I blocktime b msg tb st = Inr (False, tb', st')"
  shows "same_blocks (bc_heap st) (bc_heap st')"
  using assms
proof (rule index_one_tx_cases)
  fix tx tb1 xtx tx1 st1 st2 tx2 st3 donation st4
  assume c: "st1 = forget_valid_obj I msg st \<or> (\<exists>xreq. AddXreq E I blocktime xreq msg (forget_valid_obj I msg st) = Inr (False, st1))"
    "insert_serialnums I (fst (GetNextCommitnum False (bc_x st1))) (take (tp_nin tx1) (tp_inputs tx1)) st1 = (False, st2)"
    "index_outputs E I (level_value (bc_heap st2 b)) tx1 (tp_outputs tx1) st2 = Inr (False, tx2, st3)"
    "tx_donation E blocktime tx2 xtx st3 = Inr (False, donation, tb', st4)"
    "st' = st4\<lparr>bc_heap := (bc_heap st4)(b := (bc_heap st4 b)\<lparr>total_donations :=
       op_add (se_B E) (total_donations (bc_heap st4 b)) donation\<rparr>)\<rparr>"
  have "bc_heap st1 = bc_heap st" using c(1) by (auto dest: AddXreq_heap)
  then have h: "bc_heap st4 = bc_heap st"
    using insert_serialnums_heap [OF c(2)] index_outputs_heap [OF c(3)] tx_donation_heap [OF c(4)] by simp
  have "\<exists>d. bc_heap st' a = (bc_heap st a)\<lparr>total_donations := d\<rparr>" for a
  proof (cases "a = b")
    case False
    then have "bc_heap st' a = (bc_heap st a)\<lparr>total_donations := total_donations (bc_heap st a)\<rparr>" using h c(5) by simp
    then show ?thesis by (rule exI)
  qed (use h c(5) in auto)
  then show ?thesis unfolding same_blocks_def by blast
qed

lemma index_txs_loop_blocks:
  "index_txs_loop fuel E I blocktime b data tb st = Inr (False, tb', st') \<Longrightarrow> same_blocks (bc_heap st) (bc_heap st')"
proof (induction fuel arbitrary: data tb st)
  case (Suc fuel)
  show ?case
  proof (cases "data = [] \<or> xs_shutdown (bc_x st)")
    case False
    then obtain msg rest tb1 st1 where "index_one_tx E I blocktime b msg tb st = Inr (False, tb1, st1)"
      "index_txs_loop fuel E I blocktime b rest tb1 st1 = Inr (False, tb', st')"
      using Suc.prems by (auto simp: Let_def bind_outcome_eq_Inr split: if_splits)
    then show ?thesis using index_one_tx_blocks Suc.IH same_blocks_trans by blast
  qed (use Suc.prems in auto)
qed simp

lemma finish_indelible_heap: "finish_indelible fuel E C b st = Inr (rc, st') \<Longrightarrow> bc_heap st' = bc_heap st"
  unfolding finish_indelible_def update_tree_def Let_def
  by (auto simp: bind_outcome_eq_Inr case_prod_beta split: if_splits)

lemma SaveNextNums_heap: "SaveNextNums C lvl ts st = Inr (rc, st') \<Longrightarrow> bc_heap st' = bc_heap st"
  by (auto simp: SaveNextNums_def Let_def GetNextXreqnum_def GetNextXmatchnum_def case_prod_beta split: if_splits)

text \<open>The matching engine has no access to blocks.\<close>

definition keeps_blocks :: "('db, 'f) confops \<Rightarrow> bool" where
  "keeps_blocks C \<longleftrightarrow> (\<forall>lvl ts n tb st rc tb' st'. cf_SynchronizeMatching C lvl ts n tb st = Inr (rc, tb', st') \<longrightarrow> bc_heap st' = bc_heap st)"

definition mark :: "addr \<Rightarrow> heap \<Rightarrow> heap" where
  "mark b h = h(b := (h b)\<lparr>marked_for_indelible := True\<rparr>)"

lemma SetNewlyIndelibleBlock_blocks:
  assumes "keeps_blocks C" "SetNewlyIndelibleBlock fuel E I C b tb st = Inr (False, tb', st')"
  shows "same_blocks (mark b (bc_heap st)) (bc_heap st')"
  using assms(2)
proof (rule SetNewlyIndelibleBlock_cases)
  fix st0 st1 tb1 st2 tb2 st3 x
  assume c: "st0 = upd_db (snd (cf_BeginWrite C (bc_db st))) st"
    "IndexTxs fuel E I (timestamp_value (bc_heap st b)) b tb (mark_for_indelible b st0) = Inr (False, tb1, st1)"
    "cf_SynchronizeMatching C (level_value (bc_heap st b)) (timestamp_value (bc_heap st b)) (bc_next_xreqnum st) tb1 st1 = Inr (False, tb2, st2)"
    "SaveNextNums C (level_value (bc_heap st b)) (timestamp_value (bc_heap st b)) st2 = Inr (0, st3)"
    "finish_indelible fuel E C b (PruneMatchingReqs C (timestamp_value (bc_heap st b)) (st3\<lparr>bc_x := x\<rparr>)) = Inr (False, st')"
  have "bc_heap (mark_for_indelible b st0) = mark b (bc_heap st)" by (simp add: c(1) mark_for_indelible_def mark_def)
  then have "same_blocks (mark b (bc_heap st)) (bc_heap st1)"
    using c(2) index_txs_loop_blocks unfolding IndexTxs_def by metis
  moreover have "bc_heap st2 = bc_heap st1" using assms(1) c(3) unfolding keeps_blocks_def by blast
  ultimately show ?thesis
    using SaveNextNums_heap [OF c(4)] finish_indelible_heap [OF c(5)] by (simp add: PruneMatchingReqs_def)
qed

section \<open>The loop over the chain\<close>

text \<open>The number of blocks that the scan from a block finds, all of them not yet marked.\<close>

function pending :: "heap \<Rightarrow> addr \<Rightarrow> nat" where
  "pending h b =
     (if marked_for_indelible (h b) then 0
      else case prior (h b) of
             None \<Rightarrow> 1
           | Some p \<Rightarrow> if level_value (h p) \<noteq> level_value (h b) - 1 then 1 else Suc (pending h p))"
  by pat_completeness auto
termination
  by (relation "measure (\<lambda>(h, b). unat (level (h b)))") (auto dest: prior_level)

declare pending.simps [simp del]

lemma pending_mark:
  assumes "confirm_scan h shutdown n b = ScanDone l m" "\<not> marked_for_indelible (h b)" "same_blocks (mark l h) h'"
  shows "pending h' b < pending h b"
  using assms
proof (induction h shutdown n b rule: confirm_scan.induct)
  case (1 h shutdown n b)
  note f = same_blocks_fields [OF 1(4)]
  have lv: "level_value (mark l h a) = level_value (h a)" "prior (mark l h a) = prior (h a)" for a
    by (simp_all add: mark_def level_value_def)
  show ?case
  proof (cases "l = b")
    case True
    then have "marked_for_indelible (h' b)" using f by (simp add: mark_def)
    then show ?thesis using 1(3) by (simp add: pending.simps [of h' b] pending.simps [of h b] split: option.splits)
  next
    case False
    then obtain p where p: "\<not> shutdown" "prior (h b) = Some p" "level_value (h p) = level_value (h b) - 1"
        "\<not> marked_for_indelible (h p)" "confirm_scan h shutdown (n + 1) p = ScanDone l m"
      using 1(2) unfolding confirm_scan.simps [of h shutdown n b] by (auto split: if_splits option.splits)
    have "pending h' p < pending h p" using 1(1) [OF p(1,2) _ p(4,5) p(4) 1(4)] p(3) by simp
    then show ?thesis
      using p(2,3) 1(3) f lv by (simp add: pending.simps [of h' b] pending.simps [of h b])
  qed
qed

lemma DoConfirmOne_pending:
  assumes "keeps_blocks C" "DoConfirmOne fuel E I C newobj tb st = Inr (False, tb', st')"
  shows "pending (bc_heap st') newobj < pending (bc_heap st) newobj"
  using assms(2)
proof (rule DoConfirmOne_cases)
  fix b m st1
  assume c: "confirm_scan (bc_heap st) False 1 newobj = ScanDone b m" "\<not> marked_for_indelible (bc_heap st newobj)"
    "SetNewlyIndelibleBlock fuel E I C b tb st1 = Inr (False, tb', st')" "\<exists>w. st1 = st\<lparr>bc_tx_work_difficulty := w\<rparr>"
  have "bc_heap st1 = bc_heap st" using c(4) by auto
  then show ?thesis using pending_mark [OF c(1,2)] SetNewlyIndelibleBlock_blocks [OF assms(1) c(3)] by simp
qed

lemma confirm_loop_bound:
  "keeps_blocks C \<Longrightarrow> pending (bc_heap st) newobj < n \<Longrightarrow> n \<le> n' \<Longrightarrow>
    confirm_loop n' fuel E I C newobj have_new tb st = confirm_loop n fuel E I C newobj have_new tb st"
proof (induction n arbitrary: n' have_new tb st)
  case (Suc n)
  obtain k where k: "n' = Suc k" "n \<le> k" using Suc.prems(3) by (cases n') auto
  show ?case
  proof (cases "DoConfirmOne fuel E I C newobj tb st")
    case (Inr r)
    obtain rc tb1 st1 where r: "r = (rc, tb1, st1)" by (cases r)
    show ?thesis
    proof (cases rc)
      case False
      then have "pending (bc_heap st1) newobj < n"
        using DoConfirmOne_pending [OF Suc.prems(1)] Inr r Suc.prems(2) by fastforce
      then show ?thesis using Suc.IH [OF Suc.prems(1) _ k(2)] Inr r k(1) by simp
    qed (simp add: Inr r k(1))
  qed (simp add: k(1))
qed simp


section \<open>No quorum is left over\<close>

text \<open>Every exchange message in a transaction can be read, and its match found.\<close>

definition reads_messages :: "('db, 'f) settle_env \<Rightarrow> ('db, 'f) indexops \<Rightarrow> bool" where
  "reads_messages E I \<longleftrightarrow> (\<forall>tx db. ExtractXtxFailed tx False \<longrightarrow> ExtractXtx E I tx False db \<noteq> None)"

lemma fatal_simps [simp]: "bc_fatal (SetFatalError st)" "bc_fatal (upd_db db st) = bc_fatal st"
  by (simp_all add: SetFatalError_def upd_db_def)

lemma insert_serialnums_fatal: "insert_serialnums I n ins st = (True, st') \<Longrightarrow> bc_fatal st'"
  by (induction ins arbitrary: st) (auto simp: Let_def case_prod_beta split: if_splits)

lemma index_outputs_fatal: "index_outputs E I lvl tx outs st = Inr (True, tx', st') \<Longrightarrow> bc_fatal st'"
  by (induction outs arbitrary: tx st) (auto simp: bind_outcome_eq_Inr split: if_splits)

lemma on_result_xtx:
  "(\<And>q. x = XtxReq q \<Longrightarrow> on_result P (f q)) \<Longrightarrow> (\<And>q. x = XtxPay q \<Longrightarrow> on_result P (g q)) \<Longrightarrow>
    (x = XtxOther \<Longrightarrow> on_result P u) \<Longrightarrow> on_result P (case x of XtxReq q \<Rightarrow> f q | XtxPay q \<Rightarrow> g q | XtxOther \<Rightarrow> u)"
  by (cases x) simp_all

lemma tx_donation_fatal: "on_result (\<lambda>(rc, d, tb, st). rc \<longrightarrow> bc_fatal st) (tx_donation E blocktime tx xtx st)"
  unfolding tx_donation_def Let_def by (intro on_result_intros on_result_xtx) auto

lemma index_one_tx_fatal:
  assumes "reads_messages E I"
  shows "on_result (\<lambda>(rc, tb, st). rc \<longrightarrow> bc_fatal st) (index_one_tx E I blocktime b msg tb st)"
proof -
  have r: "ExtractXtx E I tx False db = None \<Longrightarrow> ExtractXtxFailed tx False \<Longrightarrow> False" for tx db
    using assms unfolding reads_messages_def by blast
  show ?thesis
    unfolding index_one_tx_def Let_def
    by (intro on_result_intros on_result_xtx)
      (auto dest: r insert_serialnums_fatal index_outputs_fatal on_resultD [OF tx_donation_fatal])
qed

lemma index_txs_loop_fatal:
  "reads_messages E I \<Longrightarrow> index_txs_loop fuel E I blocktime b data tb st = Inr (True, tb', st') \<Longrightarrow> bc_fatal st'"
proof (induction fuel arbitrary: data tb st)
  case (Suc fuel)
  then show ?case
    by (auto simp: Let_def bind_outcome_eq_Inr dest: on_resultD [OF index_one_tx_fatal [OF Suc.prems(1)]] split: if_splits)
qed simp

lemma finish_indelible_fatal: "finish_indelible fuel E C b st = Inr (True, st') \<Longrightarrow> bc_fatal st'"
  unfolding finish_indelible_def Let_def
  by (auto simp: bind_outcome_eq_Inr case_prod_beta split: if_splits)

lemma SetNewlyIndelibleBlock_fatal:
  assumes "reads_messages E I" "SetNewlyIndelibleBlock fuel E I C b tb st = Inr (True, tb', st')"
  shows "bc_fatal st' \<or> marked_for_indelible (bc_heap st b)"
proof -
  have "on_result (\<lambda>(rc, tb, s). rc \<longrightarrow> bc_fatal s \<or> marked_for_indelible (bc_heap st b)) (SetNewlyIndelibleBlock fuel E I C b tb st)"
    unfolding SetNewlyIndelibleBlock_def Let_def IndexTxs_def
    by (intro on_result_intros) (auto dest: finish_indelible_fatal index_txs_loop_fatal [OF assms(1)])
  from on_resultD [OF this assms(2)] show ?thesis by simp
qed

lemma DoConfirmOne_stop:
  assumes "reads_messages E I" "DoConfirmOne fuel E I C newobj tb st = Inr (True, tb', st')"
    and "\<not> bc_fatal st'" "\<not> xs_shutdown (bc_x st')"
  shows "bc_heap st' = bc_heap st \<and> bc_new_indelible_block st' = bc_new_indelible_block st \<and>
    (marked_for_indelible (bc_heap st newobj) \<or>
      (\<exists>b m. confirm_scan (bc_heap st) False 1 newobj = ScanDone b m \<and> \<not> has_quorum (bc_heap st) newobj b (unat m)))"
proof (cases "marked_for_indelible (bc_heap st newobj)")
  case False
  show ?thesis
  proof (cases "confirm_scan (bc_heap st) (xs_shutdown (bc_x st)) 1 newobj")
    case (ScanDone b m)
    have s: "\<not> xs_shutdown (bc_x st)" using ScanDone by (auto simp: confirm_scan.simps)
    have nb: "\<not> marked_for_indelible (bc_heap st b)"
      using confirm_scan_path [OF ScanDone] False by (metis last_in_set list.distinct(1) set_ConsD)
    have "\<not> (SetNewlyIndelibleBlock fuel E I C b tb st1 = Inr (True, tb', st'))" if "bc_heap st1 = bc_heap st" for st1
      using SetNewlyIndelibleBlock_fatal [OF assms(1)] nb assms(3) that by metis
    then show ?thesis
      using assms(2) False ScanDone s unfolding DoConfirmOne_def Let_def
      by (auto simp: has_quorum_def quorum_word not_le split: if_split_asm)
  next
    case ScanShutdown
    then have "xs_shutdown (bc_x st)" using confirm_scan_not_shutdown by (metis (full_types))
    then show ?thesis using assms(2,4) False ScanShutdown by (simp add: DoConfirmOne_def Let_def)
  next
    case ScanLevelError
    then have "bc_fatal st'" using assms(2) False by (auto simp: DoConfirmOne_def Let_def)
    then show ?thesis using assms(3) by simp
  qed
qed (use assms in \<open>simp add: DoConfirmOne_def Let_def\<close>)

lemma confirm_loop_stop:
  assumes "reads_messages E I" "confirm_loop n fuel E I C newobj have_new tb st = Inr (False, hn, tb', st')"
  shows "\<not> bc_fatal st' \<and> \<not> xs_shutdown (bc_x st') \<and> (marked_for_indelible (bc_heap st' newobj) \<or>
      (\<exists>b m. confirm_scan (bc_heap st') False 1 newobj = ScanDone b m \<and> \<not> has_quorum (bc_heap st') newobj b (unat m)))"
  using assms(2)
proof (induction n arbitrary: have_new tb st)
  case (Suc n)
  obtain rc tb1 st1 where d: "DoConfirmOne fuel E I C newobj tb st = Inr (rc, tb1, st1)"
    using Suc.prems by (auto simp: bind_outcome_eq_Inr)
  show ?case
  proof (cases rc)
    case True
    then have "st' = st1" "\<not> bc_fatal st1" "\<not> xs_shutdown (bc_x st1)" using Suc.prems d by (auto split: if_splits)
    then show ?thesis using DoConfirmOne_stop [OF assms(1), of fuel C newobj tb st tb1 st1] d True by auto
  next
    case False
    then show ?thesis using Suc.prems Suc.IH d by (auto split: if_splits)
  qed
qed simp

lemma SetLastIndelible_result:
  "SetLastIndelible C b st = Inr st' \<Longrightarrow> bc_heap st' = bc_heap st \<and> bc_last_indelible_block st' = Some b"
  by (auto simp: SetLastIndelible_def Let_def split: if_splits)

lemma DoConfirmationLoop_result:
  "on_result (\<lambda>(rc, tb', s'). \<not> rc \<longrightarrow> (\<exists>tb1 st1. confirm_loop n fuel E I C newobj False tb st = Inr (False, True, tb1, st1) \<and>
      bc_heap s' = bc_heap st1 \<and> bc_last_indelible_block s' \<noteq> None \<and> bc_new_indelible_block s' = None))
    (DoConfirmationLoop n fuel E I C newobj tb st)"
  unfolding DoConfirmationLoop_def Let_def
  by (intro on_result_intros) (auto dest: SetLastIndelible_result)


section \<open>A chain of three blocks\<close>

text \<open>
  The genesis block is indelible, block 1 is on it and block 2 on block 1; with a quorum of two, block 2
  makes block 1 indelible.
\<close>

definition conf_ops :: "(bigint list, int) confops" where
  "conf_ops = \<lparr>cf_BeginWrite = (\<lambda>db. (0, db)), cf_EndWrite = (\<lambda>commit db. (0, db)),
     cf_SynchronizeMatching = (\<lambda>l t n tb st. Inr (False, tb, st)), cf_XcxNumsInsert = (\<lambda>l t n m db. (0, db)),
     cf_XmatchingreqPrune = (\<lambda>t db. db), cf_BlockchainInsert = (\<lambda>l b db. (False, db)),
     cf_tree = \<lparr>param_insert = (\<lambda>k s v db. (0, db)), param_select = (\<lambda>k s db. (1, [])), tree_select = (\<lambda>h i db. (1, [])),
       tree_insert = (\<lambda>h i x db. (0, db)), roots_insert = (\<lambda>l t n x db. (0, db))\<rparr>,
     cf_hash = sum_hash, cf_SaveMiningInsert = (\<lambda>p db. (0, db)), cf_block_aux = (\<lambda>b. []), cf_ccticks = 7\<rparr>"

definition conf_state :: "(bigint list, int) bcstate" where
  "conf_state = serial_state\<lparr>bc_heap := sample_heap, bc_last_indelible_block := Some 0, bc_nums_saved := True\<rparr>"

lemma conf_scan: "confirm_scan sample_heap False 1 2 = ScanDone 1 2"
  by (simp add: confirm_scan.simps sample_heap_def sample_block_def level_value_def)

lemma conf_settings: "\<not> Implement_CCMint (blockchain_num (se_P serial_env))" "keeps_blocks conf_ops"
  by (simp_all add: serial_env_def sample_env_def Implement_CCMint_def keeps_blocks_def conf_ops_def)

lemma conf_newly:
  "\<exists>st'. SetNewlyIndelibleBlock 1 serial_env I conf_ops 1 sample_txbuf conf_state = Inr (False, sample_txbuf, st') \<and>
    bc_heap st' = mark 1 sample_heap \<and> bc_new_indelible_block st' = Some 1 \<and> bc_last_indelible_block st' = Some 0 \<and>
    bc_x st' = bc_x conf_state \<and> \<not> bc_fatal st'"
  by (simp add: SetNewlyIndelibleBlock_def conf_ops_def Let_def mark_for_indelible_def check_sequence_def IndexTxs_def GetNextXreqnum_def
      conf_state_def serial_state_def sample_heap_def sample_block_def upd_db_def level_value_def mark_def SaveNextNums_def
      serial_env_def finish_indelible_def PruneMatchingReqs_def update_tree_def UpdateCommitTree_def credit_donations_def
      sample_params_def big_true_def bc_db_def)

lemma conf_one:
  "\<exists>st'. DoConfirmOne 1 serial_env I conf_ops 2 sample_txbuf conf_state = Inr (False, sample_txbuf, st') \<and>
    bc_heap st' = mark 1 sample_heap \<and> bc_new_indelible_block st' = Some 1 \<and> bc_last_indelible_block st' = Some 0 \<and>
    bc_x st' = bc_x conf_state \<and> \<not> bc_fatal st'"
proof -
  have "bc_heap conf_state = sample_heap" "\<not> xs_shutdown (bc_x conf_state)" "\<not> marked_for_indelible (sample_heap 2)"
    "nseqconfsigs (blockchain_params (sample_heap 2)) = 2" "skip (sample_heap 1) = 0"
    by (simp_all add: conf_state_def serial_state_def sample_heap_def sample_block_def sample_params_def)
  then show ?thesis using conf_newly conf_settings by (simp add: DoConfirmOne_def Let_def conf_scan)
qed

theorem DoConfirmOne_quorum_witness:
  "\<exists>st' ps. DoConfirmOne 1 serial_env serial_ops conf_ops 2 sample_txbuf conf_state = Inr (False, sample_txbuf, st') \<and>
    bc_new_indelible_block st' = Some (last (2 # ps)) \<and> has_quorum sample_heap 2 (last (2 # ps)) (length (2 # ps))"
proof -
  obtain st' where r: "DoConfirmOne 1 serial_env serial_ops conf_ops 2 sample_txbuf conf_state = Inr (False, sample_txbuf, st')"
    using conf_one by blast
  have s: "bc_last_indelible_block conf_state = Some 0" "bc_new_indelible_block conf_state = None" "bc_heap conf_state = sample_heap"
    by (simp_all add: conf_state_def serial_state_def)
  from DoConfirmOne_quorum [OF r s(1,2)] r s(3) show ?thesis by auto
qed


definition reading_ops :: "(bigint list, int) indexops" where
  "reading_ops = serial_ops\<lparr>ix_xtx_from_wire := (\<lambda>t m. Some XtxOther)\<rparr>"

lemma conf_second:
  assumes "bc_heap st = mark 1 sample_heap" "bc_last_indelible_block st = Some 0" "\<not> xs_shutdown (bc_x st)"
  shows "DoConfirmOne 1 serial_env I conf_ops 2 tb st = Inr (True, tb, st)"
proof -
  have "confirm_scan (mark 1 sample_heap) False 1 2 = ScanDone 2 1" "\<not> marked_for_indelible (mark 1 sample_heap 2)"
    "nseqconfsigs (blockchain_params (mark 1 sample_heap 2)) = 2"
    by (simp_all add: confirm_scan.simps mark_def sample_heap_def sample_block_def level_value_def sample_params_def)
  then show ?thesis using assms by (simp add: DoConfirmOne_def Let_def)
qed

lemma conf_all:
  "\<exists>st'. DoConfirmations (Suc (Suc 0)) 1 serial_env I conf_ops 2 sample_txbuf conf_state = Inr (False, sample_txbuf, st') \<and>
    bc_last_indelible_block st' = Some 1"
proof -
  have c: "\<not> bc_fatal conf_state" "xs_last_indelible_level (bc_x conf_state) = 5" "\<not> xs_shutdown (bc_x conf_state)"
    by (simp_all add: conf_state_def serial_state_def)
  obtain st1 where o: "DoConfirmOne 1 serial_env I conf_ops 2 sample_txbuf conf_state = Inr (False, sample_txbuf, st1)"
    "bc_heap st1 = mark 1 sample_heap" "bc_new_indelible_block st1 = Some 1" "bc_last_indelible_block st1 = Some 0"
    "bc_x st1 = bc_x conf_state" "\<not> bc_fatal st1"
    using conf_one [of I] by blast
  have t: "DoConfirmOne 1 serial_env I conf_ops 2 sample_txbuf st1 = Inr (True, sample_txbuf, st1)"
    using conf_second o c by simp
  have lv: "level_value (mark 1 sample_heap 1) = 1" "nskipconfsigs (blockchain_params (mark 1 sample_heap 1)) = 3"
    by (simp_all add: mark_def sample_heap_def sample_block_def level_value_def sample_params_def)
  have "confirm_loop (Suc (Suc 0)) 1 serial_env I conf_ops 2 False sample_txbuf conf_state = Inr (False, True, sample_txbuf, st1)"
    using o c t by simp
  then show ?thesis
    using o c lv
    by (simp add: DoConfirmations_def DoConfirmationLoop_def SaveMining_def SetLastIndelible_def conf_ops_def upd_db_def Let_def
        case_prod_beta)
qed

lemma reading_ops_reads: "reads_messages serial_env reading_ops"
  by (auto simp: reads_messages_def ExtractXtx_def reading_ops_def split: bool.splits)


end
