(* ===== verification/Donations.thy ===== *)
theory Donations
  imports Confirm Consensus
begin

text \<open>
  The donations of an indelible block are credited to the witnesses (ccnode/src/blockchain.cpp,
  \<open>SetNewlyIndelibleBlock\<close>): the witness of the block gets the big split and every other witness the
  little split. The running totals are packed amounts in the parameter table of the database.
\<close>

section \<open>The parameter table\<close>

locale parameter_store =
  fixes T :: "'db treeops" and stored :: "'db \<Rightarrow> nat \<Rightarrow> nat \<Rightarrow> byte list option"
  assumes select: "param_select T k s db = (case stored db k s of None \<Rightarrow> (1, []) | Some v \<Rightarrow> (0, v))"
    and insert: "param_insert T k s v db = (0, db') \<Longrightarrow> stored db' = (stored db)(k := (stored db k)(s := Some v))"

definition amount_of_mem :: "byte list option \<Rightarrow> nat" where
  "amount_of_mem r = (case r of None \<Rightarrow> 0 | Some v \<Rightarrow> bval (unpack_unsigned_amount (packed_unsigned_of_mem v) bigint_default))"

lemma of_mem_packed: "packed_unsigned_of_mem (packed_unsigned_mem p) = p"
  by (simp add: packed_unsigned_of_mem_def packed_unsigned_mem_def unat_of_le_bytes_8)

lemma unpack_unsigned_wf: "wf_bigint (unpack_unsigned_amount p bigint_default)" "bval (unpack_unsigned_amount p bigint_default) < 2 ^ 128"
  using bval_less [of "[bswap_64 (pu_lo p), bswap_64 (pu_hi p)]"]
  by (simp_all add: unpack_unsigned_amount_def bigint_default_limbs wf_bigint_limbs)

lemma amount_of_packed: "wf_bigint a \<Longrightarrow> \<not> fst (pack_unsigned_amount a) \<Longrightarrow> amount_of_mem (Some (packed_unsigned_mem (snd (pack_unsigned_amount a)))) = bval a"
  by (simp add: amount_of_mem_def of_mem_packed) (simp add: pack_unsigned_amount_def Let_def)

context parameter_store
begin

abbreviation donated :: "'db \<Rightarrow> nat \<Rightarrow> nat" where
  "donated db i \<equiv> amount_of_mem (stored db DB_KEY_DONATION_TOTALS i)"

text \<open>One witness is credited with its share, the totals of the others stay.\<close>

lemma credit_witnesses_exact:
  assumes B: "bigint_lib B" and s: "wf_bigint (fst split)" "wf_bigint (snd split)" "bval (fst split) < 2 ^ 200" "bval (snd split) < 2 ^ 200"
  shows "distinct is \<Longrightarrow> credit_witnesses T B w split is db = Inr (False, db') \<Longrightarrow>
    donated db' i = donated db i + (if i \<in> set is then bval (if i = w then fst split else snd split) else 0)"
proof (induction "is" arbitrary: db)
  case (Cons j "is")
  define old where "old = (case stored db DB_KEY_DONATION_TOTALS j of None \<Rightarrow> ofULong B 0
    | Some v \<Rightarrow> unpack_unsigned_amount (packed_unsigned_of_mem v) bigint_default)"
  define share where "share = (if j = w then fst split else snd split)"
  define new where "new = op_add B old share"
  have old: "wf_bigint old" "bval old = donated db j" "bval old < 2 ^ 128"
    using unpack_unsigned_wf bigint_lib.wf_ofULong [OF B] bigint_lib.val_ofULong [OF B]
    by (auto simp: old_def amount_of_mem_def split: option.splits)
  have sh: "wf_bigint share" "bval share < 2 ^ 200" using s by (simp_all add: share_def)
  have "bval old + bval share < field_prime"
    using old(3) sh(2) add_strict_mono [of "bval old" "2 ^ 128" "bval share" "2 ^ 200"] by (simp add: field_prime_def)
  then have new: "wf_bigint new" "bval new = donated db j + bval share"
    using bigint_lib.wf_add [OF B old(1) sh(1)] bigint_lib.val_add [OF B old(1) sh(1)] old(2) by (simp_all add: new_def)
  obtain db1 where step: "\<not> fst (pack_unsigned_amount new)"
    "param_insert T DB_KEY_DONATION_TOTALS j (packed_unsigned_mem (snd (pack_unsigned_amount new))) db = (0, db1)"
    "credit_witnesses T B w split is db1 = Inr (False, db')"
    using Cons.prems(2) unfolding new_def old_def share_def
    by (auto simp: select Let_def case_prod_beta prod_eq_iff split: option.splits if_split_asm)
  have "donated db1 i = donated db i + (if i = j then bval share else 0)"
    using amount_of_packed [OF new(1) step(1)] new(2) by (simp add: insert [OF step(2)])
  then show ?case
    using Cons.IH [OF _ step(3)] Cons.prems(1) by (auto simp: share_def)
qed simp

end

section \<open>The split\<close>

lemma donation_split_exact:
  assumes B: "bigint_lib B" and t: "wf_bigint t" "bval t < 2 ^ 200" and n: "nwit \<noteq> 0"
  shows "wf_bigint (fst (donation_split B t nwit))" "wf_bigint (snd (donation_split B t nwit))"
    "bval (fst (donation_split B t nwit)) + (unat nwit - 1) * bval (snd (donation_split B t nwit)) = bval t"
    "bval (snd (donation_split B t nwit)) \<le> bval (fst (donation_split B t nwit))"
proof -
  define N where "N = unat nwit"
  have N: "0 < N" "N < 2 ^ 16" using n unsigned_less [of nwit, where ?'a = nat] by (simp_all add: N_def unat_gt_0)
  have uc: "unat (ucast nwit :: u64) = N"
    using N by (simp add: N_def unsigned_ucast_eq take_bit_nat_eq_self)
  have u: "unat (3 * ucast nwit :: u64) = 3 * N" "unat (ucast nwit - 1 :: u64) = N - 1"
  proof -
    show "unat (3 * ucast nwit :: u64) = 3 * N" using N uc by (simp add: unat_word_ariths(2))
    have "(ucast nwit :: u64) \<noteq> 0" using N uc by auto
    then show "unat (ucast nwit - 1 :: u64) = N - 1" using uc by (simp add: unat_minus_one)
  qed
  define l where "l = op_div B (op_mul B t (ofULong B 2)) (ofULong B (3 * ucast nwit))"
  define c where "c = op_mul B (ofULong B (ucast nwit - 1)) l"
  note lib = bigint_lib.wf_ops [OF B] bigint_lib.val_ofULong [OF B]
  have m: "bval (op_mul B t (ofULong B 2)) = 2 * bval t"
    using t by (simp add: bigint_lib.val_mul [OF B] lib field_prime_def)
  have l: "wf_bigint l" "bval l = 2 * bval t div (3 * N)"
    using t N m u by (simp_all add: l_def lib bigint_lib.val_div [OF B])
  have lb: "3 * (N * bval l) \<le> 2 * bval t" using l(2) times_div_less_eq_dividend [of "3 * N" "2 * bval t"] by (simp add: mult.assoc)
  have nl: "(N - 1) * bval l + bval l = N * bval l" using N(1) by (cases N) auto
  have "(N - 1) * bval l < field_prime" using lb nl t(2) by (simp add: field_prime_def)
  then have c: "wf_bigint c" "bval c = (N - 1) * bval l"
    using l u by (simp_all add: c_def lib bigint_lib.val_mul [OF B])
  have s: "donation_split B t nwit = (if op_less B c t then (op_sub B t c, l) else (t, ofULong B 0))"
    by (simp add: donation_split_def l_def c_def Let_def)
  show "wf_bigint (fst (donation_split B t nwit))" "wf_bigint (snd (donation_split B t nwit))"
    using t l c by (simp_all add: s lib)
  have "bval (fst (donation_split B t nwit)) + (N - 1) * bval (snd (donation_split B t nwit)) = bval t \<and>
    bval (snd (donation_split B t nwit)) \<le> bval (fst (donation_split B t nwit))"
  proof (cases "bval c < bval t")
    case True
    then have "bval (op_sub B t c) = bval t - bval c"
      using t c by (simp add: bigint_lib.val_sub [OF B] field_prime_def)
    then show ?thesis using True c t lb nl by (simp add: s bigint_lib.less_iff [OF B])
  qed (use c t lb nl in \<open>simp add: s bigint_lib.less_iff [OF B] lib\<close>)
  then show "bval (fst (donation_split B t nwit)) + (unat nwit - 1) * bval (snd (donation_split B t nwit)) = bval t"
    "bval (snd (donation_split B t nwit)) \<le> bval (fst (donation_split B t nwit))" by (simp_all add: N_def)
qed

lemma sum_if_one: "w < (n :: nat) \<Longrightarrow> (\<Sum>i<n. if i = w then a else b) = a + (n - 1) * (b :: nat)"
proof -
  assume "w < n"
  then have "(\<Sum>i<n. if i = w then a else b) = a + (\<Sum>i \<in> {..<n} - {w}. if i = w then a else b)"
    by (subst sum.remove [of _ w]) simp_all
  also have "(\<Sum>i \<in> {..<n} - {w}. if i = w then a else b) = (\<Sum>i \<in> {..<n} - {w}. b)" by (rule sum.cong) auto
  finally show ?thesis using \<open>w < n\<close> by simp
qed

text \<open>
  C21. No donation is lost or made up. Crediting the donations of a block adds up, over all witnesses,
  to exactly the donations of the block; the totals of other keys stay, and the witness of the block
  gets no less than any other.
\<close>

theorem credit_donations_exact:
  assumes "bigint_lib B" "parameter_store T stored" "wf_bigint (total_donations blk)" "bval (total_donations blk) < 2 ^ 200"
    and "unat (witness blk) < unat (nwitnesses (blockchain_params blk))" "credit_donations T B blk db = Inr (False, db')"
  shows "(\<Sum>i < unat (nwitnesses (blockchain_params blk)). amount_of_mem (stored db' DB_KEY_DONATION_TOTALS i)) =
      (\<Sum>i < unat (nwitnesses (blockchain_params blk)). amount_of_mem (stored db DB_KEY_DONATION_TOTALS i)) + bval (total_donations blk) \<and>
    (\<forall>i. amount_of_mem (stored db' DB_KEY_DONATION_TOTALS i) - amount_of_mem (stored db DB_KEY_DONATION_TOTALS i)
      \<le> amount_of_mem (stored db' DB_KEY_DONATION_TOTALS (unat (witness blk))) - amount_of_mem (stored db DB_KEY_DONATION_TOTALS (unat (witness blk))))"
proof -
  let ?t = "total_donations blk" and ?n = "nwitnesses (blockchain_params blk)" and ?w = "unat (witness blk)"
  let ?s = "donation_split B ?t ?n" and ?a = "\<lambda>db i. amount_of_mem (stored db DB_KEY_DONATION_TOTALS i)"
  have n: "?n \<noteq> 0" using assms(5) by auto
  note sp = donation_split_exact [OF assms(1,3,4) n]
  have "bval (fst ?s) \<le> bval ?t" using sp(3) by linarith
  then have lt: "bval (fst ?s) < 2 ^ 200" "bval (snd ?s) < 2 ^ 200" using sp(4) assms(4) by linarith+
  have c: "credit_witnesses T B ?w ?s (if big_true ?t then [0..<unat ?n] else []) db = Inr (False, db')"
    using assms(6) n by (simp add: credit_donations_def Let_def)
  have d: "?a db' i = ?a db i + (if big_true ?t \<and> i < unat ?n then bval (if i = ?w then fst ?s else snd ?s) else 0)" for i
    using parameter_store.credit_witnesses_exact [OF assms(2,1) sp(1,2) lt _ c, of i] by simp
  show ?thesis
  proof (cases "big_true ?t")
    case True
    have "(\<Sum>i < unat ?n. ?a db' i) = (\<Sum>i < unat ?n. ?a db i) + (\<Sum>i < unat ?n. if i = ?w then bval (fst ?s) else bval (snd ?s))"
      unfolding sum.distrib [symmetric] using True by (intro sum.cong) (auto simp: d)
    then show ?thesis using sp(3,4) assms(5) True by (auto simp: sum_if_one d)
  qed (use d in \<open>simp add: big_true_iff\<close>)
qed

text \<open>A parameter table in memory.\<close>

definition param_tables :: "(nat \<Rightarrow> nat \<Rightarrow> byte list option) treeops" where
  "param_tables = \<lparr>param_insert = (\<lambda>k s v db. (0, db(k := (db k)(s := Some v)))),
     param_select = (\<lambda>k s db. case db k s of None \<Rightarrow> (1, []) | Some v \<Rightarrow> (0, v)),
     tree_select = (\<lambda>h i db. (1, [])), tree_insert = (\<lambda>h i x db. (0, db)), roots_insert = (\<lambda>l t n x db. (0, db))\<rparr>"

interpretation params: parameter_store param_tables "\<lambda>db. db"
  by unfold_locales (auto simp: param_tables_def)

definition donating_block :: block where
  "donating_block = (sample_block 1 1 0 (Some 0))\<lparr>total_donations := big_of_nat 100\<rparr>"

lemma donating_block_fields:
  "total_donations donating_block = big_of_nat 100" "unat (witness donating_block) = 1"
  "nwitnesses (blockchain_params donating_block) = 3"
  by (simp_all add: donating_block_def sample_block_def sample_params_def)

lemma donating_split: "donation_split limb_bigops (big_of_nat 100) 3 = (big_of_nat (2 ^ 256 + 56), big_of_nat 22)"
  by (simp add: donation_split_def limb_bigops_def bval_big_of_nat Let_def)

lemma pack_small: "x < 2 ^ 128 \<Longrightarrow> \<not> fst (pack_unsigned_amount (big_of_nat x))"
  by (simp add: pack_unsigned_ok bval_big_of_nat mod_less)

lemma limb_ops: "op_add limb_bigops x y = big_of_nat (bval x + bval y)" "ofULong limb_bigops w = big_of_nat (unat w)"
  by (simp_all add: limb_bigops_def)

lemma donating_credit: "\<exists>db'. credit_donations param_tables limb_bigops donating_block (\<lambda>k s. None) = Inr (False, db')"
  by (simp add: credit_donations_def donating_block_fields donating_split big_true_iff bval_big_of_nat upt_rec
      param_tables_def case_prod_beta Let_def limb_ops pack_small)

theorem credit_donations_exact_witness:
  "\<exists>db'. credit_donations param_tables limb_bigops donating_block (\<lambda>k s. None) = Inr (False, db') \<and>
    (\<Sum>i<3. amount_of_mem (db' DB_KEY_DONATION_TOTALS i)) = 100"
proof -
  obtain db' where c: "credit_donations param_tables limb_bigops donating_block (\<lambda>k s. None) = Inr (False, db')"
    using donating_credit by blast
  have w: "wf_bigint (total_donations donating_block)" "bval (total_donations donating_block) < 2 ^ 200"
    "unat (witness donating_block) < unat (nwitnesses (blockchain_params donating_block))"
    by (simp_all add: donating_block_fields bval_big_of_nat)
  from credit_donations_exact [OF limb.bigint_lib_axioms params.parameter_store_axioms w c] c show ?thesis
    by (simp add: donating_block_fields bval_big_of_nat amount_of_mem_def)
qed

end
