(* ===== verification/Expire_Props.thy ===== *)
theory Expire_Props
  imports Settle_Props
begin

text \<open>
  Expiry of matches comes to an end (ccnode/src/blockchain.cpp, \<open>ExpireMatches\<close>): every pass takes one
  match off the list of matches past their deadline, so that a run needs one pass more than there are
  such matches, and leaves none.
\<close>

section \<open>Matches past their deadline\<close>

lemma SettleMatch_steps:
  assumes "SettleMatch E match donation tb st = Inr (False, d, match', tb', st')" "xm_status match \<noteq> XMATCH_STATUS_PAID"
  shows "\<exists>a1 t1 de1 dm m tb1 r1 st1 a2 t2 de2 tb2 r2 st2.
    CreateTxOutputs 1 E a1 t1 de1 dm True True 0 True False tb (st\<lparr>xs_mining := m\<rparr>) = Inr (False, r1, tb1, st1) \<and>
    CreateTxOutputs 1 E a2 t2 de2 dm True True 0 True False tb1 st1 = Inr (False, r2, tb2, st2) \<and>
    xs_db st' = snd (XmatchInsert (se_D E) match (xs_db st2))"
  using assms unfolding SettleMatch_def Let_def
  by (clarsimp simp: bind_outcome_eq_Inr case_prod_beta prod_eq_iff simp del: One_nat_def split: if_split_asm) blast

text \<open>
  The table of matches as the loop relies on it: the query serves a match that is due, an insert with
  no deadline takes the match off, and the tables of outputs have no part in it.
\<close>

locale match_deadlines =
  fixes E :: "('db, 'f) settle_env" and due :: "u64 \<Rightarrow> 'db \<Rightarrow> u64 set"
  assumes due_finite: "finite (due t db)"
    and due_served: "XmatchSelectNextDeadline (se_D E) t db = (0, match) \<Longrightarrow> xm_xmatchnum match \<in> due t db"
    and due_closed: "xm_next_deadline match = 0 \<Longrightarrow> due t (snd (XmatchInsert (se_D E) match db)) \<subseteq> due t db - {xm_xmatchnum match}"
    and due_commit: "due t (snd (CommitTreeInsert (se_D E) n c db)) \<subseteq> due t db"
    and due_output: "due t (TxOutputInsert (se_D E) a dm x fp l n db) \<subseteq> due t db"
begin

lemma create_one_output_due:
  assumes "create_one_output E asset tot dest domain mn mx bx ne pn tb st = Inr (r, rest, tb', st')"
  shows "due t (xs_db st') \<subseteq> due t (xs_db st)"
  using assms due_commit subset_trans [OF due_output due_commit]
  by (auto simp: create_one_output_def Let_def bind_outcome_eq_Inr case_prod_beta GetNextCommitnum_def AddCommitment_def
      split: if_splits) blast+

lemma create_outputs_loop_due:
  "create_outputs_loop fuel E asset tot dest domain mn mx bx ne pn one tb st = Inr (rc, rest, tb', st') \<Longrightarrow>
    due t (xs_db st') \<subseteq> due t (xs_db st)"
proof (induction fuel arbitrary: tot tb st)
  case (Suc fuel)
  show ?case
  proof (cases "big_true tot \<and> \<not> xs_shutdown st")
    case True
    then obtain r rest1 tb1 st1 where c: "create_one_output E asset tot dest domain mn mx bx ne pn tb st = Inr (r, rest1, tb1, st1)"
      using Suc.prems by (cases "create_one_output E asset tot dest domain mn mx bx ne pn tb st") auto
    show ?thesis
      using Suc.prems True c create_one_output_due [OF c, of t] Suc.IH [of rest1 tb1 st1] by (auto split: option.splits if_splits)
  qed (use Suc.prems in auto)
qed simp

lemma CreateTxOutputs_due:
  "CreateTxOutputs fuel E asset tot dest domain bx ne pn one mint tb st = Inr (rc, rest, tb', st') \<Longrightarrow>
    due t (xs_db st') \<subseteq> due t (xs_db st)"
  by (simp only: CreateTxOutputs_def Let_def split: if_split_asm, simp_all) (erule create_outputs_loop_due)+

lemma SettleMatch_due:
  assumes "xm_status match \<noteq> XMATCH_STATUS_PAID" "xm_next_deadline match = 0" "SettleMatch E match donation tb st = Inr (False, d, m, tb', st')"
  shows "due t (xs_db st') \<subseteq> due t (xs_db st) - {xm_xmatchnum match}"
proof -
  from SettleMatch_steps [OF assms(3,1)] obtain a1 t1 de1 dm m tb1 r1 st1 a2 t2 de2 tb2 r2 st2 where
    c: "CreateTxOutputs 1 E a1 t1 de1 dm True True 0 True False tb (st\<lparr>xs_mining := m\<rparr>) = Inr (False, r1, tb1, st1)"
    "CreateTxOutputs 1 E a2 t2 de2 dm True True 0 True False tb1 st1 = Inr (False, r2, tb2, st2)"
    "xs_db st' = snd (XmatchInsert (se_D E) match (xs_db st2))"
    by blast
  show ?thesis
    using CreateTxOutputs_due [OF c(1), of t] CreateTxOutputs_due [OF c(2), of t] due_closed [OF assms(2), of t "xs_db st2"] c(3) by auto
qed

end

lemma expired_match_fields:
  "expired_match t match = Inr match' \<Longrightarrow>
    xm_status match' \<noteq> XMATCH_STATUS_PAID \<and> xm_next_deadline match' = 0 \<and> xm_xmatchnum match' = xm_xmatchnum match"
  by (auto simp: expired_match_def XMATCH_STATUS_PAID_def XMATCH_STATUS_UNPAID_EXPIRED_def XMATCH_STATUS_PART_PAID_EXPIRED_def split: if_splits)

text \<open>
  C19. Expiring matches always finishes: with one pass more than there are matches past their deadline,
  the run returns, and unless the node shuts down or the database fails no match past its deadline
  is left.
\<close>

theorem ExpireMatches_finishes:
  assumes "bigint_lib (se_B E)" "counts_outputs (se_D E) issued" "db_succeeds (se_D E)" "serves_open_matches (se_D E)"
    and "converts (se_U E)" "wf_bigint (donation_per_xcx_pay (se_P E))" "mining_ready (saved (xs_mining st))"
    and "match_deadlines E due" "card (due blocktime (xs_db st)) < fuel"
  shows "\<exists>rc tb' st'. ExpireMatches fuel E blocktime tb st = Inr (rc, tb', st') \<and>
    (\<not> rc \<longrightarrow> xs_shutdown st' \<or> fst (XmatchSelectNextDeadline (se_D E) blocktime (xs_db st')) > 0)"
  using assms(7,9)
proof (induction fuel arbitrary: tb st)
  case (Suc fuel)
  obtain rc match where sel: "XmatchSelectNextDeadline (se_D E) blocktime (xs_db st) = (rc, match)" by fastforce
  show ?case
  proof (cases "xs_shutdown st \<or> rc \<noteq> 0")
    case False
    then have o: "open_match match" using sel assms(4) by (auto simp: serves_open_matches_def)
    obtain match' d match2 tb' st' where e: "expired_match blocktime match = Inr match'"
      "SettleMatch E match' (ofULong (se_B E) 0) tb st = Inr (False, d, match2, tb', st')" "\<not> big_true d"
      "mining_ready (saved (xs_mining st'))"
      by (rule expire_one [OF assms(1-3,5,6) Suc.prems(1) o])
    note f = expired_match_fields [OF e(1)]
    have "due blocktime (xs_db st') \<subseteq> due blocktime (xs_db st) - {xm_xmatchnum match}"
      using match_deadlines.SettleMatch_due [OF assms(8) _ _ e(2), of blocktime] f by simp
    moreover have "xm_xmatchnum match \<in> due blocktime (xs_db st)"
      using match_deadlines.due_served [OF assms(8)] sel False by blast
    ultimately have "card (due blocktime (xs_db st')) < card (due blocktime (xs_db st))"
      using match_deadlines.due_finite [OF assms(8)] by (intro psubset_card_mono) auto
    then show ?thesis using Suc.IH [OF e(4)] Suc.prems(2) False sel e(1-3) by simp
  qed (use sel in auto)
qed simp

text \<open>The matches in memory that are past their deadline.\<close>

definition mem_due :: "u64 \<Rightarrow> mem_db \<Rightarrow> u64 set" where
  "mem_due t db = xm_xmatchnum ` {m \<in> set (snd db). 0 < xm_next_deadline m \<and> xm_next_deadline m \<le> t}"

interpretation mem: match_deadlines sample_env mem_due
proof
  fix t db match
  assume "XmatchSelectNextDeadline (se_D sample_env) t db = (0, match)"
  then show "xm_xmatchnum match \<in> mem_due t db"
    by (auto simp: sample_env_def mem_dbops_def mem_due_def find_Some_iff split: option.splits)
qed (auto simp: sample_env_def mem_dbops_def mem_due_def)

theorem ExpireMatches_finishes_witness:
  "\<exists>rc tb' st'. ExpireMatches 2 sample_env 200 sample_txbuf (sample_state [waiting_match]) = Inr (rc, tb', st') \<and>
    mem_due 200 (xs_db (sample_state [waiting_match])) = {xm_xmatchnum waiting_match}"
proof -
  have d: "mem_due 200 (xs_db (sample_state [waiting_match])) = {xm_xmatchnum waiting_match}"
    by (auto simp: mem_due_def sample_state_def waiting_match_def)
  then have "card (mem_due 200 (xs_db (sample_state [waiting_match]))) < 2" by simp
  from ExpireMatches_finishes [OF sample_env_laws(1-3) sample_env_laws(4-6) sample_mining_ready mem.match_deadlines_axioms this] d
  show ?thesis by blast
qed

end
