(* ===== verification/Match_Reqs.thy ===== *)
theory Match_Reqs
  imports Index_Txs
begin

text \<open>
  Matching of exchange requests, the part that deals with one pair of requests (ccnode/src/process-xreq.cpp:
  \<open>CompareRates\<close>, \<open>ComputeElapsed\<close>, \<open>ComputeHold\<close>, \<open>ComputeNetHold\<close>, \<open>ComputeMatchHold\<close>, \<open>ComputeDiscount\<close>, \<open>SetMatch\<close>,
  \<open>CheckMatch\<close>, \<open>UpdateMutualMatch\<close>, \<open>UpdateOpenAmount\<close>, \<open>SaveXreq\<close>; cclib/src/xtransaction-xreq.cpp: \<open>NetRate\<close>;
  ccnode/src/dbconn-xreqs.cpp: the functions that position a scan of the table of requests).

  The table of requests is a parameter, with the calls made on it in the record \<open>matchops\<close>.
\<close>

section \<open>The table of requests\<close>

record ('db, 'f) matchops =
  mo_XreqsUpdate :: "'f xreq \<Rightarrow> 'db \<Rightarrow> int \<times> 'db"
  mo_XreqsDelete :: "'f xreq \<Rightarrow> 'db \<Rightarrow> int \<times> 'db"
  mo_XreqsSelectExpire :: "u64 \<Rightarrow> 'db \<Rightarrow> int \<times> 'f xreq"
  mo_XreqsSelectXreqnum :: "u64 \<Rightarrow> nat \<Rightarrow> 'db \<Rightarrow> int \<times> 'f xreq"
  mo_XreqsSelectSeqnum :: "int \<Rightarrow> bool \<Rightarrow> 'db \<Rightarrow> int \<times> 'f xreq"
  mo_XreqCountPersistent :: "'db \<Rightarrow> nat"
  mo_XreqCountPending :: "'db \<Rightarrow> nat"
  mo_XreqsSelectPairBase :: "'f xreq \<Rightarrow> 'db \<Rightarrow> int \<times> 'f xreq"
  mo_XreqsSelectPairQuote :: "'f xreq \<Rightarrow> 'db \<Rightarrow> int \<times> 'f xreq"
  mo_MatchingSelectMajor :: "'f xreq \<Rightarrow> 'db \<Rightarrow> int \<times> 'f xreq"
  mo_MatchingSelectMinor :: "'f xreq \<Rightarrow> 'db \<Rightarrow> int \<times> 'f xreq"
  mo_MatchingSelectMatch :: "'f xreq \<Rightarrow> 'db \<Rightarrow> int \<times> 'f xreq \<times> 'f xreq"
  mo_MatchingInit :: "u64 \<Rightarrow> bool \<Rightarrow> u64 \<Rightarrow> u64 \<Rightarrow> bool \<Rightarrow> 'db \<Rightarrow> int \<times> 'db"
  mo_XreqsClearOldPendingMatches :: "u64 \<Rightarrow> u64 \<Rightarrow> 'db \<Rightarrow> 'db"
  mo_MatchingSelectNextPendingMatch :: "'db \<Rightarrow> int \<times> 'f xreq \<times> 'f xreq"
  mo_XmatchreqUpdate :: "u64 \<Rightarrow> nat \<Rightarrow> 'db \<Rightarrow> int \<times> 'db"
  mo_ParameterInsert :: "nat \<Rightarrow> nat \<Rightarrow> byte list \<Rightarrow> 'db \<Rightarrow> int \<times> 'db"
  mo_is_witness :: bool

section \<open>Rates\<close>

definition IsBuyer :: "'f xreq \<Rightarrow> bool" where
  "IsBuyer xreq = TypeIsBuyer (xq_type xreq)"

definition IsSeller :: "'f xreq \<Rightarrow> bool" where
  "IsSeller xreq = TypeIsSeller (xq_type xreq)"

definition BaseAmountAsUniFloat :: "'f ufops \<Rightarrow> 'f xreq \<Rightarrow> bigint \<Rightarrow> 'f" where
  "BaseAmountAsUniFloat U xreq base_amount = uf_asset U (xq_base_asset xreq) base_amount"

definition SignedRate :: "'f ufops \<Rightarrow> 'f xreq \<Rightarrow> 'f \<Rightarrow> 'f" where
  "SignedRate U xreq rate = (if IsBuyer xreq then uf_neg U rate else rate)"

text \<open>The overload of \<open>MatchRateRequired\<close> for an amount of the request.\<close>

definition xreq_MatchRateRequired :: "'f ufops \<Rightarrow> 'f xreq \<Rightarrow> bigint \<Rightarrow> 'f" where
  "xreq_MatchRateRequired U xreq amount =
     MatchRateRequired U (IsBuyer xreq) (xq_base_costs xreq) (xq_quote_costs xreq) (xq_net_rate_required xreq)
       (BaseAmountAsUniFloat U xreq amount)"

definition NetRate :: "'f ufops \<Rightarrow> 'f xreq \<Rightarrow> bigint \<Rightarrow> 'f \<Rightarrow> 'f" where
  "NetRate U xreq amount rate =
     (let sgn = (\<lambda>x. if IsBuyer xreq then uf_neg U x else x);
          nsgn = (\<lambda>x. if IsBuyer xreq then x else uf_neg U x);
          base_amount = BaseAmountAsUniFloat U xreq amount;
          base = uf_add U 0 base_amount (sgn (xq_base_costs xreq))
      in if uf_eq U base (uf_zero U) then sgn (uf_max U)
         else let quote = uf_mul U 0 base_amount rate;
                  quote = uf_add U 0 quote (nsgn (xq_quote_costs xreq))
           in uf_div U 0 quote base)"

text \<open>
  \<open>CompareRates\<close>: whether the offer (own net rate, other request, its net rate, amount) is better than
  the best one recorded in \<open>self\<close>.
\<close>

definition CompareRates :: "bigops \<Rightarrow> 'f ufops \<Rightarrow> 'f xreq \<Rightarrow> 'f \<Rightarrow> 'f xreq \<Rightarrow> 'f \<Rightarrow> bigint \<Rightarrow> bool" where
  "CompareRates B U self self_net_rate other other_net_rate amount =
     (if \<not> big_true (xq_best_amount self) then True
      else if \<not> uf_eq U self_net_rate (xq_best_net_rate self) then
        IsBuyer self \<noteq> uf_less U (xq_best_net_rate self) self_net_rate
      else if \<not> uf_eq U other_net_rate (xq_best_other_net_rate self) then
        IsBuyer self \<noteq> uf_less U other_net_rate (xq_best_other_net_rate self)
      else if amount \<noteq> xq_best_amount self then op_less B (xq_best_amount self) amount
      else if xq_matching_amount other \<noteq> xq_best_other_matching_amount self then
        op_less B (xq_best_other_matching_amount self) (xq_matching_amount other)
      else if xq_xreqnum other \<noteq> xq_best_other_xreqnum self then
        xq_best_other_xreqnum self = 0 \<or> xq_xreqnum other \<noteq> 0 \<and> xq_xreqnum other < xq_best_other_xreqnum self
      else xq_seqnum other < xq_best_other_seqnum self)"

section \<open>Holding a match\<close>

definition ComputeElapsed :: "u64 \<Rightarrow> u64 \<Rightarrow> u64" where
  "ComputeElapsed xreq_time block_time = (if block_time \<le> xreq_time then 0 else block_time - xreq_time)"

definition ComputeHold :: "u64 \<Rightarrow> u64 \<Rightarrow> u64" where
  "ComputeHold elapsed required = (if required \<le> elapsed then 0 else required - elapsed)"

definition ComputeNetHold :: "'f xreq \<Rightarrow> 'f xreq \<Rightarrow> u64 \<Rightarrow> u64" where
  "ComputeNetHold xreq other block_time =
     (let elapsed = ComputeElapsed (xq_blocktime xreq) block_time;
          hold1 = ComputeHold elapsed (ucast (xq_hold_time xreq));
          hold2 = ComputeHold elapsed (ucast (xq_hold_time_required other))
      in max hold1 hold2)"

definition ComputeMatchHold :: "'f xreq \<Rightarrow> 'f xreq \<Rightarrow> u64 \<Rightarrow> u64" where
  "ComputeMatchHold buyer seller block_time =
     max (ComputeNetHold buyer seller block_time) (ComputeNetHold seller buyer block_time)"

definition XREQ_WAIT_DISCOUNT_INTERVAL :: u64 where "XREQ_WAIT_DISCOUNT_INTERVAL = XCX_MATCHING_SECS_PER_EPOCH"
definition XREQ_RECALC_NOT :: u64 where "XREQ_RECALC_NOT = 0"

text \<open>The request and the rate after the call; the exponent is converted to a 32-bit \<open>int\<close>.\<close>

definition ComputeDiscount :: "'f ufops \<Rightarrow> 'f xreq \<Rightarrow> 'f \<Rightarrow> u64 \<Rightarrow> u64 \<Rightarrow> ('f xreq \<times> 'f) outcome" where
  "ComputeDiscount U xreq rate hold block_time =
     (if hold \<le> ucast (xq_min_wait_time xreq) \<or> uf_eq U rate (uf_zero U) \<or> uf_eq U (xq_wait_discount xreq) (uf_zero U)
      then Inr (xreq, rate)
      else let hold = hold - (ucast (xq_min_wait_time xreq) - 1);
               factor = uf_add U 0 (uf_lit U 1 0) (uf_neg U (xq_wait_discount xreq));
               factor = uf_power U factor (sint (ucast (1 + hold div XREQ_WAIT_DISCOUNT_INTERVAL) :: 32 word));
               new_rate = (if IsBuyer xreq then uf_div U 0 rate factor else uf_mul U 0 rate factor)
        in if uf_eq U new_rate rate then Inr (xreq, rate)
           else let recalc_time = block_time + XREQ_WAIT_DISCOUNT_INTERVAL - hold mod XREQ_WAIT_DISCOUNT_INTERVAL
             in if \<not> sint recalc_time \<ge> sint XREQ_RECALC_NEXT then Inl AssertFail
                else Inr (if xq_recalc_time xreq = XREQ_RECALC_NOT \<or> recalc_time < xq_recalc_time xreq
                          then xreq\<lparr>xq_recalc_time := recalc_time, xq_changed := True\<rparr> else xreq, new_rate))"

section \<open>Potential matches\<close>

definition SetMatch ::
  "bool \<Rightarrow> bigint \<Rightarrow> 'f \<Rightarrow> bool \<Rightarrow> 'f xreq \<Rightarrow> 'f \<Rightarrow> 'f xreq \<Rightarrow> 'f \<Rightarrow> ('db, 'f) bcstate \<Rightarrow> 'f xreq \<times> ('db, 'f) bcstate" where
  "SetMatch is_witness amount rate hold self self_net_rate other other_net_rate st =
     (let self = self\<lparr>xq_best_amount := amount, xq_best_rate := rate, xq_best_net_rate := self_net_rate,
                      xq_best_other_seqnum := xq_seqnum other, xq_best_other_xreqnum := xq_xreqnum other,
                      xq_best_other_matching_amount := xq_matching_amount other, xq_best_other_net_rate := other_net_rate\<rparr>;
          self = (if hold then self\<lparr>xq_recalc_time := XREQ_RECALC_NEXT\<rparr> else self);
          self = self\<lparr>xq_changed := True\<rparr>
      in (self, if \<not> is_witness \<and> \<not> xq_recalc self \<and> \<not> xq_recalc other then SetFatalError st else st))"

text \<open>One side of \<open>CheckMatch\<close>: compare the offer and record it.\<close>

definition offer_match ::
  "bigops \<Rightarrow> 'f ufops \<Rightarrow> bool \<Rightarrow> bigint \<Rightarrow> 'f \<Rightarrow> bool \<Rightarrow> 'f xreq \<Rightarrow> 'f \<Rightarrow> 'f xreq \<Rightarrow> 'f \<Rightarrow> ('db, 'f) bcstate
   \<Rightarrow> bool \<times> 'f xreq \<times> ('db, 'f) bcstate" where
  "offer_match B U is_witness amount rate hold self self_net_rate other other_net_rate st =
     (if CompareRates B U self self_net_rate other other_net_rate amount
      then (True, SetMatch is_witness amount rate hold self self_net_rate other other_net_rate st)
      else (False, self, st))"

definition save_changed ::
  "('db, 'f) matchops \<Rightarrow> 'f xreq \<Rightarrow> ('db, 'f) bcstate \<Rightarrow> ('f xreq \<times> ('db, 'f) bcstate) outcome" where
  "save_changed M xreq st =
     (if xq_changed xreq then
        let xreq = xreq\<lparr>xq_changed := False\<rparr>; (rc, db) = mo_XreqsUpdate M xreq (bc_db st)
        in if rc \<noteq> 0 then Inl DbException else Inr (xreq, upd_db db st)
      else Inr (xreq, st))"

text \<open>The checks that the queries are to guarantee.\<close>

definition pair_asserts :: "bigops \<Rightarrow> 'f ufops \<Rightarrow> 'f xreq \<Rightarrow> 'f xreq \<Rightarrow> bool" where
  "pair_asserts B U buyer seller \<longleftrightarrow>
     (xq_recalc buyer \<or> xq_recalc seller) \<and> IsBuyer buyer \<and> IsSeller seller \<and>
     big_true (xq_matching_amount seller) \<and> \<not> op_less B (xq_open_amount seller) (xq_matching_amount seller) \<and>
     \<not> uf_eq U (BaseAmountAsUniFloat U seller (xq_matching_amount seller)) (uf_zero U) \<and>
     big_true (xq_matching_amount buyer) \<and> \<not> op_less B (xq_open_amount buyer) (xq_matching_amount buyer) \<and>
     uf_le U (xq_base_costs buyer) (BaseAmountAsUniFloat U buyer (xq_matching_amount buyer)) \<and>
     uf_le U (xq_matching_rate_required seller) (xq_matching_rate_required buyer)"

definition excluded_types :: "'f xreq \<Rightarrow> 'f xreq \<Rightarrow> bool" where
  "excluded_types buyer seller \<longleftrightarrow>
     (xq_type buyer = CC_TYPE_XCX_SIMPLE_BUY \<or> xq_type buyer = CC_TYPE_XCX_MINING_BUY) \<and>
     xq_type seller \<noteq> CC_TYPE_XCX_SIMPLE_SELL \<and> xq_type seller \<noteq> CC_TYPE_XCX_MINING_SELL"

text \<open>
  The amount of a match and the rates both sides require for it; \<open>None\<close> where \<open>CheckMatch\<close> returns
  false.
\<close>

definition match_terms :: "bigops \<Rightarrow> 'f ufops \<Rightarrow> 'f xreq \<Rightarrow> 'f xreq \<Rightarrow> (bigint \<times> 'f \<times> 'f) option" where
  "match_terms B U buyer seller =
     (let less = op_less B (xq_matching_amount seller) (xq_matching_amount buyer);
          amount = (if less then xq_matching_amount seller else xq_matching_amount buyer)
      in if less \<and> uf_le U (BaseAmountAsUniFloat U buyer amount) (xq_base_costs buyer) then None
         else let part = op_less B amount (xq_matching_amount buyer);
                  buyer_rate_req = (if part then xreq_MatchRateRequired U buyer amount else xq_matching_rate_required buyer)
           in if part \<and> uf_less U buyer_rate_req (xq_matching_rate_required seller) then None
              else let part = op_less B amount (xq_matching_amount seller);
                       seller_rate_req = (if part then xreq_MatchRateRequired U seller amount else xq_matching_rate_required seller)
                in if part \<and> uf_less U buyer_rate_req seller_rate_req then None
                   else Some (amount, buyer_rate_req, seller_rate_req))"

text \<open>\<open>CheckMatch\<close>: whether a best match changed, the buyer, the seller and the state after the call.\<close>

definition CheckMatch ::
  "bigops \<Rightarrow> 'f ufops \<Rightarrow> ('db, 'f) matchops \<Rightarrow> 'f xreq \<Rightarrow> 'f xreq \<Rightarrow> u64 \<Rightarrow> ('db, 'f) bcstate
   \<Rightarrow> (bool \<times> 'f xreq \<times> 'f xreq \<times> ('db, 'f) bcstate) outcome" where
  "CheckMatch B U M buyer seller block_time st =
     (if excluded_types buyer seller then Inr (False, buyer, seller, st)
      else if \<not> pair_asserts B U buyer seller then Inl AssertFail
      else case match_terms B U buyer seller of
        None \<Rightarrow> Inr (False, buyer, seller, st)
      | Some (amount, buyer_rate_req, seller_rate_req) \<Rightarrow>
          if \<not> uf_le U seller_rate_req buyer_rate_req then Inl AssertFail
          else let match_rate = uf_average U buyer_rate_req seller_rate_req;
                   buyer_net_rate = NetRate U buyer amount match_rate;
                   seller_net_rate = NetRate U seller amount match_rate
            in if \<not> (big_true amount \<and> uf_le U (uf_zero U) match_rate \<and> uf_le U (uf_zero U) buyer_net_rate \<and>
                      uf_le U (uf_zero U) seller_net_rate) then Inl AssertFail
               else let hold = ComputeMatchHold buyer seller block_time
                 in if xq_expire_time buyer \<le> block_time + hold \<or> xq_expire_time seller \<le> block_time + hold
                    then Inr (False, buyer, seller, st)
                    else bind_outcome (if hold \<noteq> 0 then ComputeDiscount U buyer buyer_net_rate hold block_time
                                       else Inr (buyer, buyer_net_rate)) (\<lambda>(buyer, buyer_net_rate).
                         bind_outcome (if hold \<noteq> 0 then ComputeDiscount U seller seller_net_rate hold block_time
                                       else Inr (seller, seller_net_rate)) (\<lambda>(seller, seller_net_rate).
                      let (changed1, buyer, st) = offer_match B U (mo_is_witness M) amount match_rate (hold \<noteq> 0)
                                                    buyer buyer_net_rate seller seller_net_rate st;
                          (changed2, seller, st) = offer_match B U (mo_is_witness M) amount match_rate (hold \<noteq> 0)
                                                     seller seller_net_rate buyer buyer_net_rate st
                      in bind_outcome (save_changed M buyer st) (\<lambda>(buyer, st).
                         bind_outcome (save_changed M seller st) (\<lambda>(seller, st).
                           Inr (changed1 \<or> changed2, buyer, seller, st))))))"

section \<open>Mutual matches\<close>

definition mutual_asserts :: "bigops \<Rightarrow> 'f ufops \<Rightarrow> 'f xreq \<Rightarrow> 'f xreq \<Rightarrow> bigint \<Rightarrow> 'f \<Rightarrow> bool" where
  "mutual_asserts B U xreq other match_amount match_rate \<longleftrightarrow>
     (xq_for_witness xreq \<or> xq_xreqnum xreq \<noteq> 0) \<and>
     xq_best_other_seqnum xreq = xq_seqnum other \<and> xq_best_other_xreqnum xreq = xq_xreqnum other \<and>
     uf_eq U (xq_best_other_net_rate xreq) (xq_best_net_rate other) \<and>
     xq_best_amount xreq = xq_best_amount other \<and> uf_eq U (xq_best_rate xreq) (xq_best_rate other) \<and>
     big_true match_amount \<and> \<not> op_less B (xq_matching_amount xreq) match_amount \<and>
     \<not> op_less B (xq_open_amount xreq) (xq_matching_amount xreq) \<and> \<not> op_less B (xq_max_amount xreq) (xq_open_amount xreq) \<and>
     big_true (xq_best_amount xreq) \<and> uf_le U (uf_zero U) (xq_best_rate xreq) \<and> uf_le U (uf_zero U) (xq_best_net_rate xreq) \<and>
     uf_le U (uf_zero U) (xq_open_rate_required xreq) \<and> uf_le U (uf_zero U) (xq_matching_rate_required xreq) \<and>
     uf_less U (uf_zero U) match_rate"

text \<open>The request after \<open>UpdateMutualMatch\<close>, before it is written to the table.\<close>

definition matched_xreq ::
  "bigops \<Rightarrow> 'f ufops \<Rightarrow> 'f xreq \<Rightarrow> bigint \<Rightarrow> 'f \<Rightarrow> u64 \<Rightarrow> u64 \<Rightarrow> u64 \<Rightarrow> 'f xreq" where
  "matched_xreq B U xreq match_amount match_rate passnum block_time hold =
     (let xreq = xreq\<lparr>xq_matching_amount := if xq_foreign_address xreq \<noteq> [] then ofULong B 0
                                          else op_sub B (xq_matching_amount xreq) match_amount\<rparr>;
          xreq = xreq\<lparr>xq_matching_rate_required := xreq_MatchRateRequired U xreq (xq_matching_amount xreq)\<rparr>;
          epoch = block_time div XCX_MATCHING_SECS_PER_EPOCH;
          xreq = (if xq_pending_match_epoch xreq \<noteq> epoch
                  then xreq\<lparr>xq_pending_match_epoch := epoch, xq_pending_match_amount := match_amount,
                            xq_pending_match_rate := match_rate, xq_pending_match_hold_time := ucast hold\<rparr> else xreq)
      in xreq\<lparr>xq_last_matched := passnum\<rparr>)"

definition UpdateMutualMatch ::
  "bigops \<Rightarrow> 'f ufops \<Rightarrow> ('db, 'f) matchops \<Rightarrow> 'f xreq \<Rightarrow> 'f xreq \<Rightarrow> bigint \<Rightarrow> 'f \<Rightarrow> u64 \<Rightarrow> u64 \<Rightarrow> u64 \<Rightarrow> ('db, 'f) bcstate
   \<Rightarrow> ('f xreq \<times> ('db, 'f) bcstate) outcome" where
  "UpdateMutualMatch B U M xreq other match_amount match_rate passnum block_time hold st =
     (if \<not> mutual_asserts B U xreq other match_amount match_rate then Inl AssertFail
      else let xreq = matched_xreq B U xreq match_amount match_rate passnum block_time hold;
               (rc, db) = mo_XreqsUpdate M xreq (bc_db st)
        in if rc \<noteq> 0 then Inl DbException else Inr (xreq, upd_db db st))"

definition UpdateOpenAmount :: "bigops \<Rightarrow> 'f ufops \<Rightarrow> 'f xreq \<Rightarrow> bigint \<Rightarrow> 'f xreq outcome" where
  "UpdateOpenAmount B U xreq match_amount =
     (if op_less B (xq_open_amount xreq) match_amount then Inl AssertFail
      else let xreq = xreq\<lparr>xq_open_amount := op_sub B (xq_open_amount xreq) match_amount\<rparr>;
               xreq = xreq\<lparr>xq_open_rate_required := xreq_MatchRateRequired U xreq (xq_open_amount xreq)\<rparr>
        in Inr (xreq\<lparr>xq_recalc_time := XREQ_RECALC_NEXT\<rparr>))"

definition SaveXreq :: "('db, 'f) matchops \<Rightarrow> 'f xreq \<Rightarrow> ('db, 'f) bcstate \<Rightarrow> int \<times> ('db, 'f) bcstate" where
  "SaveXreq M xreq st =
     (let (rc, db) = (if big_true (xq_open_amount xreq) then mo_XreqsUpdate M xreq (bc_db st)
                      else mo_XreqsDelete M xreq (bc_db st))
      in (rc, upd_db db st))"

section \<open>Positions of a scan\<close>

text \<open>\<open>Clear\<close> sets every field to zero. \<open>INT64_MIN\<close> as an asset is the word \<open>2 ^ 63\<close>.\<close>

definition int64_min :: int where "int64_min = - (2 ^ 63)"
definition asset_min :: u64 where "asset_min = 2 ^ 63"

definition clear_xreq :: "bigops \<Rightarrow> 'f ufops \<Rightarrow> 'f xreq" where
  "clear_xreq B U = (let z = ofULong B 0; f = uf_zero U in
     \<lparr>xq_type = 0, xq_expire_time = 0, xq_destination = z, xq_min_amount = z, xq_max_amount = z, xq_open_amount = z,
      xq_best_amount = z, xq_signing_public_key = replicate 32 0, xq_objid = replicate 16 0, xq_seqnum = 0, xq_linked_seqnum = 0,
      xq_best_other_seqnum = 0, xq_blocktime = 0, xq_xreqnum = 0, xq_base_asset = 0, xq_quote_asset = 0,
      xq_net_rate_required = f, xq_wait_discount = f, xq_base_costs = f, xq_quote_costs = f, xq_best_rate = f,
      xq_consideration_required = 0, xq_consideration_offered = 0, xq_pledge = 0, xq_hold_time = 0,
      xq_hold_time_required = 0, xq_min_wait_time = 0, xq_accept_time_required = 0, xq_accept_time_offered = 0,
      xq_payment_time = 0, xq_confirmations = 0,
      xq_flags = \<lparr>add_immediately_to_blockchain = False, auto_accept_matches = False, no_minimum_after_first_match = False,
        must_liquidate_crossing_minimum = False, must_liquidate_below_minimum = False, has_signing_key = False\<rparr>,
      xq_foreign_asset = [], xq_foreign_address = [],
      xq_matching_amount = z, xq_best_other_matching_amount = z, xq_pending_match_amount = z,
      xq_db_search_max_xreqnum = 0, xq_db_search_max = 0, xq_recalc_time = 0, xq_last_matched = 0, xq_best_other_xreqnum = 0,
      xq_pending_match_epoch = 0, xq_pending_match_order = 0, xq_open_rate_required = f, xq_matching_rate_required = f,
      xq_best_net_rate = f, xq_best_other_net_rate = f, xq_pending_match_rate = f, xq_pending_match_hold_time = 0,
      xq_for_testnet = False, xq_for_witness = False, xq_recalc = False, xq_changed = False\<rparr>)"

definition SearchInitPairBase :: "bigops \<Rightarrow> 'f ufops \<Rightarrow> bool \<Rightarrow> u64 \<Rightarrow> 'f xreq" where
  "SearchInitPairBase B U for_witness max_xreqnum =
     (clear_xreq B U)\<lparr>xq_for_witness := for_witness, xq_base_asset := asset_min, xq_xreqnum := if for_witness then 0 else 1,
        xq_db_search_max_xreqnum := if for_witness then 0 else max_xreqnum\<rparr>"

definition SearchInitPairQuote :: "bigops \<Rightarrow> 'f ufops \<Rightarrow> 'f xreq \<Rightarrow> 'f xreq" where
  "SearchInitPairQuote B U base =
     (clear_xreq B U)\<lparr>xq_for_witness := xq_for_witness base, xq_base_asset := xq_base_asset base, xq_quote_asset := asset_min,
        xq_foreign_asset := [], xq_xreqnum := if xq_for_witness base then 0 else 1,
        xq_db_search_max_xreqnum := xq_db_search_max_xreqnum base\<rparr>"

definition SearchAdvancePairBase :: "'f xreq \<Rightarrow> 'f xreq \<Rightarrow> 'f xreq" where
  "SearchAdvancePairBase match xreq = xreq\<lparr>xq_base_asset := xq_base_asset match + 1\<rparr>"

definition SearchAdvancePairQuote :: "'f xreq \<Rightarrow> 'f xreq \<Rightarrow> 'f xreq" where
  "SearchAdvancePairQuote match xreq =
     xreq\<lparr>xq_quote_asset := xq_quote_asset match, xq_foreign_asset := xq_foreign_asset match\<rparr>"

definition MatchingInitMajor :: "bigops \<Rightarrow> 'f ufops \<Rightarrow> 'f xreq \<Rightarrow> 'f xreq" where
  "MatchingInitMajor B U pair =
     (clear_xreq B U)\<lparr>xq_for_witness := xq_for_witness pair, xq_base_asset := xq_base_asset pair,
        xq_quote_asset := xq_quote_asset pair, xq_foreign_asset := xq_foreign_asset pair,
        xq_open_rate_required := uf_neg U (uf_max U), xq_xreqnum := if xq_for_witness pair then 0 else 1,
        xq_db_search_max_xreqnum := xq_db_search_max_xreqnum pair, xq_seqnum := int64_min\<rparr>"

definition MatchingInitTypeRange :: "nat \<Rightarrow> bool \<Rightarrow> 'f xreq \<Rightarrow> 'f xreq" where
  "MatchingInitTypeRange type for_query xreq =
     (if type = CC_TYPE_XCX_SIMPLE_BUY \<or> type = CC_TYPE_XCX_MINING_BUY then
        xreq\<lparr>xq_type := CC_TYPE_XCX_SIMPLE_SELL,
             xq_db_search_max := if for_query then CC_TYPE_XCX_MINING_SELL else CC_TYPE_XCX_SIMPLE_SELL\<rparr>
      else if type = CC_TYPE_XCX_NAKED_SELL \<or> type = CC_TYPE_XCX_REQ_SELL then
        xreq\<lparr>xq_type := CC_TYPE_XCX_NAKED_BUY, xq_db_search_max := CC_TYPE_XCX_REQ_BUY\<rparr>
      else if type = CC_TYPE_XCX_NAKED_BUY then
        xreq\<lparr>xq_type := CC_TYPE_XCX_NAKED_SELL, xq_db_search_max := CC_TYPE_XCX_REQ_SELL\<rparr>
      else xreq\<lparr>xq_type := 0, xq_db_search_max := 0\<rparr>)"

definition MatchingInitMinor :: "bigops \<Rightarrow> 'f ufops \<Rightarrow> 'f xreq \<Rightarrow> 'f xreq" where
  "MatchingInitMinor B U major =
     (MatchingInitTypeRange (xq_type major) False (clear_xreq B U))\<lparr>xq_for_witness := xq_for_witness major,
        xq_base_asset := xq_base_asset major, xq_quote_asset := xq_quote_asset major, xq_foreign_asset := xq_foreign_asset major,
        xq_open_rate_required := uf_neg U (uf_max U), xq_xreqnum := if xq_for_witness major then 0 else 1,
        xq_db_search_max_xreqnum := xq_db_search_max_xreqnum major, xq_seqnum := int64_min,
        xq_consideration_required := xq_consideration_offered major, xq_consideration_offered := xq_consideration_required major,
        xq_pledge := xq_pledge major, xq_accept_time_required := xq_accept_time_offered major,
        xq_accept_time_offered := xq_accept_time_required major, xq_payment_time := xq_payment_time major,
        xq_confirmations := xq_confirmations major, xq_min_amount := xq_matching_amount major,
        xq_matching_amount := xq_min_amount major, xq_matching_rate_required := xq_matching_rate_required major,
        xq_recalc := \<not> xq_recalc major\<rparr>"

definition MatchingAdvanceMajor :: "'f ufops \<Rightarrow> 'f xreq \<Rightarrow> 'f xreq \<Rightarrow> 'f xreq" where
  "MatchingAdvanceMajor U match xreq =
     xreq\<lparr>xq_open_rate_required := SignedRate U match (xq_open_rate_required match), xq_xreqnum := xq_xreqnum match,
          xq_seqnum := xq_seqnum match\<rparr>"

definition MatchingAdvanceMinor :: "'f ufops \<Rightarrow> 'f xreq \<Rightarrow> 'f xreq \<Rightarrow> 'f xreq" where
  "MatchingAdvanceMinor U match xreq =
     xreq\<lparr>xq_open_rate_required := SignedRate U match (xq_open_rate_required match), xq_xreqnum := xq_xreqnum match,
          xq_seqnum := xq_seqnum match\<rparr>"

definition MatchingInitScan :: "bigops \<Rightarrow> 'f ufops \<Rightarrow> bool \<Rightarrow> 'f xreq" where
  "MatchingInitScan B U for_witness =
     (clear_xreq B U)\<lparr>xq_for_witness := for_witness, xq_xreqnum := if for_witness then 0 else 1, xq_seqnum := int64_min\<rparr>"

definition MatchingAdvanceScan :: "'f xreq \<Rightarrow> 'f xreq \<Rightarrow> 'f xreq" where
  "MatchingAdvanceScan match xreq =
     (if xq_for_witness xreq \<and> xq_xreqnum xreq = 0 then xreq\<lparr>xq_seqnum := xq_seqnum match + 1\<rparr>
      else xreq\<lparr>xq_xreqnum := xq_xreqnum match + 1, xq_seqnum := int64_min\<rparr>)"

definition MatchingCheckRestartScan :: "bool \<Rightarrow> 'f xreq \<Rightarrow> 'f xreq \<Rightarrow> bool \<times> 'f xreq" where
  "MatchingCheckRestartScan not_found match xreq =
     (if xq_for_witness xreq \<and> (not_found \<or> (xq_xreqnum xreq = 0 \<and> xq_xreqnum match \<noteq> 0))
      then (True, xreq\<lparr>xq_xreqnum := 1, xq_seqnum := int64_min\<rparr>) else (False, xreq))"

end
