(* ===== verification/Matching.thy ===== *)
theory Matching
  imports Match_Reqs
begin

text \<open>
  The matching engine (ccnode/src/process-xreq.cpp: \<open>AddPendingRequest\<close>, \<open>ExpireXreq\<close>, \<open>ExpireXreqs\<close>, \<open>PruneXreqs\<close>,
  \<open>FindMutualMatches\<close>, \<open>AddMiningMatches\<close>, \<open>MatchReqs\<close>, \<open>MakeMatchesPersistent\<close>, \<open>SynchronizeMatching\<close> and the
  functions around them; ccnode/src/witness.cpp: \<open>ResetExchangeWorkTime\<close>, \<open>UpdateExchangeWorkTime\<close>).

  In every epoch the matching thread scans the buy and sell requests for pairs that are the best match of
  each other. At the first block of the next epoch the main thread waits for it, makes the matches
  persistent, closes requests that have expired or are too many, and starts the next round. The first
  argument of a function that loops bounds the passes of each loop. An error code of the source other
  than zero is \<open>True\<close> here.
\<close>

section \<open>The time of the next exchange work of the witness\<close>

definition ResetExchangeWorkTime :: "bool \<Rightarrow> ('db, 'f) bcstate \<Rightarrow> ('db, 'f) bcstate" where
  "ResetExchangeWorkTime freeze st =
     st\<lparr>bc_exchange_work_time := 0, bc_pending_exchange_work_time := if freeze then 1 else 0\<rparr>"

definition UpdateExchangeWorkTime :: "u64 \<Rightarrow> bool \<Rightarrow> ('db, 'f) bcstate \<Rightarrow> ('db, 'f) bcstate" where
  "UpdateExchangeWorkTime ts bnotify st =
     (let pending = bc_pending_exchange_work_time st;
          epoch_end = (ts div XCX_MATCHING_SECS_PER_EPOCH + 1) * XCX_MATCHING_SECS_PER_EPOCH
      in if ts \<noteq> 0 \<and> (pending = 1 \<or> pending \<noteq> 0 \<and> pending \<le> epoch_end) then st
         else let st = (if ts \<noteq> 0 then st\<lparr>bc_pending_exchange_work_time := epoch_end\<rparr> else st)
           in if \<not> bnotify \<or> bc_pending_exchange_work_time st \<le> 1 then st
              else st\<lparr>bc_exchange_work_time := bc_pending_exchange_work_time st\<rparr>)"

section \<open>New, expired and surplus requests\<close>

definition AddPendingRequest ::
  "('db, 'f) settle_env \<Rightarrow> ('db, 'f) indexops \<Rightarrow> txpay \<Rightarrow> int \<Rightarrow> byte list \<Rightarrow> ('db, 'f) bcstate \<Rightarrow> (bool \<times> ('db, 'f) bcstate) outcome" where
  "AddPendingRequest E I tx sn objid st =
     (case ix_xtx_from_wire I (tp_tag_type tx) (tp_append_data tx) of
        Some (XtxReq xreq) \<Rightarrow>
          let xreq = xreq\<lparr>xq_seqnum := sn, xq_objid := objid\<rparr>
          in if xq_type xreq \<noteq> CC_TYPE_XCX_MINING_TRADE then
               let (rc, _, st) = AddRequest E I xreq st in Inr (rc, st)
             else bind_outcome (ConvertTradeToBuy xreq) (\<lambda>buy.
                  bind_outcome (ConvertTradeToSell xreq) (\<lambda>sell.
                    let (sn2, overflow, sq) = NextNum (bc_xreq_seqnum st);
                        st = st\<lparr>bc_xreq_seqnum := sq, bc_fatal := bc_fatal st \<or> overflow\<rparr>;
                        sell = sell\<lparr>xq_seqnum := sn2\<rparr>;
                        (rc, buy, st) = AddRequest E I (buy\<lparr>xq_linked_seqnum := sn2\<rparr>) st
                    in if rc then Inr (True, st)
                       else let (rc, _, st) = AddRequest E I (sell\<lparr>xq_linked_seqnum := xq_seqnum buy\<rparr>) st
                         in Inr (rc, st)))
      | _ \<Rightarrow> Inr (True, st))"

definition lift_outputs ::
  "(bool \<times> bigint \<times> txbuf \<times> ('db, 'f) xstate) outcome \<Rightarrow> ('db, 'f) bcstate \<Rightarrow> (bool \<times> txbuf \<times> ('db, 'f) bcstate) outcome" where
  "lift_outputs r st = bind_outcome r (\<lambda>(rc, _, tb, x). Inr (rc, tb, st\<lparr>bc_x := x\<rparr>))"

text \<open>The amount given back for a request that is closed: all that is open, or the pledge of a buyer.\<close>

definition expire_amount :: "bigops \<Rightarrow> 'f xreq \<Rightarrow> bigint" where
  "expire_amount B xreq =
     (if IsBuyer xreq then op_div B (op_mul B (xq_open_amount xreq) (ofULong B (ucast (xq_pledge xreq)))) (ofULong B 100)
      else xq_open_amount xreq)"

definition ExpireXreq ::
  "nat \<Rightarrow> ('db, 'f) settle_env \<Rightarrow> ('db, 'f) matchops \<Rightarrow> 'f xreq \<Rightarrow> txbuf \<Rightarrow> ('db, 'f) bcstate
   \<Rightarrow> (bool \<times> txbuf \<times> ('db, 'f) bcstate) outcome" where
  "ExpireXreq fuel E M xreq tb st =
     (let (rc, db) = mo_XreqsDelete M xreq (bc_db st); st = upd_db db st
      in if rc \<noteq> 0 then Inr (True, tb, st)
         else if xq_xreqnum xreq \<noteq> 0 \<and> big_true (xq_open_amount xreq) then
           let disposition = (if op_less (se_B E) (xq_open_amount xreq) (xq_max_amount xreq)
                              then XMATCH_REQ_DISPOSITION_EXPIRED_REM else XMATCH_REQ_DISPOSITION_EXPIRED_ALL);
               (rc, db) = mo_XmatchreqUpdate M (xq_xreqnum xreq) disposition (bc_db st); st = upd_db db st
           in if rc \<noteq> 0 then Inr (True, tb, st)
              else if TypeHasBareMsg (xq_type xreq) then Inr (False, tb, st)
              else lift_outputs (CreateTxOutputs fuel E (xq_base_asset xreq) (expire_amount (se_B E) xreq) (xq_destination xreq)
                     (default_domain (se_P E)) True True 0 False False tb (bc_x st)) st
         else Inr (False, tb, st))"

fun ExpireXreqs ::
  "nat \<Rightarrow> nat \<Rightarrow> ('db, 'f) settle_env \<Rightarrow> ('db, 'f) matchops \<Rightarrow> u64 \<Rightarrow> txbuf \<Rightarrow> ('db, 'f) bcstate
   \<Rightarrow> (bool \<times> txbuf \<times> ('db, 'f) bcstate) outcome" where
  "ExpireXreqs 0 fuel E M block_time tb st = Inl OutOfFuel"
| "ExpireXreqs (Suc n) fuel E M block_time tb st =
     (if xs_shutdown (bc_x st) then Inr (False, tb, st)
      else let (rc, xreq) = mo_XreqsSelectExpire M block_time (bc_db st)
        in if rc > 0 then Inr (False, tb, st)
           else if rc \<noteq> 0 then Inr (True, tb, st)
           else if \<not> xq_expire_time xreq \<le> block_time then Inl AssertFail
           else bind_outcome (ExpireXreq fuel E M xreq tb st) (\<lambda>(rc, tb, st).
             if rc then Inr (True, tb, st) else ExpireXreqs n fuel E M block_time tb st))"

definition XREQ_MAX_PERSISTENT_COUNT :: nat where "XREQ_MAX_PERSISTENT_COUNT = 1200"
definition XREQ_MIN_NON_PERSISTENT_COUNT :: nat where "XREQ_MIN_NON_PERSISTENT_COUNT = 20000"

text \<open>A request is closed together with the request it is linked to, if that one is still there.\<close>

definition expire_linked ::
  "nat \<Rightarrow> ('db, 'f) settle_env \<Rightarrow> ('db, 'f) matchops \<Rightarrow> 'f xreq \<Rightarrow> txbuf \<Rightarrow> ('db, 'f) bcstate
   \<Rightarrow> (bool \<times> txbuf \<times> ('db, 'f) bcstate) outcome" where
  "expire_linked fuel E M xreq tb st =
     bind_outcome (ExpireXreq fuel E M xreq tb st) (\<lambda>(rc, tb, st).
       if rc then Inr (True, tb, st)
       else if xq_linked_seqnum xreq = 0 then Inr (False, tb, st)
       else let (rc, other) = mo_XreqsSelectSeqnum M (xq_linked_seqnum xreq) False (bc_db st)
         in if rc < 0 then Inr (True, tb, st)
            else if rc \<noteq> 0 then Inr (False, tb, st)
            else ExpireXreq fuel E M other tb st)"

text \<open>The loop of one pass of \<open>PruneXreqs\<close>; \<open>second\<close> tells the second pass.\<close>

fun prune_pass ::
  "nat \<Rightarrow> nat \<Rightarrow> ('db, 'f) settle_env \<Rightarrow> ('db, 'f) matchops \<Rightarrow> bool \<Rightarrow> u64 \<Rightarrow> u64 \<Rightarrow> txbuf \<Rightarrow> ('db, 'f) bcstate
   \<Rightarrow> (bool \<times> txbuf \<times> ('db, 'f) bcstate) outcome" where
  "prune_pass 0 fuel E M second new_xreqnum next_xreqnum tb st = Inl OutOfFuel"
| "prune_pass (Suc n) fuel E M second new_xreqnum next_xreqnum tb st =
     (if xs_shutdown (bc_x st) then Inr (False, tb, st)
      else let persistent = mo_XreqCountPersistent M (bc_db st); pending = mo_XreqCountPending M (bc_db st);
               bpersistent = (persistent > XREQ_MAX_PERSISTENT_COUNT)
        in if \<not> bpersistent \<and> persistent + pending \<le> XREQ_MAX_PERSISTENT_COUNT + XREQ_MIN_NON_PERSISTENT_COUNT
           then Inr (False, tb, st)
           else let (rc, xreq) = mo_XreqsSelectXreqnum M (if bpersistent then next_xreqnum else 0) 0 (bc_db st)
             in if rc > 0 \<and> \<not> second then Inr (False, tb, st)
                else if rc \<noteq> 0 then Inr (True, tb, st)
                else if bpersistent \<noteq> (xq_xreqnum xreq \<noteq> 0) then Inl AssertFail
                else let next_xreqnum = xq_xreqnum xreq + 1
                  in if \<not> second \<and> bpersistent \<and> xq_xreqnum xreq \<ge> new_xreqnum then Inr (False, tb, st)
                     else if \<not> second \<and> bpersistent \<and> xq_open_amount xreq = xq_max_amount xreq \<and>
                             \<not> uf_eq (se_U E) (xq_pending_match_rate xreq) (uf_zero (se_U E))
                     then prune_pass n fuel E M second new_xreqnum next_xreqnum tb st
                     else bind_outcome (expire_linked fuel E M xreq tb st) (\<lambda>(rc, tb, st).
                       if rc then Inr (True, tb, st)
                       else prune_pass n fuel E M second new_xreqnum next_xreqnum tb st))"

definition PruneXreqs ::
  "nat \<Rightarrow> nat \<Rightarrow> ('db, 'f) settle_env \<Rightarrow> ('db, 'f) matchops \<Rightarrow> u64 \<Rightarrow> txbuf \<Rightarrow> ('db, 'f) bcstate
   \<Rightarrow> (bool \<times> txbuf \<times> ('db, 'f) bcstate) outcome" where
  "PruneXreqs n fuel E M new_xreqnum tb st =
     bind_outcome (prune_pass n fuel E M False new_xreqnum 1 tb st) (\<lambda>(rc, tb, st).
       if rc then Inr (True, tb, st) else prune_pass n fuel E M True new_xreqnum 1 tb st)"

section \<open>A round of matching\<close>

definition scan_asserts :: "'f ufops \<Rightarrow> 'f xreq \<Rightarrow> 'f xreq \<Rightarrow> bool" where
  "scan_asserts U major minor \<longleftrightarrow>
     IsBuyer major \<and> uf_le U (xq_matching_rate_required major) (xq_net_rate_required major) \<and>
     big_true (xq_best_amount major) \<and> uf_le U (xq_best_rate major) (xq_matching_rate_required major) \<and>
     IsSeller minor \<and> uf_le U (xq_net_rate_required minor) (xq_matching_rate_required minor) \<and>
     big_true (xq_matching_amount minor) \<and> uf_le U (xq_matching_rate_required minor) (xq_best_rate minor) \<and>
     xq_best_amount major = xq_best_amount minor \<and> uf_eq U (xq_best_rate major) (xq_best_rate minor) \<and>
     xq_best_other_matching_amount major = xq_matching_amount minor \<and>
     xq_best_other_matching_amount minor = xq_matching_amount major \<and>
     xq_base_asset minor = xq_base_asset major \<and> xq_quote_asset minor = xq_quote_asset major \<and>
     xq_foreign_asset minor = xq_foreign_asset major \<and>
     xq_consideration_required minor \<le> xq_consideration_required major \<and>
     xq_consideration_offered minor \<ge> xq_consideration_offered major \<and> xq_pledge minor \<le> xq_pledge major \<and>
     xq_accept_time_required minor \<le> xq_accept_time_required major \<and>
     xq_accept_time_offered minor \<ge> xq_accept_time_offered major \<and>
     xq_payment_time minor \<le> xq_payment_time major \<and> xq_confirmations minor \<le> xq_confirmations major"

text \<open>The further checks of a match that is not on hold; \<open>CheckGE a b\<close> is \<open>CheckLE b a\<close>.\<close>

definition final_asserts :: "'f ufops \<Rightarrow> u64 \<Rightarrow> 'f xreq \<Rightarrow> 'f xreq \<Rightarrow> bool" where
  "final_asserts U block_time major minor \<longleftrightarrow>
     uf_le U (xq_best_net_rate major) (xq_net_rate_required major) \<and>
     uf_check_le U (xq_best_rate major) (xq_best_net_rate major) \<and>
     uf_le U (xq_net_rate_required minor) (xq_best_net_rate minor) \<and>
     uf_check_le U (xq_best_net_rate minor) (xq_best_rate minor) \<and>
     xq_pending_match_order minor = 0 \<and>
     xq_pending_match_epoch minor \<noteq> block_time div XCX_MATCHING_SECS_PER_EPOCH"

definition update_both ::
  "('db, 'f) settle_env \<Rightarrow> ('db, 'f) matchops \<Rightarrow> u64 \<Rightarrow> u64 \<Rightarrow> u64 \<Rightarrow> 'f xreq \<Rightarrow> 'f xreq \<Rightarrow> ('db, 'f) bcstate
   \<Rightarrow> ('f xreq \<times> 'f xreq \<times> ('db, 'f) bcstate) outcome" where
  "update_both E M passnum block_time hold major minor st =
     (let match_amount = xq_best_amount major; match_rate = xq_best_rate major
      in bind_outcome (UpdateMutualMatch (se_B E) (se_U E) M major minor match_amount match_rate passnum block_time hold st)
           (\<lambda>(major, st).
         bind_outcome (UpdateMutualMatch (se_B E) (se_U E) M minor major match_amount match_rate passnum block_time hold st)
           (\<lambda>(minor, st). Inr (major, minor, st))))"

text \<open>\<open>FindMutualMatches\<close>: \<open>have_matches\<close>, \<open>next_match_index\<close> and the state after the loop.\<close>

fun find_mutual_loop ::
  "nat \<Rightarrow> ('db, 'f) settle_env \<Rightarrow> ('db, 'f) matchops \<Rightarrow> u64 \<Rightarrow> u64 \<Rightarrow> bool \<Rightarrow> 'f xreq \<Rightarrow> bool \<Rightarrow> u64 \<Rightarrow> ('db, 'f) bcstate
   \<Rightarrow> (bool \<times> u64 \<times> ('db, 'f) bcstate) outcome" where
  "find_mutual_loop 0 E M passnum block_time for_witness cur have_matches idx st = Inl OutOfFuel"
| "find_mutual_loop (Suc n) E M passnum block_time for_witness cur have_matches idx st =
     (if xs_shutdown (bc_x st) then Inr (have_matches, idx, st)
      else let (rc, major, minor) = mo_MatchingSelectMatch M cur (bc_db st)
        in if rc < 0 then Inl DbException
           else let (restart, cur) = MatchingCheckRestartScan (rc \<noteq> 0) major cur
             in if restart then find_mutual_loop n E M passnum block_time for_witness cur have_matches idx st
                else if rc \<noteq> 0 then Inr (have_matches, idx, st)
                else let hold = ComputeMatchHold major minor block_time
                  in if for_witness \<or> \<not> scan_asserts (se_U E) major minor then Inl AssertFail
                     else if hold = 0 \<and> \<not> final_asserts (se_U E) block_time major minor then Inl AssertFail
                     else let minor = (if hold = 0 then minor\<lparr>xq_pending_match_order := idx\<rparr> else minor);
                              idx = (if hold = 0 then idx + 1 else idx)
                       in bind_outcome (update_both E M passnum block_time hold major minor st) (\<lambda>(major, minor, st).
                            find_mutual_loop n E M passnum block_time for_witness (MatchingAdvanceScan major cur) True idx
                              (UpdateExchangeWorkTime (block_time + hold) False st)))"

definition FindMutualMatches ::
  "nat \<Rightarrow> ('db, 'f) settle_env \<Rightarrow> ('db, 'f) matchops \<Rightarrow> u64 \<Rightarrow> u64 \<Rightarrow> u64 \<Rightarrow> bool \<Rightarrow> ('db, 'f) bcstate
   \<Rightarrow> (bool \<times> u64 \<times> ('db, 'f) bcstate) outcome" where
  "FindMutualMatches fuel E M passnum next_match_index block_time for_witness st =
     find_mutual_loop fuel E M passnum block_time for_witness (MatchingInitScan (se_B E) (se_U E) for_witness) False
       next_match_index st"

text \<open>
  A linked pair of mining requests. \<open>None\<close>: the pair is not matched and the scan goes on, with the state
  in which it does.
\<close>

definition mining_pair_asserts :: "'f ufops \<Rightarrow> 'f xreq \<Rightarrow> 'f xreq \<Rightarrow> bool" where
  "mining_pair_asserts U major minor \<longleftrightarrow>
     xq_seqnum minor = xq_linked_seqnum major \<and> xq_type minor = CC_TYPE_XCX_MINING_SELL \<and>
     xq_min_amount minor = xq_max_amount minor \<and> xq_max_amount major = xq_max_amount minor \<and>
     uf_eq U (xq_net_rate_required major) (xq_net_rate_required minor)"

definition mining_minor ::
  "('db, 'f) matchops \<Rightarrow> 'f ufops \<Rightarrow> u64 \<Rightarrow> u64 \<Rightarrow> 'f xreq \<Rightarrow> ('db, 'f) bcstate \<Rightarrow> ('f xreq option \<times> ('db, 'f) bcstate) outcome" where
  "mining_minor M U block_time max_xreqnum major st =
     (if xq_expire_time major \<le> block_time \<or> \<not> big_true (xq_matching_amount major) \<or> xq_linked_seqnum major = 0
      then Inr (None, st)
      else if \<not> (xq_type major = CC_TYPE_XCX_MINING_BUY \<and> xq_min_amount major = xq_max_amount major) then Inl AssertFail
      else let (rc, minor) = mo_XreqsSelectSeqnum M (xq_linked_seqnum major) False (bc_db st)
        in if rc < 0 then Inl DbException
           else if rc \<noteq> 0 then Inr (None, upd_db (snd (mo_XreqsUpdate M (major\<lparr>xq_linked_seqnum := 0\<rparr>) (bc_db st))) st)
           else if xq_xreqnum minor > max_xreqnum \<or> xq_expire_time minor \<le> block_time \<or>
                   \<not> big_true (xq_matching_amount minor) \<or> xq_linked_seqnum minor \<noteq> xq_seqnum major then Inr (None, st)
           else if \<not> mining_pair_asserts U major minor then Inl AssertFail
           else if ComputeMatchHold major minor block_time \<noteq> 0 then Inr (None, st)
           else Inr (Some minor, st))"

definition match_mining_pair ::
  "('db, 'f) settle_env \<Rightarrow> ('db, 'f) matchops \<Rightarrow> u64 \<Rightarrow> u64 \<Rightarrow> 'f xreq \<Rightarrow> 'f xreq \<Rightarrow> ('db, 'f) bcstate \<Rightarrow> ('db, 'f) bcstate outcome" where
  "match_mining_pair E M block_time idx major minor st =
     (let z = ofULong (se_B E) 0
      in bind_outcome (CheckMatch (se_B E) (se_U E) M (major\<lparr>xq_recalc := True, xq_best_amount := z\<rparr>)
             (minor\<lparr>xq_best_amount := z\<rparr>) block_time st) (\<lambda>(have_match, major, minor, st).
           if \<not> have_match \<or> xq_pending_match_order minor \<noteq> 0 \<or>
              xq_pending_match_epoch minor = block_time div XCX_MATCHING_SECS_PER_EPOCH then Inl AssertFail
           else bind_outcome (update_both E M 0 block_time 0 major (minor\<lparr>xq_pending_match_order := idx\<rparr>) st)
             (\<lambda>(_, _, st). Inr st)))"

fun mining_loop ::
  "nat \<Rightarrow> ('db, 'f) settle_env \<Rightarrow> ('db, 'f) matchops \<Rightarrow> u64 \<Rightarrow> u64 \<Rightarrow> u64 \<Rightarrow> u64 \<Rightarrow> bool \<Rightarrow> ('db, 'f) bcstate
   \<Rightarrow> (bool \<times> ('db, 'f) bcstate) outcome" where
  "mining_loop 0 E M block_time max_xreqnum next_xreqnum idx changed st = Inl OutOfFuel"
| "mining_loop (Suc n) E M block_time max_xreqnum next_xreqnum idx changed st =
     (if xs_shutdown (bc_x st) \<or> next_xreqnum > max_xreqnum then Inr (changed, st)
      else let (rc, major) = mo_XreqsSelectXreqnum M next_xreqnum CC_TYPE_XCX_MINING_BUY (bc_db st)
        in if rc < 0 then Inl DbException
           else if rc \<noteq> 0 \<or> xq_xreqnum major > max_xreqnum then Inr (changed, st)
           else let next_xreqnum = xq_xreqnum major + 1
             in bind_outcome (mining_minor M (se_U E) block_time max_xreqnum major st) (\<lambda>(r, st).
                  case r of
                    None \<Rightarrow> mining_loop n E M block_time max_xreqnum next_xreqnum idx changed st
                  | Some minor \<Rightarrow>
                      bind_outcome (match_mining_pair E M block_time idx major minor st) (\<lambda>st.
                        mining_loop n E M block_time max_xreqnum next_xreqnum (idx + 1) True st)))"

definition AddMiningMatches ::
  "nat \<Rightarrow> ('db, 'f) settle_env \<Rightarrow> ('db, 'f) matchops \<Rightarrow> u64 \<Rightarrow> u64 \<Rightarrow> u64 \<Rightarrow> ('db, 'f) bcstate \<Rightarrow> (bool \<times> ('db, 'f) bcstate) outcome" where
  "AddMiningMatches fuel E M next_match_index block_time max_xreqnum st =
     mining_loop fuel E M block_time max_xreqnum 1 next_match_index False st"

text \<open>
  The four nested scans of \<open>MatchReqs\<close> have the same form: select the next row, process it, move the
  position behind it.
\<close>

fun scan_loop ::
  "nat \<Rightarrow> ('s \<Rightarrow> bool) \<Rightarrow> ('c \<Rightarrow> 's \<Rightarrow> int \<times> 'r) \<Rightarrow> ('r \<Rightarrow> 's \<Rightarrow> ('r \<times> 's) outcome) \<Rightarrow> ('r \<Rightarrow> 'c \<Rightarrow> 'c) \<Rightarrow> 'c \<Rightarrow> 's \<Rightarrow> 's outcome" where
  "scan_loop 0 stop select body advance cur s = Inl OutOfFuel"
| "scan_loop (Suc n) stop select body advance cur s =
     (if stop s then Inr s
      else let (rc, row) = select cur s
        in if rc < 0 then Inl DbException
           else if rc \<noteq> 0 then Inr s
           else bind_outcome (body row s) (\<lambda>(row, s). scan_loop n stop select body advance (advance row cur) s))"

text \<open>What the scans carry along: whether a best match changed, the number of pairs compared, the state.\<close>

type_synonym ('db, 'f) scan = "bool \<times> u32 \<times> ('db, 'f) bcstate"

definition scan_stop :: "('db, 'f) scan \<Rightarrow> bool" where
  "scan_stop s = xs_shutdown (bc_x (snd (snd s)))"

definition scan_db :: "('db, 'f) scan \<Rightarrow> 'db" where
  "scan_db s = bc_db (snd (snd s))"

definition match_minors ::
  "nat \<Rightarrow> ('db, 'f) settle_env \<Rightarrow> ('db, 'f) matchops \<Rightarrow> u64 \<Rightarrow> 'f xreq \<Rightarrow> ('db, 'f) scan \<Rightarrow> ('f xreq \<times> ('db, 'f) scan) outcome" where
  "match_minors fuel E M block_time major s =
     scan_loop fuel (\<lambda>(_, s). scan_stop s) (\<lambda>cur (_, s). mo_MatchingSelectMinor M cur (scan_db s))
       (\<lambda>minor (major, changed_best, inner_count, st).
          bind_outcome (CheckMatch (se_B E) (se_U E) M major minor block_time st) (\<lambda>(c, major, minor, st).
            Inr (minor, (major, changed_best \<or> c, inner_count + 1, st))))
       (MatchingAdvanceMinor (se_U E)) (MatchingInitMinor (se_B E) (se_U E) major) (major, s)"

definition match_majors ::
  "nat \<Rightarrow> ('db, 'f) settle_env \<Rightarrow> ('db, 'f) matchops \<Rightarrow> u64 \<Rightarrow> 'f xreq \<Rightarrow> ('db, 'f) scan \<Rightarrow> ('db, 'f) scan outcome" where
  "match_majors fuel E M block_time pair s =
     scan_loop fuel scan_stop (\<lambda>cur s. mo_MatchingSelectMajor M cur (scan_db s)) (match_minors fuel E M block_time)
       (MatchingAdvanceMajor (se_U E)) (MatchingInitMajor (se_B E) (se_U E) pair) s"

definition match_pairs ::
  "nat \<Rightarrow> ('db, 'f) settle_env \<Rightarrow> ('db, 'f) matchops \<Rightarrow> u64 \<Rightarrow> bool \<Rightarrow> 'f xreq \<Rightarrow> ('db, 'f) scan \<Rightarrow> ('db, 'f) scan outcome" where
  "match_pairs fuel E M block_time for_witness base s =
     scan_loop fuel scan_stop (\<lambda>cur s. mo_XreqsSelectPairQuote M cur (scan_db s))
       (\<lambda>pair s. if for_witness = (xq_xreqnum pair \<noteq> 0) then Inl AssertFail
                 else bind_outcome (match_majors fuel E M block_time pair s) (\<lambda>s. Inr (pair, s)))
       SearchAdvancePairQuote (SearchInitPairQuote (se_B E) (se_U E) base) s"

definition match_bases ::
  "nat \<Rightarrow> ('db, 'f) settle_env \<Rightarrow> ('db, 'f) matchops \<Rightarrow> u64 \<Rightarrow> u64 \<Rightarrow> bool \<Rightarrow> ('db, 'f) scan \<Rightarrow> ('db, 'f) scan outcome" where
  "match_bases fuel E M block_time max_xreqnum for_witness s =
     scan_loop fuel scan_stop (\<lambda>cur s. mo_XreqsSelectPairBase M cur (scan_db s))
       (\<lambda>base s. if for_witness = (xq_xreqnum base \<noteq> 0) then Inl AssertFail
                 else bind_outcome (match_pairs fuel E M block_time for_witness base s) (\<lambda>s. Inr (base, s)))
       SearchAdvancePairBase (SearchInitPairBase (se_B E) (se_U E) for_witness max_xreqnum) s"

text \<open>The passes of a round: until one finds no match, or a million pairs were compared.\<close>

fun match_passes ::
  "nat \<Rightarrow> nat \<Rightarrow> ('db, 'f) settle_env \<Rightarrow> ('db, 'f) matchops \<Rightarrow> u64 \<Rightarrow> u64 \<Rightarrow> bool \<Rightarrow> bool \<Rightarrow> bool \<Rightarrow> u64 \<Rightarrow> u32 \<Rightarrow> ('db, 'f) bcstate
   \<Rightarrow> (u64 \<times> ('db, 'f) bcstate) outcome" where
  "match_passes 0 fuel E M block_time max_xreqnum for_witness first_pass have_matches idx inner_count st = Inl OutOfFuel"
| "match_passes (Suc n) fuel E M block_time max_xreqnum for_witness first_pass have_matches idx inner_count st =
     (if xs_shutdown (bc_x st) \<or> \<not> have_matches \<or> \<not> inner_count < 1000000 then Inr (idx, st)
      else let prior_passnum = bc_passnum st; st = st\<lparr>bc_passnum := bc_passnum st + 1\<rparr>;
               (rc, db) = mo_MatchingInit M block_time first_pass prior_passnum max_xreqnum for_witness (bc_db st); st = upd_db db st
        in if rc \<noteq> 0 then Inl DbException
           else bind_outcome (match_bases fuel E M block_time max_xreqnum for_witness (False, inner_count, st))
             (\<lambda>(changed_best, inner_count, st).
               bind_outcome (if changed_best then FindMutualMatches fuel E M (bc_passnum st) idx block_time for_witness st
                             else Inr (False, idx, st)) (\<lambda>(have_matches, idx, st).
                 match_passes n fuel E M block_time max_xreqnum for_witness False have_matches idx inner_count st)))"

definition MatchReqs ::
  "nat \<Rightarrow> nat \<Rightarrow> ('db, 'f) settle_env \<Rightarrow> ('db, 'f) matchops \<Rightarrow> u64 \<Rightarrow> u64 \<Rightarrow> bool \<Rightarrow> ('db, 'f) bcstate \<Rightarrow> ('db, 'f) bcstate outcome" where
  "MatchReqs n fuel E M block_time max_xreqnum for_witness st =
     (if for_witness then Inl AssertFail
      else bind_outcome (match_passes n fuel E M block_time max_xreqnum for_witness True True 1 0 st) (\<lambda>(idx, st).
           bind_outcome (if \<not> for_witness then AddMiningMatches fuel E M idx block_time max_xreqnum st else Inr (False, st)) (\<lambda>(_, st).
             let st = upd_db (mo_XreqsClearOldPendingMatches M (block_time div XCX_MATCHING_SECS_PER_EPOCH) max_xreqnum (bc_db st)) st
             in Inr (UpdateExchangeWorkTime 0 True st))))"

section \<open>Making matches persistent\<close>

text \<open>The two requests and the match they make, with the open amounts reduced.\<close>

definition form_match ::
  "bigops \<Rightarrow> 'f ufops \<Rightarrow> u64 \<Rightarrow> u64 \<Rightarrow> 'f xreq \<Rightarrow> 'f xreq \<Rightarrow> ('f xreq \<times> 'f xreq \<times> 'f xmatch) outcome" where
  "form_match B U block_time num major minor =
     (if \<not> (IsBuyer major \<and> IsSeller minor \<and> xq_seqnum major = xq_best_other_seqnum minor \<and>
             xq_xreqnum major = xq_best_other_xreqnum minor \<and> xq_pending_match_order minor \<noteq> 0 \<and>
             xq_pending_match_hold_time minor = 0 \<and> big_true (xq_pending_match_amount minor) \<and>
             uf_less U (uf_zero U) (xq_pending_match_rate minor)) then Inl AssertFail
      else let minor = minor\<lparr>xq_pending_match_order := 0\<rparr>;
               match_amount = xq_pending_match_amount minor; match_rate = xq_pending_match_rate minor
        in bind_outcome (UpdateOpenAmount B U major match_amount) (\<lambda>major.
           bind_outcome (UpdateOpenAmount B U minor match_amount) (\<lambda>minor.
             let major = major\<lparr>xq_best_other_seqnum := xq_seqnum minor, xq_best_amount := match_amount, xq_best_rate := match_rate\<rparr>;
                 minor = minor\<lparr>xq_best_amount := match_amount, xq_best_rate := match_rate\<rparr>
             in bind_outcome (Xmatch_Init U num block_time major minor) (\<lambda>match. Inr (major, minor, match)))))"

text \<open>
  A sale for a foreign address can match once: what is left of it is given back and the request is closed.
  The result is the error flag, the seller's request, the match, the transaction buffer and the state.
\<close>

definition close_seller ::
  "nat \<Rightarrow> ('db, 'f) settle_env \<Rightarrow> 'f xreq \<Rightarrow> 'f xmatch \<Rightarrow> txbuf \<Rightarrow> ('db, 'f) bcstate
   \<Rightarrow> (bool \<times> 'f xreq \<times> 'f xmatch \<times> txbuf \<times> ('db, 'f) bcstate) outcome" where
  "close_seller fuel E minor match tb st =
     (let xsell = xm_xsell match; z = ofULong (se_B E) 0
      in if mr_disposition xsell \<noteq> XMATCH_REQ_DISPOSITION_MATCHED_PART then Inr (False, minor, match, tb, st)
         else bind_outcome (lift_outputs (CreateTxOutputs fuel E (mr_base_asset xsell) (mr_open_amount xsell) (mr_destination xsell)
                 (default_domain (se_P E)) True True 0 False False tb (bc_x st)) st) (\<lambda>(rc, tb, st).
           if rc then Inr (True, minor, match, tb, st)
           else if \<not> IsSeller minor then Inl AssertFail
           else Inr (False, minor\<lparr>xq_open_amount := z\<rparr>, match\<lparr>xm_xsell := xsell\<lparr>mr_open_amount := z\<rparr>\<rparr>, tb, st)))"

definition persist_match ::
  "nat \<Rightarrow> ('db, 'f) settle_env \<Rightarrow> ('db, 'f) matchops \<Rightarrow> u64 \<Rightarrow> 'f xreq \<Rightarrow> 'f xreq \<Rightarrow> txbuf \<Rightarrow> ('db, 'f) bcstate
   \<Rightarrow> (bool \<times> txbuf \<times> ('db, 'f) bcstate) outcome" where
  "persist_match fuel E M block_time major minor tb st =
     bind_outcome (form_match (se_B E) (se_U E) block_time 0 major minor) (\<lambda>(major, minor, match).
       let (num, st) = GetNextXmatchnum True st; match = match\<lparr>xm_xmatchnum := num\<rparr>
       in bind_outcome (close_seller fuel E minor match tb st) (\<lambda>(rc, minor, match, tb, st).
            if rc then Inr (True, tb, st)
            else bind_outcome (SetMiningAmount (se_U E) match (xs_mining (bc_x st))) (\<lambda>(match, m).
              let st = st\<lparr>bc_x := (bc_x st)\<lparr>xs_mining := m\<rparr>\<rparr>;
                  (rc, db) = XmatchInsert (se_D E) match (bc_db st); st = upd_db db st
              in if rc then Inr (True, tb, st)
                 else let (rc, st) = SaveXreq M major st
                   in if rc \<noteq> 0 then Inr (True, tb, st)
                      else let (rc, st) = SaveXreq M minor st in Inr (rc \<noteq> 0, tb, st))))"

fun MakeMatchesPersistent ::
  "nat \<Rightarrow> nat \<Rightarrow> ('db, 'f) settle_env \<Rightarrow> ('db, 'f) matchops \<Rightarrow> u64 \<Rightarrow> txbuf \<Rightarrow> ('db, 'f) bcstate
   \<Rightarrow> (bool \<times> txbuf \<times> ('db, 'f) bcstate) outcome" where
  "MakeMatchesPersistent 0 fuel E M block_time tb st = Inl OutOfFuel"
| "MakeMatchesPersistent (Suc n) fuel E M block_time tb st =
     (if xs_shutdown (bc_x st) then Inr (False, tb, st)
      else let (rc, major, minor) = mo_MatchingSelectNextPendingMatch M (bc_db st)
        in if rc > 0 then Inr (False, tb, st)
           else if rc \<noteq> 0 then Inr (True, tb, st)
           else bind_outcome (persist_match fuel E M block_time major minor tb st) (\<lambda>(rc, tb, st).
             if rc then Inr (True, tb, st) else MakeMatchesPersistent n fuel E M block_time tb st))"

section \<open>The rounds\<close>

definition MATCHING_STATE_IDLE :: int where "MATCHING_STATE_IDLE = 0"
definition MATCHING_STATE_START :: int where "MATCHING_STATE_START = 1"
definition DB_KEY_XMATCHING :: nat where "DB_KEY_XMATCHING = 9"

definition SetCondition :: "int \<Rightarrow> ('db, 'f) bcstate \<Rightarrow> ('db, 'f) bcstate" where
  "SetCondition condition st = st\<lparr>bc_matching_state := condition\<rparr>"

text \<open>\<open>Init\<close> reads the highest request number of the round that was under way; the flag is an error.\<close>

definition ProcessXreqs_Init :: "int \<times> byte list \<Rightarrow> u64 \<Rightarrow> ('db, 'f) bcstate \<Rightarrow> bool \<times> ('db, 'f) bcstate" where
  "ProcessXreqs_Init param block_time st =
     (let epoch = block_time div XCX_MATCHING_SECS_PER_EPOCH; (rc, bs) = param;
          st = st\<lparr>bc_last_matching_epoch := epoch, bc_matching_block_time := epoch * XCX_MATCHING_SECS_PER_EPOCH\<rparr>
      in if rc < 0 then (True, st)
         else (False, st\<lparr>bc_matching_max_xreqnum := (if rc = 0 then of_nat (le_val (take 8 bs)) else bc_matching_max_xreqnum st),
                         bc_matching_state := MATCHING_STATE_START\<rparr>))"

text \<open>One round of \<open>MatchingThread\<close>.\<close>

definition matching_round ::
  "nat \<Rightarrow> nat \<Rightarrow> ('db, 'f) settle_env \<Rightarrow> ('db, 'f) matchops \<Rightarrow> ('db, 'f) bcstate \<Rightarrow> ('db, 'f) bcstate outcome" where
  "matching_round n fuel E M st =
     bind_outcome (MatchReqs n fuel E M (bc_matching_block_time st) (bc_matching_max_xreqnum st) False st) (\<lambda>st.
       Inr (SetCondition MATCHING_STATE_IDLE st))"

definition CheckUpdateWitnessWorkTime :: "u64 \<Rightarrow> ('db, 'f) bcstate \<Rightarrow> ('db, 'f) bcstate outcome" where
  "CheckUpdateWitnessWorkTime block_time st =
     (let next_xreqnum = bc_next_xreqnum st
      in if next_xreqnum = 0 then Inl AssertFail
         else Inr (if bc_matching_max_xreqnum st \<noteq> next_xreqnum - 1 then UpdateExchangeWorkTime block_time True st else st))"

text \<open>
  \<open>SynchronizeMatching\<close>. The matching thread works until the wait for it returns: \<open>wait\<close> gives the state
  at that moment.
\<close>

definition start_round ::
  "('db, 'f) matchops \<Rightarrow> txbuf \<Rightarrow> ('db, 'f) bcstate \<Rightarrow> (bool \<times> txbuf \<times> ('db, 'f) bcstate) outcome" where
  "start_round M tb st =
     (let next_xreqnum = bc_next_xreqnum st
      in if next_xreqnum = 0 then Inl AssertFail
         else let st = st\<lparr>bc_matching_max_xreqnum := next_xreqnum - 1\<rparr>;
                  (rc, db) = mo_ParameterInsert M DB_KEY_XMATCHING 0 (le_bytes 8 (unat (bc_matching_max_xreqnum st))) (bc_db st);
                  st = upd_db db st
           in if rc \<noteq> 0 then Inr (True, tb, st)
              else Inr (False, tb, SetCondition MATCHING_STATE_START (ResetExchangeWorkTime False st)))"

definition SynchronizeMatching ::
  "nat \<Rightarrow> nat \<Rightarrow> ('db, 'f) settle_env \<Rightarrow> ('db, 'f) matchops \<Rightarrow> (('db, 'f) bcstate \<Rightarrow> ('db, 'f) bcstate) \<Rightarrow> u64 \<Rightarrow> u64 \<Rightarrow> u64 \<Rightarrow> txbuf
   \<Rightarrow> ('db, 'f) bcstate \<Rightarrow> (bool \<times> txbuf \<times> ('db, 'f) bcstate) outcome" where
  "SynchronizeMatching n fuel E M wait block_level block_time new_xreqnum tb st =
     (let epoch = block_time div XCX_MATCHING_SECS_PER_EPOCH
      in if bc_matching_state st < 0 then Inr (False, tb, st)
         else if epoch = bc_last_matching_epoch st then
           bind_outcome (CheckUpdateWitnessWorkTime block_time st) (\<lambda>st. Inr (False, tb, st))
         else let st = ResetExchangeWorkTime True (st\<lparr>bc_last_matching_epoch := epoch\<rparr>); st = wait st
           in bind_outcome (MakeMatchesPersistent n fuel E M (bc_matching_block_time st) tb st) (\<lambda>(rc, tb, st).
             if rc then Inr (True, tb, st)
             else bind_outcome (UpdateMiningTime (se_U E) (bc_matching_block_time st) (xs_mining (bc_x st))) (\<lambda>(_, m).
               let st = st\<lparr>bc_x := (bc_x st)\<lparr>xs_mining := m\<rparr>, bc_last_matched_block_time := bc_matching_block_time st,
                           bc_matching_block_time := epoch * XCX_MATCHING_SECS_PER_EPOCH\<rparr>
               in bind_outcome (ExpireXreqs n fuel E M (bc_matching_block_time st) tb st) (\<lambda>(rc, tb, st).
                    if rc then Inr (True, tb, st)
                    else bind_outcome (PruneXreqs n fuel E M new_xreqnum tb st) (\<lambda>(rc, tb, st).
                      if rc then Inr (True, tb, st) else start_round M tb st)))))"

end
