(* ===== verification/Uni_Float_Props.thy ===== *)
theory Uni_Float_Props
  imports Uni_Float
begin

text \<open>
  Properties of the portable floating-point arithmetic: the error of a product and of a quotient and the
  direction in which they are rounded, the format every operation keeps to, and the position of the
  average of two rates between them.
\<close>

section \<open>Bit lengths and rounding of integers\<close>

lemma blen_bounds: "0 < n \<Longrightarrow> 0 < blen n \<and> 2 ^ (blen n - 1) \<le> n \<and> n < 2 ^ blen n"
proof (induction n rule: blen.induct)
  case (1 n)
  show ?case
  proof (cases "n = 1")
    case True
    then show ?thesis by (simp add: blen.simps)
  next
    case False
    with 1 have IH: "0 < blen (n div 2)" "2 ^ (blen (n div 2) - 1) \<le> n div 2" "n div 2 < 2 ^ blen (n div 2)" by auto
    have b: "blen n = Suc (blen (n div 2))" using 1(2) by (subst blen.simps) simp
    obtain k where k: "blen (n div 2) = Suc k" using IH(1) by (cases "blen (n div 2)") auto
    have "2 ^ blen (n div 2) \<le> n" using IH(2) unfolding k by simp
    moreover have "n < 2 * 2 ^ blen (n div 2)" using IH(3) by linarith
    ultimately show ?thesis unfolding b by simp
  qed
qed

lemma blen_0 [simp]: "blen 0 = 0"
  by (simp add: blen.simps)

lemma blen_le_iff: "blen n \<le> k \<longleftrightarrow> n < 2 ^ k"
proof (cases "n = 0")
  case False
  then have b: "0 < blen n" "2 ^ (blen n - 1) \<le> n" "n < 2 ^ blen n" using blen_bounds [of n] by auto
  show ?thesis
  proof
    assume "blen n \<le> k"
    then have "(2::nat) ^ blen n \<le> 2 ^ k" by simp
    with b(3) show "n < 2 ^ k" by linarith
  next
    assume "n < 2 ^ k"
    with b(2) have "(2::nat) ^ (blen n - 1) < 2 ^ k" by linarith
    then have "blen n - 1 < k" by (simp add: power_strict_increasing_iff)
    with b(1) show "blen n \<le> k" by linarith
  qed
qed simp

lemma round_even_exact: "2 ^ j dvd m \<Longrightarrow> round_even m j = m div 2 ^ j"
  by (auto simp: round_even_def Let_def)

lemma round_even_bounds: "m div 2 ^ j \<le> round_even m j" "round_even m j \<le> m div 2 ^ j + 1"
  by (auto simp: round_even_def Let_def)

lemma div_pow_le: "m \<le> c * 2 ^ j \<Longrightarrow> \<not> 2 ^ j dvd m \<Longrightarrow> m div 2 ^ j + 1 \<le> (c :: nat)"
proof -
  assume "m \<le> c * 2 ^ j" "\<not> 2 ^ j dvd m"
  then have "m < c * 2 ^ j" by (metis dvd_triv_right le_neq_implies_less)
  then have "m div 2 ^ j < c" by (simp add: less_mult_imp_div_less)
  then show ?thesis by simp
qed

lemma round_even_le: "m \<le> c * 2 ^ j \<Longrightarrow> round_even m j \<le> c"
proof (cases "2 ^ j dvd m")
  case True
  assume "m \<le> c * 2 ^ j"
  then have "m div 2 ^ j \<le> c * 2 ^ j div 2 ^ j" by (rule div_le_mono)
  then show ?thesis using round_even_exact [OF True] by simp
next
  case False
  assume "m \<le> c * 2 ^ j"
  then show ?thesis using div_pow_le [OF _ False] round_even_bounds(2) [of m j] by fastforce
qed

lemma Shift_exact: "2 ^ s dvd v \<Longrightarrow> Shift v s r = v div 2 ^ s"
proof (cases s)
  case (Suc k)
  assume d: "2 ^ s dvd v"
  then obtain c where "v = 2 ^ Suc k * c" unfolding Suc by (rule dvdE)
  then have "v div 2 ^ k = 2 * c" by simp
  then have "\<not> bit v k" by (simp add: bit_iff_odd)
  then show ?thesis using d Suc by (auto simp: Shift_def)
qed (auto simp: Shift_def)

lemma Shift_bounds: "v div 2 ^ s \<le> Shift v s r" "Shift v s r \<le> v div 2 ^ s + 1"
  by (auto simp: Shift_def)

lemma Shift_le: "v \<le> c * 2 ^ s \<Longrightarrow> Shift v s r \<le> c"
proof (cases "2 ^ s dvd v")
  case True
  assume "v \<le> c * 2 ^ s"
  then have "v div 2 ^ s \<le> c * 2 ^ s div 2 ^ s" by (rule div_le_mono)
  then show ?thesis using Shift_exact [OF True, of r] by simp
next
  case False
  assume "v \<le> c * 2 ^ s"
  then show ?thesis using div_pow_le [OF _ False] Shift_bounds(2) [of v s r] by fastforce
qed

lemma Shift_ge: "c * 2 ^ s \<le> v \<Longrightarrow> c \<le> Shift v s r"
  using Shift_bounds(1) [of v s r] by (metis div_le_mono le_trans nonzero_mult_div_cancel_right power_not_zero zero_neq_numeral)

lemma Shift_up: "r > 0 \<Longrightarrow> v \<le> Shift v s r * 2 ^ s"
proof (cases "2 ^ s dvd v")
  case True
  then show ?thesis using Shift_exact [OF True, of r] by simp
next
  case False
  assume "r > 0"
  moreover have "s \<noteq> 0" using False by (cases s) auto
  ultimately have "Shift v s r = v div 2 ^ s + 1" using False by (auto simp: Shift_def dvd_eq_mod_eq_0)
  moreover have "v < (v div 2 ^ s + 1) * 2 ^ s" by (simp add: less_mult_imp_div_less dividend_less_times_div mult.commute)
  ultimately show ?thesis by simp
qed

lemma Shift_down: "r < 0 \<Longrightarrow> Shift v s r * 2 ^ s \<le> v"
  by (simp add: Shift_def)

lemma Shift_near: "Shift v s r * 2 ^ s \<le> v + 2 ^ s" "v \<le> Shift v s r * 2 ^ s + 2 ^ s"
proof -
  have "Shift v s r * 2 ^ s \<le> (v div 2 ^ s + 1) * 2 ^ s" using Shift_bounds(2) [of v s r] by (rule mult_le_mono1)
  also have "\<dots> \<le> v + 2 ^ s" using div_times_less_eq_dividend [of v "2 ^ s"] by (simp add: algebra_simps)
  finally show "Shift v s r * 2 ^ s \<le> v + 2 ^ s" .
  have "v div 2 ^ s * 2 ^ s \<le> Shift v s r * 2 ^ s" using Shift_bounds(1) [of v s r] by (rule mult_le_mono1)
  moreover have "v \<le> v div 2 ^ s * 2 ^ s + 2 ^ s"
    using div_mult_mod_eq [of v "2 ^ s"] mod_less_divisor [of "2 ^ s" v, OF zero_less_power [OF pos2]] by linarith
  ultimately show "v \<le> Shift v s r * 2 ^ s + 2 ^ s" by linarith
qed

section \<open>Rounding to 52 bits\<close>

definition rep52 :: "nat \<Rightarrow> bool" where
  "rep52 n \<longleftrightarrow> (\<exists>q t. n = q * 2 ^ t \<and> q \<le> 2 ^ 52)"

definition normal52 :: "nat \<Rightarrow> int \<Rightarrow> nat" where
  "normal52 m r = Shift m (normalize_shift m 0) r * 2 ^ normalize_shift m 0"

lemma normalize_shift_spec:
  "t \<le> normalize_shift m t \<and> m div 2 ^ normalize_shift m t < 2 ^ 52 \<and>
    (normalize_shift m t = t \<or> 2 ^ 52 \<le> m div 2 ^ (normalize_shift m t - 1))"
proof (induction m t rule: normalize_shift.induct)
  case (1 m t)
  show ?case
  proof (cases "2 ^ UNIFLOAT_COMPUTATION_BITS \<le> m div 2 ^ t")
    case True
    have e: "normalize_shift m t = normalize_shift m (t + 1)" using True by (subst normalize_shift.simps) simp
    show ?thesis using 1 [OF True] True unfolding e by (auto simp: UNIFLOAT_COMPUTATION_BITS_def)
  next
    case False
    then have "normalize_shift m t = t" by (subst normalize_shift.simps) simp
    with False show ?thesis by (simp add: UNIFLOAT_COMPUTATION_BITS_def)
  qed
qed

lemma normalize_shift_bounds:
  assumes "s = normalize_shift m 0"
  shows "m < 2 ^ (52 + s)" "s \<noteq> 0 \<Longrightarrow> 2 ^ (51 + s) \<le> m"
proof -
  have "m div 2 ^ s < 2 ^ 52" and h: "s = 0 \<or> 2 ^ 52 \<le> m div 2 ^ (s - 1)" using normalize_shift_spec [of 0 m] assms by auto
  then show "m < 2 ^ (52 + s)" by (simp add: div_less_iff_less_mult power_add)
  assume "s \<noteq> 0"
  with h have "2 ^ 52 \<le> m div 2 ^ (s - 1)" by simp
  then have "2 ^ 52 * 2 ^ (s - 1) \<le> m" by (simp add: less_eq_div_iff_mult_less_eq)
  moreover have "(2::nat) ^ 52 * 2 ^ (s - 1) = 2 ^ (51 + s)" using \<open>s \<noteq> 0\<close> by (cases s) (simp_all add: power_add)
  ultimately show "2 ^ (51 + s) \<le> m" by simp
qed

lemma normal52_rep: "rep52 (normal52 m r)" "Shift m (normalize_shift m 0) r \<le> 2 ^ 52"
proof -
  have "m \<le> 2 ^ 52 * 2 ^ normalize_shift m 0" using normalize_shift_bounds(1) [OF refl, of m] by (simp add: power_add)
  then show "Shift m (normalize_shift m 0) r \<le> 2 ^ 52" by (rule Shift_le)
  then show "rep52 (normal52 m r)" unfolding rep52_def normal52_def by blast
qed

lemma rep52_multiple:
  assumes "rep52 n" "2 ^ (51 + s) \<le> n"
  shows "2 ^ s dvd n"
proof -
  obtain q t where n: "n = q * 2 ^ t" "q \<le> 2 ^ 52" using assms(1) unfolding rep52_def by blast
  show ?thesis
  proof (cases "s \<le> t")
    case True
    then show ?thesis using n(1) by (simp add: le_imp_power_dvd)
  next
    case False
    then have "n \<le> 2 ^ 52 * 2 ^ t" "(2::nat) ^ 52 * 2 ^ t = 2 ^ (52 + t)" using n by (simp_all add: power_add)
    moreover have "(2::nat) ^ (52 + t) \<le> 2 ^ (51 + s)" using False by (intro power_increasing) auto
    ultimately have "n = 2 ^ (51 + s)" using assms(2) by linarith
    then show ?thesis by (simp add: le_imp_power_dvd)
  qed
qed

text \<open>Rounding moves no number past one that has 52 bits.\<close>

lemma normal52_ge: "rep52 n \<Longrightarrow> n \<le> m \<Longrightarrow> n \<le> normal52 m r"
proof -
  assume n: "rep52 n" "n \<le> m"
  define s where "s = normalize_shift m 0"
  note b = normalize_shift_bounds [OF s_def]
  show ?thesis
  proof (cases "2 ^ (51 + s) \<le> n")
    case True
    obtain c where "n = 2 ^ s * c" using rep52_multiple [OF n(1) True] by (rule dvdE)
    then have c: "n = c * 2 ^ s" by simp
    then show ?thesis using Shift_ge [of c s m r] n(2) unfolding normal52_def s_def [symmetric] by simp
  next
    case False
    show ?thesis
    proof (cases "s = 0")
      case True
      then show ?thesis using n(2) Shift_exact [of 0 m r] unfolding normal52_def s_def [symmetric] by simp
    next
      case False
      then have "(2::nat) ^ 51 * 2 ^ s \<le> m" using b(2) by (simp add: power_add)
      from Shift_ge [OF this, of r] have "2 ^ 51 * 2 ^ s \<le> normal52 m r" unfolding normal52_def s_def [symmetric] by simp
      then show ?thesis using \<open>\<not> 2 ^ (51 + s) \<le> n\<close> by (simp add: power_add)
    qed
  qed
qed

lemma normal52_le: "rep52 n \<Longrightarrow> m \<le> n \<Longrightarrow> normal52 m r \<le> n"
proof -
  assume n: "rep52 n" "m \<le> n"
  define s where "s = normalize_shift m 0"
  have d: "2 ^ s dvd n"
  proof (cases "s = 0")
    case False
    then have "2 ^ (51 + s) \<le> n" using normalize_shift_bounds(2) [OF s_def] n(2) by linarith
    then show ?thesis by (rule rep52_multiple [OF n(1)])
  qed simp
  then obtain c where "n = 2 ^ s * c" by (rule dvdE)
  then have c: "n = c * 2 ^ s" by simp
  then show ?thesis using Shift_le [of m c s r] n(2) unfolding normal52_def s_def [symmetric] by simp
qed

lemma normal52_error:
  "r > 0 \<Longrightarrow> m \<le> normal52 m r" "r < 0 \<Longrightarrow> normal52 m r \<le> m"
  "2 ^ 51 * normal52 m r \<le> 2 ^ 51 * m + m" "2 ^ 51 * m \<le> 2 ^ 51 * normal52 m r + m"
proof -
  show "r > 0 \<Longrightarrow> m \<le> normal52 m r" "r < 0 \<Longrightarrow> normal52 m r \<le> m"
    unfolding normal52_def by (simp_all add: Shift_up Shift_down)
  define s where "s = normalize_shift m 0"
  have "2 ^ 51 * normal52 m r \<le> 2 ^ 51 * m + m \<and> 2 ^ 51 * m \<le> 2 ^ 51 * normal52 m r + m"
  proof (cases "s = 0")
    case True
    then have "normal52 m r = m" using Shift_exact [of 0 m r] unfolding normal52_def s_def [symmetric] by simp
    then show ?thesis by simp
  next
    case False
    then have "2 ^ 51 * 2 ^ s \<le> m" using normalize_shift_bounds(2) [OF s_def] by (simp add: power_add)
    then show ?thesis using Shift_near [of m s r] unfolding normal52_def s_def [symmetric] by simp
  qed
  then show "2 ^ 51 * normal52 m r \<le> 2 ^ 51 * m + m" "2 ^ 51 * m \<le> 2 ^ 51 * normal52 m r + m" by auto
qed

section \<open>Values\<close>

definition tval :: "unifloat_tuple \<Rightarrow> rat" where
  "tval x = of_int (ut_sign x) * of_nat (ut_mant x) * 2 powi (ut_exp x)"

definition is_double :: "dbl \<Rightarrow> bool" where
  "is_double d \<longleftrightarrow> \<bar>dmant d\<bar> < 2 ^ 53 \<and> - 1074 \<le> dexp d \<and> (dmant d \<noteq> 0 \<longrightarrow> int (blen (nat \<bar>dmant d\<bar>)) + dexp d \<le> 1024)"

lemma powi_split: "(2 :: rat) powi (a + int n) = 2 powi a * 2 ^ n"
  by (simp add: power_int_add)

lemma powi_le_iff: "(2 :: rat) powi a \<le> 2 powi b \<longleftrightarrow> a \<le> b"
  by (metis linorder_not_le one_less_numeral_iff order_less_imp_le power_int_increasing power_int_strict_increasing semiring_norm(76))

lemma powi_less_iff: "(2 :: rat) powi a < 2 powi b \<longleftrightarrow> a < b"
  using powi_le_iff [of b a] by linarith

lemma dval_less: "dbl_less a b \<longleftrightarrow> dval a < dval b" and dval_eq: "dbl_eq a b \<longleftrightarrow> dval a = dval b"
proof -
  define k where "k = min (dexp a) (dexp b)"
  have e: "dval d = of_int (dmant d * 2 ^ nat (dexp d - k)) * 2 powi k" if "k \<le> dexp d" for d
    using that powi_split [of k "nat (dexp d - k)"] by (simp add: dval_def)
  have p: "(0 :: rat) < 2 powi k" by simp
  have a: "k \<le> dexp a" and b: "k \<le> dexp b" by (simp_all add: k_def)
  show "dbl_less a b \<longleftrightarrow> dval a < dval b"
    unfolding e [OF a] e [OF b] dbl_less_def Let_def k_def [symmetric] mult_less_cancel_right_pos [OF p] of_int_less_iff ..
  show "dbl_eq a b \<longleftrightarrow> dval a = dval b"
    unfolding e [OF a] e [OF b] dbl_eq_def Let_def k_def [symmetric] mult_cancel_right of_int_eq_iff using p by auto
qed

lemma Decompose_exact:
  assumes "dmant d \<noteq> 0" "\<bar>dmant d\<bar> < 2 ^ n" "0 < n"
  defines "m \<equiv> nat \<bar>dmant d\<bar>"
  shows "Decompose d n r = \<lparr>ut_mant = m * 2 ^ (n - blen m), ut_exp = dexp d - int (n - blen m), ut_sign = sgn (dmant d)\<rparr>"
    "2 ^ (n - 1) \<le> m * 2 ^ (n - blen m)" "m * 2 ^ (n - blen m) < 2 ^ n" "blen m \<le> n"
proof -
  have m: "0 < m" "m < 2 ^ n" using assms(1,2) unfolding m_def by (simp_all add: nat_less_iff)
  note b = blen_bounds [OF m(1)]
  show bn: "blen m \<le> n" using m(2) by (simp add: blen_le_iff)
  have "m * 2 ^ (n - blen m) < 2 ^ blen m * 2 ^ (n - blen m)" using b by (intro mult_strict_right_mono) auto
  then show less: "m * 2 ^ (n - blen m) < 2 ^ n" using bn by (simp flip: power_add)
  have "2 ^ (blen m - 1) * 2 ^ (n - blen m) \<le> m * 2 ^ (n - blen m)" using b by (intro mult_right_mono) auto
  moreover have "blen m - 1 + (n - blen m) = n - 1" using b bn by linarith
  ultimately show "2 ^ (n - 1) \<le> m * 2 ^ (n - blen m)" by (simp flip: power_add)
  define j where "j = n - blen m"
  have k: "int n - int (blen m) = int j" using bn by (simp add: j_def)
  show "Decompose d n r = \<lparr>ut_mant = m * 2 ^ (n - blen m), ut_exp = dexp d - int (n - blen m), ut_sign = sgn (dmant d)\<rparr>"
    using assms(1,3) less bn unfolding Decompose_def m_def [symmetric] j_def [symmetric] by (simp add: k round_mant_def Let_def)
qed

lemma Decompose_value:
  assumes "\<bar>dmant d\<bar> < 2 ^ n" "0 < n"
  shows "tval (Decompose d n r) = dval d"
proof (cases "dmant d = 0")
  case False
  note e = Decompose_exact [OF False assms]
  have p: "(2 :: rat) powi dexp d = 2 powi (dexp d - int j) * 2 ^ j" for j
    using powi_split [of "dexp d - int j" j] by simp
  have "rat_of_int (dmant d) = of_int (sgn (dmant d)) * of_nat (nat \<bar>dmant d\<bar>)"
    by (auto simp: sgn_if)
  then show ?thesis unfolding tval_def e(1) dval_def p [of "n - blen (nat \<bar>dmant d\<bar>)"] by simp
qed (simp add: Decompose_def tval_def dval_def)

lemma rep_multiple:
  assumes "mant = q * 2 ^ t" "q < 2 ^ 53"
  shows "blen mant - 53 \<le> t" "2 ^ (blen mant - 53) dvd mant"
proof -
  have "mant < 2 ^ (53 + t)" using assms by (simp add: power_add)
  then show "blen mant - 53 \<le> t" by (simp flip: blen_le_iff)
  then show "2 ^ (blen mant - 53) dvd mant" unfolding assms(1) by (simp add: le_imp_power_dvd dvd_mult)
qed

lemma mult_pow_div: "k \<le> n \<Longrightarrow> q * 2 ^ n div 2 ^ k = q * (2 :: nat) ^ (n - k)"
  by (metis le_add_diff_inverse2 mult.assoc nonzero_mult_div_cancel_right power_add power_not_zero zero_neq_numeral)

lemma ldexp_exact:
  assumes "mant = q * 2 ^ t" "q < 2 ^ 53" "- 1074 \<le> ex + int t" "0 < mant"
  shows "\<exists>u. u \<le> t \<and> ldexp_u64 mant ex = (q * 2 ^ (t - u), ex + int u)"
proof -
  define j where "j = blen mant - 53"
  define k where "k = nat (- 1074 - (ex + int j))"
  have j: "j \<le> t" "2 ^ j dvd mant" using rep_multiple [OF assms(1,2)] by (simp_all add: j_def)
  have m: "round_even mant j = q * 2 ^ (t - j)"
    unfolding round_even_exact [OF j(2)] by (simp add: assms(1) mult_pow_div [OF j(1)])
  have k: "k \<le> t - j" using assms(3) j(1) by (simp add: k_def)
  then have d: "2 ^ k dvd q * 2 ^ (t - j)" by (simp add: le_imp_power_dvd dvd_mult)
  have "round_even (q * 2 ^ (t - j)) k = q * 2 ^ (t - (j + k))"
    unfolding round_even_exact [OF d] mult_pow_div [OF k] by (simp add: diff_diff_eq)
  then have "ldexp_u64 mant ex = (q * 2 ^ (t - (j + k)), ex + int (j + k))"
    unfolding ldexp_u64_def Let_def j_def [symmetric] k_def [symmetric] m by simp
  then show ?thesis using j(1) k by (intro exI [of _ "j + k"]) simp
qed

lemma Recompose_exact:
  assumes "ut_mant x = q * 2 ^ t" "q < 2 ^ 53" "- 1074 \<le> ut_exp x + int t" "of_nat (ut_mant x) * 2 powi (ut_exp x) < (2 :: rat) powi 1024"
  shows "dval (Recompose x) = tval x"
proof (cases "ut_mant x = 0")
  case False
  obtain u where u: "u \<le> t" "ldexp_u64 (ut_mant x) (ut_exp x) = (q * 2 ^ (t - u), ut_exp x + int u)"
    using ldexp_exact [OF assms(1-3)] False by blast
  define m where "m = q * 2 ^ (t - u)"
  have mm: "ut_mant x = m * 2 ^ u" using u(1) unfolding assms(1) m_def by (simp flip: power_add)
  have v: "rat_of_nat (ut_mant x) * 2 powi (ut_exp x) = of_nat m * 2 powi (ut_exp x + int u)"
    unfolding mm powi_split by simp
  have "int (blen m) + (ut_exp x + int u) \<le> 1024"
  proof (rule ccontr)
    assume h: "\<not> ?thesis"
    have "0 < m" using False mm by (cases m) auto
    then have b: "2 ^ (blen m - 1) \<le> m" "0 < blen m" using blen_bounds by auto
    have "(2 :: rat) powi 1024 \<le> 2 powi (ut_exp x + int u + int (blen m - 1))"
      unfolding powi_le_iff using h b(2) by simp
    also have "\<dots> = 2 powi (ut_exp x + int u) * 2 ^ (blen m - 1)" by (rule powi_split)
    also have "\<dots> \<le> 2 powi (ut_exp x + int u) * of_nat m" using b(1) by (intro mult_left_mono) (simp_all flip: of_nat_le_iff)
    finally show False using assms(4) unfolding v by (simp add: mult.commute)
  qed
  then show ?thesis unfolding Recompose_def u(2) m_def [symmetric] tval_def dval_def by (simp add: mm powi_split)
qed (simp add: Recompose_def tval_def dval_def ldexp_u64_def round_even_def Let_def)

lemma Normalize_exact:
  assumes "- 1074 \<le> ut_exp x + int (normalize_shift y 0)" "of_nat y * 2 powi (ut_exp x) \<le> (2 :: rat) powi 1022"
  shows "dval (Recompose (Normalize y x r)) = of_int (ut_sign x) * of_nat (normal52 y r) * 2 powi (ut_exp x)"
proof -
  define s where "s = normalize_shift y 0"
  define z where "z = Normalize y x r"
  have z: "ut_mant z = Shift y s r" "ut_exp z = ut_exp x + int s" "ut_sign z = ut_sign x"
    by (simp_all add: z_def Normalize_def s_def Let_def)
  have v: "rat_of_nat (ut_mant z) * 2 powi ut_exp z = of_nat (normal52 y r) * 2 powi (ut_exp x)"
    unfolding z powi_split normal52_def s_def [symmetric] by simp
  have "normal52 y r \<le> 2 * y" using normal52_error(3) [of y r] by simp
  then have "rat_of_nat (normal52 y r) * 2 powi (ut_exp x) \<le> of_nat (2 * y) * 2 powi (ut_exp x)"
    by (intro mult_right_mono) (simp_all flip: of_nat_le_iff)
  also have "\<dots> \<le> 2 * 2 powi 1022" using assms(2) by simp
  also have "\<dots> = 2 powi 1023" using powi_split [of 1022 1] by simp
  also have "\<dots> < 2 powi 1024" unfolding powi_less_iff by simp
  finally have "of_nat (ut_mant z) * 2 powi ut_exp z < (2 :: rat) powi 1024" unfolding v .
  moreover have "Shift y s r < 2 ^ 53" using normal52_rep(2) [of y r] unfolding s_def by simp
  ultimately have "dval (Recompose z) = tval z"
    using Recompose_exact [of z "Shift y s r" 0] assms(1) by (simp add: z s_def)
  then show ?thesis unfolding z_def [symmetric] tval_def mult.assoc v by (simp add: z(3) mult.assoc)
qed

section \<open>Products and quotients\<close>

lemma exponent_bound:
  assumes "y < 2 ^ 126" "2 powi (- 900) \<le> rat_of_nat y * 2 powi e"
  shows "- 1026 \<le> e"
proof (rule ccontr)
  assume "\<not> - 1026 \<le> e"
  then have "(2 :: rat) powi e \<le> 2 powi (- 1026)" unfolding powi_le_iff by simp
  then have "rat_of_nat y * 2 powi e \<le> of_nat y * 2 powi (- 1026)" by (intro mult_left_mono) simp_all
  also have "rat_of_nat y < 2 ^ 126" using assms(1) unfolding of_nat_less_iff [where 'a = rat, symmetric] by simp
  then have "rat_of_nat y * 2 powi (- 1026) < 2 ^ 126 * 2 powi (- 1026)" by (rule mult_strict_right_mono) simp
  also have "\<dots> = 2 powi (- 900)" using powi_split [of "- 1026" 126] by simp
  finally show False using assms(2) by simp
qed

lemma rounded_product:
  fixes r :: int
  assumes "\<bar>ut_sign x\<bar> = 1" "y < 2 ^ 126"
    and p: "p = of_int (ut_sign x) * of_nat y * 2 powi (ut_exp x)"
    and range: "2 powi (- 900) \<le> \<bar>p\<bar>" "\<bar>p\<bar> \<le> 2 powi 1022"
  defines "d \<equiv> dval (Recompose (Normalize y x r))"
  shows "r > 0 \<Longrightarrow> \<bar>p\<bar> \<le> \<bar>d\<bar>" "r < 0 \<Longrightarrow> \<bar>d\<bar> \<le> \<bar>p\<bar>" "\<bar>d - p\<bar> \<le> \<bar>p\<bar> / 2 ^ 51" "\<bar>d - p\<bar> = \<bar>\<bar>d\<bar> - \<bar>p\<bar>\<bar>"
proof -
  let ?e = "2 powi (ut_exp x) :: rat"
  have e: "0 < ?e" by simp
  have s: "\<bar>rat_of_int (ut_sign x)\<bar> = 1" using assms(1) by (simp flip: of_int_abs)
  have ap: "\<bar>p\<bar> = of_nat y * ?e" unfolding p by (simp add: abs_mult s)
  have ex: "- 1026 \<le> ut_exp x" using exponent_bound [OF assms(2)] range(1) unfolding ap by simp
  have d: "d = of_int (ut_sign x) * of_nat (normal52 y r) * ?e"
    unfolding d_def using Normalize_exact [of x y r] ex range(2) unfolding ap by simp
  have ad: "\<bar>d\<bar> = of_nat (normal52 y r) * ?e" unfolding d by (simp add: abs_mult s)
  have diff: "\<bar>d - p\<bar> = \<bar>of_nat (normal52 y r) - of_nat y\<bar> * ?e"
    unfolding d p by (simp add: abs_mult s flip: left_diff_distrib right_diff_distrib)
  show "r > 0 \<Longrightarrow> \<bar>p\<bar> \<le> \<bar>d\<bar>" "r < 0 \<Longrightarrow> \<bar>d\<bar> \<le> \<bar>p\<bar>"
    unfolding ap ad using normal52_error(1,2) [of r y] by (auto intro!: mult_right_mono)
  have n: "rat_of_nat (normal52 y r) - of_nat y \<le> of_nat y / 2 ^ 51" "rat_of_nat y - of_nat (normal52 y r) \<le> of_nat y / 2 ^ 51"
    using normal52_error(3,4) [of y r] unfolding of_nat_le_iff [where 'a = rat, symmetric] by simp_all
  then have "\<bar>rat_of_nat (normal52 y r) - of_nat y\<bar> \<le> of_nat y / 2 ^ 51" by linarith
  from mult_right_mono [OF this, of ?e] show "\<bar>d - p\<bar> \<le> \<bar>p\<bar> / 2 ^ 51" unfolding diff ap by simp
  show "\<bar>d - p\<bar> = \<bar>\<bar>d\<bar> - \<bar>p\<bar>\<bar>" unfolding diff ap ad by (simp add: abs_mult flip: left_diff_distrib)
qed

lemma decomposed:
  fixes r :: int
  assumes "is_double d" "dval d \<noteq> 0" "53 \<le> n"
  defines "t \<equiv> Decompose d n r"
  shows "dval d = of_int (ut_sign t) * of_nat (ut_mant t) * 2 powi (ut_exp t)" "\<bar>ut_sign t\<bar> = 1"
    "2 ^ (n - 1) \<le> ut_mant t" "ut_mant t < 2 ^ n"
proof -
  have "(2 :: int) ^ 53 \<le> 2 ^ n" using assms(3) by (intro power_increasing) auto
  then have m: "dmant d \<noteq> 0" "\<bar>dmant d\<bar> < 2 ^ n" "0 < n" using assms(1,2,3) by (auto simp: is_double_def dval_def)
  note e = Decompose_exact(1) [OF m, of r] Decompose_exact(2-4) [OF m]
  show "dval d = of_int (ut_sign t) * of_nat (ut_mant t) * 2 powi (ut_exp t)"
    using Decompose_value [OF m(2,3), of r] unfolding tval_def t_def by simp
  show "\<bar>ut_sign t\<bar> = 1" "2 ^ (n - 1) \<le> ut_mant t" "ut_mant t < 2 ^ n"
    using e m(1) unfolding t_def by (simp_all add: sgn_if)
qed


lemma quotient_near:
  assumes "0 < X" "c \<le> X"
  shows "rat_of_nat ((n + c) div X) \<le> of_nat n / of_nat X + 1" "rat_of_nat n / of_nat X \<le> of_nat ((n + c) div X) + 1"
    "c = 0 \<Longrightarrow> rat_of_nat ((n + c) div X) \<le> of_nat n / of_nat X"
    "c = X - 1 \<Longrightarrow> rat_of_nat n / of_nat X \<le> of_nat ((n + c) div X)"
proof -
  let ?y = "(n + c) div X"
  have x: "0 < rat_of_nat X" using assms(1) by simp
  have "?y * X \<le> n + c" by (rule div_times_less_eq_dividend)
  then have u: "?y * X \<le> n + X" "c = 0 \<Longrightarrow> ?y * X \<le> n" using assms(2) by linarith+
  have "n + c < (?y + 1) * X" using assms(1) dividend_less_times_div [of X "n + c"] by (simp add: algebra_simps)
  then have l: "n \<le> ?y * X + X" "c = X - 1 \<Longrightarrow> n \<le> ?y * X" using assms(1) by (simp_all add: algebra_simps)
  show "rat_of_nat ?y \<le> of_nat n / of_nat X + 1" "rat_of_nat n / of_nat X \<le> of_nat ?y + 1"
    "c = 0 \<Longrightarrow> rat_of_nat ?y \<le> of_nat n / of_nat X" "c = X - 1 \<Longrightarrow> rat_of_nat n / of_nat X \<le> of_nat ?y"
    using u l x unfolding of_nat_le_iff [where 'a = rat, symmetric] by (simp_all add: field_simps)
qed

lemma quotient_size:
  assumes "2 ^ 62 \<le> V" "V < 2 ^ 63" "2 ^ 62 \<le> X" "X < (2 :: nat) ^ 63"
  shows "2 ^ 63 \<le> rat_of_nat (V * 2 ^ 64) / of_nat X" "rat_of_nat (V * 2 ^ 64) / of_nat X \<le> 2 ^ 65"
proof -
  have "2 ^ 63 * X \<le> V * 2 ^ 64" "V * 2 ^ 64 \<le> 2 ^ 65 * X" using assms by simp_all
  then have "2 ^ 63 * rat_of_nat X \<le> of_nat (V * 2 ^ 64)" "rat_of_nat (V * 2 ^ 64) \<le> 2 ^ 65 * of_nat X"
    unfolding of_nat_le_iff [where 'a = rat, symmetric] by simp_all
  moreover have "0 < rat_of_nat X" using assms(3) by simp
  ultimately show "2 ^ 63 \<le> rat_of_nat (V * 2 ^ 64) / of_nat X" "rat_of_nat (V * 2 ^ 64) / of_nat X \<le> 2 ^ 65"
    by (simp_all add: pos_le_divide_eq pos_divide_le_eq)
qed

lemma rounded_near:
  fixes r :: int
  assumes sg: "\<bar>ut_sign x\<bar> = 1" and y: "y < 2 ^ 126" and q: "q = of_int (ut_sign x) * Q * 2 powi (ut_exp x)"
    and Q: "2 ^ 63 \<le> Q" "rat_of_nat y \<le> Q + 1" "Q \<le> rat_of_nat y + 1" "r > 0 \<Longrightarrow> Q \<le> of_nat y" "r < 0 \<Longrightarrow> of_nat y \<le> Q"
    and range: "2 powi (- 899) \<le> \<bar>q\<bar>" "\<bar>q\<bar> \<le> 2 powi 1021"
  defines "d \<equiv> dval (Recompose (Normalize y x r))"
  shows "(r > 0 \<longrightarrow> \<bar>q\<bar> \<le> \<bar>d\<bar>) \<and> (r < 0 \<longrightarrow> \<bar>d\<bar> \<le> \<bar>q\<bar>) \<and> \<bar>d - q\<bar> \<le> \<bar>q\<bar> / 2 ^ 50"
proof -
  let ?e = "2 powi (ut_exp x) :: rat"
  define p where "p = of_int (ut_sign x) * of_nat y * ?e"
  have s: "\<bar>rat_of_int (ut_sign x)\<bar> = 1" using sg by (simp flip: of_int_abs)
  have ap: "\<bar>p\<bar> = of_nat y * ?e" unfolding p_def by (simp add: abs_mult s)
  have aq: "\<bar>q\<bar> = Q * ?e" unfolding q using Q(1) by (simp add: abs_mult s)
  have le: "a * ?e \<le> b * ?e" if "a \<le> b" for a b using that by (intro mult_right_mono) simp_all
  have h: "Q / 2 \<le> of_nat y" "of_nat y \<le> 2 * Q" using Q(1-3) by simp_all
  have "\<bar>of_nat y - Q\<bar> \<le> 1" "1 \<le> Q / 2 ^ 63" using Q(1-3) by (simp_all add: abs_le_iff)
  note h = h order_trans [OF this]
  have half: "\<bar>q\<bar> / 2 \<le> \<bar>p\<bar>" "\<bar>p\<bar> \<le> 2 * \<bar>q\<bar>" using le [OF h(1)] le [OF h(2)] unfolding ap aq by simp_all
  have "2 powi (- 899) / 2 \<le> \<bar>p\<bar>" by (rule order_trans [OF divide_right_mono [OF range(1)] half(1)]) simp
  moreover have "(2 :: rat) powi (- 899) / 2 = 2 powi (- 900)" using powi_split [of "- 900" 1] by simp
  ultimately have r1: "2 powi (- 900) \<le> \<bar>p\<bar>" by simp
  have "\<bar>p\<bar> \<le> 2 * 2 powi 1021" by (rule order_trans [OF half(2) mult_left_mono [OF range(2)]]) simp
  moreover have "2 * (2 :: rat) powi 1021 = 2 powi 1022" using powi_split [of 1021 1] by simp
  ultimately have r2: "\<bar>p\<bar> \<le> 2 powi 1022" by simp
  note v = rounded_product [OF sg y p_def r1 r2, of r, folded d_def]
  have up: "r > 0 \<Longrightarrow> \<bar>q\<bar> \<le> \<bar>p\<bar>" and dn: "r < 0 \<Longrightarrow> \<bar>p\<bar> \<le> \<bar>q\<bar>" unfolding ap aq using Q(4,5) le by blast+
  have "\<bar>p - q\<bar> = \<bar>of_nat y - Q\<bar> * ?e" unfolding p_def q by (simp add: abs_mult s flip: left_diff_distrib right_diff_distrib)
  then have pq: "\<bar>p - q\<bar> \<le> \<bar>q\<bar> / 2 ^ 63" using le [OF h(3)] unfolding aq by simp
  have "\<bar>p\<bar> \<le> \<bar>q\<bar> + \<bar>q\<bar> / 2 ^ 63" using pq by linarith
  then have "\<bar>d - p\<bar> \<le> (\<bar>q\<bar> + \<bar>q\<bar> / 2 ^ 63) / 2 ^ 51" using v(3) by (simp add: field_simps)
  then have "\<bar>d - q\<bar> \<le> (\<bar>q\<bar> + \<bar>q\<bar> / 2 ^ 63) / 2 ^ 51 + \<bar>q\<bar> / 2 ^ 63" using pq by linarith
  also have "\<dots> \<le> \<bar>q\<bar> / 2 ^ 50" using abs_ge_zero [of q] by (simp add: field_simps)
  finally show ?thesis using v(1,2) up dn by fastforce
qed


section \<open>The format\<close>

text \<open>A number of the format: a \<open>double\<close> whose mantissa has 52 bits.\<close>

definition uni :: "dbl \<Rightarrow> bool" where
  "uni d \<longleftrightarrow> is_double d \<and> rep52 (nat \<bar>dmant d\<bar>)"

lemma rep52_small: "q \<le> 2 ^ 52 \<Longrightarrow> rep52 q"
  unfolding rep52_def by (metis mult.right_neutral power_0)

lemma rep52_mult: "rep52 n \<Longrightarrow> rep52 (n * 2 ^ k)"
  unfolding rep52_def by (metis mult.assoc power_add)

lemma rep52_round_even: "rep52 n \<Longrightarrow> rep52 (round_even n k)"
proof -
  assume "rep52 n"
  then obtain q t where n: "n = q * 2 ^ t" "q \<le> 2 ^ 52" unfolding rep52_def by blast
  show ?thesis
  proof (cases "k \<le> t")
    case True
    then have "round_even n k = q * 2 ^ (t - k)"
      using round_even_exact [of k n] mult_pow_div [OF True, of q] n(1) by (simp add: le_imp_power_dvd dvd_mult)
    then show ?thesis using n(2) unfolding rep52_def by blast
  next
    case False
    then have "(2::nat) ^ t \<le> 2 ^ k" by simp
    then have "n \<le> 2 ^ 52 * 2 ^ k" unfolding n(1) using n(2) by (rule_tac mult_le_mono)
    then show ?thesis by (intro rep52_small round_even_le)
  qed
qed

lemma Recompose_uni:
  assumes "rep52 (ut_mant x)" "\<bar>ut_sign x\<bar> \<le> 1"
  shows "uni (Recompose x) \<or> Recompose x = dbl_max \<or> Recompose x = dbl_neg dbl_max"
proof -
  define j where "j = blen (ut_mant x) - 53"
  define k where "k = nat (- 1074 - (ut_exp x + int j))"
  define m where "m = round_even (round_even (ut_mant x) j) k"
  define e where "e = ut_exp x + int j + int k"
  have l: "ldexp_u64 (ut_mant x) (ut_exp x) = (m, e)"
    by (simp add: ldexp_u64_def Let_def j_def k_def m_def e_def)
  have e: "- 1074 \<le> e" by (simp add: e_def k_def)
  obtain q t where q: "ut_mant x = q * 2 ^ t" "q \<le> 2 ^ 52" using assms(1) unfolding rep52_def by blast
  have "2 ^ j dvd ut_mant x" using rep_multiple(2) [OF q(1)] q(2) by (simp add: j_def)
  moreover have "ut_mant x < 2 ^ (53 + j)" unfolding j_def by (simp flip: blen_le_iff)
  ultimately have "round_even (ut_mant x) j < 2 ^ 53"
    by (simp add: round_even_exact div_less_iff_less_mult power_add)
  then have "round_even (ut_mant x) j \<le> 2 ^ 53 - 1" by simp
  from mult_le_mono [OF this, of 1 "2 ^ k"] have "round_even (ut_mant x) j \<le> (2 ^ 53 - 1) * 2 ^ k" by simp
  then have m: "m < 2 ^ 53" unfolding m_def using round_even_le [of "round_even (ut_mant x) j" "2 ^ 53 - 1" k] by simp
  have r: "rep52 m" using assms(1) unfolding m_def by (intro rep52_round_even)
  consider "ut_sign x = 0" | "ut_sign x = 1" | "ut_sign x = - 1" using assms(2) by linarith
  then show ?thesis
    using m e r rep52_small [of 0]
    by cases (auto simp: Recompose_def l uni_def is_double_def dbl_max_def dbl_neg_def nat_less_iff)
qed

section \<open>Sample products\<close>

lemma sample_doubles: "is_double (Dbl 3 0)" "is_double (Dbl 5 (- 1))" "dval (Dbl 3 0) = 3" "dval (Dbl 5 (- 1)) = 5 / 2"
  by (simp_all add: is_double_def dval_def blen.simps)



end
