(* ===== verification/Uni_Format.thy ===== *)
theory Uni_Format
  imports Uni_Float_Props
begin

text \<open>
  The format of the portable floating-point numbers is closed under their arithmetic, and the average of
  two rates lies between them.
\<close>

section \<open>Numbers of the format\<close>

lemma round_mant_le: "m \<le> c * 2 ^ nat (- k) \<Longrightarrow> k < 0 \<Longrightarrow> round_mant m k r \<le> c"
proof -
  assume m: "m \<le> c * 2 ^ nat (- k)" and k: "k < 0"
  define j where "j = nat (- k)"
  have m: "m \<le> c * 2 ^ j" using m by (simp add: j_def)
  have "(m + i) div 2 ^ j \<le> c" if "i < 2 ^ j" for i
  proof -
    have "m + i < (c + 1) * 2 ^ j" using m that by simp
    then have "(m + i) div 2 ^ j < c + 1" by (rule less_mult_imp_div_less)
    then show ?thesis by simp
  qed
  from this [of 0] this [of "2 ^ j - 1"] this [of "2 ^ (j - 1)"] show ?thesis
    using k by (auto simp: round_mant_def Let_def j_def)
qed

lemma Decompose_52_small: "ut_mant (Decompose v 0 r) \<le> 2 ^ 52"
proof (cases "dmant v = 0")
  case False
  define m where "m = nat \<bar>dmant v\<bar>"
  define k where "k = 52 - int (blen m)"
  have m: "m < 2 ^ blen m" using blen_bounds [of m] by (cases m) auto
  have "round_mant m (k - 1) r \<le> 2 ^ 52"
  proof (cases "0 \<le> k - 1")
    case True
    have "m * 2 ^ nat (k - 1) \<le> 2 ^ blen m * 2 ^ nat (k - 1)" using m by simp
    also have "\<dots> \<le> 2 ^ 52" unfolding power_add [symmetric] using True by (intro power_increasing) (auto simp: k_def)
    finally show ?thesis using True by (simp add: round_mant_def)
  next
    case False
    have "(2::nat) ^ blen m \<le> 2 ^ (52 + nat (- (k - 1)))" using False by (intro power_increasing) (auto simp: k_def)
    then have "m \<le> 2 ^ 52 * 2 ^ nat (- (k - 1))" using m by (simp add: power_add)
    then show ?thesis using False by (intro round_mant_le) auto
  qed
  then show ?thesis using False
    by (auto simp: Decompose_def Let_def UNIFLOAT_COMPUTATION_BITS_def k_def m_def split: prod.splits if_splits)
qed (simp add: Decompose_def)

lemma Decompose_sign: "\<bar>ut_sign (Decompose v n r)\<bar> \<le> 1"
  by (auto simp: Decompose_def Let_def sgn_if split: prod.splits)

lemma Decompose_rep:
  assumes "uni d" "53 \<le> n"
  shows "rep52 (ut_mant (Decompose d n r))"
proof (cases "dmant d = 0")
  case False
  have "(2 :: int) ^ 53 \<le> 2 ^ n" using assms(2) by (intro power_increasing) auto
  then have "\<bar>dmant d\<bar> < 2 ^ n" "0 < n" using assms by (auto simp: uni_def is_double_def)
  from Decompose_exact(1) [OF False this, of r] show ?thesis using assms(1) by (simp add: uni_def rep52_mult)
qed (simp add: Decompose_def rep52_small)

lemma Normalize_rep: "rep52 (ut_mant (Normalize y x r))" "ut_sign (Normalize y x r) = ut_sign x"
  using normal52_rep(2) [of y r] by (simp_all add: Normalize_def Let_def rep52_small)

definition uni_or_max :: "dbl \<Rightarrow> bool" where
  "uni_or_max d \<longleftrightarrow> uni d \<or> d = dbl_max \<or> d = dbl_neg dbl_max"

lemma Recompose_format: "rep52 (ut_mant x) \<Longrightarrow> \<bar>ut_sign x\<bar> \<le> 1 \<Longrightarrow> uni_or_max (Recompose x)"
  using Recompose_uni unfolding uni_or_max_def .

lemma Add_format: "uni a \<Longrightarrow> uni b \<Longrightarrow> uni_or_max (Add a b r avg)"
proof -
  assume u: "uni a" "uni b"
  have s: "\<bar>sgn (y :: int)\<bar> \<le> 1" for y by (simp add: sgn_if)
  show ?thesis
    unfolding Add_def Let_def
    by (rule Recompose_format)
      (use Decompose_rep [OF u(1), of 62 0] Decompose_rep [OF u(2), of 62 0] Decompose_sign [of a 62 0] Decompose_sign [of b 62 0] s in
        \<open>auto simp: add_aligned_def Let_def Normalize_rep\<close>)
qed

lemma sign_product: "\<bar>s\<bar> \<le> 1 \<Longrightarrow> \<bar>t\<bar> \<le> 1 \<Longrightarrow> \<bar>s * t\<bar> \<le> (1 :: int)"
  using mult_mono [of "\<bar>s\<bar>" 1 "\<bar>t\<bar>" 1] by (simp add: abs_mult)

lemma Multiply_format: "uni_or_max (Multiply a b r)"
  unfolding Multiply_def Let_def by (rule Recompose_format) (simp_all add: Normalize_rep sign_product Decompose_sign)

lemma max_format: "uni_or_max dbl_max" "uni_or_max (dbl_neg dbl_max)"
  by (simp_all add: uni_or_max_def)

lemma Divide_format: "uni_or_max (Divide a b r)"
  unfolding Divide_def Let_def by (auto simp: Normalize_rep sign_product Decompose_sign max_format intro!: Recompose_format)

lemma UniFloat_format: "uni_or_max (UniFloat v r)"
  unfolding UniFloat_def by (intro Recompose_format rep52_small Decompose_52_small Decompose_sign)

text \<open>Rounding a number of the format changes nothing.\<close>

lemma UniFloat_exact:
  assumes "uni d"
  shows "dval (UniFloat d r) = dval d"
proof (cases "dmant d = 0")
  case False
  define m where "m = nat \<bar>dmant d\<bar>"
  define k where "k = 52 - int (blen m)"
  have m: "0 < m" "m < 2 ^ 53" "rep52 m" "- 1074 \<le> dexp d" "int (blen m) + dexp d \<le> 1024"
    using assms False by (auto simp: m_def uni_def is_double_def nat_less_iff)
  note b = blen_bounds [OF m(1)]
  define x where "x = Decompose d 0 r"
  obtain q t where x: "ut_mant x = q * 2 ^ t" "q < 2 ^ 53" "- 1074 \<le> ut_exp x + int t" "tval x = dval d" "ut_sign x = sgn (dmant d)"
  proof (cases "0 \<le> k")
    case True
    have "\<bar>dmant d\<bar> < 2 ^ 52" using True blen_le_iff [of m 52] by (simp add: k_def m_def nat_less_iff)
    note e = Decompose_exact(1) [OF False this, of r] Decompose_value [OF this, of r]
    have "Decompose d 52 r = x" by (simp add: x_def Decompose_def UNIFLOAT_COMPUTATION_BITS_def)
    with e show ?thesis using that [of m "52 - blen m"] m by (simp add: m_def)
  next
    case False
    then have k: "blen m = 53" "k = - 1" using b m(2) blen_le_iff [of m 53] by (auto simp: k_def)
    have "(2::nat) ^ (51 + 1) \<le> m" using b k(1) by simp
    then have "even m" using rep52_multiple [OF m(3), of 1] by simp
    then have rm: "round_mant m (- 1) r = m div 2" by (auto simp: round_mant_def elim!: evenE)
    have l: "m div 2 < 2 ^ 52" using m(2) by simp
    have e: "x = \<lparr>ut_mant = m div 2, ut_exp = dexp d + 1, ut_sign = sgn (dmant d)\<rparr>"
      using \<open>dmant d \<noteq> 0\<close> l unfolding x_def Decompose_def UNIFLOAT_COMPUTATION_BITS_def m_def [symmetric]
      by (simp add: Let_def k(1) rm)
    have "rat_of_int (dmant d) = of_int (sgn (dmant d)) * of_nat m" by (auto simp: sgn_if m_def)
    moreover have "rat_of_nat m = of_nat (m div 2) * 2" using \<open>even m\<close> by (metis dvd_div_mult_self of_nat_mult of_nat_numeral)
    ultimately have "tval x = dval d" unfolding e tval_def dval_def using powi_split [of "dexp d" 1] by simp
    then show ?thesis using that [of "m div 2" 0] m(4) l e by simp
  qed
  have "of_nat (ut_mant x) * 2 powi ut_exp x = \<bar>dval d\<bar>"
    unfolding x(4) [symmetric] tval_def x(5) using False by (simp add: abs_mult sgn_if)
  also have "\<bar>dval d\<bar> = of_nat m * 2 powi dexp d" by (simp add: dval_def abs_mult m_def)
  also have "\<dots> < 2 ^ blen m * 2 powi dexp d" using b by (intro mult_strict_right_mono) (simp_all flip: of_nat_less_iff)
  also have "\<dots> = 2 powi (dexp d + int (blen m))" by (simp add: powi_split)
  also have "\<dots> \<le> 2 powi 1024" unfolding powi_le_iff using m(5) by simp
  finally show ?thesis using Recompose_exact [OF x(1-3)] x(4) by (simp add: UniFloat_def x_def)
qed (simp add: UniFloat_def Decompose_def Recompose_def ldexp_u64_def round_even_def dval_def Let_def)

text \<open>
  C32. The arithmetic never leaves the format: sums, averages, products, quotients and conversions give
  numbers with a mantissa of 52 bits (or the largest \<open>double\<close> when they overflow), and a number that
  has the format already is not changed by rounding it again.
\<close>

theorem arithmetic_keeps_format:
  assumes "uni a" "uni b"
  shows "uni_or_max (Add a b r avg) \<and> uni_or_max (Multiply a b r) \<and> uni_or_max (Divide a b r) \<and>
    uni_or_max (UniFloat v r) \<and> dval (UniFloat a r) = dval a"
  using assms by (simp add: Add_format Multiply_format Divide_format UniFloat_format UniFloat_exact)

section \<open>The average of two rates\<close>

text \<open>The rates for which the average is considered: zero, or well within the range of a \<open>double\<close>.\<close>

definition rate_value :: "dbl \<Rightarrow> bool" where
  "rate_value d \<longleftrightarrow> uni d \<and> (dval d = 0 \<or> 2 powi (- 900) \<le> dval d \<and> dval d \<le> 2 powi 1000)"

lemma positive_decomposed:
  assumes "uni d" "0 < dval d"
  defines "t \<equiv> Decompose d 62 0"
  shows "dval d = of_nat (ut_mant t) * 2 powi (ut_exp t)" "ut_sign t = 1" "2 ^ 61 \<le> ut_mant t" "ut_mant t < 2 ^ 62"
    "rep52 (ut_mant t)"
proof -
  have d: "is_double d" "dval d \<noteq> 0" using assms(1,2) by (auto simp: uni_def)
  note e = decomposed [OF d, of 62 0, folded t_def]
  have "ut_sign t \<noteq> - 1"
  proof
    assume "ut_sign t = - 1"
    then have "dval d = - (rat_of_nat (ut_mant t) * 2 powi (ut_exp t))" using e(1) by simp
    moreover have "0 \<le> rat_of_nat (ut_mant t) * 2 powi (ut_exp t)" by simp
    ultimately show False using assms(2) by linarith
  qed
  then show s: "ut_sign t = 1" using e(2) by linarith
  show "dval d = of_nat (ut_mant t) * 2 powi (ut_exp t)" using e(1) by (simp add: s)
  show "2 ^ 61 \<le> ut_mant t" "ut_mant t < 2 ^ 62" using e(3,4) by simp_all
  show "rep52 (ut_mant t)" unfolding t_def by (rule Decompose_rep [OF assms(1)]) simp
qed

text \<open>The sum of two aligned mantissas, rounded: between twice the smaller and twice the larger number.\<close>

lemma aligned_sum_between:
  assumes "2 ^ 61 \<le> V" "rep52 V" "X < 2 ^ 62" "2 ^ 61 \<le> X" "rep52 X" "X \<le> V * 2 ^ d"
  shows "normal52 (V + Shift X d r) r \<le> 2 * V" "2 * X \<le> normal52 (V + Shift X d r) r * 2 ^ d"
proof -
  let ?S = "V + Shift X d r"
  have "Shift X d r \<le> V" by (rule Shift_le [OF assms(6)])
  then show "normal52 ?S r \<le> 2 * V"
    using normal52_le [of "V * 2 ^ 1" ?S r] rep52_mult [OF assms(2), of 1] by simp
  consider "d = 0" | "d = 1" | "2 \<le> d" by linarith
  then show "2 * X \<le> normal52 ?S r * 2 ^ d"
  proof cases
    case 1
    then have "X * 2 ^ 1 \<le> ?S" using assms(6) Shift_exact [of 0 X r] by simp
    then show ?thesis using normal52_ge [OF rep52_mult [OF assms(5), of 1], of ?S r] 1 by simp
  next
    case 2
    have "(2::nat) ^ 10 dvd X" using rep52_multiple [OF assms(5), of 10] assms(4) by simp
    then have "even X" by (rule dvd_trans [rotated]) simp
    then have "Shift X d r = X div 2" using 2 Shift_exact [of 1 X r] by simp
    moreover have "X div 2 \<le> V" using assms(6) 2 by simp
    ultimately have "X \<le> ?S" using \<open>even X\<close> by (auto elim!: evenE)
    then show ?thesis using normal52_ge [OF assms(5), of ?S r] 2 by simp
  next
    case 3
    have "V \<le> normal52 ?S r" by (rule normal52_ge [OF assms(2)]) simp
    then have "V * 4 \<le> normal52 ?S r * 2 ^ d" using 3 power_increasing [of 2 d "2 :: nat"] by (intro mult_le_mono) simp_all
    then show ?thesis using assms(1,3) by simp
  qed
qed

text \<open>The order of the arguments does not matter.\<close>

lemma Decompose_zero: "is_double d \<Longrightarrow> ut_mant (Decompose d 62 0) = 0 \<longleftrightarrow> dmant d = 0"
proof (cases "dmant d = 0")
  case False
  assume "is_double d"
  then have "2 ^ 61 \<le> ut_mant (Decompose d 62 0)" using decomposed(3) [of d 62 0] False by (simp add: dval_def)
  then show ?thesis using False by auto
qed (simp add: Decompose_def)

lemma add_aligned_commute: "add_aligned v x (ut_exp v - ut_exp x) r = add_aligned x v (ut_exp x - ut_exp v) r"
  by (auto simp: add_aligned_def Normalize_def Let_def add.commute)

lemma Add_commute:
  assumes "is_double a" "is_double b"
  shows "Add a b r avg = Add b a r avg"
proof -
  define v where "v = Decompose a 62 0"
  define x where "x = Decompose b 62 0"
  have "v = x" if "ut_mant v = 0" "ut_mant x = 0"
    using that assms by (simp add: v_def x_def Decompose_zero) (simp add: Decompose_def)
  then show ?thesis
    unfolding Add_def Let_def v_def [symmetric] x_def [symmetric] using add_aligned_commute [of v x r] by auto
qed

lemma rate_nonneg: "rate_value d \<Longrightarrow> 0 \<le> dval d"
  unfolding rate_value_def by (metis order.refl order_trans zero_le_power_int zero_le_numeral)

lemma halved:
  assumes "rate_value b" "0 < dval b"
  defines "v \<equiv> Decompose b 62 0"
  shows "dval (Recompose (v\<lparr>ut_exp := ut_exp v - 1\<rparr>)) = dval b / 2" "- 1026 \<le> ut_exp v"
proof -
  have b: "uni b" "2 powi (- 900) \<le> dval b" "dval b \<le> 2 powi 1000" using assms(1,2) by (auto simp: rate_value_def)
  note v = positive_decomposed [OF b(1) assms(2), folded v_def]
  have "ut_mant v < 2 ^ 126" using v(4) by simp
  then show e: "- 1026 \<le> ut_exp v" using exponent_bound [of "ut_mant v" "ut_exp v"] v(1) b(2) by simp
  obtain q t where q: "ut_mant v = q * 2 ^ t" "q \<le> 2 ^ 52" using v(5) unfolding rep52_def by blast
  let ?w = "v\<lparr>ut_exp := ut_exp v - 1\<rparr>"
  have h: "rat_of_nat (ut_mant v) * 2 powi (ut_exp v - 1) = dval b / 2"
    unfolding v(1) using powi_split [of "ut_exp v - 1" 1] by simp
  have "dval b / 2 \<le> dval b" using assms(2) by simp
  also have "\<dots> \<le> 2 powi 1000" by (rule b(3))
  also have "\<dots> < 2 powi 1024" unfolding powi_less_iff by simp
  finally have "dval (Recompose ?w) = tval ?w" using e q h by (intro Recompose_exact [of _ q t]) simp_all
  then show "dval (Recompose ?w) = dval b / 2" using h v(2) by (simp add: tval_def)
qed

lemma smaller_exponent:
  assumes "2 ^ 61 \<le> X" "V < 2 ^ 62" "rat_of_nat X * 2 powi e \<le> of_nat V * 2 powi f"
  shows "e \<le> f"
proof (rule ccontr)
  assume "\<not> e \<le> f"
  have "rat_of_nat V * 2 powi f < 2 ^ 62 * 2 powi f" using assms(2) by (intro mult_strict_right_mono) (simp_all flip: of_nat_less_iff)
  also have "\<dots> = 2 ^ 61 * 2 powi (f + 1)" using powi_split [of f 1] by simp
  also have "\<dots> \<le> 2 ^ 61 * 2 powi e" using \<open>\<not> e \<le> f\<close> by (intro mult_left_mono) (simp_all add: powi_le_iff)
  also have "\<dots> \<le> of_nat X * 2 powi e" using assms(1) by (intro mult_right_mono) (simp_all flip: of_nat_le_iff)
  finally show False using assms(3) by simp
qed

lemma far_apart:
  assumes "X < 2 ^ 62" "2 ^ 61 \<le> V" "62 \<le> f - e"
  shows "rat_of_nat X * 2 powi e \<le> of_nat V * 2 powi f / 2"
proof -
  have "rat_of_nat X * 2 powi e \<le> 2 ^ 62 * 2 powi e" using assms(1) by (intro mult_right_mono) (simp_all flip: of_nat_less_iff)
  also have "\<dots> = 2 powi (e + 62)" using powi_split [of e 62] by simp
  also have "\<dots> \<le> 2 powi f" unfolding powi_le_iff using assms(3) by simp
  also have "\<dots> \<le> 2 ^ 61 * 2 powi f / 2" by simp
  also have "\<dots> \<le> of_nat V * 2 powi f / 2" using assms(2) by (intro divide_right_mono mult_right_mono) (simp_all flip: of_nat_le_iff)
  finally show ?thesis .
qed

lemma aligned_average:
  fixes r :: int
  assumes "rate_value a" "rate_value b" "0 < dval a" "dval a \<le> dval b"
  defines "v \<equiv> Decompose b 62 0" and "x \<equiv> Decompose a 62 0"
  defines "w \<equiv> add_aligned v x (ut_exp v - ut_exp x) r"
  shows "dval a \<le> dval (Recompose (w\<lparr>ut_exp := ut_exp w - 1\<rparr>)) \<and> dval (Recompose (w\<lparr>ut_exp := ut_exp w - 1\<rparr>)) \<le> dval b"
proof -
  have u: "uni a" "uni b" "0 < dval b" "dval b \<le> 2 powi 1000" using assms by (auto simp: rate_value_def)
  note x = positive_decomposed [OF u(1) assms(3), folded x_def]
  note v = positive_decomposed [OF u(2,3), folded v_def]
  define d where "d = nat (ut_exp v - ut_exp x)"
  have le: "ut_exp x \<le> ut_exp v" using smaller_exponent [of "ut_mant x" "ut_mant v"] x v assms(4) by simp
  then have ev: "ut_exp v = ut_exp x + int d" by (simp add: d_def)
  have "rat_of_nat (ut_mant x) * 2 powi ut_exp x \<le> of_nat (ut_mant v * 2 ^ d) * 2 powi ut_exp x"
    using assms(4) unfolding x(1) v(1) ev powi_split by (simp add: mult_ac)
  then have X: "ut_mant x \<le> ut_mant v * 2 ^ d" by (simp flip: of_nat_le_iff [where 'a = rat])
  define S where "S = ut_mant v + Shift (ut_mant x) d r"
  note between = aligned_sum_between [OF v(3,5) x(4,3,5) X, of r, folded S_def]
  have sh: "(if 0 < ut_exp v - ut_exp x then Shift (ut_mant x) (nat (ut_exp v - ut_exp x)) r else ut_mant x) = Shift (ut_mant x) d r"
    using le by (auto simp: d_def Shift_def)
  have w: "w\<lparr>ut_exp := ut_exp w - 1\<rparr> = Normalize S (v\<lparr>ut_sign := 1, ut_exp := ut_exp v - 1\<rparr>) r"
    unfolding w_def add_aligned_def sh using le v(2,3) x(2) by (simp add: Normalize_def Let_def S_def nat_add_distrib sgn_if)
  have h: "of_nat V * 2 powi (ut_exp v - 1) = of_nat V * 2 powi (ut_exp v) / (2 :: rat)" for V
    using powi_split [of "ut_exp v - 1" 1] by simp
  have m: "rat_of_nat V * 2 powi (ut_exp v - 1) \<le> dval b" if "V \<le> 2 * ut_mant v" for V
  proof -
    have "rat_of_nat V \<le> of_nat (2 * ut_mant v)" using that by (simp only: of_nat_le_iff)
    then have "rat_of_nat V * 2 powi (ut_exp v - 1) \<le> of_nat (2 * ut_mant v) * 2 powi (ut_exp v - 1)" by (rule mult_right_mono) simp
    then show ?thesis unfolding v(1) h [of "2 * ut_mant v"] by simp
  qed
  have "S \<le> 2 * ut_mant v" unfolding S_def using Shift_le [OF X, of r] by simp
  from order_trans [OF m [OF this] u(4)] have "of_nat S * 2 powi (ut_exp v - 1) \<le> (2 :: rat) powi 1022"
    by (rule order_trans) (simp only: powi_le_iff)
  moreover have "- 1026 \<le> ut_exp v" using halved(2) [OF assms(2) u(3)] by (simp add: v_def)
  ultimately have val: "dval (Recompose (w\<lparr>ut_exp := ut_exp w - 1\<rparr>)) = of_nat (normal52 S r) * 2 powi (ut_exp v - 1)"
    unfolding w by (subst Normalize_exact) simp_all
  have "rat_of_nat (2 * ut_mant x) \<le> of_nat (normal52 S r * 2 ^ d)" using between(2) by (simp only: of_nat_le_iff)
  then have "rat_of_nat (2 * ut_mant x) * 2 powi ut_exp x \<le> of_nat (normal52 S r * 2 ^ d) * 2 powi ut_exp x" by (rule mult_right_mono) simp
  then have "dval a \<le> of_nat (normal52 S r) * 2 powi (ut_exp v - 1)" unfolding h [of "normal52 S r"] unfolding x(1) ev powi_split by (simp add: mult_ac)
  then show ?thesis unfolding val using m [OF between(1)] by simp
qed

lemma Average_ordered:
  assumes "rate_value a" "rate_value b" "dval a \<le> dval b"
  shows "dval a \<le> dval (Average b a r) \<and> dval (Average b a r) \<le> dval b"
proof (cases "dval b = 0")
  case True
  then have "dmant a = 0" "dmant b = 0" using assms rate_nonneg [OF assms(1)] by (simp_all add: dval_def)
  then have d: "Decompose a 62 0 = \<lparr>ut_mant = 0, ut_exp = 0, ut_sign = 0\<rparr>" "Decompose b 62 0 = \<lparr>ut_mant = 0, ut_exp = 0, ut_sign = 0\<rparr>"
    by (simp_all add: Decompose_def)
  have "Average b a r = Recompose \<lparr>ut_mant = 0, ut_exp = - 1, ut_sign = 0\<rparr>" by (simp add: Average_def Add_def Let_def d)
  also have "dval \<dots> = 0" by (simp add: Recompose_def ldexp_u64_def round_even_def dval_def)
  finally show ?thesis using True assms(3) rate_nonneg [OF assms(1)] by simp
next
  case False
  then have b: "0 < dval b" using rate_nonneg [OF assms(2)] by simp
  define v where "v = Decompose b 62 0"
  define x where "x = Decompose a 62 0"
  have u: "uni a" "uni b" "is_double a" "is_double b" using assms by (auto simp: rate_value_def uni_def)
  note v = positive_decomposed [OF u(2) b, folded v_def]
  note hv = halved(1) [OF assms(2) b, folded v_def]
  show ?thesis
  proof (cases "dval a = 0")
    case True
    then have "ut_mant x = 0" using Decompose_zero [OF u(3)] by (simp add: x_def dval_def)
    then have "Average b a r = Recompose (v\<lparr>ut_exp := ut_exp v - 1\<rparr>)"
      by (simp add: Average_def Add_def v_def [symmetric] x_def [symmetric])
    then show ?thesis using hv b True by simp
  next
    case False
    then have a: "0 < dval a" using rate_nonneg [OF assms(1)] by simp
    note x = positive_decomposed [OF u(1) a, folded x_def]
    have le: "ut_exp x \<le> ut_exp v" using smaller_exponent [of "ut_mant x" "ut_mant v"] x v assms(3) by simp
    have nz: "ut_mant v \<noteq> 0" "ut_mant x \<noteq> 0" using v(3) x(3) by auto
    show ?thesis
    proof (cases "62 \<le> ut_exp v - ut_exp x")
      case True
      then have "Average b a r = Recompose (v\<lparr>ut_exp := ut_exp v - 1\<rparr>)"
        using nz by (simp add: Average_def Add_def v_def [symmetric] x_def [symmetric])
      then show ?thesis using hv b far_apart [OF x(4) v(3) True] unfolding x(1) [symmetric] v(1) [symmetric] by simp
    next
      case False
      then show ?thesis using aligned_average [OF assms(1,2) a assms(3), of r] nz le
        by (simp add: Average_def Add_def Let_def v_def [symmetric] x_def [symmetric])
    qed
  qed
qed

lemma Average_bounds:
  assumes "rate_value a" "rate_value b"
  shows "min (dval a) (dval b) \<le> dval (Average a b r)" "dval (Average a b r) \<le> max (dval a) (dval b)"
proof -
  have c: "Average a b r = Average b a r" using assms by (auto simp: Average_def rate_value_def uni_def intro: Add_commute)
  show "min (dval a) (dval b) \<le> dval (Average a b r)" "dval (Average a b r) \<le> max (dval a) (dval b)"
    using Average_ordered [OF assms, of r] Average_ordered [OF assms(2,1), of r] c by (auto simp: min_def max_def)
qed

section \<open>The operations as the exchange uses them\<close>

text \<open>
  What the matching of requests relies on: comparisons are comparisons of values, and the average of two
  rates lies between them.
\<close>

locale rate_order =
  fixes U :: "'f ufops" and val :: "'f \<Rightarrow> rat" and rate :: "'f \<Rightarrow> bool"
  assumes less_val: "uf_less U a b \<longleftrightarrow> val a < val b"
    and eq_val: "uf_eq U a b \<longleftrightarrow> val a = val b"
    and average_ge: "rate a \<Longrightarrow> rate b \<Longrightarrow> min (val a) (val b) \<le> val (uf_average U a b)"
    and average_le: "rate a \<Longrightarrow> rate b \<Longrightarrow> val (uf_average U a b) \<le> max (val a) (val b)"
begin

lemma le_val: "uf_le U a b \<longleftrightarrow> val a \<le> val b"
  by (auto simp: uf_le_def less_val eq_val)

lemma average_between: "rate a \<Longrightarrow> rate b \<Longrightarrow> uf_le U b a \<Longrightarrow> uf_le U b (uf_average U a b) \<and> uf_le U (uf_average U a b) a"
  using average_ge [of a b] average_le [of a b] by (simp add: le_val min_def max_def split: if_splits)

end

text \<open>The \<open>double\<close> nearest to a decimal constant \<open>m * 10 ^ e\<close> of the source.\<close>

definition dbl_literal :: "int \<Rightarrow> int \<Rightarrow> dbl" where
  "dbl_literal m e =
     (if m = 0 \<or> 0 \<le> e then Dbl (m * 10 ^ nat e) 0
      else let n = nat \<bar>m\<bar>; t = 10 ^ nat (- e); s = 53 + blen t - blen n;
               s = (if 2 ^ 53 \<le> n * 2 ^ s div t then s - 1 else s);
               q = n * 2 ^ s div t; r = n * 2 ^ s mod t;
               q = (if t < 2 * r \<or> t = 2 * r \<and> odd q then q + 1 else q)
        in Dbl (sgn m * int q) (- int s))"

text \<open>
  The record of operations, on the functions of unifloat.cpp. The conversions from and to amounts go through
  decimal numbers of 100 digits of a library and stay parameters.
\<close>

definition uni_ufops :: "(u64 \<Rightarrow> bigint \<Rightarrow> dbl) \<Rightarrow> (u64 \<Rightarrow> dbl \<Rightarrow> bool \<times> bigint) \<Rightarrow> dbl ufops" where
  "uni_ufops asset amount =
     \<lparr>uf_lit = (\<lambda>m e. UniFloat (dbl_literal m e) 0), uf_add = (\<lambda>r a b. Add a b r False), uf_mul = (\<lambda>r a b. Multiply a b r),
      uf_div = (\<lambda>r a b. Divide a b r), uf_neg = dbl_neg, uf_less = dbl_less, uf_eq = dbl_eq, uf_asset = asset,
      uf_amount = amount, uf_max = UniFloat dbl_max 0, uf_average = (\<lambda>a b. Average a b 0), uf_power = Power, uf_check_le = CheckLE\<rparr>"

interpretation unif: rate_order "uni_ufops asset amount" dval rate_value for asset amount
proof
  show "uf_less (uni_ufops asset amount) a b \<longleftrightarrow> dval a < dval b" for a b by (simp add: uni_ufops_def dval_less)
  show "uf_eq (uni_ufops asset amount) a b \<longleftrightarrow> dval a = dval b" for a b by (simp add: uni_ufops_def dval_eq)
  show "min (dval a) (dval b) \<le> dval (uf_average (uni_ufops asset amount) a b)" if "rate_value a" "rate_value b" for a b
    using Average_bounds(1) [OF that] by (simp add: uni_ufops_def)
  show "dval (uf_average (uni_ufops asset amount) a b) \<le> max (dval a) (dval b)" if "rate_value a" "rate_value b" for a b
    using Average_bounds(2) [OF that] by (simp add: uni_ufops_def)
qed

section \<open>Evaluation\<close>

text \<open>Rules that compute with numerals only; the arguments are decomposed first.\<close>

lemma blen_numeral: "blen (numeral (Num.Bit0 n)) = blen (numeral n) + 1" "blen (numeral (Num.Bit1 n)) = blen (numeral n) + 1"
  "blen (Suc 0) = 1" "blen (numeral Num.One) = 1"
proof -
  show "blen (numeral (Num.Bit0 n)) = blen (numeral n) + 1" by (subst blen.simps) simp
  show "blen (numeral (Num.Bit1 n)) = blen (numeral n) + 1" by (subst blen.simps) simp
  show "blen (Suc 0) = 1" "blen (numeral Num.One) = 1" by (simp_all add: blen.simps)
qed

lemma Decompose_numeral:
  "Decompose (Dbl 0 e) nb r = \<lparr>ut_mant = 0, ut_exp = 0, ut_sign = 0\<rparr>"
  "Decompose (Dbl (numeral k) e) (numeral n) r =
     (let j = numeral n - int (blen (numeral k)); (y, e) = decompose_loop 1 (2 ^ numeral n) (numeral k) j (e - j) r
      in \<lparr>ut_mant = y, ut_exp = e, ut_sign = 1\<rparr>)"
  by (simp_all add: Decompose_def Let_def)

lemma Recompose_tuple:
  "Recompose \<lparr>ut_mant = m, ut_exp = e, ut_sign = s\<rparr> =
     (let (m, e) = ldexp_u64 m e in if m \<noteq> 0 \<and> int (blen m) + e > 1024 then Dbl (s * dmant dbl_max) (dexp dbl_max) else Dbl (s * int m) e)"
  by (simp add: Recompose_def split: prod.split)

lemma normalize_shift_blen: "normalize_shift m 0 = blen m - 52"
proof -
  define s where "s = normalize_shift m 0"
  have "blen m \<le> 52 + s" "s \<noteq> 0 \<Longrightarrow> \<not> blen m \<le> 51 + s"
    unfolding blen_le_iff using normalize_shift_bounds [OF s_def] by simp_all
  then show ?thesis unfolding s_def [symmetric] by linarith
qed

lemma Divide_tuple:
  assumes "Decompose a 63 0 = \<lparr>ut_mant = m, ut_exp = e, ut_sign = s\<rparr>" "Decompose b 63 0 = \<lparr>ut_mant = m', ut_exp = e', ut_sign = s'\<rparr>"
    and "m' \<noteq> 0" "(m * 2 ^ 64 + (m' + 1) div 2) div m' = y"
  shows "Divide a b 0 = Recompose (Normalize y \<lparr>ut_mant = m, ut_exp = e - (e' + 64), ut_sign = s * s'\<rparr> 0)"
  using assms by (simp add: Divide_def Let_def add.commute)

lemmas uni_eval = Decompose_numeral(1) Recompose_tuple round_even_def round_mant_def blen_numeral ldexp_u64_def Shift_def
  normalize_shift_blen Normalize_def add_aligned_def
  UNIFLOAT_COMPUTATION_BITS_def Let_def Add_def Average_def Multiply_def

section \<open>A sample\<close>

lemma sample_uni: "uni (Dbl 3 0)" "uni (Dbl 5 (- 1))"
  by (simp_all add: uni_def sample_doubles rep52_small)

theorem arithmetic_keeps_format_witness:
  "uni_or_max (Add (Dbl 3 0) (Dbl 5 (- 1)) 0 True) \<and> dval (UniFloat (Dbl 3 0) 1) = 3"
  using arithmetic_keeps_format [OF sample_uni, of 0 True "Dbl 1 0"] arithmetic_keeps_format [OF sample_uni, of 1 True "Dbl 1 0"]
  by (simp add: sample_doubles)

end
