(* ===== verification/Match_Props.thy ===== *)
theory Match_Props
  imports "HOL-Library.Product_Lexorder" Matching Uni_Format
begin

text \<open>
  Properties of the matching of exchange requests: what a match offers both sides, and which of the offers
  to a request is kept as its best one.
\<close>

section \<open>The terms of a match\<close>

lemma match_terms_Some:
  assumes "match_terms B U buyer seller = Some (amount, br, sr)"
  shows "amount = (if op_less B (xq_matching_amount seller) (xq_matching_amount buyer) then xq_matching_amount seller
      else xq_matching_amount buyer)"
    "br = (if op_less B amount (xq_matching_amount buyer) then xreq_MatchRateRequired U buyer amount else xq_matching_rate_required buyer)"
    "sr = (if op_less B amount (xq_matching_amount seller) then xreq_MatchRateRequired U seller amount else xq_matching_rate_required seller)"
  using assms by (auto simp: match_terms_def Let_def split: if_splits)

text \<open>The rate a request requires for an amount: recomputed for less than all that is left to match.\<close>

definition rate_required :: "'f ufops \<Rightarrow> 'f xreq \<Rightarrow> bigint \<Rightarrow> 'f" where
  "rate_required U xreq amount =
     (if bval amount < bval (xq_matching_amount xreq) then xreq_MatchRateRequired U xreq amount else xq_matching_rate_required xreq)"

definition match_wf :: "'f xreq \<Rightarrow> bool" where
  "match_wf xreq \<longleftrightarrow> wf_bigint (xq_matching_amount xreq) \<and> wf_bigint (xq_open_amount xreq)"

context bigint_lib
begin

lemma match_terms_value:
  assumes "match_terms B U buyer seller = Some (amount, br, sr)" "match_wf buyer" "match_wf seller"
  shows "amount = xq_matching_amount seller \<or> amount = xq_matching_amount buyer"
    "bval amount = min (bval (xq_matching_amount buyer)) (bval (xq_matching_amount seller))"
    "br = rate_required U buyer amount" "sr = rate_required U seller amount"
proof -
  note t = match_terms_Some [OF assms(1)]
  have wf: "wf_bigint (xq_matching_amount buyer)" "wf_bigint (xq_matching_amount seller)" using assms(2,3) by (simp_all add: match_wf_def)
  show "amount = xq_matching_amount seller \<or> amount = xq_matching_amount buyer" using t(1) by simp
  then have wa: "wf_bigint amount" using wf by auto
  show "bval amount = min (bval (xq_matching_amount buyer)) (bval (xq_matching_amount seller))"
    using t(1) by (simp add: less_iff wf)
  show "br = rate_required U buyer amount" "sr = rate_required U seller amount"
    using t(2,3) by (simp_all add: less_iff wf wa rate_required_def)
qed

end

section \<open>One comparison\<close>

text \<open>The fields that a discount may change.\<close>

definition same_terms :: "'f xreq \<Rightarrow> 'f xreq \<Rightarrow> bool" where
  "same_terms x y \<longleftrightarrow> (\<exists>t c. x = y\<lparr>xq_recalc_time := t, xq_changed := c\<rparr>)"

lemma same_terms_refl: "same_terms x x"
  unfolding same_terms_def by (intro exI [of _ "xq_recalc_time x"] exI [of _ "xq_changed x"]) simp

lemma ComputeDiscount_terms:
  assumes "ComputeDiscount U xreq rate hold t = Inr (x, r)"
  shows "same_terms x xreq"
proof -
  have "same_terms (xreq\<lparr>xq_recalc_time := a, xq_changed := b\<rparr>) xreq" for a b unfolding same_terms_def by blast
  then show ?thesis using assms same_terms_refl [of xreq] by (auto simp: ComputeDiscount_def Let_def split: if_splits)
qed

text \<open>The match recorded in a request: amount, rate and the other request.\<close>

definition best_of :: "'f xreq \<Rightarrow> bigint \<times> 'f \<times> int \<times> u64" where
  "best_of x = (xq_best_amount x, xq_best_rate x, xq_best_other_seqnum x, xq_best_other_xreqnum x)"

lemma same_terms_fields:
  assumes "same_terms x y"
  shows "best_of x = best_of y" "xq_seqnum x = xq_seqnum y" "xq_xreqnum x = xq_xreqnum y"
  using assms by (auto simp: same_terms_def best_of_def)

lemma offer_match_best:
  assumes "offer_match B U w amount rate hold self sr other rt st = (c, x, st')"
  shows "best_of x = (if c then (amount, rate, xq_seqnum other, xq_xreqnum other) else best_of self)" "xq_seqnum x = xq_seqnum self"
    "xq_xreqnum x = xq_xreqnum self"
  using assms by (auto simp: offer_match_def SetMatch_def Let_def best_of_def split: if_splits)

lemma save_changed_best:
  assumes "save_changed M x st = Inr (y, st')"
  shows "best_of y = best_of x"
  using assms by (auto simp: save_changed_def Let_def best_of_def split: if_splits prod.splits)

text \<open>What holds of the two requests when a comparison changed a best match.\<close>

lemma CheckMatch_changed:
  assumes "CheckMatch B U M buyer seller t st = Inr (True, b, s, st')"
  obtains amount br sr c1 c2 where "\<not> excluded_types buyer seller" "pair_asserts B U buyer seller"
    "match_terms B U buyer seller = Some (amount, br, sr)" "uf_le U sr br" "big_true amount"
    "t + ComputeMatchHold buyer seller t < xq_expire_time buyer" "t + ComputeMatchHold buyer seller t < xq_expire_time seller"
    "best_of b = (if c1 then (amount, uf_average U br sr, xq_seqnum seller, xq_xreqnum seller) else best_of buyer)"
    "best_of s = (if c2 then (amount, uf_average U br sr, xq_seqnum buyer, xq_xreqnum buyer) else best_of seller)" "c1 \<or> c2"
proof -
  have p: "\<not> excluded_types buyer seller" "pair_asserts B U buyer seller"
    using assms by (auto simp: CheckMatch_def split: if_splits)
  obtain amount br sr where mt: "match_terms B U buyer seller = Some (amount, br, sr)"
    using assms p by (auto simp: CheckMatch_def split: option.splits)
  define hold where "hold = ComputeMatchHold buyer seller t"
  define rate where "rate = uf_average U br sr"
  note red = assms [unfolded CheckMatch_def Let_def, folded hold_def, simplified p mt if_False option.case prod.case not_True_eq_False, folded rate_def]
  have c: "uf_le U sr br" "big_true amount" "t + hold < xq_expire_time buyer" "t + hold < xq_expire_time seller"
    using red by (auto split: if_splits)
  obtain b1 bn where b1: "(if hold \<noteq> 0 then ComputeDiscount U buyer (NetRate U buyer amount rate) hold t else Inr (buyer, NetRate U buyer amount rate)) = Inr (b1, bn)"
    using red by (auto simp: bind_outcome_def split: if_splits sum.splits)
  obtain s1 sn where s1: "(if hold \<noteq> 0 then ComputeDiscount U seller (NetRate U seller amount rate) hold t else Inr (seller, NetRate U seller amount rate)) = Inr (s1, sn)"
    using red b1 by (auto simp: bind_outcome_def split: if_splits sum.splits)
  have st: "same_terms b1 buyer" "same_terms s1 seller"
    using b1 s1 ComputeDiscount_terms same_terms_refl by (auto split: if_splits)
  obtain c1 b2 st1 where o1: "offer_match B U (mo_is_witness M) amount rate (hold \<noteq> 0) b1 bn s1 sn st = (c1, b2, st1)" by (metis prod_cases3)
  obtain c2 s2 st2 where o2: "offer_match B U (mo_is_witness M) amount rate (hold \<noteq> 0) s1 sn b2 bn st1 = (c2, s2, st2)" by (metis prod_cases3)
  obtain st3 where sv: "save_changed M b2 st2 = Inr (b, st3)" "save_changed M s2 st3 = Inr (s, st')" "c1 \<or> c2"
    using red b1 s1 o1 o2 by (auto simp: bind_outcome_def split: if_splits sum.splits)
  note fields = save_changed_best [OF sv(1)] save_changed_best [OF sv(2)] offer_match_best [OF o1] offer_match_best [OF o2]
    same_terms_fields [OF st(1)] same_terms_fields [OF st(2)]
  have "best_of b = (if c1 then (amount, uf_average U br sr, xq_seqnum seller, xq_xreqnum seller) else best_of buyer)"
    "best_of s = (if c2 then (amount, uf_average U br sr, xq_seqnum buyer, xq_xreqnum buyer) else best_of seller)"
    by (simp_all add: fields rate_def)
  with that [OF p mt c(1,2)] c(3,4) sv(3) show ?thesis unfolding hold_def by blast
qed

lemma CheckMatch_terms:
  assumes "bigint_lib B" "rate_order U val rate"
    and "CheckMatch B U M buyer seller t st = Inr (True, b, s, st')" "match_wf buyer" "match_wf seller"
  obtains amount r where "0 < bval amount" "bval amount = min (bval (xq_matching_amount buyer)) (bval (xq_matching_amount seller))"
    "bval amount \<le> bval (xq_open_amount buyer)" "bval amount \<le> bval (xq_open_amount seller)"
    "rate (rate_required U buyer amount) \<Longrightarrow> rate (rate_required U seller amount) \<Longrightarrow>
      uf_le U (rate_required U seller amount) r \<and> uf_le U r (rate_required U buyer amount)"
    "best_of b = best_of buyer \<or> best_of b = (amount, r, xq_seqnum seller, xq_xreqnum seller)"
    "best_of s = best_of seller \<or> best_of s = (amount, r, xq_seqnum buyer, xq_xreqnum buyer)"
    "best_of b = (amount, r, xq_seqnum seller, xq_xreqnum seller) \<or> best_of s = (amount, r, xq_seqnum buyer, xq_xreqnum buyer)"
proof -
  obtain amount br sr c1 c2 where c: "pair_asserts B U buyer seller" "match_terms B U buyer seller = Some (amount, br, sr)" "uf_le U sr br" "big_true amount"
    "best_of b = (if c1 then (amount, uf_average U br sr, xq_seqnum seller, xq_xreqnum seller) else best_of buyer)"
    "best_of s = (if c2 then (amount, uf_average U br sr, xq_seqnum buyer, xq_xreqnum buyer) else best_of seller)" "c1 \<or> c2"
    by (rule CheckMatch_changed [OF assms(3)])
  note v = bigint_lib.match_terms_value [OF assms(1) c(2) assms(4,5)]
  have "bval (xq_matching_amount buyer) \<le> bval (xq_open_amount buyer)" "bval (xq_matching_amount seller) \<le> bval (xq_open_amount seller)"
    using c(1) assms(4,5) by (simp_all add: pair_asserts_def match_wf_def bigint_lib.less_iff [OF assms(1)])
  moreover have "rate br \<Longrightarrow> rate sr \<Longrightarrow> uf_le U sr (uf_average U br sr) \<and> uf_le U (uf_average U br sr) br"
    by (rule rate_order.average_between [OF assms(2) _ _ c(3)])
  ultimately show ?thesis
    using that [of amount "uf_average U br sr"] c(4-7) v by (auto simp: big_true_iff split: if_splits)
qed

text \<open>
  C13. A comparison of two requests changes a best match only for terms both sides accept: the two are of
  types that may trade with each other, neither expires before the match can be made (the time of the
  block plus the time both must be held), the amount is the smaller of what is left to match and no more
  than what is open, and the rate lies between what the seller requires and what the buyer requires for
  that amount. A request's best match either stays or becomes this one.
\<close>

theorem CheckMatch_fair:
  fixes asset amount
  assumes "bigint_lib B" "match_wf buyer" "match_wf seller"
    and "CheckMatch B (uni_ufops asset amount) M buyer seller t st = Inr (True, b, s, st')"
  shows "\<not> excluded_types buyer seller \<and>
    t + ComputeMatchHold buyer seller t < xq_expire_time buyer \<and> t + ComputeMatchHold buyer seller t < xq_expire_time seller \<and>
    (\<exists>a r. 0 < bval a \<and> bval a = min (bval (xq_matching_amount buyer)) (bval (xq_matching_amount seller)) \<and>
      bval a \<le> bval (xq_open_amount buyer) \<and> bval a \<le> bval (xq_open_amount seller) \<and>
      (rate_value (rate_required (uni_ufops asset amount) buyer a) \<and> rate_value (rate_required (uni_ufops asset amount) seller a) \<longrightarrow>
        dval (rate_required (uni_ufops asset amount) seller a) \<le> dval r \<and> dval r \<le> dval (rate_required (uni_ufops asset amount) buyer a)) \<and>
      (best_of b = best_of buyer \<or> best_of b = (a, r, xq_seqnum seller, xq_xreqnum seller)) \<and>
      (best_of s = best_of seller \<or> best_of s = (a, r, xq_seqnum buyer, xq_xreqnum buyer)) \<and>
      (best_of b = (a, r, xq_seqnum seller, xq_xreqnum seller) \<or> best_of s = (a, r, xq_seqnum buyer, xq_xreqnum buyer)))"
proof (intro conjI)
  show "\<not> excluded_types buyer seller" "t + ComputeMatchHold buyer seller t < xq_expire_time buyer"
    "t + ComputeMatchHold buyer seller t < xq_expire_time seller"
    using CheckMatch_changed [OF assms(4)] by metis+
qed (rule CheckMatch_terms [OF assms(1) unif.rate_order_axioms assms(4,2,3)], use unif.le_val in blast)

section \<open>The best offer\<close>

text \<open>
  An offer to a request: the net rate it gets, the other request with its net rate, the amount, the rate
  and whether the match is on hold. \<open>take_offer\<close> is one side of \<open>CheckMatch\<close> for an offer.
\<close>

record 'f offer =
  of_net :: 'f
  of_other :: "'f xreq"
  of_other_net :: 'f
  of_amount :: bigint
  of_rate :: 'f
  of_hold :: bool

definition take_offer :: "bigops \<Rightarrow> 'f ufops \<Rightarrow> bool \<Rightarrow> ('db, 'f) bcstate \<Rightarrow> 'f offer \<Rightarrow> 'f xreq \<Rightarrow> 'f xreq" where
  "take_offer B U w st p self =
     fst (snd (offer_match B U w (of_amount p) (of_rate p) (of_hold p) self (of_net p) (of_other p) (of_other_net p) st))"

definition records :: "'f xreq \<Rightarrow> 'f offer \<Rightarrow> bool" where
  "records x p \<longleftrightarrow> xq_best_amount x = of_amount p \<and> xq_best_rate x = of_rate p \<and> xq_best_net_rate x = of_net p \<and>
     xq_best_other_seqnum x = xq_seqnum (of_other p) \<and> xq_best_other_xreqnum x = xq_xreqnum (of_other p) \<and>
     xq_best_other_matching_amount x = xq_matching_amount (of_other p) \<and> xq_best_other_net_rate x = of_other_net p"

definition offer_wf :: "'f offer \<Rightarrow> bool" where
  "offer_wf p \<longleftrightarrow> big_true (of_amount p) \<and> wf_bigint (of_amount p) \<and> wf_bigint (xq_matching_amount (of_other p))"

text \<open>
  The rank of an offer, compared from left to right: a buyer wants a low net rate and among equal ones a
  high net rate of the seller, a seller the opposite; then more is better, then a request with a number,
  the older the better.
\<close>

definition rank :: "('f \<Rightarrow> rat) \<Rightarrow> bool \<Rightarrow> 'f offer \<Rightarrow> rat \<times> rat \<times> nat \<times> nat \<times> int \<times> int" where
  "rank val buyer p =
     (if buyer then - val (of_net p) else val (of_net p), if buyer then val (of_other_net p) else - val (of_other_net p),
      bval (of_amount p), bval (xq_matching_amount (of_other p)),
      if xq_xreqnum (of_other p) = 0 then - (2 ^ 64) else - uint (xq_xreqnum (of_other p)), - xq_seqnum (of_other p))"

lemma word_rank: "(if (a :: u64) = 0 then - (2 ^ 64) else - uint a) < (if b = 0 then - (2 ^ 64) else - uint b) \<longleftrightarrow> a \<noteq> b \<and> (a = 0 \<or> b \<noteq> 0 \<and> b < a)"
  "(if (a :: u64) = 0 then - (2 ^ 64) else - uint a) = (if b = 0 then - (2 ^ 64) else - uint b) \<longleftrightarrow> a = b"
  using uint_lt2p [of a] uint_lt2p [of b] by (auto simp: word_less_def word_uint_eq_iff)

context bigint_lib
begin

lemma CompareRates_rank:
  assumes "rate_order U val rate" "records x p" "offer_wf p" "offer_wf q"
  shows "CompareRates B U x (of_net q) (of_other q) (of_other_net q) (of_amount q) \<longleftrightarrow> rank val (IsBuyer x) p < rank val (IsBuyer x) q"
proof -
  have wf: "wf_bigint (of_amount p)" "wf_bigint (of_amount q)" "wf_bigint (xq_matching_amount (of_other p))"
    "wf_bigint (xq_matching_amount (of_other q))" "big_true (of_amount p)" using assms(3,4) by (simp_all add: offer_wf_def)
  have eq: "a = b \<longleftrightarrow> bval a = bval b" if "wf_bigint a" "wf_bigint b" for a b
    using bval_inj [of a b] that by (auto simp: wf_bigint_def)
  show ?thesis
    using assms(2) wf(5)
    by (auto simp: CompareRates_def records_def rank_def less_prod_def' word_rank rate_order.less_val [OF assms(1)] rate_order.eq_val [OF assms(1)]
        less_iff wf eq [OF wf(2,1)] eq [OF wf(4,3)])
qed

lemma take_offer_first: "\<not> big_true (xq_best_amount x) \<Longrightarrow> records (take_offer B U w st p x) p"
  by (simp add: take_offer_def offer_match_def CompareRates_def SetMatch_def records_def Let_def)

lemma take_offer_next:
  assumes "rate_order U val rate" "records x p" "offer_wf p" "offer_wf q"
  shows "records (take_offer B U w st q x) (if rank val (IsBuyer x) p < rank val (IsBuyer x) q then q else p)"
  using assms(2) by (simp add: take_offer_def offer_match_def CompareRates_rank [OF assms]) (simp add: SetMatch_def records_def Let_def)

lemma take_offer_side: "IsBuyer (take_offer B U w st p x) = IsBuyer x"
  by (simp add: take_offer_def offer_match_def SetMatch_def IsBuyer_def Let_def)

lemma fold_offers:
  assumes "rate_order U val rate" "records x p" "offer_wf p" "\<forall>q\<in>set ps. offer_wf q"
  shows "\<exists>m\<in>insert p (set ps). records (fold (take_offer B U w st) ps x) m \<and> (\<forall>q\<in>insert p (set ps). rank val (IsBuyer x) q \<le> rank val (IsBuyer x) m)"
  using assms(2-4)
proof (induction ps arbitrary: x p)
  case (Cons q ps)
  let ?k = "rank val (IsBuyer x)"
  define p' where "p' = (if ?k p < ?k q then q else p)"
  have "records (take_offer B U w st q x) p'" unfolding p'_def
    by (intro take_offer_next [OF assms(1) Cons.prems(1,2)]) (use Cons.prems(3) in simp)
  moreover have "offer_wf p'" "\<forall>q\<in>set ps. offer_wf q" using Cons.prems(2,3) by (simp_all add: p'_def)
  ultimately obtain m where m: "m \<in> insert p' (set ps)" "records (fold (take_offer B U w st) ps (take_offer B U w st q x)) m"
    "\<forall>q\<in>insert p' (set ps). ?k q \<le> ?k m"
    using Cons.IH [of "take_offer B U w st q x" p'] unfolding take_offer_side by blast
  have "?k p \<le> ?k p'" "?k q \<le> ?k p'" "p' = p \<or> p' = q" by (auto simp: p'_def)
  with m show ?case by (intro bexI [of _ m]) auto
qed auto

lemma best_of_offers:
  assumes "rate_order U val rate" "\<not> big_true (xq_best_amount x)" "ps \<noteq> []" "\<forall>q\<in>set ps. offer_wf q"
  shows "\<exists>m\<in>set ps. records (fold (take_offer B U w st) ps x) m \<and> (\<forall>q\<in>set ps. rank val (IsBuyer x) q \<le> rank val (IsBuyer x) m)"
proof -
  obtain p qs where ps: "ps = p # qs" using assms(3) by (cases ps) auto
  show ?thesis
    using fold_offers [OF assms(1) take_offer_first [OF assms(2), of U w st p], of qs w st] assms(4) by (simp add: ps take_offer_side)
qed

end

text \<open>
  C14. Of all the offers made to a request in a pass the best one is kept, whatever the order in which they
  are compared: the recorded match is one of the offers, none ranks higher, and comparing the same offers
  in any other order, as long as no two rank equally, records the same match. Nodes that scan their tables
  differently agree on the matches.
\<close>

theorem best_offer_kept:
  assumes "bigint_lib B" "\<not> big_true (xq_best_amount self)" "ps \<noteq> []" "\<forall>p\<in>set ps. offer_wf p"
  shows "\<exists>p\<in>set ps. (\<forall>q\<in>set ps. rank dval (IsBuyer self) q \<le> rank dval (IsBuyer self) p) \<and>
    records (fold (take_offer B (uni_ufops asset amount) w st) ps self) p \<and>
    (\<forall>qs st'. set qs = set ps \<and> inj_on (rank dval (IsBuyer self)) (set ps) \<longrightarrow>
      records (fold (take_offer B (uni_ufops asset amount) w st') qs self) p)"
proof -
  let ?k = "rank dval (IsBuyer self)" and ?f = "\<lambda>st. fold (take_offer B (uni_ufops asset amount) w st)"
  note best = bigint_lib.best_of_offers [OF assms(1) unif.rate_order_axioms assms(2)]
  obtain p where p: "p \<in> set ps" "records (?f st ps self) p" "\<forall>q\<in>set ps. ?k q \<le> ?k p" using best [OF assms(3,4)] by blast
  have "records (?f st' qs self) p" if qs: "set qs = set ps" "inj_on ?k (set ps)" for qs st'
  proof -
    have "qs \<noteq> []" using qs(1) assms(3) by auto
    moreover have "\<forall>p\<in>set qs. offer_wf p" using qs(1) assms(4) by simp
    ultimately obtain m where m: "m \<in> set ps" "records (?f st' qs self) m" "\<forall>q\<in>set ps. ?k q \<le> ?k m"
      using best [of qs asset amount w st'] unfolding qs(1) by blast
    then have "?k m = ?k p" using p by (simp add: order.antisym)
    then have "m = p" using qs(2) m(1) p(1) by (simp add: inj_on_def)
    with m(2) show ?thesis by simp
  qed
  with p show ?thesis by blast
qed

section \<open>Sample requests\<close>

text \<open>A table that keeps the requests written to it; nothing is read from it here.\<close>

definition list_matchops :: "(dbl xreq list, dbl) matchops" where
  "list_matchops =
     \<lparr>mo_XreqsUpdate = (\<lambda>x db. (0, x # db)), mo_XreqsDelete = (\<lambda>x db. (0, db)), mo_XreqsSelectExpire = (\<lambda>t db. (1, hd db)),
      mo_XreqsSelectXreqnum = (\<lambda>n k db. (1, hd db)), mo_XreqsSelectSeqnum = (\<lambda>n b db. (1, hd db)), mo_XreqCountPersistent = length,
      mo_XreqCountPending = (\<lambda>db. 0), mo_XreqsSelectPairBase = (\<lambda>x db. (1, x)), mo_XreqsSelectPairQuote = (\<lambda>x db. (1, x)),
      mo_MatchingSelectMajor = (\<lambda>x db. (1, x)), mo_MatchingSelectMinor = (\<lambda>x db. (1, x)),
      mo_MatchingSelectMatch = (\<lambda>x db. (1, x, x)), mo_MatchingInit = (\<lambda>t f p n w db. (0, db)),
      mo_XreqsClearOldPendingMatches = (\<lambda>e n db. db), mo_MatchingSelectNextPendingMatch = (\<lambda>db. (1, hd db, hd db)),
      mo_XmatchreqUpdate = (\<lambda>n d db. (0, db)), mo_ParameterInsert = (\<lambda>k n b db. (0, db)), mo_is_witness = False\<rparr>"

definition sample_U :: "dbl ufops" where
  "sample_U = uni_ufops (\<lambda>a x. Dbl (int (bval x)) 0) (\<lambda>a f. (False, big_of_nat 0))"

definition sample_request :: "nat \<Rightarrow> nat \<Rightarrow> int \<Rightarrow> int \<Rightarrow> dbl xreq" where
  "sample_request ty amount rate sn =
     (clear_xreq limb_bigops sample_U)\<lparr>xq_type := ty, xq_expire_time := 1000, xq_open_amount := big_of_nat amount,
        xq_matching_amount := big_of_nat amount, xq_net_rate_required := Dbl rate 0, xq_matching_rate_required := Dbl rate 0,
        xq_seqnum := sn, xq_recalc := True\<rparr>"

abbreviation "sample_buyer \<equiv> sample_request 4 10 3 5"
abbreviation "sample_seller \<equiv> sample_request 5 4 2 6"

lemma sample_zero: "uf_zero sample_U = Dbl 0 0"
  by (simp add: uf_zero_def sample_U_def uni_ufops_def UniFloat_def dbl_literal_def uni_eval)

lemma sample_fields:
  "xq_matching_amount (sample_request ty n r sn) = big_of_nat n" "xq_open_amount (sample_request ty n r sn) = big_of_nat n"
  "xq_type (sample_request ty n r sn) = ty" "xq_expire_time (sample_request ty n r sn) = 1000" "xq_recalc (sample_request ty n r sn)"
  "xq_matching_rate_required (sample_request ty n r sn) = Dbl r 0" "xq_net_rate_required (sample_request ty n r sn) = Dbl r 0"
  "xq_base_costs (sample_request ty n r sn) = Dbl 0 0" "xq_quote_costs (sample_request ty n r sn) = Dbl 0 0"
  "xq_best_amount (sample_request ty n r sn) = big_of_nat 0" "xq_base_asset (sample_request ty n r sn) = 0"
  "xq_blocktime (sample_request ty n r sn) = 0" "xq_hold_time (sample_request ty n r sn) = 0" "xq_hold_time_required (sample_request ty n r sn) = 0"
  by (simp_all add: sample_request_def clear_xreq_def Let_def sample_zero) (simp add: limb_bigops_def)

lemma sample_decomposed:
  "Decompose (Dbl 4 0) 62 0 = \<lparr>ut_mant = 2305843009213693952, ut_exp = - 59, ut_sign = 1\<rparr>"
  "Decompose (Dbl 3377699720527872 (- 48)) 62 0 = \<lparr>ut_mant = 3458764513820540928, ut_exp = - 58, ut_sign = 1\<rparr>"
  "Decompose (Dbl 3377699720527872 (- 50)) 62 0 = \<lparr>ut_mant = 3458764513820540928, ut_exp = - 60, ut_sign = 1\<rparr>"
  "Decompose (Dbl 2 0) 62 0 = \<lparr>ut_mant = 2305843009213693952, ut_exp = - 60, ut_sign = 1\<rparr>"
  "Decompose (Dbl 2814749767106560 (- 48)) 62 0 = \<lparr>ut_mant = 2882303761517117440, ut_exp = - 58, ut_sign = 1\<rparr>"
  "Decompose (Dbl 4503599627370496 (- 50)) 63 0 = \<lparr>ut_mant = 4611686018427387904, ut_exp = - 60, ut_sign = 1\<rparr>"
  "Decompose (Dbl 3 0) 63 0 = \<lparr>ut_mant = 6917529027641081856, ut_exp = - 61, ut_sign = 1\<rparr>"
  "Decompose (Dbl 6755399441055744 (- 49)) 63 0 = \<lparr>ut_mant = 6917529027641081856, ut_exp = - 59, ut_sign = 1\<rparr>"
  "Decompose (Dbl 4 0) 63 0 = \<lparr>ut_mant = 4611686018427387904, ut_exp = - 60, ut_sign = 1\<rparr>"
  "Decompose (Dbl 2814749767106560 (- 50)) 63 0 = \<lparr>ut_mant = 5764607523034234880, ut_exp = - 61, ut_sign = 1\<rparr>"
  "Decompose (Dbl 5629499534213120 (- 49)) 63 0 = \<lparr>ut_mant = 5764607523034234880, ut_exp = - 59, ut_sign = 1\<rparr>"
  by (simp_all add: Decompose_numeral Let_def round_mant_def blen_numeral)

lemma sample_arith:
  "Add (Dbl 4 0) (Dbl 0 0) 0 False = Dbl 4503599627370496 (- 50)"
  "Multiply (Dbl 4503599627370496 (- 50)) (Dbl 3 0) 0 = Dbl 3377699720527872 (- 48)"
  "Add (Dbl 3377699720527872 (- 48)) (Dbl 0 0) 0 False = Dbl 6755399441055744 (- 49)"
  "Average (Dbl 3377699720527872 (- 50)) (Dbl 2 0) 0 = Dbl 2814749767106560 (- 50)"
  "Multiply (Dbl 4 0) (Dbl 2814749767106560 (- 50)) 0 = Dbl 2814749767106560 (- 48)"
  "Add (Dbl 2814749767106560 (- 48)) (Dbl 0 0) 0 False = Dbl 5629499534213120 (- 49)"
  by (simp_all add: uni_eval sample_decomposed)

lemma sample_quotients:
  "Divide (Dbl 6755399441055744 (- 49)) (Dbl 4 0) 0 = Dbl 3377699720527872 (- 50)"
  "Divide (Dbl 5629499534213120 (- 49)) (Dbl 4503599627370496 (- 50)) 0 = Dbl 2814749767106560 (- 50)"
  using Divide_tuple [OF sample_decomposed(8,9)] Divide_tuple [OF sample_decomposed(11,6)] by (simp_all add: uni_eval)

lemmas sample_ops = sample_fields sample_zero IsBuyer_def IsSeller_def TypeIsBuyer_def TypeIsSeller_def BaseAmountAsUniFloat_def
  bval_big_of_nat uf_le_def CC_TYPE_XCX_NAKED_BUY_def CC_TYPE_XCX_NAKED_SELL_def CC_TYPE_XCX_SIMPLE_BUY_def CC_TYPE_XCX_MINING_BUY_def
  CC_TYPE_XCX_SIMPLE_SELL_def CC_TYPE_XCX_MINING_SELL_def Let_def

lemma sample_U_ops:
  "uf_add sample_U = (\<lambda>r a b. Add a b r False)" "uf_mul sample_U = (\<lambda>r a b. Multiply a b r)" "uf_div sample_U = (\<lambda>r a b. Divide a b r)"
  "uf_neg sample_U = dbl_neg" "uf_less sample_U = dbl_less" "uf_eq sample_U = dbl_eq" "uf_asset sample_U a x = Dbl (int (bval x)) 0"
  "uf_average sample_U = (\<lambda>a b. Average a b 0)" "dbl_neg (Dbl 0 0) = Dbl 0 0"
  by (simp_all add: sample_U_def uni_ufops_def dbl_neg_def)

lemma sample_required: "xreq_MatchRateRequired sample_U sample_buyer (big_of_nat 4) = Dbl 3377699720527872 (- 50)"
  by (simp add: xreq_MatchRateRequired_def MatchRateRequired_def sample_ops sample_U_ops sample_arith sample_quotients dbl_less_def dbl_eq_def)

lemma sample_net: "ty = 4 \<or> ty = 5 \<Longrightarrow>
   NetRate sample_U (sample_request ty n r sn) (big_of_nat 4) (Dbl 2814749767106560 (- 50)) = Dbl 2814749767106560 (- 50)"
  by (auto simp: NetRate_def sample_ops sample_U_ops sample_arith sample_quotients dbl_less_def dbl_eq_def)

lemma sample_less: "op_less limb_bigops (big_of_nat a) (big_of_nat b) \<longleftrightarrow> a mod 2 ^ 256 < b mod 2 ^ 256"
  by (simp add: limb.less_iff bval_big_of_nat)

lemma sample_terms: "match_terms limb_bigops sample_U sample_buyer sample_seller = Some (big_of_nat 4, Dbl 3377699720527872 (- 50), Dbl 2 0)"
  by (simp add: match_terms_def sample_less sample_required sample_ops sample_U_ops dbl_less_def dbl_eq_def)

lemma sample_pair: "pair_asserts limb_bigops sample_U sample_buyer sample_seller"
  by (simp add: pair_asserts_def sample_less sample_ops sample_U_ops big_true_iff dbl_less_def dbl_eq_def)

lemma sample_hold: "ComputeMatchHold sample_buyer sample_seller 600 = 0"
  by (simp add: ComputeMatchHold_def ComputeNetHold_def ComputeHold_def ComputeElapsed_def sample_ops)

lemma sample_CheckMatch: "\<exists>b s st'. CheckMatch limb_bigops sample_U list_matchops sample_buyer sample_seller 600 st = Inr (True, b, s, st')"
  by (simp add: CheckMatch_def excluded_types_def sample_pair sample_terms sample_hold sample_net sample_arith sample_quotients sample_ops sample_U_ops big_true_iff
      offer_match_def CompareRates_def SetMatch_def save_changed_def list_matchops_def dbl_less_def dbl_eq_def)

theorem CheckMatch_fair_witness:
  "\<forall>st. \<exists>b s st' a r. CheckMatch limb_bigops sample_U list_matchops sample_buyer sample_seller 600 st = Inr (True, b, s, st') \<and>
     bval a = 4 \<and> (best_of b = (a, r, 6, 0) \<or> best_of s = (a, r, 5, 0))"
proof
  fix st
  obtain b s st' where c: "CheckMatch limb_bigops sample_U list_matchops sample_buyer sample_seller 600 st = Inr (True, b, s, st')"
    using sample_CheckMatch by blast
  have wf: "match_wf sample_buyer" "match_wf sample_seller" by (simp_all add: match_wf_def sample_fields)
  from CheckMatch_fair [OF limb_lib wf c [unfolded sample_U_def], folded sample_U_def] show "\<exists>b s st' a r.
      CheckMatch limb_bigops sample_U list_matchops sample_buyer sample_seller 600 st = Inr (True, b, s, st') \<and>
      bval a = 4 \<and> (best_of b = (a, r, 6, 0) \<or> best_of s = (a, r, 5, 0))"
    using c by (auto simp: sample_request_def bval_big_of_nat clear_xreq_def Let_def)
qed

definition sample_offer :: "int \<Rightarrow> dbl offer" where
  "sample_offer rate = \<lparr>of_net = Dbl rate 0, of_other = sample_seller, of_other_net = Dbl rate 0, of_amount = big_of_nat 4,
     of_rate = Dbl rate 0, of_hold = False\<rparr>"

theorem best_offer_kept_witness:
  "\<forall>st. records (fold (take_offer limb_bigops sample_U False st) [sample_offer 3, sample_offer 2] sample_buyer) (sample_offer 2)"
proof
  fix st
  let ?ps = "[sample_offer 3, sample_offer 2]"
  have wf: "\<not> big_true (xq_best_amount sample_buyer)" "?ps \<noteq> []" "\<forall>p\<in>set ?ps. offer_wf p"
    by (simp_all add: sample_fields big_true_iff bval_big_of_nat offer_wf_def sample_offer_def)
  have "rank dval (IsBuyer sample_buyer) (sample_offer 3) < rank dval (IsBuyer sample_buyer) (sample_offer 2)"
    by (simp add: rank_def sample_offer_def dval_def sample_ops)
  then have less: "\<not> rank dval (IsBuyer sample_buyer) (sample_offer 2) \<le> rank dval (IsBuyer sample_buyer) (sample_offer 3)" by simp
  obtain p where "p \<in> set ?ps" "\<forall>q\<in>set ?ps. rank dval (IsBuyer sample_buyer) q \<le> rank dval (IsBuyer sample_buyer) p"
    "records (fold (take_offer limb_bigops sample_U False st) ?ps sample_buyer) p"
    using best_offer_kept [OF limb_lib wf, of "\<lambda>a x. Dbl (int (bval x)) 0" "\<lambda>a f. (False, big_of_nat 0)" False st, folded sample_U_def] by blast
  with less show "records (fold (take_offer limb_bigops sample_U False st) ?ps sample_buyer) (sample_offer 2)"
    by (metis list.set_intros(1,2) set_ConsD empty_iff list.set(1))
qed

end
