(* ===== verification/Match_Sync.thy ===== *)
theory Match_Sync
  imports Matching
begin

text \<open>
  The two threads of the matching engine (ccnode/src/process-xreq.cpp: \<open>WaitForCondition\<close>, \<open>SetCondition\<close>,
  \<open>MatchingThread\<close>, \<open>Init\<close>, \<open>DeInit\<close> and the use \<open>SynchronizeMatching\<close> makes of them), as a relation between the states
  that one step of either thread leads to.

  The mutex is held between a test of the condition and going to sleep, so that these are one step. A
  thread that sleeps on the condition variable is woken when the other one calls \<open>notify_one\<close>, or for no
  reason.
\<close>

section \<open>States and steps\<close>

datatype position =
    Outside     \<comment> \<open>the thread of the blocks, not in \<open>SynchronizeMatching\<close>\<close>
  | Waiting     \<comment> \<open>about to test the condition in \<open>WaitForCondition\<close>\<close>
  | Asleep      \<comment> \<open>in the wait on the condition variable\<close>
  | Ready       \<comment> \<open>the matching thread, before the test of \<open>g_shutdown\<close>\<close>
  | Busy        \<comment> \<open>in \<open>MatchReqs\<close>, or between \<open>WaitForCondition\<close> and \<open>SetCondition\<close> of \<open>SynchronizeMatching\<close>\<close>
  | Notifying   \<comment> \<open>in \<open>SetCondition\<close>, after the mutex is released\<close>
  | Ended       \<comment> \<open>the matching thread has returned\<close>

record match_sync =
  ms_state :: int
  ms_shutdown :: bool
  ms_fatal :: bool
  ms_main :: position
  ms_thread :: position
  ms_started :: nat
  ms_finished :: nat

text \<open>The last two fields count the rounds started and finished; the code has no such counters.\<close>

definition wait_over :: "int \<Rightarrow> match_sync \<Rightarrow> bool" where
  "wait_over condition s \<longleftrightarrow> ms_state s = condition \<or> ms_state s < 0 \<or> ms_shutdown s"

definition notified :: "position \<Rightarrow> position" where
  "notified p = (if p = Asleep then Waiting else p)"

text \<open>After \<open>Init\<close>: the first round is to start.\<close>

definition sync_init :: match_sync where
  "sync_init = \<lparr>ms_state = MATCHING_STATE_START, ms_shutdown = False, ms_fatal = False, ms_main = Outside, ms_thread = Waiting,
     ms_started = 1, ms_finished = 0\<rparr>"

text \<open>
  The steps of the thread of the blocks. It enters only if no fatal error was reported (\<open>DoConfirmations\<close>).
\<close>

inductive main_step :: "match_sync \<Rightarrow> match_sync \<Rightarrow> bool" where
  enter: "ms_main s = Outside \<Longrightarrow> 0 \<le> ms_state s \<Longrightarrow> \<not> ms_fatal s \<Longrightarrow> main_step s (s\<lparr>ms_main := Waiting\<rparr>)"
| main_proceed: "ms_main s = Waiting \<Longrightarrow> wait_over MATCHING_STATE_IDLE s \<Longrightarrow> main_step s (s\<lparr>ms_main := Busy\<rparr>)"
| main_sleep: "ms_main s = Waiting \<Longrightarrow> \<not> wait_over MATCHING_STATE_IDLE s \<Longrightarrow> main_step s (s\<lparr>ms_main := Asleep\<rparr>)"
| main_start: "ms_main s = Busy \<Longrightarrow>
    main_step s (s\<lparr>ms_main := Notifying, ms_state := MATCHING_STATE_START, ms_started := ms_started s + 1\<rparr>)"
| main_error: "ms_main s = Busy \<Longrightarrow> main_step s (s\<lparr>ms_main := Outside, ms_fatal := True\<rparr>)"
| main_notify: "ms_main s = Notifying \<Longrightarrow> main_step s (s\<lparr>ms_main := Outside, ms_thread := notified (ms_thread s)\<rparr>)"

text \<open>The steps of \<open>MatchingThread\<close>; \<open>thread_fail\<close> is the database exception.\<close>

inductive thread_step :: "match_sync \<Rightarrow> match_sync \<Rightarrow> bool" where
  thread_proceed: "ms_thread s = Waiting \<Longrightarrow> wait_over MATCHING_STATE_START s \<Longrightarrow> thread_step s (s\<lparr>ms_thread := Ready\<rparr>)"
| thread_sleep: "ms_thread s = Waiting \<Longrightarrow> \<not> wait_over MATCHING_STATE_START s \<Longrightarrow> thread_step s (s\<lparr>ms_thread := Asleep\<rparr>)"
| thread_match: "ms_thread s = Ready \<Longrightarrow> \<not> ms_shutdown s \<Longrightarrow> thread_step s (s\<lparr>ms_thread := Busy\<rparr>)"
| thread_exit: "ms_thread s = Ready \<Longrightarrow> ms_shutdown s \<Longrightarrow> thread_step s (s\<lparr>ms_thread := Ended\<rparr>)"
| thread_done: "ms_thread s = Busy \<Longrightarrow>
    thread_step s (s\<lparr>ms_thread := Notifying, ms_state := MATCHING_STATE_IDLE, ms_finished := ms_finished s + 1\<rparr>)"
| thread_fail: "ms_thread s = Busy \<Longrightarrow> thread_step s (s\<lparr>ms_thread := Ended, ms_fatal := True\<rparr>)"
| thread_notify: "ms_thread s = Notifying \<Longrightarrow> thread_step s (s\<lparr>ms_thread := Waiting, ms_main := notified (ms_main s)\<rparr>)"

text \<open>
  Steps from outside: a shutdown, and \<open>DeInit\<close>, which runs after the shutdown and after the thread of the
  blocks was joined.
\<close>

inductive outer_step :: "match_sync \<Rightarrow> match_sync \<Rightarrow> bool" where
  shut: "outer_step s (s\<lparr>ms_shutdown := True\<rparr>)"
| deinit: "ms_shutdown s \<Longrightarrow> ms_main s = Outside \<Longrightarrow> outer_step s (s\<lparr>ms_state := - 1, ms_thread := notified (ms_thread s)\<rparr>)"

inductive spurious_step :: "match_sync \<Rightarrow> match_sync \<Rightarrow> bool" where
  wake_main: "ms_main s = Asleep \<Longrightarrow> spurious_step s (s\<lparr>ms_main := Waiting\<rparr>)"
| wake_thread: "ms_thread s = Asleep \<Longrightarrow> spurious_step s (s\<lparr>ms_thread := Waiting\<rparr>)"

definition due_step :: "match_sync \<Rightarrow> match_sync \<Rightarrow> bool" where
  "due_step s s' \<longleftrightarrow> main_step s s' \<or> thread_step s s' \<or> outer_step s s'"

definition sync_step :: "match_sync \<Rightarrow> match_sync \<Rightarrow> bool" where
  "sync_step s s' \<longleftrightarrow> due_step s s' \<or> spurious_step s s'"

inductive sync_reachable :: "match_sync \<Rightarrow> bool" where
  start: "sync_reachable sync_init"
| step: "sync_reachable s \<Longrightarrow> sync_step s s' \<Longrightarrow> sync_reachable s'"

inductive_cases main_stepE: "main_step s s'"
inductive_cases thread_stepE: "thread_step s s'"
inductive_cases outer_stepE: "outer_step s s'"
inductive_cases spurious_stepE: "spurious_step s s'"

lemmas sync_stepE = main_stepE thread_stepE outer_stepE spurious_stepE

section \<open>Exclusion and wake-ups\<close>

lemmas matching_states = MATCHING_STATE_START_def MATCHING_STATE_IDLE_def

text \<open>
  What holds while the node runs: the matching thread computes only in state \<open>START\<close>, the thread of the
  blocks is past the wait only in state \<open>IDLE\<close>, the counters differ by the round under way, and a thread
  sleeps through the condition it waits for only while the other one is about to notify it.
\<close>

definition sync_inv :: "match_sync \<Rightarrow> bool" where
  "sync_inv s \<longleftrightarrow> ms_shutdown s \<or>
     (ms_state s = MATCHING_STATE_START \<or> ms_state s = MATCHING_STATE_IDLE) \<and>
     (ms_thread s = Ready \<or> ms_thread s = Busy \<longrightarrow> ms_state s = MATCHING_STATE_START) \<and>
     (ms_thread s = Ended \<longrightarrow> ms_state s = MATCHING_STATE_START \<and> ms_fatal s) \<and>
     (ms_main s = Busy \<longrightarrow> ms_state s = MATCHING_STATE_IDLE) \<and>
     ms_started s = ms_finished s + (if ms_state s = MATCHING_STATE_START then 1 else 0) \<and>
     (ms_thread s = Asleep \<and> ms_state s = MATCHING_STATE_START \<longrightarrow> ms_main s = Notifying) \<and>
     (ms_main s = Asleep \<and> ms_state s = MATCHING_STATE_IDLE \<longrightarrow> ms_thread s = Notifying) \<and>
     ms_main s \<noteq> Ready \<and> ms_main s \<noteq> Ended \<and> ms_thread s \<noteq> Outside"

lemma sync_inv_main: "main_step s s' \<Longrightarrow> sync_inv s \<Longrightarrow> sync_inv s'"
  by (erule main_stepE) (auto simp: sync_inv_def wait_over_def notified_def matching_states)

lemma sync_inv_thread: "thread_step s s' \<Longrightarrow> sync_inv s \<Longrightarrow> sync_inv s'"
  by (erule thread_stepE) (auto simp: sync_inv_def wait_over_def notified_def matching_states)

lemma sync_inv_other: "outer_step s s' \<Longrightarrow> sync_inv s \<Longrightarrow> sync_inv s'" "spurious_step s s' \<Longrightarrow> sync_inv s \<Longrightarrow> sync_inv s'"
  by (erule outer_stepE spurious_stepE; auto simp: sync_inv_def)+

lemma sync_inv_reachable: "sync_reachable s \<Longrightarrow> sync_inv s"
proof (induction rule: sync_reachable.induct)
  case start
  show ?case by (simp add: sync_inv_def sync_init_def matching_states)
next
  case (step s s')
  then show ?case unfolding sync_step_def due_step_def using sync_inv_main sync_inv_thread sync_inv_other by blast
qed

lemma sync_invD:
  assumes "sync_inv s" "\<not> ms_shutdown s"
  shows "ms_state s = MATCHING_STATE_START \<or> ms_state s = MATCHING_STATE_IDLE" "ms_main s \<noteq> Ready" "ms_main s \<noteq> Ended" "ms_thread s \<noteq> Outside"
    "ms_thread s = Ended \<Longrightarrow> ms_fatal s"
    "ms_thread s = Asleep \<Longrightarrow> ms_state s = MATCHING_STATE_START \<Longrightarrow> ms_main s = Notifying"
    "ms_main s = Asleep \<Longrightarrow> ms_state s = MATCHING_STATE_IDLE \<Longrightarrow> ms_thread s = Notifying"
    "ms_thread s = Ready \<or> ms_thread s = Busy \<Longrightarrow> ms_state s = MATCHING_STATE_START"
    "ms_main s = Busy \<Longrightarrow> ms_state s = MATCHING_STATE_IDLE"
    "ms_started s = ms_finished s + (if ms_state s = MATCHING_STATE_START then 1 else 0)"
  using assms unfolding sync_inv_def by blast+

lemma main_enabled:
  "ms_main s = Waiting \<or> ms_main s = Busy \<or> ms_main s = Notifying \<or> ms_main s = Outside \<and> 0 \<le> ms_state s \<and> \<not> ms_fatal s \<Longrightarrow> \<exists>s'. main_step s s'"
  using main_step.intros [of s] by blast

lemma thread_enabled: "ms_thread s \<noteq> Outside \<Longrightarrow> ms_thread s \<noteq> Asleep \<Longrightarrow> ms_thread s \<noteq> Ended \<Longrightarrow> \<exists>s'. thread_step s s'"
  using thread_step.intros [of s] by (cases "ms_thread s") blast+

text \<open>
  C15. While the node runs, the thread of the blocks makes matches persistent only when the round of matching
  it started last has finished and the matching thread is not computing; no wake-up is lost, so that a
  thread that sleeps is either right to sleep or about to be woken; and unless a database error has ended
  the matching thread, some thread can take a step that does not depend on a spurious wake-up.
\<close>

theorem matching_exclusive:
  assumes "sync_reachable s" "\<not> ms_shutdown s"
  shows "(ms_main s = Busy \<longrightarrow> ms_thread s \<noteq> Ready \<and> ms_thread s \<noteq> Busy \<and> ms_finished s = ms_started s) \<and>
    (ms_main s = Asleep \<and> wait_over MATCHING_STATE_IDLE s \<longrightarrow> ms_thread s = Notifying) \<and>
    (ms_thread s = Asleep \<and> wait_over MATCHING_STATE_START s \<longrightarrow> ms_main s = Notifying) \<and>
    (ms_fatal s \<or> (\<exists>s'. main_step s s' \<or> thread_step s s'))"
proof -
  note inv = sync_invD [OF sync_inv_reachable [OF assms(1)] assms(2)]
  have "\<exists>s'. main_step s s' \<or> thread_step s s'" if f: "\<not> ms_fatal s"
  proof (cases "ms_main s = Asleep")
    case True
    then have "ms_thread s \<noteq> Asleep" using inv(1,6,7) by fastforce
    then show ?thesis using thread_enabled inv(4,5) f by blast
  next
    case False
    have "0 \<le> ms_state s" using inv(1) by (auto simp: matching_states)
    then show ?thesis using False f inv(2,3) main_enabled [of s] by (cases "ms_main s") auto
  qed
  moreover have "ms_main s = Busy \<Longrightarrow> ms_thread s \<noteq> Ready \<and> ms_thread s \<noteq> Busy \<and> ms_finished s = ms_started s"
    using inv(8-10) by (auto simp: matching_states)
  moreover have "wait_over c s \<longleftrightarrow> ms_state s = c" for c
    using inv(1) assms(2) by (auto simp: wait_over_def matching_states)
  ultimately show ?thesis using inv(6,7) by blast
qed

text \<open>A database error has ended the matching thread while the thread of the blocks sleeps.\<close>

definition abandoned :: "match_sync \<Rightarrow> bool" where
  "abandoned s \<longleftrightarrow> ms_main s = Asleep \<and> ms_thread s = Ended"

lemma abandoned_stays: "abandoned s \<Longrightarrow> due_step s s' \<Longrightarrow> abandoned s'"
  unfolding due_step_def abandoned_def by (auto elim!: main_stepE thread_stepE outer_stepE)

definition sync_failed :: match_sync where
  "sync_failed = \<lparr>ms_state = MATCHING_STATE_START, ms_shutdown = False, ms_fatal = True, ms_main = Asleep, ms_thread = Ended,
     ms_started = 1, ms_finished = 0\<rparr>"

lemma sync_run:
  "sync_reachable sync_init"
  "sync_reachable (sync_init\<lparr>ms_thread := Ready\<rparr>)"
  "sync_reachable (sync_init\<lparr>ms_thread := Busy\<rparr>)"
  "sync_reachable (sync_init\<lparr>ms_thread := Busy, ms_main := Waiting\<rparr>)"
proof -
  show a: "sync_reachable sync_init" by (rule start)
  show b: "sync_reachable (sync_init\<lparr>ms_thread := Ready\<rparr>)"
    using thread_proceed [of sync_init] by (intro step [OF a]) (simp add: sync_step_def due_step_def sync_init_def wait_over_def)
  show c: "sync_reachable (sync_init\<lparr>ms_thread := Busy\<rparr>)"
    using thread_match [of "sync_init\<lparr>ms_thread := Ready\<rparr>"] by (intro step [OF b]) (simp add: sync_step_def due_step_def sync_init_def)
  show "sync_reachable (sync_init\<lparr>ms_thread := Busy, ms_main := Waiting\<rparr>)"
    using enter [of "sync_init\<lparr>ms_thread := Busy\<rparr>"] by (intro step [OF c]) (simp add: sync_step_def due_step_def sync_init_def matching_states)
qed

text \<open>
  C27. The exception to this: after a database error in the matching thread while the thread of the blocks
  waits for it, which can happen, no step of either thread, no shutdown and no call of \<open>DeInit\<close> wakes the thread
  of the blocks any more.
\<close>

theorem failed_round_hangs:
  "sync_reachable sync_failed \<and> (\<forall>s. due_step\<^sup>*\<^sup>* sync_failed s \<longrightarrow> ms_main s = Asleep)"
proof
  let ?a = "sync_init\<lparr>ms_thread := Busy, ms_main := Asleep\<rparr>"
  have "sync_reachable ?a"
    using main_sleep [of "sync_init\<lparr>ms_thread := Busy, ms_main := Waiting\<rparr>"]
    by (intro step [OF sync_run(4)]) (simp add: sync_step_def due_step_def sync_init_def wait_over_def matching_states)
  then show "sync_reachable sync_failed"
    by (rule step) (use thread_fail [of ?a] in \<open>simp add: sync_step_def due_step_def sync_init_def sync_failed_def\<close>)
  have "abandoned s" if "due_step\<^sup>*\<^sup>* sync_failed s" for s
    using that by induction (simp add: abandoned_def sync_failed_def, erule (1) abandoned_stays)
  then show "\<forall>s. due_step\<^sup>*\<^sup>* sync_failed s \<longrightarrow> ms_main s = Asleep" by (simp add: abandoned_def)
qed

section \<open>A sample run\<close>

theorem failed_round_hangs_witness: "ms_main (sync_failed\<lparr>ms_shutdown := True\<rparr>) = Asleep"
proof -
  have "due_step\<^sup>*\<^sup>* sync_failed (sync_failed\<lparr>ms_shutdown := True\<rparr>)"
    by (rule r_into_rtranclp) (simp add: due_step_def outer_step.shut)
  with failed_round_hangs show ?thesis by blast
qed

theorem matching_exclusive_witness:
  "sync_reachable (sync_init\<lparr>ms_thread := Busy, ms_main := Waiting\<rparr>) \<and>
   (\<exists>s'. main_step (sync_init\<lparr>ms_thread := Busy, ms_main := Waiting\<rparr>) s' \<or> thread_step (sync_init\<lparr>ms_thread := Busy, ms_main := Waiting\<rparr>) s')"
  using matching_exclusive [OF sync_run(4)] sync_run(4) by (simp add: sync_init_def)

end
