(* ===== verification/Match_Compose.thy ===== *)
theory Match_Compose
  imports Matching Confirm_Props
begin

text \<open>
  The matching engine as the confirmation of blocks uses it: \<open>SynchronizeMatching\<close>, with the matching thread
  behind it, works on the tables and on its own counters and leaves every block alone. The confirmation
  theorems, which assume this of the operation they are given, therefore hold of the engine.
\<close>

section \<open>Blocks are left alone\<close>

text \<open>\<open>keeps st p r\<close>: a successful result \<open>r\<close>, whose state is read off by \<open>p\<close>, has the blocks of \<open>st\<close>.\<close>

abbreviation keeps :: "('db, 'f) bcstate \<Rightarrow> ('a \<Rightarrow> ('db, 'f) bcstate) \<Rightarrow> 'a outcome \<Rightarrow> bool" where
  "keeps st p r \<equiv> on_result (\<lambda>y. bc_heap (p y) = bc_heap st) r"

lemma keepsD: "keeps st p r \<Longrightarrow> r = Inr y \<Longrightarrow> bc_heap (p y) = bc_heap st"
  by (rule on_resultD)

lemma keeps_trans: "bc_heap st1 = bc_heap st \<Longrightarrow> keeps st1 p r \<Longrightarrow> keeps st p r"
  by (simp add: on_result_def)

lemma upd_db_heap [simp]: "bc_heap (upd_db db st) = bc_heap st"
  by (simp add: upd_db_def)

lemma work_time_heap [simp]:
  "bc_heap (ResetExchangeWorkTime f st) = bc_heap st" "bc_heap (UpdateExchangeWorkTime ts n st) = bc_heap st"
  by (simp_all add: ResetExchangeWorkTime_def UpdateExchangeWorkTime_def Let_def)

lemma SaveXreq_heap [simp]: "bc_heap (snd (SaveXreq M x st)) = bc_heap st"
  by (simp add: SaveXreq_def case_prod_beta)

lemma GetNextXmatchnum_heap [simp]: "bc_heap (snd (GetNextXmatchnum b st)) = bc_heap st"
  by (simp add: GetNextXmatchnum_def)

lemma lift_outputs_keeps: "keeps st (\<lambda>(rc, tb, st). st) (lift_outputs r st)"
  unfolding lift_outputs_def by (intro on_result_intros) simp

section \<open>Expiry and pruning\<close>

lemma ExpireXreq_keeps: "keeps st (\<lambda>(rc, tb, st). st) (ExpireXreq fuel E M x tb st)"
  unfolding ExpireXreq_def Let_def
  by (intro on_result_intros) (auto intro: keeps_trans [OF _ lift_outputs_keeps])

lemma ExpireXreqs_keeps: "keeps st (\<lambda>(rc, tb, st). st) (ExpireXreqs n fuel E M t tb st)"
proof (induction n arbitrary: tb st)
  case (Suc n)
  show ?case
    unfolding ExpireXreqs.simps Let_def
    by (intro on_result_intros) (auto dest!: keepsD [OF ExpireXreq_keeps] intro: keeps_trans [OF _ Suc.IH])
qed (simp add: on_result_Inl)

lemma expire_linked_keeps: "keeps st (\<lambda>(rc, tb, st). st) (expire_linked fuel E M x tb st)"
  unfolding expire_linked_def Let_def
  by (intro on_result_intros) (auto dest!: keepsD [OF ExpireXreq_keeps] intro: keeps_trans [OF _ ExpireXreq_keeps])

lemma prune_pass_keeps: "keeps st (\<lambda>(rc, tb, st). st) (prune_pass n fuel E M second new next tb st)"
proof (induction n arbitrary: second "next" tb st)
  case (Suc n)
  show ?case
    unfolding prune_pass.simps Let_def
    by (intro on_result_intros) (auto dest!: keepsD [OF expire_linked_keeps] intro: keeps_trans [OF _ Suc.IH])
qed (simp add: on_result_Inl)

lemma PruneXreqs_keeps: "keeps st (\<lambda>(rc, tb, st). st) (PruneXreqs n fuel E M new tb st)"
  unfolding PruneXreqs_def
  by (intro on_result_intros) (auto dest!: keepsD [OF prune_pass_keeps] intro: keeps_trans [OF _ prune_pass_keeps])

section \<open>Making matches persistent\<close>

lemma close_seller_keeps: "keeps st (\<lambda>(rc, x, m, tb, st). st) (close_seller fuel E minor m tb st)"
  unfolding close_seller_def Let_def
  by (intro on_result_intros) (auto dest!: keepsD [OF lift_outputs_keeps])

lemma persist_match_keeps: "keeps st (\<lambda>(rc, tb, st). st) (persist_match fuel E M t major minor tb st)"
  unfolding persist_match_def Let_def case_prod_beta
  by (intro on_result_intros) (auto dest!: keepsD [OF close_seller_keeps] simp: case_prod_beta)

lemma MakeMatchesPersistent_keeps: "keeps st (\<lambda>(rc, tb, st). st) (MakeMatchesPersistent n fuel E M t tb st)"
proof (induction n arbitrary: tb st)
  case (Suc n)
  show ?case
    unfolding MakeMatchesPersistent.simps Let_def
    by (intro on_result_intros) (auto dest!: keepsD [OF persist_match_keeps] intro: keeps_trans [OF _ Suc.IH])
qed (simp add: on_result_Inl)

lemma start_round_keeps: "keeps st (\<lambda>(rc, tb, st). st) (start_round M tb st)"
  unfolding start_round_def Let_def by (intro on_result_intros) (auto simp: SetCondition_def)

lemma CheckUpdateWitnessWorkTime_keeps: "keeps st (\<lambda>st. st) (CheckUpdateWitnessWorkTime t st)"
  unfolding CheckUpdateWitnessWorkTime_def Let_def by (intro on_result_intros) auto

lemma SynchronizeMatching_keeps:
  assumes "\<And>st. bc_heap (wait st) = bc_heap st"
  shows "keeps st (\<lambda>(rc, tb, st). st) (SynchronizeMatching n fuel E M wait lvl t new tb st)"
  unfolding SynchronizeMatching_def Let_def
  by (intro on_result_intros)
    (auto simp: assms dest!: keepsD [OF CheckUpdateWitnessWorkTime_keeps] keepsD [OF MakeMatchesPersistent_keeps] keepsD [OF ExpireXreqs_keeps]
      keepsD [OF PruneXreqs_keeps] intro: keeps_trans [OF _ start_round_keeps])

section \<open>The round of the matching thread\<close>

lemma offer_match_heap: "offer_match B U w a r h x n y m st = (c, x', st') \<Longrightarrow> bc_heap st' = bc_heap st"
  by (auto simp: offer_match_def SetMatch_def Let_def SetFatalError_def split: if_splits)

lemma save_changed_keeps: "keeps st snd (save_changed M x st)"
  unfolding save_changed_def Let_def by (intro on_result_intros) auto

lemma CheckMatch_keeps: "keeps st (\<lambda>(c, b, s, st). st) (CheckMatch B U M buyer seller t st)"
  unfolding CheckMatch_def Let_def
  by (intro on_result_intros) (auto dest!: keepsD [OF save_changed_keeps] offer_match_heap)

lemma UpdateMutualMatch_keeps: "keeps st snd (UpdateMutualMatch B U M x y a r p t h st)"
  unfolding UpdateMutualMatch_def Let_def by (intro on_result_intros) auto

lemma update_both_keeps: "keeps st (\<lambda>(x, y, st). st) (update_both E M p t h x y st)"
  unfolding update_both_def Let_def by (intro on_result_intros) (auto dest!: keepsD [OF UpdateMutualMatch_keeps])

lemma find_mutual_loop_keeps: "keeps st (\<lambda>(m, i, st). st) (find_mutual_loop n E M p t w cur m i st)"
proof (induction n arbitrary: w cur m i st)
  case (Suc n)
  show ?case
    unfolding find_mutual_loop.simps Let_def
    by (intro on_result_intros) (auto dest!: keepsD [OF update_both_keeps] intro: keeps_trans [OF _ Suc.IH])
qed (simp add: on_result_Inl)

lemma mining_minor_keeps: "keeps st snd (mining_minor M U t mx x st)"
  unfolding mining_minor_def Let_def by (intro on_result_intros) auto

lemma match_mining_pair_keeps: "keeps st (\<lambda>st. st) (match_mining_pair E M t i x y st)"
  unfolding match_mining_pair_def Let_def
  by (intro on_result_intros) (auto dest!: keepsD [OF CheckMatch_keeps] keepsD [OF update_both_keeps])

lemma mining_loop_keeps: "keeps st snd (mining_loop n E M t mx x i c st)"
proof (induction n arbitrary: x i c st)
  case (Suc n)
  show ?case
    unfolding mining_loop.simps Let_def
    by (intro on_result_intros)
      (auto dest!: keepsD [OF mining_minor_keeps] keepsD [OF match_mining_pair_keeps] intro: keeps_trans [OF _ Suc.IH])
qed (simp add: on_result_Inl)

text \<open>The scans keep what their bodies keep.\<close>

lemma scan_loop_keeps:
  assumes "\<And>row s. keeps (p s) (\<lambda>(r, s). p s) (body row s)"
  shows "keeps (p s) p (scan_loop n stop select body advance cur s)"
proof (induction n arbitrary: cur s)
  case (Suc n)
  show ?case
    unfolding scan_loop.simps Let_def
    by (intro on_result_intros) (auto dest!: keepsD [OF assms] intro: keeps_trans [OF _ Suc.IH])
qed (simp add: on_result_Inl)

lemma match_minors_keeps: "keeps (snd (snd s)) (\<lambda>(x, s). snd (snd s)) (match_minors fuel E M t major s)"
proof -
  let ?p = "\<lambda>(x, s). snd (snd s)"
  have "keeps (?p s) (\<lambda>(r, s). ?p s) (case s of (major, changed_best, inner_count, st) \<Rightarrow>
      bind_outcome (CheckMatch (se_B E) (se_U E) M major minor t st) (\<lambda>(c, major, minor, st).
        Inr (minor, (major, changed_best \<or> c, inner_count + 1, st))))" for minor s
    by (intro on_result_intros) (auto dest!: keepsD [OF CheckMatch_keeps])
  from scan_loop_keeps [where p = ?p, OF this] show ?thesis unfolding match_minors_def by (rule keeps_trans [rotated]) simp
qed

lemma match_majors_keeps: "keeps (snd (snd s)) (\<lambda>s. snd (snd s)) (match_majors fuel E M t pair s)"
  unfolding match_majors_def by (intro scan_loop_keeps match_minors_keeps)

lemma match_pairs_keeps: "keeps (snd (snd s)) (\<lambda>s. snd (snd s)) (match_pairs fuel E M t w base s)"
  unfolding match_pairs_def
  by (intro scan_loop_keeps on_result_intros) (auto dest!: keepsD [OF match_majors_keeps])

lemma match_bases_keeps: "keeps (snd (snd s)) (\<lambda>s. snd (snd s)) (match_bases fuel E M t mx w s)"
  unfolding match_bases_def
  by (intro scan_loop_keeps on_result_intros) (auto dest!: keepsD [OF match_pairs_keeps])

lemma match_passes_keeps: "keeps st snd (match_passes n fuel E M t mx w f h i c st)"
proof (induction n arbitrary: w f h i c st)
  case (Suc n)
  show ?case
    unfolding match_passes.simps Let_def FindMutualMatches_def
    by (intro on_result_intros)
      (auto dest!: keepsD [OF match_bases_keeps] keepsD [OF find_mutual_loop_keeps] intro!: keeps_trans [OF _ Suc.IH] split: if_splits)
qed (simp add: on_result_Inl)

lemma matching_round_keeps: "keeps st (\<lambda>st. st) (matching_round n fuel E M st)"
  unfolding matching_round_def MatchReqs_def Let_def AddMiningMatches_def SetCondition_def
  by (intro on_result_intros) (auto dest!: keepsD [OF match_passes_keeps] keepsD [OF mining_loop_keeps] split: if_splits simp: bind_outcome_eq_Inr)

section \<open>The engine behind the confirmation of blocks\<close>

text \<open>
  \<open>SynchronizeMatching\<close> with the round of the matching thread as what happens during the wait. A round that
  fails never lets the wait return, which the model leaves as no change.
\<close>

definition await_round :: "nat \<Rightarrow> nat \<Rightarrow> ('db, 'f) settle_env \<Rightarrow> ('db, 'f) matchops \<Rightarrow> ('db, 'f) bcstate \<Rightarrow> ('db, 'f) bcstate" where
  "await_round n fuel E M st = (case matching_round n fuel E M st of Inl e \<Rightarrow> st | Inr st' \<Rightarrow> st')"

definition with_engine :: "nat \<Rightarrow> nat \<Rightarrow> ('db, 'f) settle_env \<Rightarrow> ('db, 'f) matchops \<Rightarrow> ('db, 'f) confops \<Rightarrow> ('db, 'f) confops" where
  "with_engine n fuel E M C = C\<lparr>cf_SynchronizeMatching := SynchronizeMatching n fuel E M (await_round n fuel E M)\<rparr>"

lemma engine_keeps_blocks: "keeps_blocks (with_engine n fuel E M C)"
proof -
  have "bc_heap (await_round n fuel E M st) = bc_heap st" for st
    using keepsD [OF matching_round_keeps, of n fuel E M st] by (auto simp: await_round_def split: sum.splits)
  from keepsD [OF SynchronizeMatching_keeps [OF this]] show ?thesis unfolding keeps_blocks_def with_engine_def by fastforce
qed

end
