(* ===== verification/CC_Objects.thy ===== *)
theory CC_Objects
  imports Exchange
begin

unbundle bit_operations_syntax

text \<open>
  Messages and objects (cccommon/src/CCobjects.cpp, CCobjects.hpp and CCobjdefs.h): a header with the size and
  the tag of the object, a proof of work for messages that are not part of a block, and the body. Tags and
  types correspond to each other.
\<close>

section \<open>Tags and types\<close>

definition CC_TYPE_VOID :: nat where "CC_TYPE_VOID = 0"
definition CC_TYPE_BLOCK :: nat where "CC_TYPE_BLOCK = 3"

definition CC_TAG_BLOCK :: u32 where "CC_TAG_BLOCK = 0xCC000001"
definition CC_TAG_BLOCK_FLAG :: u32 where "CC_TAG_BLOCK_FLAG = 0x00010000"
definition CC_TAG_MINT :: u32 where "CC_TAG_MINT = 0xCC020001"
definition CC_TAG_TX :: u32 where "CC_TAG_TX = 0xCC040001"
definition CC_TAG_TX_XDOMAIN :: u32 where "CC_TAG_TX_XDOMAIN = 0xCC060001"
definition CC_TAG_XCX_SIMPLE_BUY :: u32 where "CC_TAG_XCX_SIMPLE_BUY = 0xCC0C0001"
definition CC_TAG_XCX_SIMPLE_SELL :: u32 where "CC_TAG_XCX_SIMPLE_SELL = 0xCC0E0001"
definition CC_TAG_XCX_NAKED_BUY :: u32 where "CC_TAG_XCX_NAKED_BUY = 0xCC100001"
definition CC_TAG_XCX_NAKED_SELL :: u32 where "CC_TAG_XCX_NAKED_SELL = 0xCC120001"
definition CC_TAG_XCX_PAYMENT :: u32 where "CC_TAG_XCX_PAYMENT = 0xCC180001"
definition CC_TAG_XCX_SIMPLE_TRADE :: u32 where "CC_TAG_XCX_SIMPLE_TRADE = 0xCC1A0001"
definition CC_TAG_LAST_OBJ :: u32 where "CC_TAG_LAST_OBJ = CC_TAG_XCX_SIMPLE_TRADE"

definition TX_POW_SIZE :: nat where "TX_POW_SIZE = 48"
definition TX_MAX_SIZE :: nat where "TX_MAX_SIZE = 512 * 1024 - 128"
definition CC_BLOCK_MAX_SIZE :: nat where "CC_BLOCK_MAX_SIZE = 32 * 1024 * 1024 - 128"

definition HasPOW :: "u32 \<Rightarrow> bool" where
  "HasPOW tag \<longleftrightarrow> CC_TAG_MINT \<le> tag \<and> tag \<le> CC_TAG_LAST_OBJ \<and> tag AND CC_TAG_BLOCK_FLAG = 0"

definition WireTag :: "u32 \<Rightarrow> u32" where
  "WireTag tag = tag AND NOT CC_TAG_BLOCK_FLAG"

definition BlockTag :: "u32 \<Rightarrow> u32" where
  "BlockTag tag = tag OR CC_TAG_BLOCK_FLAG"

definition TypeToWireTag :: "nat \<Rightarrow> u32" where
  "TypeToWireTag type =
     (if type = CC_TYPE_BLOCK then CC_TAG_BLOCK
      else if type = CC_TYPE_MINT then CC_TAG_MINT
      else if type = CC_TYPE_TXPAY then CC_TAG_TX
      else if type = CC_TYPE_XCX_SIMPLE_BUY then CC_TAG_XCX_SIMPLE_BUY
      else if type = CC_TYPE_XCX_SIMPLE_SELL then CC_TAG_XCX_SIMPLE_SELL
      else if type = CC_TYPE_XCX_MINING_TRADE then CC_TAG_XCX_SIMPLE_TRADE
      else if type = CC_TYPE_XCX_NAKED_BUY then CC_TAG_XCX_NAKED_BUY
      else if type = CC_TYPE_XCX_NAKED_SELL then CC_TAG_XCX_NAKED_SELL
      else if type = CC_TYPE_XCX_PAYMENT then CC_TAG_XCX_PAYMENT
      else 0)"

definition ObjType :: "u32 \<Rightarrow> nat" where
  "ObjType tag =
     (let w = WireTag tag
      in if w = CC_TAG_BLOCK then CC_TYPE_BLOCK
         else if w = CC_TAG_MINT then CC_TYPE_MINT
         else if w = CC_TAG_TX \<or> w = CC_TAG_TX_XDOMAIN then CC_TYPE_TXPAY
         else if w = CC_TAG_XCX_SIMPLE_BUY then CC_TYPE_XCX_SIMPLE_BUY
         else if w = CC_TAG_XCX_SIMPLE_SELL then CC_TYPE_XCX_SIMPLE_SELL
         else if w = CC_TAG_XCX_SIMPLE_TRADE then CC_TYPE_XCX_MINING_TRADE
         else if w = CC_TAG_XCX_NAKED_BUY then CC_TYPE_XCX_NAKED_BUY
         else if w = CC_TAG_XCX_NAKED_SELL then CC_TYPE_XCX_NAKED_SELL
         else if w = CC_TAG_XCX_PAYMENT then CC_TYPE_XCX_PAYMENT
         else CC_TYPE_VOID)"

section \<open>Objects\<close>

text \<open>An object from its header on; the sizes are 32-bit and wrap.\<close>

record ccobject =
  obj_size :: u32
  obj_tag :: u32
  obj_data :: "byte list"

definition DataSize :: "ccobject \<Rightarrow> u32" where
  "DataSize x = (if obj_size x < 8 then 0 else obj_size x - 8)"

definition BodySize :: "ccobject \<Rightarrow> u32" where
  "BodySize x = (if HasPOW (obj_tag x) then DataSize x - of_nat TX_POW_SIZE else DataSize x)"

definition BodyPtr :: "ccobject \<Rightarrow> byte list" where
  "BodyPtr x = (if HasPOW (obj_tag x) then drop TX_POW_SIZE (obj_data x) else obj_data x)"

definition IsValid :: "ccobject \<Rightarrow> bool" where
  "IsValid x =
     (let t = ObjType (obj_tag x)
      in if t = CC_TYPE_BLOCK then BodySize x \<le> of_nat CC_BLOCK_MAX_SIZE
         else if t = CC_TYPE_MINT \<or> t = CC_TYPE_TXPAY \<or> t = CC_TYPE_XCX_SIMPLE_BUY \<or> t = CC_TYPE_XCX_SIMPLE_SELL \<or>
                 t = CC_TYPE_XCX_MINING_TRADE \<or> t = CC_TYPE_XCX_NAKED_BUY \<or> t = CC_TYPE_XCX_NAKED_SELL \<or> t = CC_TYPE_XCX_PAYMENT
         then BodySize x \<le> of_nat TX_MAX_SIZE
         else False)"

text \<open>
  The object id: the hash of the body, keyed with the tag as it is in messages; blocks have their own. A
  message is an object without the preamble of the node.
\<close>

definition ComputeObjId :: "(byte list \<Rightarrow> byte list \<Rightarrow> byte list) \<Rightarrow> ccobject \<Rightarrow> byte list outcome" where
  "ComputeObjId blake2b x =
     (if ObjType (obj_tag x) = CC_TYPE_BLOCK then Inl AssertFail
      else if length (BodyPtr x) < unat (BodySize x) then Inl OutOfBounds
      else Inr (blake2b (le_bytes 4 (unat (WireTag (obj_tag x)))) (take (unat (BodySize x)) (BodyPtr x))))"

definition message_object :: "byte list \<Rightarrow> ccobject" where
  "message_object msg = \<lparr>obj_size = of_nat (le_val (take 4 msg)), obj_tag = of_nat (le_val (take 4 (drop 4 msg))), obj_data = drop 8 msg\<rparr>"

definition ComputeMessageObjId :: "(byte list \<Rightarrow> byte list \<Rightarrow> byte list) \<Rightarrow> byte list \<Rightarrow> byte list outcome" where
  "ComputeMessageObjId blake2b msg = ComputeObjId blake2b (message_object msg)"

lemmas cc_tags = CC_TAG_BLOCK_def CC_TAG_BLOCK_FLAG_def CC_TAG_MINT_def CC_TAG_TX_def CC_TAG_TX_XDOMAIN_def CC_TAG_XCX_SIMPLE_BUY_def
  CC_TAG_XCX_SIMPLE_SELL_def CC_TAG_XCX_NAKED_BUY_def CC_TAG_XCX_NAKED_SELL_def CC_TAG_XCX_PAYMENT_def CC_TAG_XCX_SIMPLE_TRADE_def
  CC_TAG_LAST_OBJ_def

lemmas cc_types = CC_TYPE_VOID_def CC_TYPE_BLOCK_def CC_TYPE_MINT_def CC_TYPE_TXPAY_def CC_TYPE_XCX_SIMPLE_BUY_def CC_TYPE_XCX_SIMPLE_SELL_def
  CC_TYPE_XCX_MINING_TRADE_def CC_TYPE_XCX_NAKED_BUY_def CC_TYPE_XCX_NAKED_SELL_def CC_TYPE_XCX_PAYMENT_def

text \<open>The tag of a type is read back as the type, in a message and in a block.\<close>

lemma ObjType_TypeToWireTag:
  assumes "TypeToWireTag t \<noteq> 0"
  shows "ObjType (TypeToWireTag t) = t" "ObjType (BlockTag (TypeToWireTag t)) = t" "WireTag (TypeToWireTag t) = TypeToWireTag t"
    "WireTag (BlockTag (TypeToWireTag t)) = TypeToWireTag t"
  using assms unfolding TypeToWireTag_def
  by (auto simp: ObjType_def WireTag_def BlockTag_def cc_tags cc_types split: if_splits)

lemma HasPOW_wire: "TypeToWireTag t \<noteq> 0 \<Longrightarrow> t \<noteq> CC_TYPE_BLOCK \<Longrightarrow> HasPOW (TypeToWireTag t)" "\<not> HasPOW (BlockTag tag)"
proof -
  show "TypeToWireTag t \<noteq> 0 \<Longrightarrow> t \<noteq> CC_TYPE_BLOCK \<Longrightarrow> HasPOW (TypeToWireTag t)"
    unfolding TypeToWireTag_def by (auto simp: HasPOW_def cc_tags cc_types split: if_splits)
  have "bit (BlockTag tag AND CC_TAG_BLOCK_FLAG) 16" by (simp add: BlockTag_def CC_TAG_BLOCK_FLAG_def bit_simps)
  then have "BlockTag tag AND CC_TAG_BLOCK_FLAG \<noteq> 0" by (metis bit_0_eq bot_apply bot_bool_def)
  then show "\<not> HasPOW (BlockTag tag)" by (simp add: HasPOW_def)
qed

text \<open>A valid object that is not in a block is at least as large as its header and proof of work.\<close>

lemma IsValid_size:
  assumes "IsValid x" "HasPOW (obj_tag x)"
  shows "8 + TX_POW_SIZE \<le> unat (obj_size x)"
proof (rule ccontr)
  assume "\<not> ?thesis"
  then have s: "unat (obj_size x) < 56" by (simp add: TX_POW_SIZE_def)
  have b: "unat (BodySize x) \<le> CC_BLOCK_MAX_SIZE"
    using assms(1) by (auto simp: IsValid_def Let_def word_le_nat_alt CC_BLOCK_MAX_SIZE_def TX_MAX_SIZE_def split: if_splits)
  have "unat (DataSize x) < 48"
    using s by (auto simp: DataSize_def word_less_nat_alt unat_sub word_le_nat_alt)
  then have "unat (DataSize x - 48) = unat (DataSize x) + 2 ^ 32 - 48"
    by (simp add: unat_sub_if')
  with b assms(2) show False by (simp add: BodySize_def TX_POW_SIZE_def CC_BLOCK_MAX_SIZE_def)
qed

text \<open>The same object in a message, with its proof of work, and in a block, without it.\<close>

definition in_message :: "u32 \<Rightarrow> byte list \<Rightarrow> byte list \<Rightarrow> ccobject" where
  "in_message tag pow body = \<lparr>obj_size = of_nat (8 + TX_POW_SIZE + length body), obj_tag = tag, obj_data = pow @ body\<rparr>"

definition in_block :: "u32 \<Rightarrow> byte list \<Rightarrow> ccobject" where
  "in_block tag body = \<lparr>obj_size = of_nat (8 + length body), obj_tag = BlockTag tag, obj_data = body\<rparr>"

lemma body_of_object:
  assumes "length body + 56 < 2 ^ 32"
  shows "HasPOW tag \<Longrightarrow> length pow = TX_POW_SIZE \<Longrightarrow> BodyPtr (in_message tag pow body) = body \<and> unat (BodySize (in_message tag pow body)) = length body"
    "BodyPtr (in_block tag body) = body" "unat (BodySize (in_block tag body)) = length body"
proof -
  have u: "unat (of_nat (8 + n) :: u32) = 8 + n" if "n + 8 < 2 ^ 32" for n using that by (subst unat_of_nat) simp
  have d: "\<not> (of_nat (8 + n) :: u32) < 8" if "n + 8 < 2 ^ 32" for n using u [OF that] by (simp add: word_less_nat_alt)
  have l: "unat (of_nat n :: u32) = n" if "n < 2 ^ 32" for n using that by (simp add: unat_of_nat)
  show "BodyPtr (in_block tag body) = body" by (simp add: BodyPtr_def in_block_def HasPOW_wire)
  have "DataSize (in_block tag body) = of_nat (length body)" using d [of "length body"] assms by (simp add: DataSize_def in_block_def)
  then show "unat (BodySize (in_block tag body)) = length body" using assms l by (simp add: BodySize_def in_block_def HasPOW_wire)
  assume h: "HasPOW tag" "length pow = TX_POW_SIZE"
  have "DataSize (in_message tag pow body) = of_nat (48 + length body)" using d [of "48 + length body"] assms
    by (simp add: DataSize_def in_message_def TX_POW_SIZE_def add.assoc)
  then have "BodySize (in_message tag pow body) = of_nat (length body)" using h by (simp add: BodySize_def in_message_def TX_POW_SIZE_def)
  then show "BodyPtr (in_message tag pow body) = body \<and> unat (BodySize (in_message tag pow body)) = length body"
    using h assms l by (simp add: BodyPtr_def in_message_def)
qed

lemma WireTag_BlockTag: "WireTag (BlockTag tag) = WireTag tag" "ObjType (BlockTag tag) = ObjType tag"
proof -
  show "WireTag (BlockTag tag) = WireTag tag" unfolding WireTag_def BlockTag_def by (rule bit_eqI) (auto simp: bit_simps)
  then show "ObjType (BlockTag tag) = ObjType tag" by (simp add: ObjType_def)
qed

lemma HasPOW_not_block:
  assumes "HasPOW tag"
  shows "WireTag tag = tag" "ObjType tag \<noteq> CC_TYPE_BLOCK"
proof -
  have "tag AND CC_TAG_BLOCK_FLAG = 0" using assms by (simp add: HasPOW_def)
  moreover have "tag = (tag AND NOT CC_TAG_BLOCK_FLAG) OR (tag AND CC_TAG_BLOCK_FLAG)" by (rule bit_eqI) (auto simp: bit_simps)
  ultimately show w: "WireTag tag = tag" by (simp add: WireTag_def)
  have "tag \<noteq> CC_TAG_BLOCK" using assms by (auto simp: HasPOW_def cc_tags)
  then show "ObjType tag \<noteq> CC_TYPE_BLOCK" by (simp add: ObjType_def w cc_types)
qed

text \<open>
  C35. An object keeps its id and its validity when it moves from a message into a block: the proof of work and the
  flag in the tag that go with it are not part of the id, which is the hash of the body under the tag of the
  message, for every body that fits in a 32-bit size.
\<close>

theorem objid_of_message_in_block:
  assumes "HasPOW tag" "length pow = TX_POW_SIZE" "length body + 56 < 2 ^ 32"
  shows "ComputeObjId blake2b (in_message tag pow body) = Inr (blake2b (le_bytes 4 (unat tag)) body) \<and>
    ComputeObjId blake2b (in_block tag body) = Inr (blake2b (le_bytes 4 (unat tag)) body) \<and>
    IsValid (in_message tag pow body) = IsValid (in_block tag body)"
proof -
  note m = body_of_object(1) [OF assms(3,1,2)] and b = body_of_object(2,3) [OF assms(3), of tag]
  have t: "obj_tag (in_message tag pow body) = tag" "obj_tag (in_block tag body) = BlockTag tag" by (simp_all add: in_message_def in_block_def)
  have "BodySize (in_message tag pow body) = BodySize (in_block tag body)" using m b by (simp add: unat_arith_simps)
  then show ?thesis
    using m b HasPOW_not_block [OF assms(1)] by (simp add: ComputeObjId_def IsValid_def t WireTag_BlockTag)
qed

theorem objid_of_message_in_block_witness:
  "ComputeObjId (@) (in_block CC_TAG_MINT [1, 2]) = Inr (le_bytes 4 (unat CC_TAG_MINT) @ [1, 2])"
  using objid_of_message_in_block [of CC_TAG_MINT "replicate 48 9" "[1, 2]" "(@)"]
  by (simp add: HasPOW_def TX_POW_SIZE_def cc_tags)

end
