(* ===== verification/Tx_Wire.thy ===== *)
theory Tx_Wire
  imports Wire_Buf Tx_Amount CC_Objects
begin

unbundle bit_operations_syntax

text \<open>
  The wire format of transactions (cclib/src/transaction.cpp: \<open>txpay_output_to_wire\<close>, \<open>txpay_output_from_wire\<close>,
  \<open>txpay_input_to_wire\<close>, \<open>txpay_input_from_wire\<close>, \<open>txpay_body_to_wire\<close>, \<open>txpay_body_from_wire\<close>, \<open>txpay_to_wire\<close>,
  \<open>tx_add_from_wire\<close>, \<open>tx_from_wire\<close>, \<open>tx_init\<close>, \<open>set_mint_inputs\<close>), in the configuration without the test macros.

  The records have the fields that are on the wire, explicitly or implied, and those that the functions
  set; the secrets of the inputs, which never leave the wallet, are left out. An error return is
  \<open>Inl (TxError message)\<close> when a transaction is written and \<open>Inl (WireError code)\<close> when one is read. The
  hash functions are parameters.
\<close>

section \<open>Transactions\<close>

definition TX_MAXOUT :: nat where "TX_MAXOUT = 10"
definition TX_WIRE_MAXIN :: nat where "TX_WIRE_MAXIN = 8"
definition TX_MAXINPATH :: nat where "TX_MAXINPATH = 8"
definition TX_MAX_APPEND :: nat where "TX_MAX_APPEND = 512"
definition TX_MINT_NOUT :: nat where "TX_MINT_NOUT = 1"
definition TX_MINT_ZKKEY_ID :: u16 where "TX_MINT_ZKKEY_ID = 0"
definition TX_BLOCKLEVEL_BYTES :: nat where "TX_BLOCKLEVEL_BYTES = 5"
definition TX_ADDRESS_BYTES :: nat where "TX_ADDRESS_BYTES = 16"
definition TX_DOMAIN_BYTES :: nat where "TX_DOMAIN_BYTES = 3"
definition TX_ASSET_WIRE_BYTES :: nat where "TX_ASSET_WIRE_BYTES = 4"
definition TX_AMOUNT_BYTES :: nat where "TX_AMOUNT_BYTES = 5"
definition TX_DONATION_BYTES :: nat where "TX_DONATION_BYTES = 2"
definition TX_COMMITMENT_BYTES :: nat where "TX_COMMITMENT_BYTES = 32"
definition TX_COMMITNUM_BYTES :: nat where "TX_COMMITNUM_BYTES = 6"
definition TX_SERIALNUM_BYTES :: nat where "TX_SERIALNUM_BYTES = 32"
definition TX_HASHKEY_WIRE_BITS :: nat where "TX_HASHKEY_WIRE_BITS = 128"
definition TX_HASHKEY_WIRE_BYTES :: nat where "TX_HASHKEY_WIRE_BYTES = 16"
definition TX_ASSET_WIRE_MASK :: u64 where "TX_ASSET_WIRE_MASK = 2 ^ 32 - 1"
definition TX_AMOUNT_MASK :: u64 where "TX_AMOUNT_MASK = 2 ^ 40 - 1"
definition ZKPROOF_VALS :: nat where "ZKPROOF_VALS = 9"

text \<open>\<open>sizeof(tx.zkproof) - 1\<close>.\<close>

definition ZKPROOF_WIRE_BYTES :: nat where "ZKPROOF_WIRE_BYTES = ZKPROOF_VALS * 32 - 1"

record wtxout =
  wo_dest_chain :: u64
  wo_no_address :: u16
  wo_M_address :: bigint
  wo_acceptance_required :: u16
  wo_repeat_count :: u32
  wo_M_domain :: u32
  wo_no_asset :: u16
  wo_asset_mask :: u64
  wo_M_asset_enc :: u64
  wo_no_amount :: u16
  wo_amount_mask :: u64
  wo_M_amount_enc :: u64
  wo_M_commitment :: bigint

record wtxin =
  wi_enforce_master_secret :: u16
  wi_enforce_spend_secrets :: u16
  wi_enforce_trust_secrets :: u16
  wi_enforce_freeze :: u16
  wi_enforce_unfreeze :: u16
  wi_merkle_root :: bigint
  wi_invalmax :: u16
  wi_delaytime :: u16
  wi_M_domain :: u32
  wi_amount_fp :: u64
  wi_M_commitment :: bigint
  wi_M_commitnum :: u64
  wi_no_serialnum :: u16
  wi_S_serialnum :: bigint
  wi_S_hashkey :: bigint
  wi_S_spendspec_hashed :: bigint
  wi_pathnum :: u16

record wtx =
  wt_dest_chain :: u64
  wt_default_domain :: u32
  wt_acceptance_required :: u16
  wt_invalmax :: u16
  wt_delaytime :: u16
  wt_wire_tag :: u32
  wt_tag_type :: nat
  wt_zkkeyid :: u16
  wt_zkproof :: "byte list"
  wt_append_wire_offset :: u32
  wt_append_data_length :: u32
  wt_append_data :: "byte list"
  wt_objid :: "byte list"
  wt_have_objid :: u16
  wt_tx_type :: nat
  wt_param_level :: u64
  wt_refhash :: bigint
  wt_donation_fp :: u64
  wt_have_allow_restricted_addresses :: u16
  wt_allow_restricted_addresses :: u16
  wt_tx_merkle_root :: bigint
  wt_nout :: nat
  wt_nin :: nat
  wt_nin_with_path :: nat
  wt_outputs :: "wtxout list"
  wt_inputs :: "wtxin list"

definition clear_wtxout :: wtxout where
  "clear_wtxout = \<lparr>wo_dest_chain = 0, wo_no_address = 0, wo_M_address = big_of_nat 0, wo_acceptance_required = 0, wo_repeat_count = 0,
     wo_M_domain = 0, wo_no_asset = 0, wo_asset_mask = 0, wo_M_asset_enc = 0, wo_no_amount = 0, wo_amount_mask = 0, wo_M_amount_enc = 0,
     wo_M_commitment = big_of_nat 0\<rparr>"

definition clear_wtxin :: wtxin where
  "clear_wtxin = \<lparr>wi_enforce_master_secret = 0, wi_enforce_spend_secrets = 0, wi_enforce_trust_secrets = 0, wi_enforce_freeze = 0,
     wi_enforce_unfreeze = 0, wi_merkle_root = big_of_nat 0, wi_invalmax = 0, wi_delaytime = 0, wi_M_domain = 0, wi_amount_fp = 0,
     wi_M_commitment = big_of_nat 0, wi_M_commitnum = 0, wi_no_serialnum = 0, wi_S_serialnum = big_of_nat 0, wi_S_hashkey = big_of_nat 0,
     wi_S_spendspec_hashed = big_of_nat 0, wi_pathnum = 0\<rparr>"

definition tx_init :: wtx where
  "tx_init = \<lparr>wt_dest_chain = 0, wt_default_domain = 0, wt_acceptance_required = 0, wt_invalmax = 0, wt_delaytime = 0, wt_wire_tag = 0,
     wt_tag_type = 0, wt_zkkeyid = 0, wt_zkproof = replicate (ZKPROOF_VALS * 32) 0, wt_append_wire_offset = 0, wt_append_data_length = 0,
     wt_append_data = replicate TX_MAX_APPEND 0, wt_objid = replicate 16 0, wt_have_objid = 0, wt_tx_type = 0, wt_param_level = 0,
     wt_refhash = big_of_nat 0, wt_donation_fp = 0, wt_have_allow_restricted_addresses = 0, wt_allow_restricted_addresses = 0,
     wt_tx_merkle_root = big_of_nat 0, wt_nout = 0, wt_nin = 0, wt_nin_with_path = 0, wt_outputs = replicate TX_MAXOUT clear_wtxout,
     wt_inputs = replicate TX_WIRE_MAXIN clear_wtxin\<rparr>"

section \<open>Writing\<close>

definition put_word :: "nat \<Rightarrow> 'a::len word \<Rightarrow> u32 \<Rightarrow> wbuf \<Rightarrow> wbuf outcome" where
  "put_word n w binsize s = copy_to_bufl (le_bytes n (unat w)) binsize False s"

definition put_big :: "nat \<Rightarrow> bigint \<Rightarrow> u32 \<Rightarrow> wbuf \<Rightarrow> wbuf outcome" where
  "put_big n b binsize s = copy_to_bufl (take n (bigint_mem b)) binsize False s"

definition tx_check :: "bool \<Rightarrow> string \<Rightarrow> 'a outcome \<Rightarrow> 'a outcome" where
  "tx_check bad msg r = (if bad then Inl (TxError msg) else r)"

definition body_type :: "nat \<Rightarrow> bool" where
  "body_type t \<longleftrightarrow> t = CC_TYPE_TXPAY \<or> t = CC_TYPE_XCX_SIMPLE_BUY \<or> t = CC_TYPE_XCX_SIMPLE_SELL \<or> t = CC_TYPE_XCX_MINING_TRADE \<or>
     t = CC_TYPE_XCX_NAKED_BUY \<or> t = CC_TYPE_XCX_NAKED_SELL"

text \<open>The domain is on the wire only under the tag for several domains.\<close>

definition put_domain :: "wtx \<Rightarrow> u32 \<Rightarrow> u32 \<Rightarrow> wbuf \<Rightarrow> wbuf outcome" where
  "put_domain tx domain binsize s =
     (if wt_wire_tag tx = CC_TAG_TX_XDOMAIN then put_word TX_DOMAIN_BYTES domain binsize s
      else if domain = wt_default_domain tx then Inr s else Inl AssertFail)"

definition put_asset :: "wtx \<Rightarrow> wtxout \<Rightarrow> nat \<Rightarrow> u32 \<Rightarrow> wbuf \<Rightarrow> wbuf outcome" where
  "put_asset tx txout err_check binsize s =
     (if wt_tag_type tx = CC_TYPE_MINT then
        tx_check (wo_asset_mask txout \<noteq> 0 \<and> err_check \<noteq> 0) ''asset-mask != 0 in mint transaction''
        (tx_check (wo_amount_mask txout \<noteq> 0 \<and> err_check \<noteq> 0) ''amount-mask != 0 in mint transaction''
        (tx_check (wo_M_asset_enc txout \<noteq> 0 \<and> err_check \<noteq> 0) ''encrypted-asset != 0 in mint transaction'' (Inr s)))
      else if body_type (wt_tag_type tx) then
        tx_check (wo_asset_mask txout \<noteq> TX_ASSET_WIRE_MASK \<and> err_check \<noteq> 0) ''asset-mask != all ones''
        (tx_check (wo_amount_mask txout \<noteq> TX_AMOUNT_MASK \<and> err_check \<noteq> 0) ''amount-mask != all ones''
        (tx_check (wo_M_asset_enc txout AND NOT TX_ASSET_WIRE_MASK \<noteq> 0 \<and> err_check \<noteq> 0) ''encrypted-asset upper bits != all zeros''
        (put_word TX_ASSET_WIRE_BYTES (wo_M_asset_enc txout) binsize s)))
      else Inl (TxError ''invalid type''))"

definition txpay_output_to_wire :: "wtx \<Rightarrow> nat \<Rightarrow> u32 \<Rightarrow> wtxout \<Rightarrow> wbuf \<Rightarrow> wbuf outcome" where
  "txpay_output_to_wire tx err_check binsize txout s =
     tx_check (wo_no_address txout \<noteq> 0 \<and> err_check \<noteq> 0) ''no-address != 0''
     (tx_check (wo_dest_chain txout \<noteq> wo_dest_chain (wt_outputs tx ! 0) \<and> err_check \<noteq> 0) ''destination-chain values do not all match''
     (bind_outcome (if wo_no_address txout = 0 then put_big TX_ADDRESS_BYTES (wo_M_address txout) binsize s else Inr s) (\<lambda>s.
     tx_check (wo_acceptance_required txout \<noteq> wo_acceptance_required (wt_outputs tx ! 0) \<and> err_check \<noteq> 0) ''acceptance-required values do not all match''
     (tx_check (wo_acceptance_required txout \<noteq> 0 \<and> err_check > 1) ''acceptance-required != 0''
     (tx_check (wo_repeat_count txout \<noteq> 0 \<and> err_check \<noteq> 0) ''repeat-count != 0''
     (bind_outcome (put_domain tx (wo_M_domain txout) binsize s) (\<lambda>s.
     tx_check (wo_no_asset txout \<noteq> 0 \<and> err_check \<noteq> 0) ''no-asset != 0''
     (tx_check (wo_no_amount txout \<noteq> 0 \<and> err_check \<noteq> 0) ''no-amount != 0''
     (bind_outcome (put_asset tx txout err_check binsize s) (\<lambda>s.
     tx_check (wo_M_amount_enc txout AND NOT TX_AMOUNT_MASK \<noteq> 0 \<and> err_check \<noteq> 0) ''encrypted-amount upper bits != all zeros''
     (bind_outcome (put_word TX_AMOUNT_BYTES (wo_M_amount_enc txout) binsize s) (\<lambda>s.
     put_big TX_COMMITMENT_BYTES (wo_M_commitment txout) binsize s))))))))))))"

definition txpay_input_to_wire :: "wtx \<Rightarrow> nat \<Rightarrow> u32 \<Rightarrow> wtxin \<Rightarrow> wbuf \<Rightarrow> wbuf outcome" where
  "txpay_input_to_wire tx err_check binsize txin s =
     (let first = wt_inputs tx ! 0 in
     tx_check (wi_enforce_master_secret txin \<noteq> 0 \<and> err_check \<noteq> 0) ''enforce-master-secret != 0''
     (tx_check (wi_enforce_spend_secrets txin \<noteq> 0 \<and> err_check \<noteq> 0) ''enforce-spend-secrets != 0''
     (tx_check (wi_enforce_trust_secrets txin \<noteq> 1 \<and> err_check \<noteq> 0) ''enforce-trust-secret != 1''
     (tx_check (wi_enforce_freeze txin \<noteq> 0 \<and> err_check \<noteq> 0) ''enforce-freeze != 0''
     (tx_check (wi_enforce_unfreeze txin \<noteq> 0 \<and> err_check \<noteq> 0) ''enforce-unfreeze != 0''
     (tx_check (wi_merkle_root txin \<noteq> wi_merkle_root first \<and> err_check \<noteq> 0) ''merkle-root values do not all match''
     (tx_check (wi_invalmax txin \<noteq> wi_invalmax first \<and> err_check \<noteq> 0) ''maximum-input-exponent values do not all match''
     (tx_check (wi_delaytime txin \<noteq> wi_delaytime first \<and> err_check \<noteq> 0) ''delaytime values do not all match''
     (tx_check (wi_delaytime txin \<noteq> 0 \<and> err_check > 1) ''delaytime != 0''
     (bind_outcome (put_domain tx (wi_M_domain txin) binsize s) (\<lambda>s.
     tx_check (wi_no_serialnum txin \<noteq> 0 \<and> err_check \<noteq> 0) ''no-serialnum != 0''
     (tx_check (big_true (wi_S_spendspec_hashed txin) \<and> err_check \<noteq> 0) ''hashed-spendspec != 0''
     (bind_outcome (if wi_pathnum txin = 0 then put_big TX_COMMITMENT_BYTES (wi_M_commitment txin) binsize s else Inr s) (\<lambda>s.
     bind_outcome (if wi_pathnum txin = 0 \<and> wi_no_serialnum txin = 0 then put_word TX_COMMITNUM_BYTES (wi_M_commitnum txin) binsize s
                   else Inr s) (\<lambda>s.
     bind_outcome (if wi_no_serialnum txin = 0 then put_big TX_SERIALNUM_BYTES (wi_S_serialnum txin) binsize s else Inr s) (\<lambda>s.
     tx_check (bigint_mask (wi_S_hashkey txin) TX_HASHKEY_WIRE_BITS \<noteq> wi_S_hashkey txin \<and> err_check \<noteq> 0) ''hashkey exceeds wire bytes''
     (put_big TX_HASHKEY_WIRE_BYTES (wi_S_hashkey txin) binsize s)))))))))))))))))"

text \<open>A loop over the elements of an array at the given indices.\<close>

fun array_each :: "('a \<Rightarrow> 's \<Rightarrow> 's outcome) \<Rightarrow> 'a list \<Rightarrow> nat list \<Rightarrow> 's \<Rightarrow> 's outcome" where
  "array_each f xs [] s = Inr s"
| "array_each f xs (i # is) s = (if i < length xs then bind_outcome (f (xs ! i) s) (array_each f xs is) else Inl OutOfBounds)"

text \<open>The two loops over the inputs, first those with a path and then those without; \<open>n\<close> is the count each must reach.\<close>

definition put_inputs :: "wtx \<Rightarrow> nat \<Rightarrow> u32 \<Rightarrow> bool \<Rightarrow> nat \<Rightarrow> wbuf \<Rightarrow> wbuf outcome" where
  "put_inputs tx err_check binsize with_path n s =
     bind_outcome (array_each (\<lambda>txin (k, s).
         if (wi_pathnum txin \<noteq> 0) \<noteq> with_path then Inr (k, s)
         else bind_outcome (txpay_input_to_wire tx err_check binsize txin s) (\<lambda>s. Inr (k + 1, s)))
       (wt_inputs tx) [0..<wt_nin tx] (0, s)) (\<lambda>(k, s). if k = n then Inr s else Inl AssertFail)"

definition put_counts :: "wtx \<Rightarrow> nat \<Rightarrow> u32 \<Rightarrow> wbuf \<Rightarrow> wbuf outcome" where
  "put_counts tx err_check binsize s =
     (let nin_without_path = wt_nin tx - wt_nin_with_path tx
      in if body_type (wt_tag_type tx) then
           tx_check (wt_nout tx = 0 \<and> err_check \<noteq> 0) ''# outputs = 0''
           (tx_check (wt_nin tx = 0 \<and> err_check \<noteq> 0) ''# inputs = 0''
           (tx_check (nin_without_path \<noteq> 0 \<and> err_check \<noteq> 0) ''input without Merkle paths''
           (if \<not> (wt_nout tx > 0 \<and> wt_nin_with_path tx > 0 \<and> nin_without_path = 0 \<and> wt_nout tx \<le> 16 \<and> wt_nin_with_path tx \<le> 16)
            then Inl AssertFail
            else put_word 1 (push_bit 4 (of_nat (wt_nout tx - 1)) OR of_nat (wt_nin_with_path tx - 1) :: u8) binsize s)))
         else if wt_tag_type tx = CC_TYPE_MINT then
           tx_check (wt_nout tx \<noteq> TX_MINT_NOUT \<and> err_check \<noteq> 0) ''invalid # outputs for mint transaction''
           (tx_check (wt_nin tx \<noteq> 1 \<and> err_check \<noteq> 0) ''# inputs != 1 for mint transaction'' (Inr s))
         else Inl (TxError ''invalid type''))"

definition txpay_body_to_wire :: "wtx \<Rightarrow> nat \<Rightarrow> u32 \<Rightarrow> wbuf \<Rightarrow> wbuf outcome" where
  "txpay_body_to_wire tx err_check binsize s =
     bind_outcome (put_word TX_BLOCKLEVEL_BYTES (wt_param_level tx) binsize s) (\<lambda>s.
     bind_outcome (copy_to_bufl (take ZKPROOF_WIRE_BYTES (wt_zkproof tx)) binsize False s) (\<lambda>s.
     bind_outcome (if wt_tag_type tx \<noteq> CC_TYPE_MINT then put_word 1 (wt_zkkeyid tx) binsize s
                   else tx_check (wt_zkkeyid tx \<noteq> TX_MINT_ZKKEY_ID \<and> err_check \<noteq> 0) ''invalid proof key id for mint transaction'' (Inr s)) (\<lambda>s.
     bind_outcome (put_word TX_DONATION_BYTES (wt_donation_fp tx) binsize s) (\<lambda>s.
     if \<not> wt_nin_with_path tx \<le> wt_nin tx then Inl AssertFail
     else bind_outcome (put_counts tx err_check binsize s) (\<lambda>s.
     bind_outcome (array_each (txpay_output_to_wire tx err_check binsize) (wt_outputs tx) [0..<wt_nout tx] s) (\<lambda>s.
     if wt_tag_type tx = CC_TYPE_MINT then Inr s
     else bind_outcome (put_inputs tx err_check binsize True (wt_nin_with_path tx) s)
            (put_inputs tx err_check binsize False (wt_nin tx - wt_nin_with_path tx))))))))"

text \<open>The tag: a payment with several domains has its own.\<close>

definition choose_tag :: "wtx \<Rightarrow> u32 outcome" where
  "choose_tag tx =
     (let tag = TypeToWireTag (wt_tag_type tx)
      in if tag = 0 \<or> tag = CC_TAG_BLOCK then Inl (TxError ''invalid type'')
         else if length (wt_outputs tx) < wt_nout tx \<or> length (wt_inputs tx) < wt_nin tx then Inl OutOfBounds
         else Inr (if tag = CC_TAG_TX \<and> (list_ex (\<lambda>t. wo_M_domain t \<noteq> wt_default_domain tx) (take (wt_nout tx) (wt_outputs tx)) \<or>
                                         list_ex (\<lambda>t. wi_M_domain t \<noteq> wt_default_domain tx) (take (wt_nin tx) (wt_inputs tx)))
                   then CC_TAG_TX_XDOMAIN else tag))"

definition put_append :: "wtx \<Rightarrow> u32 \<Rightarrow> wbuf \<Rightarrow> (wtx \<times> wbuf) outcome" where
  "put_append tx binsize s =
     (let n = wt_append_data_length tx; tx = (if n \<noteq> 0 then tx\<lparr>wt_append_wire_offset := bufpos s\<rparr> else tx)
      in if n = 0 then Inr (tx, s)
         else if length (wt_append_data tx) < unat n \<and> bufpos s + n \<le> binsize then Inl OutOfBounds
         else if length (wt_append_data tx) < unat n then Inr (tx, s\<lparr>bufpos := bufpos s + n\<rparr>)
         else bind_outcome (copy_to_bufl (take (unat n) (wt_append_data tx)) binsize False s) (\<lambda>s. Inr (tx, s)))"

text \<open>
  \<open>txpay_to_wire\<close> on the buffer \<open>buf\<close>. The place for the size word is filled with what the position is after
  the first call, 4, because the call writes the variable it advances; the size follows at the end.
\<close>

definition txpay_to_wire ::
  "(byte list \<Rightarrow> byte list \<Rightarrow> byte list) \<Rightarrow> wtx \<Rightarrow> nat \<Rightarrow> byte list \<Rightarrow> u32 \<Rightarrow> (wtx \<times> wbuf) outcome" where
  "txpay_to_wire blake2b tx err_check buf binsize =
     bind_outcome (copy_to_bufl (le_bytes 4 4) binsize False \<lparr>bufpos = 0, mem = buf\<rparr>) (\<lambda>s.
     bind_outcome (choose_tag tx) (\<lambda>tag.
     let tx = tx\<lparr>wt_wire_tag := tag\<rparr>
     in bind_outcome (put_word 4 tag binsize s) (\<lambda>s.
     if bufpos s \<noteq> 8 then Inl AssertFail
     else bind_outcome (copy_to_bufl (replicate TX_POW_SIZE 0) binsize False s) (\<lambda>s.
     bind_outcome (if TypeHasBareMsg (wt_tag_type tx) then Inr s else txpay_body_to_wire tx err_check binsize s) (\<lambda>s.
     bind_outcome (put_append tx binsize s) (\<lambda>(tx, s).
     if bufpos s > binsize then Inl (TxError ''buffer overflow'')
     else if length (mem s) < 4 then Inl OutOfBounds
     else let s = s\<lparr>mem := overwrite 0 (le_bytes 4 (unat (bufpos s))) (mem s)\<rparr>
       in bind_outcome (ComputeMessageObjId blake2b (mem s)) (\<lambda>id. Inr (tx\<lparr>wt_have_objid := 1, wt_objid := id\<rparr>, s))))))))"

section \<open>Reading\<close>

text \<open>Reads into an object of \<open>sz\<close> bytes, all of which are set, and the new position.\<close>

definition get_bytes :: "nat \<Rightarrow> nat \<Rightarrow> byte list \<Rightarrow> u32 \<Rightarrow> u32 \<Rightarrow> (byte list \<times> u32) outcome" where
  "get_bytes sz n buf binsize pos =
     bind_outcome (copy_from_bufl (replicate sz 0) n pos buf binsize False) (\<lambda>(pos, bs). Inr (bs, pos))"

definition get_u16 :: "nat \<Rightarrow> byte list \<Rightarrow> u32 \<Rightarrow> u32 \<Rightarrow> (u16 \<times> u32) outcome" where
  "get_u16 n buf binsize pos = bind_outcome (get_bytes 2 n buf binsize pos) (\<lambda>(bs, pos). Inr (of_nat (le_val bs), pos))"

definition get_u32 :: "nat \<Rightarrow> byte list \<Rightarrow> u32 \<Rightarrow> u32 \<Rightarrow> (u32 \<times> u32) outcome" where
  "get_u32 n buf binsize pos = bind_outcome (get_bytes 4 n buf binsize pos) (\<lambda>(bs, pos). Inr (of_nat (le_val bs), pos))"

definition get_u64 :: "nat \<Rightarrow> byte list \<Rightarrow> u32 \<Rightarrow> u32 \<Rightarrow> (u64 \<times> u32) outcome" where
  "get_u64 n buf binsize pos = bind_outcome (get_bytes 8 n buf binsize pos) (\<lambda>(bs, pos). Inr (of_nat (le_val bs), pos))"

definition get_big :: "nat \<Rightarrow> byte list \<Rightarrow> u32 \<Rightarrow> u32 \<Rightarrow> (bigint \<times> u32) outcome" where
  "get_big n buf binsize pos = bind_outcome (get_bytes 32 n buf binsize pos) (\<lambda>(bs, pos). Inr (big_of_nat (le_val bs), pos))"

definition get_domain :: "wtx \<Rightarrow> byte list \<Rightarrow> u32 \<Rightarrow> u32 \<Rightarrow> (u32 \<times> u32) outcome" where
  "get_domain tx buf binsize pos =
     (if wt_wire_tag tx = CC_TAG_TX_XDOMAIN then get_u32 TX_DOMAIN_BYTES buf binsize pos else Inr (wt_default_domain tx, pos))"

definition txpay_output_from_wire :: "wtx \<Rightarrow> byte list \<Rightarrow> u32 \<Rightarrow> wtxout \<Rightarrow> u32 \<Rightarrow> (wtxout \<times> u32) outcome" where
  "txpay_output_from_wire tx buf binsize t pos =
     (let t = t\<lparr>wo_dest_chain := wt_dest_chain tx\<rparr>
      in bind_outcome (if wo_no_address t = 0 then get_big TX_ADDRESS_BYTES buf binsize pos else Inr (wo_M_address t, pos)) (\<lambda>(a, pos).
         bind_outcome (get_domain tx buf binsize pos) (\<lambda>(d, pos).
         let t = t\<lparr>wo_M_address := a, wo_acceptance_required := wt_acceptance_required tx, wo_M_domain := d\<rparr>;
             t = (if wt_tag_type tx \<noteq> CC_TYPE_MINT then t\<lparr>wo_asset_mask := TX_ASSET_WIRE_MASK, wo_amount_mask := TX_AMOUNT_MASK\<rparr> else t)
         in bind_outcome (if wt_tag_type tx \<noteq> CC_TYPE_MINT then get_u64 TX_ASSET_WIRE_BYTES buf binsize pos
                          else Inr (wo_M_asset_enc t, pos)) (\<lambda>(e, pos).
            bind_outcome (get_u64 TX_AMOUNT_BYTES buf binsize pos) (\<lambda>(m, pos).
            bind_outcome (get_big TX_COMMITMENT_BYTES buf binsize pos) (\<lambda>(c, pos).
            Inr (t\<lparr>wo_M_asset_enc := e, wo_M_amount_enc := m, wo_M_commitment := c\<rparr>, pos)))))))"

definition txpay_input_from_wire :: "wtx \<Rightarrow> byte list \<Rightarrow> u32 \<Rightarrow> wtxin \<Rightarrow> u32 \<Rightarrow> (wtxin \<times> u32) outcome" where
  "txpay_input_from_wire tx buf binsize t pos =
     (let t = t\<lparr>wi_enforce_trust_secrets := 1, wi_merkle_root := wt_tx_merkle_root tx, wi_invalmax := wt_invalmax tx,
                wi_delaytime := wt_delaytime tx\<rparr>
      in bind_outcome (get_domain tx buf binsize pos) (\<lambda>(d, pos).
         bind_outcome (if wi_pathnum t = 0 then get_big TX_COMMITMENT_BYTES buf binsize pos else Inr (wi_M_commitment t, pos)) (\<lambda>(c, pos).
         bind_outcome (if wi_pathnum t = 0 \<and> wi_no_serialnum t = 0 then get_u64 TX_COMMITNUM_BYTES buf binsize pos
                       else Inr (wi_M_commitnum t, pos)) (\<lambda>(n, pos).
         bind_outcome (if wi_no_serialnum t = 0 then get_big TX_SERIALNUM_BYTES buf binsize pos else Inr (wi_S_serialnum t, pos)) (\<lambda>(r, pos).
         bind_outcome (get_big TX_HASHKEY_WIRE_BYTES buf binsize pos) (\<lambda>(k, pos).
         Inr (t\<lparr>wi_M_domain := d, wi_M_commitment := c, wi_M_commitnum := n, wi_S_serialnum := r, wi_S_hashkey := k\<rparr>, pos)))))))"

fun get_outputs :: "byte list \<Rightarrow> u32 \<Rightarrow> nat list \<Rightarrow> wtx \<Rightarrow> u32 \<Rightarrow> (wtx \<times> u32) outcome" where
  "get_outputs buf binsize [] tx pos = Inr (tx, pos)"
| "get_outputs buf binsize (i # is) tx pos =
     (if length (wt_outputs tx) \<le> i then Inl OutOfBounds
      else bind_outcome (txpay_output_from_wire tx buf binsize (wt_outputs tx ! i) pos) (\<lambda>(t, pos).
        let tx = tx\<lparr>wt_outputs := (wt_outputs tx)[i := t]\<rparr>;
            tx = (if wo_no_address t \<noteq> 0 \<and> wt_have_allow_restricted_addresses tx = 0 then tx\<lparr>wt_allow_restricted_addresses := 0\<rparr> else tx)
        in get_outputs buf binsize is tx pos))"

fun get_inputs :: "byte list \<Rightarrow> u32 \<Rightarrow> nat list \<Rightarrow> wtx \<Rightarrow> u32 \<Rightarrow> (wtx \<times> u32) outcome" where
  "get_inputs buf binsize [] tx pos = Inr (tx, pos)"
| "get_inputs buf binsize (i # is) tx pos =
     (if length (wt_inputs tx) \<le> i then Inl OutOfBounds
      else let t = wt_inputs tx ! i; t = (if i < wt_nin_with_path tx then t\<lparr>wi_pathnum := of_nat (i + 1)\<rparr> else t)
        in bind_outcome (txpay_input_from_wire tx buf binsize t pos) (\<lambda>(t, pos).
             get_inputs buf binsize is (tx\<lparr>wt_inputs := (wt_inputs tx)[i := t]\<rparr>) pos))"

definition TX_CC_MINT_AMOUNT :: nat where "TX_CC_MINT_AMOUNT = 1000000000000000000000000000000"
definition MINT_INPUT_EXPONENT :: nat where "MINT_INPUT_EXPONENT = 22"
definition MINT_INPUT_COMMITMENT :: nat where
  "MINT_INPUT_COMMITMENT = 973184326264892349829845330310452310635714594783699009126090380917429859595"

definition set_mint_inputs :: "bigops \<Rightarrow> wtx \<Rightarrow> wtx outcome" where
  "set_mint_inputs B tx =
     (if wt_tag_type tx \<noteq> CC_TYPE_MINT \<or> wt_nin tx \<noteq> 0 then Inl (WireError (-1))
      else if wt_inputs tx = [] then Inl OutOfBounds
      else bind_outcome (tx_amount_encode B (big_of_nat TX_CC_MINT_AMOUNT) False TX_AMOUNT_BITS TX_AMOUNT_EXPONENT_BITS
             MINT_INPUT_EXPONENT MINT_INPUT_EXPONENT (2 ^ 32 - 1)) (\<lambda>fp.
        let t = (wt_inputs tx ! 0)\<lparr>wi_invalmax := of_nat MINT_INPUT_EXPONENT, wi_amount_fp := fp,
                  wi_M_commitment := big_of_nat MINT_INPUT_COMMITMENT, wi_merkle_root := wt_tx_merkle_root tx,
                  wi_enforce_trust_secrets := 1, wi_no_serialnum := 1\<rparr>
        in Inr (tx\<lparr>wt_nin := 1, wt_inputs := (wt_inputs tx)[0 := t]\<rparr>)))"

definition get_counts :: "wtx \<Rightarrow> byte list \<Rightarrow> u32 \<Rightarrow> u32 \<Rightarrow> (wtx \<times> u32) outcome" where
  "get_counts tx buf binsize pos =
     (if body_type (wt_tag_type tx) then
        bind_outcome (get_bytes 1 1 buf binsize pos) (\<lambda>(bs, pos).
          let nadj = (of_nat (le_val bs) :: u8); np = unat (nadj AND 15) + 1
          in Inr (tx\<lparr>wt_nout := unat (drop_bit 4 nadj) + 1, wt_nin_with_path := np, wt_nin := np\<rparr>, pos))
      else if wt_tag_type tx = CC_TYPE_MINT then Inr (tx\<lparr>wt_nout := TX_MINT_NOUT\<rparr>, pos)
      else Inl (WireError (-1)))"

definition txpay_body_from_wire :: "bigops \<Rightarrow> wtx \<Rightarrow> byte list \<Rightarrow> u32 \<Rightarrow> u32 \<Rightarrow> (wtx \<times> u32) outcome" where
  "txpay_body_from_wire B tx buf binsize pos =
     bind_outcome (get_u64 TX_BLOCKLEVEL_BYTES buf binsize pos) (\<lambda>(lvl, pos).
     bind_outcome (get_bytes (ZKPROOF_VALS * 32) ZKPROOF_WIRE_BYTES buf binsize pos) (\<lambda>(proof, pos).
     bind_outcome (if wt_tag_type tx = CC_TYPE_MINT then Inr (TX_MINT_ZKKEY_ID, pos) else get_u16 1 buf binsize pos) (\<lambda>(key, pos).
     bind_outcome (get_u64 TX_DONATION_BYTES buf binsize pos) (\<lambda>(don, pos).
     bind_outcome (get_counts (tx\<lparr>wt_param_level := lvl, wt_zkproof := proof, wt_zkkeyid := key, wt_donation_fp := don\<rparr>) buf binsize pos) (\<lambda>(tx, pos).
     if wt_nout tx > TX_MAXOUT \<or> wt_nin tx > TX_WIRE_MAXIN \<or> wt_nin_with_path tx > TX_MAXINPATH then Inl (WireError (-1))
     else let tx = (if wt_nout tx \<noteq> 0 \<and> wt_have_allow_restricted_addresses tx = 0 then tx\<lparr>wt_allow_restricted_addresses := 1\<rparr> else tx)
       in bind_outcome (get_outputs buf binsize [0..<wt_nout tx] tx pos) (\<lambda>(tx, pos).
          bind_outcome (get_inputs buf binsize [0..<wt_nin tx] tx pos) (\<lambda>(tx, pos).
          if wt_tag_type tx = CC_TYPE_MINT then bind_outcome (set_mint_inputs B tx) (\<lambda>tx. Inr (tx, pos)) else Inr (tx, pos))))))))"

text \<open>The data after the body; \<open>hash\<close> is the hash that binds it to the transaction.\<close>

definition get_append :: "(byte list \<Rightarrow> bigint) \<Rightarrow> wtx \<Rightarrow> byte list \<Rightarrow> u32 \<Rightarrow> u32 \<Rightarrow> u32 \<Rightarrow> (wtx \<times> u32) outcome" where
  "get_append hash tx buf binsize wiresize pos =
     (let nappend = wiresize - pos
      in if nappend = 0 then Inr (tx, pos)
         else if \<not> TypeIsXtx (wt_tag_type tx) then Inl (WireError (-1))
         else bind_outcome (get_bytes TX_MAX_APPEND (unat nappend) buf binsize pos) (\<lambda>(bs, pos').
           let tx = tx\<lparr>wt_append_wire_offset := pos, wt_append_data_length := nappend, wt_append_data := bs\<rparr>
           in Inr (if \<not> big_true (wt_refhash tx) then tx\<lparr>wt_refhash := hash (take (unat nappend) bs)\<rparr> else tx, pos')))"

definition tx_add_from_wire :: "bigops \<Rightarrow> (byte list \<Rightarrow> bigint) \<Rightarrow> wtx \<Rightarrow> byte list \<Rightarrow> u32 \<Rightarrow> wtx outcome" where
  "tx_add_from_wire B hash tx buf binsize =
     bind_outcome (get_u32 4 buf binsize 0) (\<lambda>(wiresize, pos).
     if wiresize > binsize then Inl (WireError (-1))
     else bind_outcome (get_u32 4 buf binsize pos) (\<lambda>(tag, pos).
       let t = ObjType tag
       in if t = CC_TYPE_VOID \<or> t = CC_TYPE_BLOCK then Inl (WireError (-1))
          else if pos \<noteq> 8 then Inl AssertFail
          else let pos = (if HasPOW tag then pos + of_nat TX_POW_SIZE else pos);
                   tx = tx\<lparr>wt_tag_type := t, wt_tx_type := t, wt_wire_tag := WireTag tag\<rparr>
            in bind_outcome (if TypeHasBareMsg t then Inr (tx, pos) else txpay_body_from_wire B tx buf binsize pos) (\<lambda>(tx, pos).
               bind_outcome (get_append hash tx buf binsize wiresize pos) (\<lambda>(tx, pos).
               if pos > binsize then Inl (WireError 1) else Inr tx))))"

definition tx_from_wire :: "bigops \<Rightarrow> (byte list \<Rightarrow> bigint) \<Rightarrow> byte list \<Rightarrow> u32 \<Rightarrow> wtx outcome" where
  "tx_from_wire B hash buf binsize = tx_add_from_wire B hash tx_init buf binsize"

text \<open>The parameter level of a message, without reading the rest; the code reads eight bytes and masks.\<close>

definition txpay_param_level_from_wire :: "ccobject \<Rightarrow> u64 outcome" where
  "txpay_param_level_from_wire obj =
     (if \<not> IsValid obj then Inr (-1)
      else if TypeHasBareMsg (ObjType (obj_tag obj)) then Inr 0
      else if BodySize obj < of_nat TX_BLOCKLEVEL_BYTES then Inr (-1)
      else if length (BodyPtr obj) < 8 then Inl OutOfBounds
      else Inr (of_nat (le_val (take 8 (BodyPtr obj))) AND (push_bit (TX_BLOCKLEVEL_BYTES * 8) 1 - 1)))"

end
