(* ===== verification/Tx_Wire_Props.thy ===== *)
theory Tx_Wire_Props
  imports Tx_Wire
begin

unbundle bit_operations_syntax

text \<open>
  The parts of the wire format of transactions. The writer and the reader are compared through the image of
  each part, a list of bytes: a writer \<open>writes\<close> the image and a reader \<open>parses\<close> it, for the numbers, the
  outputs, the inputs and the body of a transaction.
\<close>

section \<open>Writers\<close>

definition advance :: "byte list \<Rightarrow> wbuf \<Rightarrow> wbuf" where
  "advance bs s = s\<lparr>bufpos := bufpos s + of_nat (length bs), mem := overwrite (unat (bufpos s)) bs (mem s)\<rparr>"

definition room :: "u32 \<Rightarrow> wbuf \<Rightarrow> nat \<Rightarrow> bool" where
  "room binsize s n \<longleftrightarrow> buf_sound binsize s \<and> unat (bufpos s) + n \<le> unat binsize"

definition writes :: "u32 \<Rightarrow> (wbuf \<Rightarrow> wbuf outcome) \<Rightarrow> byte list \<Rightarrow> bool" where
  "writes binsize f bs \<longleftrightarrow> (\<forall>s. room binsize s (length bs) \<longrightarrow> f s = Inr (advance bs s))"

lemma room_advance:
  assumes "room binsize s (length bs + n)"
  shows "room binsize (advance bs s) n" "unat (bufpos (advance bs s)) = unat (bufpos s) + length bs"
    "length (mem (advance bs s)) = length (mem s)"
proof -
  have "unat binsize < 2 ^ 32" using unsigned_less [of binsize] by simp
  then show p: "unat (bufpos (advance bs s)) = unat (bufpos s) + length bs"
    using assms unat_add_of_nat_32 [of "bufpos s" "length bs"] by (simp add: advance_def room_def)
  show l: "length (mem (advance bs s)) = length (mem s)"
    using assms by (simp add: advance_def room_def buf_sound_def)
  show "room binsize (advance bs s) n"
    using assms p l by (simp add: room_def buf_sound_def)
qed

lemma advance_advance:
  assumes "room binsize s (length bs + length cs)"
  shows "advance cs (advance bs s) = advance (bs @ cs) s"
proof -
  have p: "unat (bufpos s + of_nat (length bs)) = unat (bufpos s) + length bs"
    using room_advance(2) [OF assms] by (simp add: advance_def)
  have "unat (bufpos s) + length bs \<le> length (mem s)"
    using assms by (simp add: room_def buf_sound_def)
  then show ?thesis
    by (simp add: advance_def p overwrite_def min_absorb1 min_absorb2 ac_simps)
qed

lemma writes_skip: "writes binsize Inr []"
  by (cases binsize) (auto simp: writes_def advance_def overwrite_def)

lemma writes_bind:
  assumes "writes binsize f bs" "writes binsize g cs"
  shows "writes binsize (\<lambda>s. bind_outcome (f s) g) (bs @ cs)"
  unfolding writes_def
proof (intro allI impI)
  fix s :: wbuf assume r: "room binsize s (length (bs @ cs))"
  then have "f s = Inr (advance bs s)" using assms(1) by (simp add: writes_def room_def)
  moreover have "g (advance bs s) = Inr (advance cs (advance bs s))"
    using assms(2) room_advance(1) [of binsize s bs "length cs"] r by (simp add: writes_def)
  ultimately show "bind_outcome (f s) g = Inr (advance (bs @ cs) s)"
    using advance_advance [of binsize s bs cs] r by simp
qed

lemma writes_copy: "writes binsize (copy_to_bufl bs binsize False) bs"
  by (simp add: writes_def room_def copy_to_bufl_def copy_to_raw_fits advance_def)

lemma writes_word: "writes binsize (put_word n w binsize) (le_bytes n (unat w))"
  unfolding put_word_def by (rule writes_copy)

lemma writes_big: "writes binsize (put_big n b binsize) (take n (bigint_mem b))"
  unfolding put_big_def by (rule writes_copy)

lemma writes_each:
  assumes "\<And>i. i \<in> set is \<Longrightarrow> i < length xs \<and> writes binsize (f (xs ! i)) (im (xs ! i))"
  shows "writes binsize (array_each f xs is) (concat (map (\<lambda>i. im (xs ! i)) is))"
  using assms
proof (induction "is")
  case Nil
  have "array_each f xs [] = Inr" by (rule ext) simp
  then show ?case by (simp add: writes_skip)
next
  case (Cons i js)
  have "array_each f xs (i # js) = (\<lambda>s. bind_outcome (f (xs ! i) s) (array_each f xs js))"
    using Cons.prems [of i] by auto
  then show ?case using Cons.IH Cons.prems writes_bind [of binsize "f (xs ! i)"] by simp
qed

section \<open>Readers\<close>

definition buf_rest :: "byte list \<Rightarrow> u32 \<Rightarrow> u32 \<Rightarrow> byte list \<Rightarrow> bool" where
  "buf_rest buf binsize pos rest \<longleftrightarrow>
     unat binsize \<le> length buf \<and> unat pos \<le> unat binsize \<and> drop (unat pos) (take (unat binsize) buf) = rest"

definition parses :: "byte list \<Rightarrow> u32 \<Rightarrow> (u32 \<Rightarrow> ('a \<times> u32) outcome) \<Rightarrow> byte list \<Rightarrow> 'a \<Rightarrow> bool" where
  "parses buf binsize g bs v \<longleftrightarrow>
     (\<forall>pos rest. buf_rest buf binsize pos (bs @ rest) \<longrightarrow> g pos = Inr (v, pos + of_nat (length bs)))"

lemma buf_rest_fits:
  assumes "buf_rest buf binsize pos (bs @ rest)"
  shows "unat pos + length bs \<le> unat binsize" "unat (pos + of_nat (length bs)) = unat pos + length bs"
    "take (length bs) (drop (unat pos) buf) = bs"
proof -
  have "length (bs @ rest) = unat binsize - unat pos"
    using assms unfolding buf_rest_def by (metis length_drop length_take min_absorb2)
  moreover have "unat pos \<le> unat binsize" using assms by (simp add: buf_rest_def)
  ultimately show f: "unat pos + length bs \<le> unat binsize" by simp
  have "unat binsize < 2 ^ 32" using unsigned_less [of binsize] by simp
  with f show "unat (pos + of_nat (length bs)) = unat pos + length bs"
    by (intro unat_add_of_nat_32) simp
  have "take (length bs) (drop (unat pos) (take (unat binsize) buf)) = bs"
    using assms by (simp add: buf_rest_def)
  with f show "take (length bs) (drop (unat pos) buf) = bs"
    by (simp add: take_drop min_absorb1 add.commute)
qed

lemma buf_rest_step:
  assumes "buf_rest buf binsize pos (bs @ rest)"
  shows "buf_rest buf binsize (pos + of_nat (length bs)) rest"
proof -
  have e: "drop (unat pos) (take (unat binsize) buf) = bs @ rest" using assms by (simp add: buf_rest_def)
  have "drop (length bs) (drop (unat pos) (take (unat binsize) buf)) = rest" unfolding e by simp
  then have "drop (unat pos + length bs) (take (unat binsize) buf) = rest" by (simp only: drop_drop add.commute)
  moreover have "unat binsize \<le> length buf" using assms by (simp add: buf_rest_def)
  ultimately show ?thesis using buf_rest_fits(1,2) [OF assms] by (simp only: buf_rest_def simp_thms)
qed

lemma bind_outcome_assoc: "bind_outcome (bind_outcome r f) g = bind_outcome r (\<lambda>x. bind_outcome (f x) g)"
  by (cases r) simp_all

lemma parses_skip: "parses buf binsize (\<lambda>pos. Inr (v, pos)) [] v"
  by (simp add: parses_def)

lemma parses_bind:
  assumes "parses buf binsize g bs v" "parses buf binsize (h v) cs w"
  shows "parses buf binsize (\<lambda>pos. bind_outcome (g pos) (\<lambda>(x, pos). h x pos)) (bs @ cs) w"
  unfolding parses_def
proof (intro allI impI)
  fix pos rest assume r: "buf_rest buf binsize pos ((bs @ cs) @ rest)"
  then have "g pos = Inr (v, pos + of_nat (length bs))" using assms(1) unfolding parses_def append_assoc by blast
  moreover have "h v (pos + of_nat (length bs)) = Inr (w, pos + of_nat (length bs) + of_nat (length cs))"
    using assms(2) buf_rest_step [of buf binsize pos bs "cs @ rest"] r unfolding parses_def append_assoc by blast
  ultimately show "bind_outcome (g pos) (\<lambda>(x, pos). h x pos) = Inr (w, pos + of_nat (length (bs @ cs)))"
    by (simp add: add.assoc)
qed

lemma parses_then:
  assumes "parses buf binsize g bs v" "\<And>pos. h v pos = Inr (w, pos)"
  shows "parses buf binsize (\<lambda>pos. bind_outcome (g pos) (\<lambda>(x, pos). h x pos)) bs w"
  using parses_bind [where h = h and cs = "[]" and w = w, OF assms(1)] assms(2) by (simp add: parses_def)

lemma parses_bytes:
  assumes "length bs = n" "n \<le> sz"
  shows "parses buf binsize (get_bytes sz n buf binsize) bs (bs @ replicate (sz - n) 0)"
  unfolding parses_def
proof (intro allI impI)
  fix pos rest assume r: "buf_rest buf binsize pos (bs @ rest)"
  then show "get_bytes sz n buf binsize pos = Inr (bs @ replicate (sz - n) 0, pos + of_nat (length bs))"
    using buf_rest_fits [OF r] assms by (simp add: get_bytes_def copy_from_bufl_fits buf_rest_def)
qed

lemma parses_map:
  assumes "parses buf binsize g bs v"
  shows "parses buf binsize (\<lambda>pos. bind_outcome (g pos) (\<lambda>(x, pos). Inr (f x, pos))) bs (f v)"
  using parses_bind [where h = "\<lambda>x pos. Inr (f x, pos)", OF assms parses_skip] by simp

lemma le_val_pad: "le_val (le_bytes n x @ replicate m 0) = x mod 256 ^ n"
  by (simp add: le_val_append le_val_bytes)

lemma parses_u16: "unat w < 256 ^ n \<Longrightarrow> n \<le> 2 \<Longrightarrow> parses buf binsize (get_u16 n buf binsize) (le_bytes n (unat w)) w"
  using parses_map [OF parses_bytes [of "le_bytes n (unat w)" n 2], of buf binsize "\<lambda>bs. (of_nat (le_val bs) :: u16)"]
  by (simp add: get_u16_def [abs_def] le_val_pad)

lemma parses_u32: "unat w < 256 ^ n \<Longrightarrow> n \<le> 4 \<Longrightarrow> parses buf binsize (get_u32 n buf binsize) (le_bytes n (unat w)) w"
  using parses_map [OF parses_bytes [of "le_bytes n (unat w)" n 4], of buf binsize "\<lambda>bs. (of_nat (le_val bs) :: u32)"]
  by (simp add: get_u32_def [abs_def] le_val_pad)

lemma parses_u64: "unat w < 256 ^ n \<Longrightarrow> n \<le> 8 \<Longrightarrow> parses buf binsize (get_u64 n buf binsize) (le_bytes n (unat w)) w"
  using parses_map [OF parses_bytes [of "le_bytes n (unat w)" n 8], of buf binsize "\<lambda>bs. (of_nat (le_val bs) :: u64)"]
  by (simp add: get_u64_def [abs_def] le_val_pad)

lemma big_of_nat_bval: "wf_bigint b \<Longrightarrow> big_of_nat (bval b) = b"
  using wf_big_of_nat [of "bval b"] bval_less_256 [of b]
  by (intro bval_inj) (simp_all add: wf_bigint_def bval_big_of_nat)

lemma bigint_mem_pad:
  assumes "wf_bigint b" "bval b < 256 ^ n" "n \<le> 32"
  shows "big_of_nat (le_val (take n (bigint_mem b) @ replicate (32 - n) 0)) = b" "length (take n (bigint_mem b)) = n"
proof -
  have l: "length (bigint_mem b) = 32" using assms(1) by (simp add: wf_bigint_def numberLimbs_def)
  with assms(3) show n: "length (take n (bigint_mem b)) = n" by simp
  have "bval b = le_val (take n (bigint_mem b)) + 256 ^ n * le_val (drop n (bigint_mem b))"
    using le_val_append [of "take n (bigint_mem b)" "drop n (bigint_mem b)"] n by (simp add: le_val_bigint_mem)
  with assms(2) have "le_val (take n (bigint_mem b)) = bval b"
    by (cases "le_val (drop n (bigint_mem b))") auto
  then have "le_val (take n (bigint_mem b) @ replicate (32 - n) 0) = bval b" by (simp add: le_val_append)
  with assms(1) show "big_of_nat (le_val (take n (bigint_mem b) @ replicate (32 - n) 0)) = b"
    by (simp add: big_of_nat_bval)
qed

lemma parses_big:
  assumes "wf_bigint b" "bval b < 256 ^ n" "n \<le> 32"
  shows "parses buf binsize (get_big n buf binsize) (take n (bigint_mem b)) b"
  using parses_map [OF parses_bytes [of "take n (bigint_mem b)" n 32], of buf binsize "\<lambda>bs. big_of_nat (le_val bs)"]
    bigint_mem_pad [OF assms] assms(3)
  by (simp add: get_big_def [abs_def])

section \<open>The images of outputs and inputs\<close>

lemmas tx_sizes = TX_BLOCKLEVEL_BYTES_def TX_ADDRESS_BYTES_def TX_DOMAIN_BYTES_def TX_ASSET_WIRE_BYTES_def TX_AMOUNT_BYTES_def
  TX_DONATION_BYTES_def TX_COMMITMENT_BYTES_def TX_COMMITNUM_BYTES_def TX_SERIALNUM_BYTES_def TX_HASHKEY_WIRE_BYTES_def

definition domain_image :: "u32 \<Rightarrow> u32 \<Rightarrow> byte list" where
  "domain_image tag d = (if tag = CC_TAG_TX_XDOMAIN then le_bytes 3 (unat d) else [])"

definition output_image :: "u32 \<Rightarrow> wtxout \<Rightarrow> byte list" where
  "output_image tag t = take 16 (bigint_mem (wo_M_address t)) @ domain_image tag (wo_M_domain t) @ le_bytes 4 (unat (wo_M_asset_enc t)) @
     le_bytes 5 (unat (wo_M_amount_enc t)) @ take 32 (bigint_mem (wo_M_commitment t))"

definition input_image :: "u32 \<Rightarrow> wtxin \<Rightarrow> byte list" where
  "input_image tag t = domain_image tag (wi_M_domain t) @ take 32 (bigint_mem (wi_S_serialnum t)) @ take 16 (bigint_mem (wi_S_hashkey t))"

text \<open>
  What the checks of the writer ask of an output and of an input: the fields that are not on the wire have the
  values that the reader assumes, and the others fit in their bytes.
\<close>

definition domain_ok :: "wtx \<Rightarrow> u32 \<Rightarrow> bool" where
  "domain_ok tx d \<longleftrightarrow> unat d < 2 ^ 24 \<and> (wt_tag_type tx = CC_TYPE_TXPAY \<or> d = wt_default_domain tx)"

definition output_ok :: "wtx \<Rightarrow> wtxout \<Rightarrow> bool" where
  "output_ok tx t \<longleftrightarrow> wo_no_address t = 0 \<and> wo_dest_chain t = wo_dest_chain (wt_outputs tx ! 0) \<and> wo_acceptance_required t = 0 \<and>
     wo_acceptance_required (wt_outputs tx ! 0) = 0 \<and> wo_repeat_count t = 0 \<and> wo_no_asset t = 0 \<and> wo_no_amount t = 0 \<and>
     wo_asset_mask t = TX_ASSET_WIRE_MASK \<and> wo_amount_mask t = TX_AMOUNT_MASK \<and>
     domain_ok tx (wo_M_domain t) \<and> unat (wo_M_asset_enc t) < 2 ^ 32 \<and> unat (wo_M_amount_enc t) < 2 ^ 40 \<and>
     wf_bigint (wo_M_address t) \<and> bval (wo_M_address t) < 2 ^ 128 \<and> wf_bigint (wo_M_commitment t)"

definition input_ok :: "wtx \<Rightarrow> wtxin \<Rightarrow> bool" where
  "input_ok tx t \<longleftrightarrow> wi_enforce_master_secret t = 0 \<and> wi_enforce_spend_secrets t = 0 \<and> wi_enforce_trust_secrets t = 1 \<and>
     wi_enforce_freeze t = 0 \<and> wi_enforce_unfreeze t = 0 \<and> wi_merkle_root t = wi_merkle_root (wt_inputs tx ! 0) \<and>
     wi_invalmax t = wi_invalmax (wt_inputs tx ! 0) \<and> wi_delaytime t = 0 \<and> wi_delaytime (wt_inputs tx ! 0) = 0 \<and>
     domain_ok tx (wi_M_domain t) \<and> wi_no_serialnum t = 0 \<and> \<not> big_true (wi_S_spendspec_hashed t) \<and> wi_pathnum t \<noteq> 0 \<and>
     wf_bigint (wi_S_serialnum t) \<and> wf_bigint (wi_S_hashkey t) \<and> bval (wi_S_hashkey t) < 2 ^ 128"

text \<open>Masking off the bits above a bound changes nothing below the bound.\<close>

lemma mask_upper_zero: "unat (w :: u64) < 2 ^ n \<Longrightarrow> w AND NOT (2 ^ n - 1) = 0"
proof -
  assume "unat w < 2 ^ n"
  then have "take_bit n (unat w) = unat w" by (rule take_bit_nat_eq_self)
  then have "bit (unat w) k \<longleftrightarrow> k < n \<and> bit (unat w) k" for k by (metis bit_take_bit_iff)
  moreover have "bit (unat w) k \<longleftrightarrow> bit w k" for k by (simp add: bit_unsigned_iff)
  ultimately have "bit w k \<longrightarrow> k < n" for k by blast
  then have "w AND NOT (mask n) = 0" by (intro bit_eqI) (auto simp: bit_simps)
  then show ?thesis by (simp add: mask_eq_exp_minus_1)
qed

lemma length_bigint_mask [simp]: "length (bigint_mask b n) = length b"
  by (simp add: bigint_mask_def)

lemma hashkey_mask: "wf_bigint b \<Longrightarrow> bval b < 2 ^ 128 \<Longrightarrow> bigint_mask b TX_HASHKEY_WIRE_BITS = b"
  by (intro bval_inj) (simp_all add: mask_value TX_HASHKEY_WIRE_BITS_def wf_bigint_def length_bigint_mask)

section \<open>Writing and reading the parts\<close>

lemma body_not_mint: "body_type t \<Longrightarrow> t \<noteq> CC_TYPE_MINT"
  by (auto simp: body_type_def cc_types)

lemma writes_domain:
  assumes "wt_wire_tag tx = CC_TAG_TX_XDOMAIN \<or> d = wt_default_domain tx"
  shows "writes binsize (put_domain tx d binsize) (domain_image (wt_wire_tag tx) d)"
proof (cases "wt_wire_tag tx = CC_TAG_TX_XDOMAIN")
  case True
  then have "put_domain tx d binsize = put_word 3 d binsize" by (auto simp: put_domain_def tx_sizes)
  with True show ?thesis by (simp add: domain_image_def writes_word)
next
  case False
  then have "put_domain tx d binsize = Inr" using assms by (auto simp: put_domain_def)
  with False show ?thesis by (simp add: domain_image_def writes_skip)
qed

lemma writes_output:
  assumes "body_type (wt_tag_type tx)" "output_ok tx t" "wt_wire_tag tx = CC_TAG_TX_XDOMAIN \<or> wo_M_domain t = wt_default_domain tx"
  shows "writes binsize (txpay_output_to_wire tx err_check binsize t) (output_image (wt_wire_tag tx) t)"
proof -
  have up: "wo_M_asset_enc t AND NOT TX_ASSET_WIRE_MASK = 0" "wo_M_amount_enc t AND NOT TX_AMOUNT_MASK = 0"
    unfolding TX_ASSET_WIRE_MASK_def TX_AMOUNT_MASK_def using assms(2) by (intro mask_upper_zero, simp add: output_ok_def)+
  have "txpay_output_to_wire tx err_check binsize t = (\<lambda>s.
      bind_outcome (put_big 16 (wo_M_address t) binsize s) (\<lambda>s. bind_outcome (put_domain tx (wo_M_domain t) binsize s) (\<lambda>s.
      bind_outcome (put_word 4 (wo_M_asset_enc t) binsize s) (\<lambda>s. bind_outcome (put_word 5 (wo_M_amount_enc t) binsize s) (\<lambda>s.
      put_big 32 (wo_M_commitment t) binsize s)))))"
    using assms body_not_mint [OF assms(1)] up
    by (auto simp: txpay_output_to_wire_def put_asset_def tx_check_def output_ok_def tx_sizes)
  then show ?thesis unfolding output_image_def
    using assms(3) by (simp only:) (intro writes_bind writes_big writes_word writes_domain)
qed

lemma writes_input:
  assumes "input_ok tx t" "wt_wire_tag tx = CC_TAG_TX_XDOMAIN \<or> wi_M_domain t = wt_default_domain tx"
  shows "writes binsize (txpay_input_to_wire tx err_check binsize t) (input_image (wt_wire_tag tx) t)"
proof -
  have "bigint_mask (wi_S_hashkey t) TX_HASHKEY_WIRE_BITS = wi_S_hashkey t"
    using assms(1) by (intro hashkey_mask) (simp_all add: input_ok_def)
  then have "txpay_input_to_wire tx err_check binsize t = (\<lambda>s. bind_outcome (put_domain tx (wi_M_domain t) binsize s) (\<lambda>s.
      bind_outcome (put_big 32 (wi_S_serialnum t) binsize s) (\<lambda>s. put_big 16 (wi_S_hashkey t) binsize s)))"
    using assms by (auto simp: txpay_input_to_wire_def tx_check_def input_ok_def tx_sizes)
  then show ?thesis unfolding input_image_def
    using assms(2) by (simp only:) (intro writes_bind writes_big writes_domain)
qed

text \<open>What the reader makes of an output and of an input: the fields on the wire, and the values it assumes.\<close>

definition read_output :: "wtx \<Rightarrow> bigint \<Rightarrow> u32 \<Rightarrow> u64 \<Rightarrow> u64 \<Rightarrow> bigint \<Rightarrow> wtxout" where
  "read_output r a d e m c = clear_wtxout\<lparr>wo_dest_chain := wt_dest_chain r, wo_M_address := a,
     wo_acceptance_required := wt_acceptance_required r, wo_M_domain := d, wo_asset_mask := TX_ASSET_WIRE_MASK,
     wo_amount_mask := TX_AMOUNT_MASK, wo_M_asset_enc := e, wo_M_amount_enc := m, wo_M_commitment := c\<rparr>"

definition reread_output :: "wtx \<Rightarrow> wtxout \<Rightarrow> wtxout" where
  "reread_output r t = read_output r (wo_M_address t) (wo_M_domain t) (wo_M_asset_enc t) (wo_M_amount_enc t) (wo_M_commitment t)"

definition read_input :: "wtx \<Rightarrow> u16 \<Rightarrow> u32 \<Rightarrow> bigint \<Rightarrow> bigint \<Rightarrow> wtxin" where
  "read_input r p d n k = clear_wtxin\<lparr>wi_pathnum := p, wi_enforce_trust_secrets := 1, wi_merkle_root := wt_tx_merkle_root r,
     wi_invalmax := wt_invalmax r, wi_delaytime := wt_delaytime r, wi_M_domain := d, wi_S_serialnum := n, wi_S_hashkey := k\<rparr>"

definition reread_input :: "wtx \<Rightarrow> u16 \<Rightarrow> wtxin \<Rightarrow> wtxin" where
  "reread_input r p t = read_input r p (wi_M_domain t) (wi_S_serialnum t) (wi_S_hashkey t)"

definition domain_read :: "wtx \<Rightarrow> u32 \<Rightarrow> bool" where
  "domain_read r d \<longleftrightarrow> (if wt_wire_tag r = CC_TAG_TX_XDOMAIN then unat d < 2 ^ 24 else d = wt_default_domain r)"

lemma parses_domain:
  assumes "domain_read r d"
  shows "parses buf binsize (get_domain r buf binsize) (domain_image (wt_wire_tag r) d) d"
proof (cases "wt_wire_tag r = CC_TAG_TX_XDOMAIN")
  case True
  then have "get_domain r buf binsize = get_u32 3 buf binsize" by (auto simp: get_domain_def tx_sizes)
  with True assms show ?thesis by (simp add: domain_image_def parses_u32 domain_read_def)
next
  case False
  then have "get_domain r buf binsize = (\<lambda>pos. Inr (d, pos))" using assms by (auto simp: get_domain_def domain_read_def)
  with False show ?thesis by (simp add: domain_image_def parses_skip)
qed

lemma parses_output:
  assumes "body_type (wt_tag_type r)" "output_ok tx t" "domain_read r (wo_M_domain t)"
  shows "parses buf binsize (txpay_output_from_wire r buf binsize clear_wtxout) (output_image (wt_wire_tag r) t) (reread_output r t)"
proof -
  have ok: "wf_bigint (wo_M_address t)" "bval (wo_M_address t) < 256 ^ 16" "wf_bigint (wo_M_commitment t)"
    "bval (wo_M_commitment t) < 256 ^ 32" "unat (wo_M_asset_enc t) < 256 ^ 4" "unat (wo_M_amount_enc t) < 256 ^ 5"
    using assms(2) bval_less_256 [of "wo_M_commitment t"] by (simp_all add: output_ok_def)
  have "txpay_output_from_wire r buf binsize clear_wtxout = (\<lambda>pos.
      bind_outcome (get_big 16 buf binsize pos) (\<lambda>(a, pos). bind_outcome (get_domain r buf binsize pos) (\<lambda>(d, pos).
      bind_outcome (get_u64 4 buf binsize pos) (\<lambda>(e, pos). bind_outcome (get_u64 5 buf binsize pos) (\<lambda>(m, pos).
      bind_outcome (get_big 32 buf binsize pos) (\<lambda>(c, pos). Inr (read_output r a d e m c, pos)))))))"
    using body_not_mint [OF assms(1)]
    by (auto simp: txpay_output_from_wire_def read_output_def clear_wtxout_def tx_sizes Let_def)
  then show ?thesis unfolding output_image_def reread_output_def
    apply (simp only:)
    apply (rule parses_bind [OF parses_big], use ok in simp_all)
    apply (rule parses_bind [OF parses_domain [OF assms(3)]])
    apply (rule parses_bind [OF parses_u64], use ok in simp_all)
    apply (rule parses_bind [OF parses_u64], use ok in simp_all)
    apply (rule parses_map [OF parses_big], use ok in simp_all)
    done
qed

lemma parses_input:
  assumes "input_ok tx t" "domain_read r (wi_M_domain t)" "p \<noteq> 0"
  shows "parses buf binsize (txpay_input_from_wire r buf binsize (clear_wtxin\<lparr>wi_pathnum := p\<rparr>)) (input_image (wt_wire_tag r) t)
    (reread_input r p t)"
proof -
  have ok: "wf_bigint (wi_S_serialnum t)" "bval (wi_S_serialnum t) < 256 ^ 32" "wf_bigint (wi_S_hashkey t)"
    "bval (wi_S_hashkey t) < 256 ^ 16"
    using assms(1) bval_less_256 [of "wi_S_serialnum t"] by (simp_all add: input_ok_def)
  have "txpay_input_from_wire r buf binsize (clear_wtxin\<lparr>wi_pathnum := p\<rparr>) = (\<lambda>pos.
      bind_outcome (get_domain r buf binsize pos) (\<lambda>(d, pos). bind_outcome (get_big 32 buf binsize pos) (\<lambda>(n, pos).
      bind_outcome (get_big 16 buf binsize pos) (\<lambda>(k, pos). Inr (read_input r p d n k, pos)))))"
    using assms(3) by (auto simp: txpay_input_from_wire_def read_input_def clear_wtxin_def tx_sizes Let_def)
  then show ?thesis unfolding input_image_def reread_input_def
    apply (simp only:)
    apply (rule parses_bind [OF parses_domain [OF assms(2)]])
    apply (rule parses_bind [OF parses_big], use ok in simp_all)
    apply (rule parses_map [OF parses_big], use ok in simp_all)
    done
qed

section \<open>The body\<close>

definition counts_byte :: "nat \<Rightarrow> nat \<Rightarrow> u8" where
  "counts_byte nout nin = push_bit 4 (of_nat (nout - 1)) OR of_nat (nin - 1)"

definition body_image :: "u32 \<Rightarrow> wtx \<Rightarrow> byte list" where
  "body_image tag tx = le_bytes 5 (unat (wt_param_level tx)) @ take 287 (wt_zkproof tx) @ le_bytes 1 (unat (wt_zkkeyid tx)) @
     le_bytes 2 (unat (wt_donation_fp tx)) @ le_bytes 1 (unat (counts_byte (wt_nout tx) (wt_nin tx))) @
     concat (map (output_image tag) (take (wt_nout tx) (wt_outputs tx))) @ concat (map (input_image tag) (take (wt_nin tx) (wt_inputs tx)))"

text \<open>A transaction with a body that the writer accepts at every level of checking.\<close>

definition body_ok :: "wtx \<Rightarrow> bool" where
  "body_ok tx \<longleftrightarrow> body_type (wt_tag_type tx) \<and> 0 < wt_nout tx \<and> wt_nout tx \<le> TX_MAXOUT \<and> 0 < wt_nin tx \<and> wt_nin tx \<le> TX_WIRE_MAXIN \<and>
     wt_nin_with_path tx = wt_nin tx \<and> length (wt_outputs tx) = TX_MAXOUT \<and> length (wt_inputs tx) = TX_WIRE_MAXIN \<and>
     list_all (output_ok tx) (take (wt_nout tx) (wt_outputs tx)) \<and> list_all (input_ok tx) (take (wt_nin tx) (wt_inputs tx)) \<and>
     unat (wt_param_level tx) < 2 ^ 40 \<and> length (wt_zkproof tx) = 288 \<and> unat (wt_zkkeyid tx) < 256 \<and> unat (wt_donation_fp tx) < 2 ^ 16 \<and>
     wt_default_domain tx = 0"

definition domains_tagged :: "u32 \<Rightarrow> wtx \<Rightarrow> bool" where
  "domains_tagged tag tx \<longleftrightarrow> tag = CC_TAG_TX_XDOMAIN \<or>
     list_all (\<lambda>t. wo_M_domain t = wt_default_domain tx) (take (wt_nout tx) (wt_outputs tx)) \<and>
     list_all (\<lambda>t. wi_M_domain t = wt_default_domain tx) (take (wt_nin tx) (wt_inputs tx))"

lemma map_nth_upt_take: "n \<le> length xs \<Longrightarrow> map (\<lambda>i. f (xs ! i)) [0..<n] = map f (take n xs)"
  by (rule nth_equalityI) auto

lemma writes_array:
  assumes "n \<le> length xs" "\<And>t. t \<in> set (take n xs) \<Longrightarrow> writes binsize (f t) (im t)"
  shows "writes binsize (array_each f xs [0..<n]) (concat (map im (take n xs)))"
proof -
  have "writes binsize (f (xs ! i)) (im (xs ! i))" if "i < n" for i
    using assms that by (intro assms(2)) (auto simp: in_set_conv_nth)
  then have "writes binsize (array_each f xs [0..<n]) (concat (map (\<lambda>i. im (xs ! i)) [0..<n]))"
    using assms(1) by (intro writes_each) auto
  then show ?thesis using assms(1) by (simp only: map_nth_upt_take)
qed

lemma put_inputs_with_path:
  assumes "\<And>i. i \<in> set is \<Longrightarrow> i < length xs \<and> wi_pathnum (xs ! i) \<noteq> 0"
  shows "array_each (\<lambda>txin (k, s). if (wi_pathnum txin \<noteq> 0) \<noteq> True then Inr (k, s)
      else bind_outcome (f txin s) (\<lambda>s. Inr (k + 1, s))) xs is (k, s) =
    bind_outcome (array_each f xs is s) (\<lambda>s. Inr (k + length is, s))"
  using assms
proof (induction "is" arbitrary: k s)
  case Nil
  then show ?case by simp
next
  case (Cons i js)
  then show ?case by (cases "f (xs ! i) s") simp_all
qed

lemma put_inputs_without_path:
  assumes "\<And>i. i \<in> set is \<Longrightarrow> i < length xs \<and> wi_pathnum (xs ! i) \<noteq> 0"
  shows "array_each (\<lambda>txin (k, s). if (wi_pathnum txin \<noteq> 0) \<noteq> False then Inr (k, s)
      else bind_outcome (f txin s) (\<lambda>s. Inr (k + 1, s))) xs is (k, s) = Inr (k, s)"
  using assms by (induction "is") auto

lemma writes_inputs:
  assumes "body_ok tx" "domains_tagged (wt_wire_tag tx) tx"
  shows "writes binsize (put_inputs tx err_check binsize True (wt_nin tx)) (concat (map (input_image (wt_wire_tag tx)) (take (wt_nin tx) (wt_inputs tx))))"
    "put_inputs tx err_check binsize False 0 = Inr"
proof -
  have n: "wt_nin tx \<le> length (wt_inputs tx)" using assms(1) by (auto simp: body_ok_def)
  have ok: "input_ok tx t \<and> (wt_wire_tag tx = CC_TAG_TX_XDOMAIN \<or> wi_M_domain t = wt_default_domain tx)"
    if "t \<in> set (take (wt_nin tx) (wt_inputs tx))" for t
    using assms that by (auto simp: body_ok_def domains_tagged_def list_all_iff)
  have p: "i < length (wt_inputs tx) \<and> wi_pathnum (wt_inputs tx ! i) \<noteq> 0" if "i \<in> set [0..<wt_nin tx]" for i
    using ok [of "wt_inputs tx ! i"] nth_mem [of i "take (wt_nin tx) (wt_inputs tx)"] that n by (auto simp: input_ok_def)
  show "put_inputs tx err_check binsize False 0 = Inr"
    by (rule ext) (simp only: put_inputs_def put_inputs_without_path [OF p] bind_outcome_Inr prod.case if_True refl)
  have "put_inputs tx err_check binsize True (wt_nin tx) =
      (\<lambda>s. bind_outcome (array_each (txpay_input_to_wire tx err_check binsize) (wt_inputs tx) [0..<wt_nin tx] s) Inr)"
    by (rule ext, simp only: put_inputs_def put_inputs_with_path [OF p]) (auto simp: bind_outcome_def split: sum.splits)
  moreover have "writes binsize (array_each (txpay_input_to_wire tx err_check binsize) (wt_inputs tx) [0..<wt_nin tx])
      (concat (map (input_image (wt_wire_tag tx)) (take (wt_nin tx) (wt_inputs tx))))"
    using n ok by (intro writes_array writes_input) auto
  ultimately show "writes binsize (put_inputs tx err_check binsize True (wt_nin tx))
      (concat (map (input_image (wt_wire_tag tx)) (take (wt_nin tx) (wt_inputs tx))))"
    using writes_bind [OF _ writes_skip] by fastforce
qed

lemma writes_body:
  assumes ok: "body_ok tx" and dt: "domains_tagged (wt_wire_tag tx) tx"
  shows "writes binsize (txpay_body_to_wire tx err_check binsize) (body_image (wt_wire_tag tx) tx)"
proof -
  have b: "body_type (wt_tag_type tx)" using ok by (simp add: body_ok_def)
  have n: "put_counts tx err_check binsize = put_word 1 (counts_byte (wt_nout tx) (wt_nin tx)) binsize"
    using ok by (auto simp: put_counts_def tx_check_def counts_byte_def body_ok_def TX_MAXOUT_def TX_WIRE_MAXIN_def Let_def)
  have o: "writes binsize (array_each (txpay_output_to_wire tx err_check binsize) (wt_outputs tx) [0..<wt_nout tx])
      (concat (map (output_image (wt_wire_tag tx)) (take (wt_nout tx) (wt_outputs tx))))"
    using ok dt b by (intro writes_array writes_output) (auto simp: body_ok_def domains_tagged_def list_all_iff)
  have z: "writes binsize (copy_to_bufl (take 287 (wt_zkproof tx)) binsize False) (take 287 (wt_zkproof tx))"
    by (rule writes_copy)
  have "txpay_body_to_wire tx err_check binsize = (\<lambda>s. bind_outcome (put_word 5 (wt_param_level tx) binsize s) (\<lambda>s.
      bind_outcome (copy_to_bufl (take 287 (wt_zkproof tx)) binsize False s) (\<lambda>s. bind_outcome (put_word 1 (wt_zkkeyid tx) binsize s) (\<lambda>s.
      bind_outcome (put_word 2 (wt_donation_fp tx) binsize s) (\<lambda>s.
      bind_outcome (put_word 1 (counts_byte (wt_nout tx) (wt_nin tx)) binsize s) (\<lambda>s.
      bind_outcome (array_each (txpay_output_to_wire tx err_check binsize) (wt_outputs tx) [0..<wt_nout tx] s)
        (put_inputs tx err_check binsize True (wt_nin tx))))))))"
    using ok body_not_mint [OF b]
    by (auto simp: txpay_body_to_wire_def tx_sizes ZKPROOF_WIRE_BYTES_def ZKPROOF_VALS_def n writes_inputs(2) [OF ok dt] body_ok_def
          bind_outcome_def split: sum.splits)
  then show ?thesis unfolding body_image_def
    by (simp only:) (intro writes_bind writes_word z o writes_inputs(1) [OF ok dt])
qed

lemma outputs_step:
  assumes "drop i (wt_outputs r) = replicate m clear_wtxout" "0 < m"
  shows "i < length (wt_outputs r)" "wt_outputs r ! i = clear_wtxout" "drop (Suc i) (wt_outputs r) = replicate (m - 1) clear_wtxout"
proof -
  have "length (drop i (wt_outputs r)) = m" by (simp add: assms(1))
  then show i: "i < length (wt_outputs r)" using assms(2) by simp
  show "wt_outputs r ! i = clear_wtxout" using assms i by (metis add.right_neutral nth_drop nth_replicate less_imp_le)
  show "drop (Suc i) (wt_outputs r) = replicate (m - 1) clear_wtxout"
    using assms(1) by (metis drop_Suc drop_replicate diff_Suc_1 drop_drop plus_1_eq_Suc)
qed

lemma inputs_step:
  assumes "drop i (wt_inputs r) = replicate m clear_wtxin" "0 < m"
  shows "i < length (wt_inputs r)" "wt_inputs r ! i = clear_wtxin" "drop (Suc i) (wt_inputs r) = replicate (m - 1) clear_wtxin"
proof -
  have "length (drop i (wt_inputs r)) = m" by (simp add: assms(1))
  then show i: "i < length (wt_inputs r)" using assms(2) by simp
  show "wt_inputs r ! i = clear_wtxin" using assms i by (metis add.right_neutral nth_drop nth_replicate less_imp_le)
  show "drop (Suc i) (wt_inputs r) = replicate (m - 1) clear_wtxin"
    using assms(1) by (metis drop_Suc drop_replicate diff_Suc_1 drop_drop plus_1_eq_Suc)
qed

lemma reread_update [simp]:
  "reread_output (r\<lparr>wt_outputs := x\<rparr>) = reread_output r" "reread_input (r\<lparr>wt_inputs := y\<rparr>) = reread_input r"
  by (simp_all add: fun_eq_iff reread_output_def read_output_def reread_input_def read_input_def)

lemma upt_step: "[i..<i + length (t # ts)] = i # [Suc i..<Suc i + length ts]"
  by (simp add: upt_conv_Cons del: upt_Suc)

lemma parses_outputs:
  assumes "body_type (wt_tag_type r)" "\<And>t. t \<in> set ts \<Longrightarrow> output_ok tx t \<and> domain_read r (wo_M_domain t)"
    and "drop i (wt_outputs r) = replicate m clear_wtxout" "length ts \<le> m"
  shows "parses buf binsize (get_outputs buf binsize [i..<i + length ts] r) (concat (map (output_image (wt_wire_tag r)) ts))
    (r\<lparr>wt_outputs := overwrite i (map (reread_output r) ts) (wt_outputs r)\<rparr>)"
  using assms
proof (induction ts arbitrary: i r m)
  case Nil
  have "get_outputs buf binsize [] r = (\<lambda>pos. Inr (r, pos))" by (rule ext) simp
  then show ?case by (simp add: parses_skip overwrite_def)
next
  case (Cons t ts)
  have m: "0 < m" using Cons.prems(4) by simp
  note st = outputs_step [OF Cons.prems(3) m]
  let ?u = "reread_output r t" and ?is = "[Suc i..<Suc i + length ts]"
  let ?r = "r\<lparr>wt_outputs := (wt_outputs r)[i := ?u]\<rparr>"
  have ov: "overwrite (Suc i) (map (reread_output r) ts) ((wt_outputs r)[i := ?u]) = overwrite i (map (reread_output r) (t # ts)) (wt_outputs r)"
    using st(1) by (simp add: overwrite_def take_Suc_conv_app_nth)
  have "parses buf binsize (get_outputs buf binsize ?is ?r) (concat (map (output_image (wt_wire_tag ?r)) ts))
      (?r\<lparr>wt_outputs := overwrite (Suc i) (map (reread_output ?r) ts) (wt_outputs ?r)\<rparr>)"
    using Cons.prems st by (intro Cons.IH [of ?r "Suc i" "m - 1"]) (auto simp: domain_read_def)
  then have rest: "parses buf binsize (get_outputs buf binsize ?is ?r) (concat (map (output_image (wt_wire_tag r)) ts))
      (r\<lparr>wt_outputs := overwrite i (map (reread_output r) (t # ts)) (wt_outputs r)\<rparr>)"
    using ov by (simp del: upt_Suc)
  have first: "parses buf binsize (txpay_output_from_wire r buf binsize clear_wtxout) (output_image (wt_wire_tag r) t) ?u"
    using Cons.prems by (intro parses_output) auto
  have na: "wo_no_address ?u = 0" by (simp add: reread_output_def read_output_def clear_wtxout_def)
  have "get_outputs buf binsize [i..<i + length (t # ts)] r = (\<lambda>pos.
      bind_outcome (txpay_output_from_wire r buf binsize clear_wtxout pos) (\<lambda>(u, pos).
        get_outputs buf binsize ?is (let r = r\<lparr>wt_outputs := (wt_outputs r)[i := u]\<rparr>
          in if wo_no_address u \<noteq> 0 \<and> wt_have_allow_restricted_addresses r = 0 then r\<lparr>wt_allow_restricted_addresses := 0\<rparr> else r) pos))"
    unfolding upt_step using st by (auto simp: Let_def simp del: upt_Suc)
  note eq = this
  show ?case unfolding eq list.map concat.simps
    by (rule parses_bind [OF first]) (use rest na in \<open>simp add: Let_def del: upt_Suc\<close>)
qed

lemma parses_inputs:
  assumes "\<And>t. t \<in> set ts \<Longrightarrow> input_ok tx t \<and> domain_read r (wi_M_domain t)"
    and "drop i (wt_inputs r) = replicate m clear_wtxin" "length ts \<le> m" "i + length ts \<le> wt_nin_with_path r" "i + length ts < 2 ^ 16"
  shows "parses buf binsize (get_inputs buf binsize [i..<i + length ts] r) (concat (map (input_image (wt_wire_tag r)) ts))
    (r\<lparr>wt_inputs := overwrite i (map (\<lambda>(j, t). reread_input r (of_nat (j + 1)) t) (enumerate i ts)) (wt_inputs r)\<rparr>)"
  using assms
proof (induction ts arbitrary: i r m)
  case Nil
  have "get_inputs buf binsize [] r = (\<lambda>pos. Inr (r, pos))" by (rule ext) simp
  then show ?case by (simp add: parses_skip overwrite_def)
next
  case (Cons t ts)
  have m: "0 < m" using Cons.prems(3) by simp
  note st = inputs_step [OF Cons.prems(2) m]
  let ?u = "reread_input r (of_nat (i + 1)) t" and ?is = "[Suc i..<Suc i + length ts]"
  let ?r = "r\<lparr>wt_inputs := (wt_inputs r)[i := ?u]\<rparr>"
  have ov: "overwrite (Suc i) (map (\<lambda>(j, t). reread_input r (of_nat (j + 1)) t) (enumerate (Suc i) ts)) ((wt_inputs r)[i := ?u]) =
      overwrite i (map (\<lambda>(j, t). reread_input r (of_nat (j + 1)) t) (enumerate i (t # ts))) (wt_inputs r)"
    using st(1) by (simp add: overwrite_def take_Suc_conv_app_nth)
  have "parses buf binsize (get_inputs buf binsize ?is ?r) (concat (map (input_image (wt_wire_tag ?r)) ts))
      (?r\<lparr>wt_inputs := overwrite (Suc i) (map (\<lambda>(j, t). reread_input ?r (of_nat (j + 1)) t) (enumerate (Suc i) ts)) (wt_inputs ?r)\<rparr>)"
    using Cons.prems st by (intro Cons.IH [of ?r "Suc i" "m - 1"]) (auto simp: domain_read_def)
  then have rest: "parses buf binsize (get_inputs buf binsize ?is ?r) (concat (map (input_image (wt_wire_tag r)) ts))
      (r\<lparr>wt_inputs := overwrite i (map (\<lambda>(j, t). reread_input r (of_nat (j + 1)) t) (enumerate i (t # ts))) (wt_inputs r)\<rparr>)"
    using ov by (simp del: upt_Suc)
  have "unat (of_nat (i + 1) :: u16) = i + 1" using Cons.prems(5) by (subst unat_of_nat) simp
  then have p: "of_nat (i + 1) \<noteq> (0 :: u16)" by auto
  have first: "parses buf binsize (txpay_input_from_wire r buf binsize (clear_wtxin\<lparr>wi_pathnum := of_nat (i + 1)\<rparr>))
      (input_image (wt_wire_tag r) t) ?u"
    using Cons.prems p by (intro parses_input) auto
  have "get_inputs buf binsize [i..<i + length (t # ts)] r = (\<lambda>pos.
      bind_outcome (txpay_input_from_wire r buf binsize (clear_wtxin\<lparr>wi_pathnum := of_nat (i + 1)\<rparr>) pos) (\<lambda>(u, pos).
        get_inputs buf binsize ?is (r\<lparr>wt_inputs := (wt_inputs r)[i := u]\<rparr>) pos))"
    unfolding upt_step using st Cons.prems(4) by (auto simp: Let_def simp del: upt_Suc)
  then show ?case using parses_bind [OF first, where cs = "concat (map (input_image (wt_wire_tag r)) ts)"] rest
    by (simp del: upt_Suc)
qed

lemma counts_all:
  "list_all (\<lambda>a. list_all (\<lambda>b. unat (drop_bit 4 (counts_byte (Suc a) (Suc b))) = a \<and> unat (counts_byte (Suc a) (Suc b) AND 15) = b) [0..<16]) [0..<16]"
  by code_simp

lemma counts_read:
  assumes "0 < nout" "nout \<le> 16" "0 < nin" "nin \<le> 16"
  shows "unat (drop_bit 4 (counts_byte nout nin)) + 1 = nout" "unat (counts_byte nout nin AND 15) + 1 = nin"
proof -
  have "unat (drop_bit 4 (counts_byte (Suc a) (Suc b))) = a \<and> unat (counts_byte (Suc a) (Suc b) AND 15) = b" if "a < 16" "b < 16" for a b
    using counts_all that unfolding list_all_iff by auto
  from this [of "nout - 1" "nin - 1"] assms
  show "unat (drop_bit 4 (counts_byte nout nin)) + 1 = nout" "unat (counts_byte nout nin AND 15) + 1 = nin" by simp_all
qed

lemma parses_counts:
  assumes "body_type (wt_tag_type r)" "0 < nout" "nout \<le> 16" "0 < nin" "nin \<le> 16"
  shows "parses buf binsize (\<lambda>pos. get_counts r buf binsize pos) (le_bytes 1 (unat (counts_byte nout nin)))
    (r\<lparr>wt_nout := nout, wt_nin_with_path := nin, wt_nin := nin\<rparr>)"
proof -
  let ?f = "\<lambda>bs. let nadj = (of_nat (le_val bs) :: u8); np = unat (nadj AND 15) + 1
          in r\<lparr>wt_nout := unat (drop_bit 4 nadj) + 1, wt_nin_with_path := np, wt_nin := np\<rparr>"
  have v: "(of_nat (le_val (le_bytes 1 (unat (counts_byte nout nin)) @ replicate 0 0)) :: u8) = counts_byte nout nin"
    by (simp only: le_val_pad) (simp add: mod_less [OF unat_byte_less])
  have "(\<lambda>pos. get_counts r buf binsize pos) = (\<lambda>pos. bind_outcome (get_bytes 1 1 buf binsize pos) (\<lambda>(bs, pos). Inr (?f bs, pos)))"
    using assms(1) by (auto simp: get_counts_def Let_def)
  then show ?thesis
    using parses_map [OF parses_bytes [of "le_bytes 1 (unat (counts_byte nout nin))" 1 1], of buf binsize ?f] counts_read [OF assms(2-5)] v
    by (simp add: Let_def)
qed

definition reread_head :: "wtx \<Rightarrow> wtx \<Rightarrow> wtx" where
  "reread_head r tx = r\<lparr>wt_param_level := wt_param_level tx, wt_zkproof := take 287 (wt_zkproof tx) @ [0], wt_zkkeyid := wt_zkkeyid tx,
     wt_donation_fp := wt_donation_fp tx, wt_nout := wt_nout tx, wt_nin_with_path := wt_nin tx, wt_nin := wt_nin tx,
     wt_allow_restricted_addresses := 1\<rparr>"

definition reread_body :: "wtx \<Rightarrow> wtx \<Rightarrow> wtx" where
  "reread_body r tx = (reread_head r tx)
     \<lparr>wt_outputs := overwrite 0 (map (reread_output r) (take (wt_nout tx) (wt_outputs tx))) (wt_outputs r),
      wt_inputs := overwrite 0 (map (\<lambda>(j, t). reread_input r (of_nat (j + 1)) t) (enumerate 0 (take (wt_nin tx) (wt_inputs tx)))) (wt_inputs r)\<rparr>"

lemma reread_head_simps [simp]:
  "reread_output (reread_head r tx) = reread_output r" "reread_input (reread_head r tx) = reread_input r"
  "domain_read (reread_head r tx) d = domain_read r d" "wt_wire_tag (reread_head r tx) = wt_wire_tag r"
  "wt_tag_type (reread_head r tx) = wt_tag_type r" "wt_outputs (reread_head r tx) = wt_outputs r" "wt_inputs (reread_head r tx) = wt_inputs r"
  "wt_nin_with_path (reread_head r tx) = wt_nin tx" "wt_nin (reread_head r tx) = wt_nin tx" "wt_nout (reread_head r tx) = wt_nout tx"
  "wt_default_domain (reread_head r tx) = wt_default_domain r"
  by (simp_all add: fun_eq_iff reread_head_def reread_output_def read_output_def reread_input_def read_input_def domain_read_def)

lemma parses_body_parts:
  assumes ok: "body_ok tx" and r: "wt_tag_type r = wt_tag_type tx" "wt_outputs r = replicate TX_MAXOUT clear_wtxout"
      "wt_inputs r = replicate TX_WIRE_MAXIN clear_wtxin"
    and dom: "\<And>t. t \<in> set (take (wt_nout tx) (wt_outputs tx)) \<Longrightarrow> domain_read r (wo_M_domain t)"
      "\<And>t. t \<in> set (take (wt_nin tx) (wt_inputs tx)) \<Longrightarrow> domain_read r (wi_M_domain t)"
  shows "parses buf binsize (\<lambda>pos. bind_outcome (get_outputs buf binsize [0..<wt_nout tx] (reread_head r tx) pos) (\<lambda>(r, pos).
      get_inputs buf binsize [0..<wt_nin r] r pos))
    (concat (map (output_image (wt_wire_tag r)) (take (wt_nout tx) (wt_outputs tx))) @
     concat (map (input_image (wt_wire_tag r)) (take (wt_nin tx) (wt_inputs tx)))) (reread_body r tx)"
proof -
  let ?os = "take (wt_nout tx) (wt_outputs tx)" and ?is = "take (wt_nin tx) (wt_inputs tx)" and ?h = "reread_head r tx"
  let ?r = "?h\<lparr>wt_outputs := overwrite 0 (map (reread_output r) ?os) (wt_outputs r)\<rparr>"
  have n: "length ?os = wt_nout tx" "length ?is = wt_nin tx" "wt_nout tx \<le> TX_MAXOUT" "wt_nin tx \<le> TX_WIRE_MAXIN"
    using ok by (auto simp: body_ok_def)
  have o: "parses buf binsize (get_outputs buf binsize [0..<0 + length ?os] ?h) (concat (map (output_image (wt_wire_tag ?h)) ?os))
      (?h\<lparr>wt_outputs := overwrite 0 (map (reread_output ?h) ?os) (wt_outputs ?h)\<rparr>)"
    using ok r dom(1) n by (intro parses_outputs [where tx = tx and m = TX_MAXOUT]) (auto simp: body_ok_def list_all_iff)
  have i: "parses buf binsize (get_inputs buf binsize [0..<0 + length ?is] ?r) (concat (map (input_image (wt_wire_tag ?r)) ?is))
      (?r\<lparr>wt_inputs := overwrite 0 (map (\<lambda>(j, t). reread_input ?r (of_nat (j + 1)) t) (enumerate 0 ?is)) (wt_inputs ?r)\<rparr>)"
    using ok r dom(2) n
    by (intro parses_inputs [where tx = tx and m = TX_WIRE_MAXIN]) (auto simp: body_ok_def list_all_iff TX_WIRE_MAXIN_def domain_read_def)
  have "reread_input ?r = reread_input r" by (simp add: fun_eq_iff reread_input_def read_input_def reread_head_def)
  then have e: "?r\<lparr>wt_inputs := overwrite 0 (map (\<lambda>(j, t). reread_input ?r (of_nat (j + 1)) t) (enumerate 0 ?is)) (wt_inputs ?r)\<rparr> = reread_body r tx"
    by (simp add: reread_body_def)
  show ?thesis
    by (rule parses_bind [where v = ?r]) (use o i n e in simp_all)
qed

lemma parses_body:
  assumes ok: "body_ok tx" and r: "wt_tag_type r = wt_tag_type tx" "wt_outputs r = replicate TX_MAXOUT clear_wtxout"
      "wt_inputs r = replicate TX_WIRE_MAXIN clear_wtxin" "wt_have_allow_restricted_addresses r = 0"
    and dom: "\<And>t. t \<in> set (take (wt_nout tx) (wt_outputs tx)) \<Longrightarrow> domain_read r (wo_M_domain t)"
      "\<And>t. t \<in> set (take (wt_nin tx) (wt_inputs tx)) \<Longrightarrow> domain_read r (wi_M_domain t)"
  shows "parses buf binsize (txpay_body_from_wire B r buf binsize) (body_image (wt_wire_tag r) tx) (reread_body r tx)"
proof -
  have b: "body_type (wt_tag_type r)" and nm: "wt_tag_type r \<noteq> CC_TYPE_MINT" using ok r body_not_mint by (auto simp: body_ok_def)
  have n: "0 < wt_nout tx" "wt_nout tx \<le> TX_MAXOUT" "0 < wt_nin tx" "wt_nin tx \<le> TX_WIRE_MAXIN" using ok by (auto simp: body_ok_def)
  let ?last = "\<lambda>(t, pos). if wt_tag_type t = CC_TYPE_MINT then bind_outcome (set_mint_inputs B t) (\<lambda>t. Inr (t, pos)) else Inr (t, pos)"
  let ?parts = "\<lambda>pos. bind_outcome (get_outputs buf binsize [0..<wt_nout tx] (reread_head r tx) pos) (\<lambda>(t, pos).
      bind_outcome (get_inputs buf binsize [0..<wt_nin t] t pos) ?last)"
  have "parses buf binsize (\<lambda>pos. bind_outcome (bind_outcome (get_outputs buf binsize [0..<wt_nout tx] (reread_head r tx) pos) (\<lambda>(t, pos).
      get_inputs buf binsize [0..<wt_nin t] t pos)) ?last)
      (concat (map (output_image (wt_wire_tag r)) (take (wt_nout tx) (wt_outputs tx))) @
       concat (map (input_image (wt_wire_tag r)) (take (wt_nin tx) (wt_inputs tx)))) (reread_body r tx)"
    using nm by (intro parses_then [OF parses_body_parts [OF ok r(1-3) dom]]) (simp_all add: reread_body_def)
  then have parts: "parses buf binsize ?parts
      (concat (map (output_image (wt_wire_tag r)) (take (wt_nout tx) (wt_outputs tx))) @
       concat (map (input_image (wt_wire_tag r)) (take (wt_nin tx) (wt_inputs tx)))) (reread_body r tx)"
    by (simp add: bind_outcome_assoc case_prod_beta' )
  have sz: "ZKPROOF_VALS * 32 = 288" "ZKPROOF_WIRE_BYTES = 287" by (simp_all add: ZKPROOF_WIRE_BYTES_def ZKPROOF_VALS_def)
  have z: "length (take 287 (wt_zkproof tx)) = 287" "unat (wt_zkkeyid tx) < 256 ^ 1" "unat (wt_donation_fp tx) < 256 ^ 2"
    "unat (wt_param_level tx) < 256 ^ 5"
    using ok by (simp_all add: body_ok_def)
  have c: "wt_nout tx \<le> 16" "wt_nin tx \<le> 16" using n by (simp_all add: TX_MAXOUT_def TX_WIRE_MAXIN_def)
  show ?thesis
    unfolding txpay_body_from_wire_def [abs_def] body_image_def tx_sizes sz
    apply (simp only: nm if_False)
    apply (rule parses_bind [OF parses_u64 [OF z(4)]], simp)
    apply (rule parses_bind [OF parses_bytes [OF z(1)]], simp)
    apply (rule parses_bind [OF parses_u16 [OF z(2)]], simp)
    apply (rule parses_bind [OF parses_u64 [OF z(3)]], simp)
    apply (rule parses_bind [OF parses_counts [OF _ n(1) c(1) n(3) c(2)]], simp add: b)
    using parts n r(4) by (simp add: reread_head_def TX_MAXOUT_def TX_WIRE_MAXIN_def TX_MAXINPATH_def Let_def)
qed

end
