(* ===== verification/Tx_Message.thy ===== *)
theory Tx_Message
  imports Tx_Wire_Props
begin

text \<open>
  Messages with a transaction: a transaction that the writer accepts is read back with every field that is on
  the wire, and what the reader does with data appended to a message.
\<close>

section \<open>The message\<close>

text \<open>A transaction with a body, and data appended to it if its type takes any.\<close>

definition message_ok :: "wtx \<Rightarrow> bool" where
  "message_ok tx \<longleftrightarrow> body_ok tx \<and> \<not> TypeHasBareMsg (wt_tag_type tx) \<and> (wt_append_data_length tx = 0 \<or> TypeIsXtx (wt_tag_type tx)) \<and>
     unat (wt_append_data_length tx) \<le> TX_MAX_APPEND \<and> length (wt_append_data tx) = TX_MAX_APPEND"

definition append_image :: "wtx \<Rightarrow> byte list" where
  "append_image tx = take (unat (wt_append_data_length tx)) (wt_append_data tx)"

definition message_image :: "u32 \<Rightarrow> wtx \<Rightarrow> nat \<Rightarrow> byte list" where
  "message_image tag tx n = le_bytes 4 n @ le_bytes 4 (unat tag) @ replicate 48 0 @ body_image tag tx @ append_image tx"

text \<open>The size of the largest message: ten outputs of 60 bytes, eight inputs of 51 and 512 bytes of appended data.\<close>

definition TX_WIRE_LARGEST :: nat where "TX_WIRE_LARGEST = 56 + 296 + 10 * 60 + 8 * 51 + 512"

lemma sum_list_bound: "(\<And>x. x \<in> set xs \<Longrightarrow> f x \<le> (k :: nat)) \<Longrightarrow> sum_list (map f xs) \<le> length xs * k"
  by (induction xs) (auto intro: add_mono)

lemma length_message_image:
  assumes "message_ok tx"
  shows "length (message_image tag tx n) \<le> TX_WIRE_LARGEST"
proof -
  have d: "length (domain_image tag x) \<le> 3" for x by (simp add: domain_image_def)
  have "length (output_image tag t) \<le> 60" for t using d [of "wo_M_domain t"] by (simp add: output_image_def)
  then have "sum_list (map (length \<circ> output_image tag) (take (wt_nout tx) (wt_outputs tx))) \<le> length (take (wt_nout tx) (wt_outputs tx)) * 60"
    by (intro sum_list_bound) simp
  also have "\<dots> \<le> 10 * 60" using assms by (auto simp: message_ok_def body_ok_def TX_MAXOUT_def)
  finally have o: "length (concat (map (output_image tag) (take (wt_nout tx) (wt_outputs tx)))) \<le> 600" by (simp add: length_concat)
  have "length (input_image tag t) \<le> 51" for t using d [of "wi_M_domain t"] by (simp add: input_image_def)
  then have "sum_list (map (length \<circ> input_image tag) (take (wt_nin tx) (wt_inputs tx))) \<le> length (take (wt_nin tx) (wt_inputs tx)) * 51"
    by (intro sum_list_bound) simp
  also have "\<dots> \<le> 8 * 51" using assms by (auto simp: message_ok_def body_ok_def TX_WIRE_MAXIN_def)
  finally have i: "length (concat (map (input_image tag) (take (wt_nin tx) (wt_inputs tx)))) \<le> 408" by (simp add: length_concat)
  have a: "length (append_image tx) \<le> 512" using assms by (simp add: append_image_def message_ok_def TX_MAX_APPEND_def)
  have b: "length (body_image tag tx) \<le> 296 + (600 + 408)" using o i by (simp add: body_image_def)
  show ?thesis using a b by (simp add: message_image_def TX_WIRE_LARGEST_def)
qed

text \<open>The reader can tell the domains of a message with this tag.\<close>

definition domains_read :: "u32 \<Rightarrow> wtx \<Rightarrow> bool" where
  "domains_read tag tx \<longleftrightarrow> list_all (\<lambda>t. domain_read (tx_init\<lparr>wt_wire_tag := tag\<rparr>) (wo_M_domain t)) (take (wt_nout tx) (wt_outputs tx)) \<and>
     list_all (\<lambda>t. domain_read (tx_init\<lparr>wt_wire_tag := tag\<rparr>) (wi_M_domain t)) (take (wt_nin tx) (wt_inputs tx))"

lemma choose_tag_ok:
  assumes "body_ok tx"
  obtains tag where "choose_tag tx = Inr tag" "domains_tagged tag tx" "ObjType tag = wt_tag_type tx" "HasPOW tag" "WireTag tag = tag"
    "domains_read tag tx"
proof -
  let ?t = "TypeToWireTag (wt_tag_type tx)"
  have b: "body_type (wt_tag_type tx)" and dd: "wt_default_domain tx = 0" using assms by (auto simp: body_ok_def)
  have t: "?t \<noteq> 0" "?t \<noteq> CC_TAG_BLOCK" "?t \<noteq> CC_TAG_TX_XDOMAIN" "?t = CC_TAG_TX \<longleftrightarrow> wt_tag_type tx = CC_TYPE_TXPAY" "wt_tag_type tx \<noteq> CC_TYPE_BLOCK"
    using b by (auto simp: body_type_def TypeToWireTag_def cc_tags cc_types)
  have len: "\<not> length (wt_outputs tx) < wt_nout tx" "\<not> length (wt_inputs tx) < wt_nin tx" using assms by (auto simp: body_ok_def)
  obtain tag where tag: "choose_tag tx = Inr tag" using t len by (auto simp: choose_tag_def Let_def)
  have x: "tag = CC_TAG_TX_XDOMAIN \<and> wt_tag_type tx = CC_TYPE_TXPAY \<or> tag = ?t"
    using tag t len by (auto simp: choose_tag_def Let_def split: if_splits)
  have o: "domain_ok tx (wo_M_domain t)" if "t \<in> set (take (wt_nout tx) (wt_outputs tx))" for t
    using assms that by (auto simp: body_ok_def list_all_iff output_ok_def)
  have i: "domain_ok tx (wi_M_domain t)" if "t \<in> set (take (wt_nin tx) (wt_inputs tx))" for t
    using assms that by (auto simp: body_ok_def list_all_iff input_ok_def)
  have d: "domains_tagged tag tx"
    using tag t len o i unfolding choose_tag_def Let_def domains_tagged_def list_all_iff list_ex_iff domain_ok_def
    by (auto split: if_splits)
  show thesis
  proof (rule that [OF tag d])
    show "ObjType tag = wt_tag_type tx" "HasPOW tag" "WireTag tag = tag"
      using x ObjType_TypeToWireTag(1,3) [OF t(1)] HasPOW_wire(1) [OF t(1) t(5)]
      by (auto simp: ObjType_def WireTag_def HasPOW_def cc_tags)
    show "domains_read tag tx"
      using o i d dd by (auto simp: domains_read_def domain_read_def domain_ok_def domains_tagged_def list_all_iff tx_init_def)
  qed
qed

section \<open>Writing a message\<close>

lemma unat_u32_less: "unat (w :: u32) < 2 ^ 32"
  using unsigned_less [of w] by simp

lemma unat_small: "n < 2 ^ 32 \<Longrightarrow> unat (of_nat n :: u32) = n"
  by (simp add: unat_of_nat)

lemma room_mono: "room binsize s n \<Longrightarrow> m \<le> n \<Longrightarrow> room binsize s m"
  by (simp add: room_def)

lemma writes_at:
  assumes "writes binsize f bs" "room binsize s n" "length xs + length bs \<le> n"
  shows "f (advance xs s) = Inr (advance (xs @ bs) s)"
proof -
  have r: "room binsize s (length xs + length bs)" using room_mono [OF assms(2,3)] .
  then show ?thesis
    using assms(1) room_advance(1) [OF r] advance_advance [OF r] by (simp add: writes_def)
qed

lemma put_append_at:
  assumes "unat (wt_append_data_length tx) \<le> length (wt_append_data tx)" "room binsize s n" "length xs + length (append_image tx) \<le> n"
  shows "\<exists>tx'. put_append tx binsize (advance xs s) = Inr (tx', advance (xs @ append_image tx) s)"
proof (cases "wt_append_data_length tx = 0")
  case True
  then show ?thesis by (simp add: put_append_def append_image_def)
next
  case False
  have "\<not> length (wt_append_data tx) < unat (wt_append_data_length tx)" using assms(1) by simp
  then show ?thesis
    using False writes_at [OF writes_copy [of binsize "append_image tx"] assms(2,3)] by (simp add: put_append_def append_image_def Let_def)
qed

lemma advance_start: "advance bs \<lparr>bufpos = 0, mem = buf\<rparr> = \<lparr>bufpos = of_nat (length bs), mem = bs @ drop (length bs) buf\<rparr>"
  by (simp add: advance_def overwrite_def)

lemma choose_tag_update: "body_ok (tx\<lparr>wt_wire_tag := t\<rparr>) = body_ok tx" "domains_tagged tag (tx\<lparr>wt_wire_tag := t\<rparr>) = domains_tagged tag tx"
    "body_image tag (tx\<lparr>wt_wire_tag := t\<rparr>) = body_image tag tx" "append_image (tx\<lparr>wt_wire_tag := t\<rparr>) = append_image tx"
proof -
  have "output_ok (tx\<lparr>wt_wire_tag := t\<rparr>) = output_ok tx" "input_ok (tx\<lparr>wt_wire_tag := t\<rparr>) = input_ok tx"
    by (simp_all add: fun_eq_iff output_ok_def input_ok_def domain_ok_def)
  then show "body_ok (tx\<lparr>wt_wire_tag := t\<rparr>) = body_ok tx" by (simp add: body_ok_def)
qed (simp_all add: domains_tagged_def body_image_def append_image_def)

lemma message_body:
  assumes "HasPOW tag" "n = length (message_image tag tx 0)" "n < 2 ^ 32"
  shows "obj_tag (message_object (message_image tag tx n @ rest)) = tag"
    "unat (BodySize (message_object (message_image tag tx n @ rest))) = length (body_image tag tx @ append_image tx)"
    "BodyPtr (message_object (message_image tag tx n @ rest)) = body_image tag tx @ append_image tx @ rest"
proof -
  let ?b = "body_image tag tx @ append_image tx" and ?x = "message_object (message_image tag tx n @ rest)"
  have n: "n = 56 + length ?b" using assms(2) by (simp add: message_image_def)
  have v: "le_val (le_bytes 4 n) = n" "le_val (le_bytes 4 (unat tag)) = unat tag"
    using assms(3) unat_u32_less [of tag] by (simp_all add: le_val_bytes_small)
  then have o: "?x = \<lparr>obj_size = of_nat n, obj_tag = tag, obj_data = replicate 48 0 @ ?b @ rest\<rparr>"
    by (simp add: message_object_def message_image_def)
  have d: "\<not> (of_nat n :: u32) < 8" "(of_nat n :: u32) - 8 - 48 = of_nat (length ?b)"
    using n unat_small [OF assms(3)] by (simp_all add: word_less_nat_alt)
  show "obj_tag ?x = tag" by (simp add: o)
  have "BodySize ?x = of_nat (length ?b)" using assms(1) d by (simp add: o BodySize_def DataSize_def TX_POW_SIZE_def)
  then show "unat (BodySize ?x) = length ?b" using n assms(3) by (subst unat_small [symmetric]) simp_all
  show "BodyPtr ?x = body_image tag tx @ append_image tx @ rest" using assms(1) by (simp add: o BodyPtr_def TX_POW_SIZE_def)
qed

lemma message_objid:
  assumes "HasPOW tag" "n = length (message_image tag tx 0)" "n < 2 ^ 32"
  shows "ComputeMessageObjId blake2b (message_image tag tx n @ rest) =
    Inr (blake2b (le_bytes 4 (unat tag)) (body_image tag tx @ append_image tx))"
  using message_body [OF assms, of rest] HasPOW_not_block [OF assms(1)] by (simp add: ComputeMessageObjId_def ComputeObjId_def)

text \<open>The parameter level found at the start of the body of a message is that of the transaction.\<close>

lemma param_level_of_message:
  assumes ok: "message_ok tx" and "HasPOW tag" "ObjType tag = wt_tag_type tx" "n = length (message_image tag tx 0)" "n < 2 ^ 32"
  shows "txpay_param_level_from_wire (message_object (message_image tag tx n @ rest)) = Inr (wt_param_level tx)"
proof -
  let ?x = "message_object (message_image tag tx n @ rest)"
  note m = message_body [OF assms(2,4,5), of rest]
  have b: "body_type (wt_tag_type tx)" "\<not> TypeHasBareMsg (wt_tag_type tx)" "unat (wt_param_level tx) < 256 ^ 5"
    using ok by (simp_all add: message_ok_def body_ok_def)
  obtain ys where ys: "body_image tag tx = le_bytes 5 (unat (wt_param_level tx)) @ ys" "3 \<le> length ys"
    using ok by (auto simp: body_image_def message_ok_def body_ok_def)
  have s: "unat (BodySize ?x) \<le> TX_MAX_SIZE" "5 \<le> unat (BodySize ?x)"
    using m(2) ys length_message_image [OF ok, of tag 0] by (simp_all add: message_image_def TX_WIRE_LARGEST_def TX_MAX_SIZE_def)
  then have v: "IsValid ?x" "\<not> BodySize ?x < of_nat TX_BLOCKLEVEL_BYTES"
    using b(1) assms(3) m(1)
    by (auto simp: IsValid_def Let_def body_type_def cc_types word_le_nat_alt word_less_nat_alt TX_MAX_SIZE_def TX_BLOCKLEVEL_BYTES_def)
  let ?v = "le_val (take 8 (BodyPtr ?x))"
  have l: "?v mod 2 ^ 40 = unat (wt_param_level tx)"
    using m(3) ys b(3) by (simp add: le_val_append le_val_bytes)
  have "(of_nat ?v :: u64) AND (2 ^ 40 - 1) = take_bit 40 (of_nat ?v)" by (simp add: take_bit_eq_mask mask_eq_exp_minus_1)
  also have "\<dots> = of_nat (take_bit 40 ?v)" by (simp add: take_bit_of_nat)
  also have "\<dots> = wt_param_level tx" using l by (simp add: take_bit_eq_mod)
  finally show ?thesis
    using v b(2) assms(3) m(1,3) ys by (simp add: txpay_param_level_from_wire_def TX_BLOCKLEVEL_BYTES_def push_bit_eq_mult)
qed

lemma writes_message:
  assumes ok: "message_ok tx" and tag: "choose_tag tx = Inr tag" "domains_tagged tag tx" "HasPOW tag"
    and size: "unat binsize \<le> length buf" "TX_WIRE_LARGEST \<le> unat binsize"
  shows "\<exists>tx' s. txpay_to_wire blake2b tx err_check buf binsize = Inr (tx', s) \<and>
    mem s = message_image tag tx (unat (bufpos s)) @ drop (unat (bufpos s)) buf \<and> unat (bufpos s) = length (message_image tag tx 0)"
proof -
  let ?tx = "tx\<lparr>wt_wire_tag := tag\<rparr>" and ?s = "\<lparr>bufpos = 0, mem = buf\<rparr>"
  let ?h = "le_bytes 4 4 @ le_bytes 4 (unat tag)" let ?p = "?h @ replicate 48 0" let ?b = "?p @ body_image tag tx" let ?a = "?b @ append_image tx"
  have la: "length ?a \<le> unat binsize" "length ?a = length (message_image tag tx 0)"
    using length_message_image [OF ok, of tag 0] size by (simp_all add: message_image_def)
  have room: "room binsize ?s (length ?a)" using la size by (simp add: room_def buf_sound_def)
  have "copy_to_bufl (le_bytes 4 4) binsize False ?s = Inr (advance (le_bytes 4 4) ?s)"
    using writes_copy [of binsize "le_bytes 4 4"] room_mono [OF room, of 4] by (simp add: writes_def)
  moreover have "put_word 4 tag binsize (advance (le_bytes 4 4) ?s) = Inr (advance ?h ?s)"
    by (rule writes_at [OF writes_word room]) simp
  moreover have "bufpos (advance ?h ?s) = 8" by (simp add: advance_start)
  moreover have "copy_to_bufl (replicate TX_POW_SIZE 0) binsize False (advance ?h ?s) = Inr (advance (?h @ replicate TX_POW_SIZE 0) ?s)"
    by (rule writes_at [OF writes_copy room]) (simp add: TX_POW_SIZE_def)
  moreover have "txpay_body_to_wire ?tx err_check binsize (advance ?p ?s) = Inr (advance (?p @ body_image tag tx) ?s)"
    using writes_body [of ?tx binsize err_check] ok tag(2)
    by (intro writes_at [OF _ room]) (simp_all add: choose_tag_update message_ok_def)
  moreover obtain tx' where "put_append ?tx binsize (advance ?b ?s) = Inr (tx', advance ?a ?s)"
    using put_append_at [of ?tx binsize ?s "length ?a" ?b] ok room by (auto simp: choose_tag_update message_ok_def)
  moreover have u: "unat (of_nat (length ?a) :: u32) = length ?a"
    using la(1) unat_u32_less [of binsize] by (intro unat_small) simp
  moreover have "\<not> binsize < bufpos (advance ?a ?s)" using la(1) u by (simp add: advance_start word_less_nat_alt)
  moreover have "overwrite 0 (le_bytes 4 (length ?a)) (?a @ drop (length ?a) buf) = message_image tag tx (length ?a) @ drop (length ?a) buf"
    by (simp add: overwrite_def message_image_def)
  moreover obtain i where "ComputeMessageObjId blake2b (message_image tag tx (length ?a) @ drop (length ?a) buf) = Inr i"
    using message_objid [OF tag(3), where n = "length ?a" and tx = tx] la unat_u32_less [of binsize] by force
  ultimately show ?thesis
    using tag(1) ok la(2) by (simp add: txpay_to_wire_def Let_def message_ok_def TX_POW_SIZE_def advance_start)
qed

section \<open>Reading a message\<close>

text \<open>What is on the wire of an output, of an input and of a transaction.\<close>

definition output_view :: "wtxout \<Rightarrow> bigint \<times> u32 \<times> u64 \<times> u64 \<times> bigint" where
  "output_view t = (wo_M_address t, wo_M_domain t, wo_M_asset_enc t, wo_M_amount_enc t, wo_M_commitment t)"

definition input_view :: "wtxin \<Rightarrow> u32 \<times> bigint \<times> bigint" where
  "input_view t = (wi_M_domain t, wi_S_serialnum t, wi_S_hashkey t)"

definition body_view :: "wtx \<Rightarrow> nat \<times> u64 \<times> byte list \<times> u16 \<times> u64 \<times> (bigint \<times> u32 \<times> u64 \<times> u64 \<times> bigint) list \<times> (u32 \<times> bigint \<times> bigint) list" where
  "body_view tx = (wt_tag_type tx, wt_param_level tx, take ZKPROOF_WIRE_BYTES (wt_zkproof tx), wt_zkkeyid tx, wt_donation_fp tx,
     map output_view (take (wt_nout tx) (wt_outputs tx)), map input_view (take (wt_nin tx) (wt_inputs tx)))"

definition append_view :: "wtx \<Rightarrow> byte list" where
  "append_view tx = take (unat (wt_append_data_length tx)) (wt_append_data tx)"

lemma body_view_reread:
  assumes "body_ok tx" "wt_tag_type r = wt_tag_type tx" "wt_outputs r = replicate TX_MAXOUT clear_wtxout"
    "wt_inputs r = replicate TX_WIRE_MAXIN clear_wtxin"
  shows "body_view (reread_body r tx) = body_view tx"
proof -
  have n: "length (take (wt_nout tx) (wt_outputs tx)) = wt_nout tx" "length (take (wt_nin tx) (wt_inputs tx)) = wt_nin tx"
    using assms(1) by (auto simp: body_ok_def)
  have o: "output_view (reread_output r t) = output_view t" for t
    by (simp add: output_view_def reread_output_def read_output_def)
  have i: "input_view (reread_input r p t) = input_view t" for p t
    by (simp add: input_view_def reread_input_def read_input_def)
  have e: "map (\<lambda>x. input_view (snd x)) (enumerate k xs) = map input_view xs" for k xs
    by (induction xs arbitrary: k) auto
  have z: "take ZKPROOF_WIRE_BYTES (take 287 (wt_zkproof tx) @ [0]) = take ZKPROOF_WIRE_BYTES (wt_zkproof tx)"
    using assms(1) by (simp add: ZKPROOF_WIRE_BYTES_def ZKPROOF_VALS_def body_ok_def)
  show ?thesis
    using n assms(2-4) z
    by (simp add: body_view_def reread_body_def overwrite_def o i e case_prod_beta' comp_def)
       (simp add: reread_head_def)
qed

lemma parses_at:
  assumes "parses buf binsize g bs v" "buf_rest buf binsize pos (bs @ rest)"
  shows "g pos = Inr (v, pos + of_nat (length bs))"
  using assms by (auto simp: parses_def)

lemma get_append_view:
  assumes "message_ok tx" "wt_tag_type r = wt_tag_type tx" "wt_append_data_length r = 0"
    "buf_rest buf binsize pos (append_image tx @ rest)" "wiresize = pos + of_nat (length (append_image tx))"
  shows "\<exists>r' pos'. get_append hash r buf binsize wiresize pos = Inr (r', pos') \<and> pos' \<le> binsize \<and>
    body_view r' = body_view r \<and> append_view r' = append_view tx"
proof (cases "wt_append_data_length tx = 0")
  case True
  then have "wiresize = pos" "append_image tx = []" using assms(5) by (simp_all add: append_image_def)
  then show ?thesis
    using assms(3,4) True by (simp add: get_append_def append_view_def buf_rest_def word_le_nat_alt)
next
  case False
  have len: "length (append_image tx) = unat (wt_append_data_length tx)" "length (append_image tx) \<le> TX_MAX_APPEND"
    using assms(1) by (auto simp: append_image_def message_ok_def)
  have w: "wiresize - pos = wt_append_data_length tx" using assms(5) len by simp
  have x: "TypeIsXtx (wt_tag_type r)" using assms(1,2) False by (simp add: message_ok_def)
  have g: "get_bytes TX_MAX_APPEND (unat (wt_append_data_length tx)) buf binsize pos =
      Inr (append_image tx @ replicate (TX_MAX_APPEND - unat (wt_append_data_length tx)) 0, pos + of_nat (length (append_image tx)))"
    using len by (intro parses_at [OF parses_bytes assms(4)]) simp_all
  have "unat (pos + of_nat (length (append_image tx))) \<le> unat binsize" using buf_rest_fits(1,2) [OF assms(4)] by simp
  moreover have av: "append_view tx = append_image tx" by (simp add: append_image_def append_view_def)
  ultimately show ?thesis
    unfolding av using False w x g len by (simp add: get_append_def Let_def word_le_nat_alt append_view_def body_view_def)
qed

lemma reads_message:
  assumes ok: "message_ok tx" and tag: "ObjType tag = wt_tag_type tx" "HasPOW tag" "WireTag tag = tag"
    and dom: "domains_read tag tx"
    and buf: "buf_rest buf binsize 0 (message_image tag tx n @ rest)" and n: "n = length (message_image tag tx 0)"
  shows "\<exists>r. tx_from_wire B hash buf binsize = Inr r \<and> body_view r = body_view tx \<and> append_view r = append_view tx"
proof -
  let ?r = "tx_init\<lparr>wt_tag_type := wt_tag_type tx, wt_tx_type := wt_tag_type tx, wt_wire_tag := tag\<rparr>"
  let ?e = "append_image tx @ rest"
  have r: "wt_tag_type ?r = wt_tag_type tx" "wt_outputs ?r = replicate TX_MAXOUT clear_wtxout" "wt_inputs ?r = replicate TX_WIRE_MAXIN clear_wtxin"
    "wt_have_allow_restricted_addresses ?r = 0" "wt_wire_tag ?r = tag" "wt_default_domain ?r = 0" "wt_append_data_length ?r = 0"
    by (simp_all add: tx_init_def)
  have b: "body_ok tx" "\<not> TypeHasBareMsg (wt_tag_type tx)" "body_type (wt_tag_type tx)" using ok by (auto simp: message_ok_def body_ok_def)
  have nt: "wt_tag_type tx \<noteq> CC_TYPE_VOID" "wt_tag_type tx \<noteq> CC_TYPE_BLOCK" using b(3) by (auto simp: body_type_def cc_types)
  have p0: "buf_rest buf binsize 0 (le_bytes 4 n @ le_bytes 4 (unat tag) @ replicate 48 0 @ body_image tag tx @ ?e)"
    using buf by (simp add: message_image_def)
  have p4: "buf_rest buf binsize 4 (le_bytes 4 (unat tag) @ replicate 48 0 @ body_image tag tx @ ?e)" using buf_rest_step [OF p0] by simp
  have p8: "buf_rest buf binsize 8 (replicate 48 0 @ body_image tag tx @ ?e)" using buf_rest_step [OF p4] by simp
  have p56: "buf_rest buf binsize 56 (body_image tag tx @ ?e)" using buf_rest_step [OF p8] by simp
  note pa = buf_rest_step [OF p56]
  have le: "n \<le> unat binsize" using buf_rest_fits(1) [OF buf] n by (simp add: message_image_def)
  then have u: "unat (of_nat n :: u32) = n" using unat_u32_less [of binsize] by (intro unat_small) simp
  have w: "get_u32 4 buf binsize 0 = Inr (of_nat n, 4)"
    using parses_at [OF parses_u32 [of "of_nat n" 4]] p0 u unat_u32_less [of "of_nat n"] by fastforce
  have t: "get_u32 4 buf binsize 4 = Inr (tag, 8)"
    using parses_at [OF parses_u32 [of tag 4] p4] unat_u32_less [of tag] by simp
  have "parses buf binsize (txpay_body_from_wire B ?r buf binsize) (body_image (wt_wire_tag ?r) tx) (reread_body ?r tx)"
    using dom by (intro parses_body [OF b(1) r(1-4)]) (auto simp: domains_read_def domain_read_def list_all_iff tx_init_def)
  then have body: "parses buf binsize (txpay_body_from_wire B ?r buf binsize) (body_image tag tx) (reread_body ?r tx)" by (simp only: r(5))
  have y: "txpay_body_from_wire B ?r buf binsize 56 = Inr (reread_body ?r tx, 56 + of_nat (length (body_image tag tx)))"
    using parses_at [OF body p56] .
  have s: "of_nat n = 56 + of_nat (length (body_image tag tx)) + (of_nat (length (append_image tx)) :: u32)"
    by (simp add: n message_image_def add.assoc)
  obtain r' pos' where a: "get_append hash (reread_body ?r tx) buf binsize (of_nat n) (56 + of_nat (length (body_image tag tx))) = Inr (r', pos')"
      "pos' \<le> binsize" "body_view r' = body_view (reread_body ?r tx)" "append_view r' = append_view tx"
    using get_append_view [OF ok _ _ pa s, of "reread_body ?r tx" hash] by (auto simp: reread_body_def reread_head_def tx_init_def)
  have "\<not> binsize < of_nat n" "\<not> binsize < pos'" using le u a(2) by (simp_all add: word_less_nat_alt word_le_nat_alt)
  then have "tx_from_wire B hash buf binsize = Inr r'"
    using w t y a(1) nt b(2) tag by (simp add: tx_from_wire_def tx_add_from_wire_def TX_POW_SIZE_def Let_def)
  with a body_view_reread [OF b(1) r(1-3)] show ?thesis by auto
qed


text \<open>A payment with an output and an input in different domains.\<close>

definition sample_output :: wtxout where
  "sample_output = clear_wtxout\<lparr>wo_asset_mask := TX_ASSET_WIRE_MASK, wo_amount_mask := TX_AMOUNT_MASK, wo_M_domain := 7,
     wo_M_address := big_of_nat 11, wo_M_amount_enc := 1000, wo_M_commitment := big_of_nat 12\<rparr>"

definition sample_input :: wtxin where
  "sample_input = clear_wtxin\<lparr>wi_enforce_trust_secrets := 1, wi_pathnum := 1, wi_S_serialnum := big_of_nat 13, wi_S_hashkey := big_of_nat 14\<rparr>"

definition sample_tx :: wtx where
  "sample_tx = tx_init\<lparr>wt_tag_type := CC_TYPE_TXPAY, wt_param_level := 5, wt_nout := 1, wt_nin := 1, wt_nin_with_path := 1,
     wt_outputs := sample_output # replicate 9 clear_wtxout, wt_inputs := sample_input # replicate 7 clear_wtxin\<rparr>"

lemma sample_tx_ok: "message_ok sample_tx"
  by (simp add: message_ok_def body_ok_def body_type_def output_ok_def input_ok_def domain_ok_def sample_tx_def sample_output_def sample_input_def
      tx_init_def clear_wtxout_def clear_wtxin_def TX_MAXOUT_def TX_WIRE_MAXIN_def TX_MAX_APPEND_def ZKPROOF_VALS_def cc_types
      TypeHasBareMsg_def CC_TYPE_XCX_ACCEPT_def CC_TYPE_XCX_CANCEL_def bval_big_of_nat big_true_iff)


section \<open>Messages without a body\<close>

lemma get_bytes_long:
  assumes "sz < n" "unat pos + n \<le> unat binsize"
  shows "get_bytes sz n buf binsize pos = Inl OutOfBounds"
proof -
  have "unat (pos + of_nat n) = unat pos + n" using assms(2) unat_u32_less [of binsize] by (intro unat_add_of_nat_32) simp
  then show ?thesis using assms by (simp add: get_bytes_def copy_from_bufl_def Let_def word_le_nat_alt)
qed

lemma bare_types:
  assumes "TypeHasBareMsg (ObjType tag)"
  shows "ObjType tag \<noteq> CC_TYPE_VOID" "ObjType tag \<noteq> CC_TYPE_BLOCK" "TypeIsXtx (ObjType tag)"
  using assms unfolding ObjType_def TypeHasBareMsg_def TypeIsXtx_def Let_def
  by (auto simp: cc_types CC_TYPE_XCX_ACCEPT_def CC_TYPE_XCX_CANCEL_def CC_TYPE_XCX_MINING_SELL_def split: if_splits)

text \<open>Up to the appended data, a message without a body is read as a header.\<close>

lemma bare_read:
  assumes "TypeHasBareMsg (ObjType tag)" "HasPOW tag" "length pow = TX_POW_SIZE"
    and "buf = le_bytes 4 (56 + length data) @ le_bytes 4 (unat tag) @ pow @ data" and "length buf = unat binsize"
  defines "r \<equiv> tx_init\<lparr>wt_tag_type := ObjType tag, wt_tx_type := ObjType tag, wt_wire_tag := WireTag tag\<rparr>"
  shows "tx_from_wire B hash buf binsize =
      bind_outcome (get_append hash r buf binsize binsize 56) (\<lambda>(tx, pos). if pos > binsize then Inl (WireError 1) else Inr tx)"
    "buf_rest buf binsize 56 (data @ [])" "56 + length data = unat binsize"
proof -
  show n: "56 + length data = unat binsize" using assms(3-5) by (simp add: TX_POW_SIZE_def)
  have p0: "buf_rest buf binsize 0 (le_bytes 4 (unat binsize) @ le_bytes 4 (unat tag) @ pow @ data)"
    using assms(4,5) n by (simp add: buf_rest_def)
  have p4: "buf_rest buf binsize 4 (le_bytes 4 (unat tag) @ pow @ data)" using buf_rest_step [OF p0] by simp
  have p8: "buf_rest buf binsize 8 (pow @ data)" using buf_rest_step [OF p4] by simp
  show "buf_rest buf binsize 56 (data @ [])" using buf_rest_step [OF p8] assms(3) by (simp add: TX_POW_SIZE_def)
  have g: "get_u32 4 buf binsize 0 = Inr (binsize, 4)" "get_u32 4 buf binsize 4 = Inr (tag, 8)"
    using parses_at [OF parses_u32 [of binsize 4] p0] parses_at [OF parses_u32 [of tag 4] p4] unat_u32_less [of tag] unat_u32_less [of binsize]
    by simp_all
  show "tx_from_wire B hash buf binsize =
      bind_outcome (get_append hash r buf binsize binsize 56) (\<lambda>(tx, pos). if pos > binsize then Inl (WireError 1) else Inr tx)"
    using g bare_types [OF assms(1)] assms(1,2) by (simp add: tx_from_wire_def tx_add_from_wire_def TX_POW_SIZE_def Let_def r_def)
qed

text \<open>
  C12. Data appended to a message is copied without a check of its length: for a message of a type without a
  body, \<open>tx_from_wire\<close> returns the appended data when it is at most 512 bytes, the size of the array in the
  transaction, and writes outside the array for every longer message, although messages up to \<open>TX_MAX_SIZE\<close>
  are valid objects.
\<close>

theorem bare_message_append:
  assumes "TypeHasBareMsg (ObjType tag)" "HasPOW tag" "length pow = TX_POW_SIZE"
    and "buf = le_bytes 4 (56 + length data) @ le_bytes 4 (unat tag) @ pow @ data" and "length buf = unat binsize"
  shows "if length data \<le> TX_MAX_APPEND
    then \<exists>r. tx_from_wire B hash buf binsize = Inr r \<and> wt_tag_type r = ObjType tag \<and> append_view r = data
    else tx_from_wire B hash buf binsize = Inl OutOfBounds"
proof -
  note run = bare_read [OF assms] and t = bare_types(3) [OF assms(1)]
  have d: "unat (binsize - 56) = length data" and b56: "\<not> binsize < 56"
    using run(3) by (simp_all add: unat_sub_if' word_less_nat_alt)
  consider (long) "TX_MAX_APPEND < length data" | (none) "data = []" | (short) "length data \<le> TX_MAX_APPEND" "binsize - 56 \<noteq> 0"
    using d by fastforce
  then show ?thesis
  proof cases
    case long
    then have "get_bytes TX_MAX_APPEND (unat (binsize - 56)) buf binsize 56 = Inl OutOfBounds" using run(3) d by (intro get_bytes_long) simp_all
    moreover have "binsize - 56 \<noteq> 0" using long d by auto
    ultimately show ?thesis using long t run(1) by (simp add: get_append_def)
  next
    case none
    then have "binsize - 56 = 0" using d by (simp add: unat_eq_0)
    then show ?thesis using none run(1) b56 by (simp add: get_append_def append_view_def tx_init_def)
  next
    case short
    have "get_bytes TX_MAX_APPEND (unat (binsize - 56)) buf binsize 56 = Inr (data @ replicate (TX_MAX_APPEND - length data) 0, 56 + of_nat (length data))"
      using parses_at [OF parses_bytes [OF d [symmetric]] run(2)] short(1) d by simp
    moreover have "(of_nat (56 + length data) :: u32) = binsize" unfolding run(3) by simp
    ultimately show ?thesis using short t run(1) d by (simp add: get_append_def append_view_def Let_def)
  qed
qed

theorem bare_message_append_witness:
  "tx_from_wire limb_bigops (\<lambda>_. big_of_nat 1)
     (le_bytes 4 (56 + length (replicate 513 7)) @ le_bytes 4 (unat CC_TAG_XCX_PAYMENT) @ replicate 48 0 @ replicate 513 7) 569 = Inl OutOfBounds"
  using bare_message_append [of CC_TAG_XCX_PAYMENT "replicate 48 0" _ "replicate 513 7" 569 limb_bigops "\<lambda>_. big_of_nat 1", OF _ _ _ refl]
  by (simp add: TypeHasBareMsg_def ObjType_def WireTag_def HasPOW_def TX_POW_SIZE_def TX_MAX_APPEND_def cc_tags cc_types)

end
