(* ===== verification/Tx_Validate.thy ===== *)
theory Tx_Validate
  imports Index_Txs Tx_Wire Packed_Int
begin

text \<open>
  Validation of a transaction by the node (ccnode/src/processtx.cpp: \<open>TxValidate\<close>, \<open>ValidateXreq\<close>, \<open>ValidateXpay\<close>,
  \<open>ValidateForeign\<close>, \<open>CheckXreqAmount\<close>, \<open>CheckTransientDuplicateForeignAddresses\<close>, \<open>ResultString\<close>; cclib/src/xtransaction.cpp:
  \<open>CheckPow\<close>), in the configuration without the test macros.

  Parameters are the tables of the database, the servers of the foreign blockchains, the hash functions and
  the verification of the zero-knowledge proof. A negative result is \<open>Reject\<close>; a result that is not negative
  is \<open>Accept\<close>, with the transaction as the function leaves it.
\<close>

section \<open>Checks\<close>

datatype 'a verdict = Reject int | Accept 'a

definition bind_check :: "'a verdict outcome \<Rightarrow> ('a \<Rightarrow> 'b verdict outcome) \<Rightarrow> 'b verdict outcome" where
  "bind_check r f = bind_outcome r (\<lambda>v. case v of Reject c \<Rightarrow> Inr (Reject c) | Accept x \<Rightarrow> f x)"

definition reject_if :: "bool \<Rightarrow> int \<Rightarrow> 'a verdict outcome \<Rightarrow> 'a verdict outcome" where
  "reject_if bad code r = (if bad then Inr (Reject code) else r)"

named_theorems accepts

lemma bind_check_accepts [accepts]: "bind_check r f = Inr (Accept y) \<longleftrightarrow> (\<exists>x. r = Inr (Accept x) \<and> f x = Inr (Accept y))"
proof (cases r)
  case (Inr v)
  then show ?thesis by (cases v) (auto simp: bind_check_def)
qed (simp add: bind_check_def)

lemma reject_if_accepts [accepts]: "reject_if bad c r = Inr (Accept y) \<longleftrightarrow> \<not> bad \<and> r = Inr (Accept y)"
  by (simp add: reject_if_def)

lemma bind_check_Accept [simp]: "bind_check (Inr (Accept x)) f = f x"
  by (simp add: bind_check_def)

lemma bind_check_Reject [simp]: "bind_check (Inr (Reject c)) f = Inr (Reject c)"
  by (simp add: bind_check_def)

section \<open>Results\<close>

definition PROCESS_RESULT_STOP_THRESHOLD :: int where "PROCESS_RESULT_STOP_THRESHOLD = -1000"
definition TX_RESULT_PARAM_LEVEL_TOO_OLD :: int where "TX_RESULT_PARAM_LEVEL_TOO_OLD = -1"
definition TX_RESULT_EXPIRED :: int where "TX_RESULT_EXPIRED = -2"
definition TX_RESULT_ALREADY_SPENT :: int where "TX_RESULT_ALREADY_SPENT = -3"
definition TX_RESULT_ADDRESS_IN_USE :: int where "TX_RESULT_ADDRESS_IN_USE = -4"
definition TX_RESULT_ALREADY_PAID :: int where "TX_RESULT_ALREADY_PAID = -5"
definition TX_RESULT_FOREIGN_ERROR :: int where "TX_RESULT_FOREIGN_ERROR = -6"
definition TX_RESULT_INTERNAL_ERROR :: int where "TX_RESULT_INTERNAL_ERROR = PROCESS_RESULT_STOP_THRESHOLD"
definition TX_RESULT_SERVER_ERROR :: int where "TX_RESULT_SERVER_ERROR = PROCESS_RESULT_STOP_THRESHOLD - 1"
definition TX_RESULT_PARAM_LEVEL_INVALID :: int where "TX_RESULT_PARAM_LEVEL_INVALID = PROCESS_RESULT_STOP_THRESHOLD - 2"
definition TX_RESULT_DUPLICATE_SERIALNUM :: int where "TX_RESULT_DUPLICATE_SERIALNUM = PROCESS_RESULT_STOP_THRESHOLD - 3"
definition TX_RESULT_BINARY_DATA_INVALID :: int where "TX_RESULT_BINARY_DATA_INVALID = PROCESS_RESULT_STOP_THRESHOLD - 4"
definition TX_RESULT_OPTION_NOT_SUPPORTED :: int where "TX_RESULT_OPTION_NOT_SUPPORTED = PROCESS_RESULT_STOP_THRESHOLD - 5"
definition TX_RESULT_INSUFFICIENT_DONATION :: int where "TX_RESULT_INSUFFICIENT_DONATION = PROCESS_RESULT_STOP_THRESHOLD - 6"
definition TX_RESULT_PROOF_VERIFICATION_FAILED :: int where
  "TX_RESULT_PROOF_VERIFICATION_FAILED = PROCESS_RESULT_STOP_THRESHOLD - 7"
definition TX_RESULT_FOREIGN_VERIFICATION_FAILED :: int where
  "TX_RESULT_FOREIGN_VERIFICATION_FAILED = PROCESS_RESULT_STOP_THRESHOLD - 8"
definition TX_RESULT_INVALID_VALUE :: int where "TX_RESULT_INVALID_VALUE = PROCESS_RESULT_STOP_THRESHOLD - 9"

lemmas tx_results = PROCESS_RESULT_STOP_THRESHOLD_def TX_RESULT_PARAM_LEVEL_TOO_OLD_def TX_RESULT_EXPIRED_def
  TX_RESULT_ALREADY_SPENT_def TX_RESULT_ADDRESS_IN_USE_def TX_RESULT_ALREADY_PAID_def TX_RESULT_FOREIGN_ERROR_def
  TX_RESULT_INTERNAL_ERROR_def TX_RESULT_SERVER_ERROR_def TX_RESULT_PARAM_LEVEL_INVALID_def TX_RESULT_DUPLICATE_SERIALNUM_def
  TX_RESULT_BINARY_DATA_INVALID_def TX_RESULT_OPTION_NOT_SUPPORTED_def TX_RESULT_INSUFFICIENT_DONATION_def
  TX_RESULT_PROOF_VERIFICATION_FAILED_def TX_RESULT_FOREIGN_VERIFICATION_FAILED_def TX_RESULT_INVALID_VALUE_def

definition tx_result_warn_strings :: "string list" where
  "tx_result_warn_strings = [''OK'', ''INVALID:parameter level too old'', ''INVALID:expired'', ''INVALID:already spent'',
     ''INVALID:foreign address not unique'', ''INVALID:already paid'', ''ERROR:foreign server error'']"

definition tx_result_stop_strings :: "string list" where
  "tx_result_stop_strings = [''ERROR:internal server error'', ''ERROR:server error'', ''INVALID:parameter level invalid'',
     ''INVALID:duplicate serial number'', ''INVALID:binary data invalid'', ''INVALID:option not yet supported'',
     ''INVALID:insufficient donation'', ''INVALID:zero knowledge proof verification failed'',
     ''INVALID:foreign payment verification failed'', ''INVALID:invalid value'']"

definition ResultString :: "int \<Rightarrow> string option" where
  "ResultString res =
     (let res = (if res \<ge> 0 then 0 else - res)
      in if res \<ge> - PROCESS_RESULT_STOP_THRESHOLD then
           (let res = res + PROCESS_RESULT_STOP_THRESHOLD
            in if res < 0 \<or> res \<ge> int (length tx_result_stop_strings) then None else Some (tx_result_stop_strings ! nat res))
         else if res < 0 \<or> res \<ge> int (length tx_result_warn_strings) then None
         else Some (tx_result_warn_strings ! nat res))"

section \<open>Parameters\<close>

definition TX_DONATION_MASK :: u64 where "TX_DONATION_MASK = 2 ^ 16 - 1"
definition TX_TIME_DIVISOR :: u64 where "TX_TIME_DIVISOR = 30"
definition XREQ_BLOCKCHAIN_BTC :: u64 where "XREQ_BLOCKCHAIN_BTC = 1"
definition XREQ_BLOCKCHAIN_MAX :: u64 where "XREQ_BLOCKCHAIN_MAX = XREQ_BLOCKCHAIN_BCH"
definition XREQ_SIMPLE_PLEDGE :: u16 where "XREQ_SIMPLE_PLEDGE = 50"
definition XREQ_SIMPLE_HOLD_TIME :: u16 where "XREQ_SIMPLE_HOLD_TIME = 60"
definition XREQ_MIN_POSTHOLD_TIME :: u64 where "XREQ_MIN_POSTHOLD_TIME = 60"
definition XREQ_SIMPLE_WAIT_TIME :: u16 where "XREQ_SIMPLE_WAIT_TIME = 60"
definition XREQ_MAX_EXPIRE_TIME :: u64 where "XREQ_MAX_EXPIRE_TIME = 2 * 60 * 60"
definition FOREIGN_TX_PAST_ALLOWANCE :: int where "FOREIGN_TX_PAST_ALLOWANCE = 4 * 3600"
definition FOREIGN_TX_FUTURE_ALLOWANCE :: int where "FOREIGN_TX_FUTURE_ALLOWANCE = 2 * 3600"

definition IsTestnet :: "u64 \<Rightarrow> bool" where
  "IsTestnet chain \<longleftrightarrow> 1000 \<le> chain \<and> chain \<le> 1999"

definition DefaultPaymentTime :: "bool \<Rightarrow> u16" where
  "DefaultPaymentTime istestnet = (if istestnet then (30 * 2 + 30) * 60 else (60 * 12 + 0) * 60)"

definition DefaultConfirmations :: "bool \<Rightarrow> u16" where
  "DefaultConfirmations istestnet = (if istestnet then 2 else 12)"

record val_params =
  vp_blockchain :: u64
  vp_default_domain :: u32
  vp_max_param_age :: int
  vp_xcx_naked_buy_work_difficulty :: u64
  vp_test_mal :: bool
  vp_transact_enabled :: bool
  vp_last_indelible_timestamp :: u64
  vp_minimum_donation :: bigint
  vp_donation_per_tx :: bigint
  vp_donation_per_byte :: bigint
  vp_donation_per_output :: bigint
  vp_donation_per_input :: bigint
  vp_donation_per_xcx_req :: bigint
  vp_outvalmin :: u16
  vp_outvalmax :: u16
  vp_invalmax :: u16

record 'f ForeignQueryResult =
  fq_amount :: 'f
  fq_blocktime :: u64
  fq_confirmations :: u32
  fq_memo :: string

text \<open>The fields of the transaction that are not on the wire and that the validation sets or tests.\<close>

record vtx = wtx +
  vt_source_chain :: u64
  vt_revision :: u32
  vt_expiration :: u64
  vt_reserved :: u64
  vt_param_time :: u64
  vt_outvalmin :: u16
  vt_outvalmax :: u16
  vt_amount_carry_out :: bigint

definition vtx_of :: "wtx \<Rightarrow> vtx" where
  "vtx_of w = wtx.extend w (vtx.fields 0 0 0 0 0 0 0 (big_of_nat 0))"

text \<open>
  The operations that are not part of the sources, or stand for them: the results of the tables; the queries
  of foreign blockchains; \<open>vo_wire_round\<close>, which encodes a number for the wire with rounding down and decodes
  it; and the verification of the proof, with the commitment constants that \<open>tx_set_commit_iv\<close> computes for
  it, true when it fails.
\<close>

record ('db, 'f) valops =
  vo_XmatchSelect :: "u64 \<Rightarrow> 'db \<Rightarrow> int \<times> 'f xmatch"
  vo_XreqsSelectUniqueForeignAddress :: "u64 \<Rightarrow> string \<Rightarrow> 'db \<Rightarrow> int"
  vo_XmatchingreqUniqueForeignAddressSelect :: "u64 \<Rightarrow> u64 \<Rightarrow> string \<Rightarrow> 'db \<Rightarrow> int"
  vo_XcxBlockedForeignAddressSelect :: "u64 \<Rightarrow> string \<Rightarrow> 'db \<Rightarrow> int"
  vo_CommitRootsSelectLevel :: "u64 \<Rightarrow> bool \<Rightarrow> 'db \<Rightarrow> int \<times> u64 \<times> bigint"
  vo_SerialnumSelect :: "bigint \<Rightarrow> 'db \<Rightarrow> int \<times> bigint option \<times> u64"
  vo_QueryAddress :: "u64 \<Rightarrow> string \<Rightarrow> int"
  vo_QueryPayment :: "u64 \<Rightarrow> string \<Rightarrow> string \<Rightarrow> string \<Rightarrow> int \<times> 'f ForeignQueryResult"
  vo_IgnoreError :: "u64 \<Rightarrow> bool \<Rightarrow> bool"
  vo_siphash :: "byte list \<Rightarrow> byte list \<Rightarrow> u64"
  vo_wire_round :: "'f \<Rightarrow> 'f"
  vo_VerifyProof :: "vtx \<Rightarrow> bool"

section \<open>Exchange payments\<close>

definition ValidateXpay :: "'f ufops \<Rightarrow> ('db, 'f) valops \<Rightarrow> u64 \<Rightarrow> 'f xpay \<Rightarrow> 'db \<Rightarrow> ('f xpay \<times> bool) verdict outcome" where
  "ValidateXpay U V prior_blocktime xpay db =
     reject_if (xp_xmatchnum xpay = 0) TX_RESULT_INVALID_VALUE
     (reject_if (uf_le U (xp_foreign_amount xpay) (uf_zero U)) TX_RESULT_INVALID_VALUE
     (reject_if (xp_foreign_txid xpay = []) TX_RESULT_INVALID_VALUE
     (let (rc, match) = vo_XmatchSelect V (xp_xmatchnum xpay) db
      in reject_if (rc < 0) TX_RESULT_INTERNAL_ERROR
        (reject_if (rc \<noteq> 0) TX_RESULT_INVALID_VALUE
        (reject_if (xm_status match \<noteq> XMATCH_STATUS_ACCEPTED \<and> xm_status match \<noteq> XMATCH_STATUS_PART_PAID_OPEN \<and>
            xm_status match \<noteq> XMATCH_STATUS_PAID) TX_RESULT_INVALID_VALUE
        (reject_if (\<not> xm_have_xreqs match) TX_RESULT_SERVER_ERROR
        (let xpay = SetMatchFieldsinXpay U match xpay
         in reject_if (xp_match_timestamp xpay = 0) TX_RESULT_SERVER_ERROR
           (reject_if (xp_payment_time xpay = 0) TX_RESULT_SERVER_ERROR
           (reject_if (xp_match_timestamp xpay + ucast (xp_payment_time xpay) < prior_blocktime) TX_RESULT_EXPIRED
           (reject_if (xp_foreign_blockchain xpay < 1 \<or> xp_foreign_blockchain xpay > XREQ_BLOCKCHAIN_MAX) TX_RESULT_SERVER_ERROR
           (reject_if (xp_foreign_address xpay = []) TX_RESULT_SERVER_ERROR
           (reject_if (xp_foreign_confirmations_required xpay = 0) TX_RESULT_SERVER_ERROR
           (reject_if (xp_foreign_block_id xpay = []) TX_RESULT_INVALID_VALUE
           (Inr (Accept (xpay, xm_status match = XMATCH_STATUS_PAID))))))))))))))))"

text \<open>\<open>Accept (xpay, True)\<close> stands for the result \<open>TX_RESULT_ALREADY_PAID\<close>, which the caller defers.\<close>

definition ValidateForeign :: "'f ufops \<Rightarrow> ('db, 'f) valops \<Rightarrow> u64 \<Rightarrow> bool \<Rightarrow> 'f xpay \<Rightarrow> unit verdict outcome" where
  "ValidateForeign U V prior_blocktime inblock xpay =
     reject_if (xp_foreign_blockchain xpay < 1 \<or> xp_foreign_blockchain xpay > XREQ_BLOCKCHAIN_MAX) TX_RESULT_OPTION_NOT_SUPPORTED
     (let (rc, res) = vo_QueryPayment V (xp_foreign_blockchain xpay) (xp_foreign_block_id xpay) (xp_foreign_address xpay) (xp_foreign_txid xpay)
      in reject_if (rc > 0) TX_RESULT_INVALID_VALUE
        (if rc \<noteq> 0 then
           (if vo_IgnoreError V (xp_foreign_blockchain xpay) inblock then Inr (Accept ()) else Inr (Reject TX_RESULT_FOREIGN_ERROR))
         else
           let required = xp_foreign_confirmations_required xpay div (if inblock then 2 else 1)
           in reject_if (fq_confirmations res < required) TX_RESULT_FOREIGN_VERIFICATION_FAILED
             (reject_if (uf_less U (fq_amount res) (xp_foreign_amount xpay)) TX_RESULT_FOREIGN_VERIFICATION_FAILED
             (reject_if (uf_less U (xp_foreign_amount xpay) (fq_amount res) \<and> uf_less U (xp_foreign_amount xpay) (xp_match_left_to_pay xpay) \<and>
                uf_less U (xp_foreign_amount xpay) (vo_wire_round V (fq_amount res))) TX_RESULT_FOREIGN_VERIFICATION_FAILED
             (reject_if (sint (xp_match_timestamp xpay - fq_blocktime res) > FOREIGN_TX_PAST_ALLOWANCE) TX_RESULT_FOREIGN_VERIFICATION_FAILED
             (reject_if (sint (fq_blocktime res - prior_blocktime) > FOREIGN_TX_FUTURE_ALLOWANCE) TX_RESULT_FOREIGN_VERIFICATION_FAILED
             (if fq_memo res \<noteq> [] then Inl AssertFail else Inr (Accept ()))))))))"

section \<open>Exchange requests\<close>

definition CheckXreqAmount :: "bigint \<Rightarrow> bool" where
  "CheckXreqAmount amount \<longleftrightarrow> \<not> big_true amount \<or> amount ! 2 \<noteq> 0 \<or> amount ! 3 \<noteq> 0"

definition BlockchainRequiresUniqueForeignAddress :: "u64 \<Rightarrow> bool" where
  "BlockchainRequiresUniqueForeignAddress foreign_blockchain = True"

definition CheckTransientDuplicateForeignAddresses :: "val_params \<Rightarrow> u64 \<Rightarrow> bool" where
  "CheckTransientDuplicateForeignAddresses P foreign_blockchain = 
     (if \<not> vp_transact_enabled P then False else BlockchainRequiresUniqueForeignAddress foreign_blockchain)"

definition CheckPOW :: "(byte list \<Rightarrow> byte list \<Rightarrow> u64) \<Rightarrow> byte list \<Rightarrow> u64 \<Rightarrow> byte list \<Rightarrow> bool" where
  "CheckPOW siphash data difficulty nonce = (if difficulty = 0 then False else \<not> siphash data nonce < difficulty)"

definition CheckPow :: "(byte list \<Rightarrow> byte list \<Rightarrow> u64) \<Rightarrow> byte list \<Rightarrow> u32 \<Rightarrow> u64 \<Rightarrow> bool outcome" where
  "CheckPow siphash binbuf binsize difficulty =
     (let hash_bytes = binsize - 8
      in if \<not> hash_bytes < binsize then Inl AssertFail
         else if length binbuf < unat binsize then Inl OutOfBounds
         else Inr (CheckPOW siphash (take (unat hash_bytes) binbuf) difficulty (take 8 (drop (unat hash_bytes) binbuf))))"

text \<open>The tests of the amounts, rates and times of a request.\<close>

definition xreq_values_check :: "bigops \<Rightarrow> 'f ufops \<Rightarrow> val_params \<Rightarrow> 'f xreq \<Rightarrow> unit verdict outcome" where
  "xreq_values_check B U P xreq =
     (let zero = uf_zero U; one = uf_lit U 1 0; flags = xq_flags xreq; testnet = IsTestnet (vp_blockchain P)
      in reject_if (\<not> big_true (xq_destination xreq)) TX_RESULT_INVALID_VALUE
        (reject_if (CheckXreqAmount (xq_min_amount xreq)) TX_RESULT_INVALID_VALUE
        (reject_if (CheckXreqAmount (xq_max_amount xreq)) TX_RESULT_INVALID_VALUE
        (reject_if (op_less B (xq_max_amount xreq) (xq_min_amount xreq)) TX_RESULT_INVALID_VALUE
        (reject_if (uf_le U (xq_net_rate_required xreq) zero) TX_RESULT_INVALID_VALUE
        (reject_if (uf_less U (xq_wait_discount xreq) zero \<or> uf_less U one (xq_wait_discount xreq)) TX_RESULT_INVALID_VALUE
        (reject_if (uf_less U (xq_quote_costs xreq) zero) TX_RESULT_INVALID_VALUE
        (reject_if (uf_less U (xq_base_costs xreq) zero) TX_RESULT_INVALID_VALUE
        (reject_if (xq_base_asset xreq \<noteq> 0) TX_RESULT_INVALID_VALUE
        (reject_if (xq_quote_asset xreq < XREQ_BLOCKCHAIN_BTC \<or> xq_quote_asset xreq > XREQ_BLOCKCHAIN_BCH) TX_RESULT_INVALID_VALUE
        (reject_if (xq_type xreq < CC_TYPE_XCX_NAKED_BUY \<and> xq_type xreq > CC_TYPE_XCX_SIMPLE_SELL \<and> xq_type xreq \<noteq> CC_TYPE_XCX_MINING_TRADE)
           TX_RESULT_OPTION_NOT_SUPPORTED
        (reject_if (xq_consideration_required xreq \<noteq> 0) TX_RESULT_INVALID_VALUE
        (reject_if (xq_consideration_offered xreq \<noteq> 0) TX_RESULT_INVALID_VALUE
        (reject_if (if xq_type xreq = CC_TYPE_XCX_SIMPLE_BUY \<or> xq_type xreq = CC_TYPE_XCX_SIMPLE_SELL \<or> xq_type xreq = CC_TYPE_XCX_MINING_TRADE
           then xq_pledge xreq \<noteq> XREQ_SIMPLE_PLEDGE else xq_pledge xreq \<noteq> 0) TX_RESULT_INVALID_VALUE
        (reject_if (xq_hold_time xreq \<noteq> XREQ_SIMPLE_HOLD_TIME) TX_RESULT_INVALID_VALUE
        (reject_if (xq_hold_time_required xreq \<noteq> XREQ_SIMPLE_HOLD_TIME) TX_RESULT_INVALID_VALUE
        (reject_if (xq_min_wait_time xreq \<noteq> XREQ_SIMPLE_WAIT_TIME) TX_RESULT_INVALID_VALUE
        (reject_if (xq_accept_time_required xreq \<noteq> 0) TX_RESULT_INVALID_VALUE
        (reject_if (xq_accept_time_offered xreq \<noteq> 0) TX_RESULT_INVALID_VALUE
        (reject_if (xq_payment_time xreq \<noteq> DefaultPaymentTime testnet) TX_RESULT_INVALID_VALUE
        (reject_if (xq_confirmations xreq \<noteq> DefaultConfirmations testnet) TX_RESULT_INVALID_VALUE
        (reject_if (add_immediately_to_blockchain flags) TX_RESULT_OPTION_NOT_SUPPORTED
        (reject_if (\<not> auto_accept_matches flags) TX_RESULT_OPTION_NOT_SUPPORTED
        (reject_if (no_minimum_after_first_match flags) TX_RESULT_OPTION_NOT_SUPPORTED
        (reject_if (must_liquidate_crossing_minimum flags) TX_RESULT_OPTION_NOT_SUPPORTED
        (reject_if (must_liquidate_below_minimum flags) TX_RESULT_OPTION_NOT_SUPPORTED
        (reject_if (xq_foreign_asset xreq \<noteq> []) TX_RESULT_OPTION_NOT_SUPPORTED
        (Inr (Accept ())))))))))))))))))))))))))))))"

text \<open>The foreign address of a request, if it has one, is unique, not blocked, and known to the foreign blockchain.\<close>

definition foreign_address_check ::
  "('db, 'f) valops \<Rightarrow> val_params \<Rightarrow> u64 \<Rightarrow> bool \<Rightarrow> 'f xreq \<Rightarrow> 'db \<Rightarrow> unit verdict outcome" where
  "foreign_address_check V P prior_blocktime inblock xreq db =
     (if xq_foreign_address xreq = [] then Inr (Accept ())
      else
        let chain = xq_quote_asset xreq; a = xq_foreign_address xreq;
            rc = (if \<not> inblock \<and> CheckTransientDuplicateForeignAddresses P chain then vo_XreqsSelectUniqueForeignAddress V chain a db else 1);
            rc = (if rc > 0 then vo_XmatchingreqUniqueForeignAddressSelect V prior_blocktime chain a db else rc);
            blocked = vo_XcxBlockedForeignAddressSelect V chain a db;
            query = vo_QueryAddress V chain a
        in reject_if (rc < 0) TX_RESULT_INTERNAL_ERROR
          (reject_if (rc = 0) TX_RESULT_ADDRESS_IN_USE
          (reject_if (blocked < 0) TX_RESULT_INTERNAL_ERROR
          (reject_if (blocked = 0) TX_RESULT_INVALID_VALUE
          (reject_if (query > 0) TX_RESULT_INVALID_VALUE
          (reject_if (query \<noteq> 0 \<and> \<not> vo_IgnoreError V chain inblock) TX_RESULT_FOREIGN_ERROR
          (Inr (Accept ()))))))))"

definition scaled :: "bigops \<Rightarrow> nat \<Rightarrow> bigint \<Rightarrow> bigint" where
  "scaled B n x = op_mul B (ofULong B (of_nat n)) x"

definition xreq_min_donation :: "bigops \<Rightarrow> val_params \<Rightarrow> nat \<Rightarrow> nat \<Rightarrow> nat \<Rightarrow> 'f xreq \<Rightarrow> bigint" where
  "xreq_min_donation B P tx_size total_nout nin xreq =
     (let d = op_add B (op_add B (scaled B tx_size (vp_donation_per_byte P)) (scaled B total_nout (vp_donation_per_output P)))
                (scaled B nin (vp_donation_per_input P))
      in if TypeHasBareMsg (xq_type xreq) then ofULong B 0 else op_add B d (vp_donation_per_xcx_req P))"

definition xreq_carry_out :: "bigops \<Rightarrow> 'f xreq \<Rightarrow> bigint" where
  "xreq_carry_out B xreq =
     (let c = (if TypeIsSeller (xq_type xreq) then xq_max_amount xreq else ofULong B 0)
      in if TypeIsBuyer (xq_type xreq) \<and> xq_pledge xreq = 100 then op_add B c (xq_max_amount xreq)
         else if TypeIsBuyer (xq_type xreq) \<and> xq_pledge xreq \<noteq> 0 then
           op_add B c (op_div B (op_mul B (xq_max_amount xreq) (ofULong B (ucast (xq_pledge xreq)))) (ofULong B 100))
         else c)"

definition ValidateXreq ::
  "bigops \<Rightarrow> 'f ufops \<Rightarrow> ('db, 'f) valops \<Rightarrow> val_params \<Rightarrow> u64 \<Rightarrow> bool \<Rightarrow> vtx \<Rightarrow> 'f xreq \<Rightarrow> bigint \<Rightarrow> nat \<Rightarrow> nat \<Rightarrow> 'db
   \<Rightarrow> vtx verdict outcome" where
  "ValidateXreq B U V P prior_blocktime inblock tx xreq donation tx_size total_nout db =
     reject_if (xq_foreign_address xreq \<noteq> [] \<and> wt_nin tx \<ge> TX_WIRE_MAXIN) TX_RESULT_INVALID_VALUE
     (bind_check (xreq_values_check B U P xreq) (\<lambda>_.
      bind_check (foreign_address_check V P prior_blocktime inblock xreq db) (\<lambda>_.
      reject_if (op_less B donation (xreq_min_donation B P tx_size total_nout (wt_nin tx) xreq) \<and> wt_donation_fp tx < TX_DONATION_MASK)
        TX_RESULT_INSUFFICIENT_DONATION
      (reject_if (xq_expire_time xreq > prior_blocktime + XREQ_MAX_EXPIRE_TIME) TX_RESULT_INVALID_VALUE
      (reject_if (xq_expire_time xreq \<le> prior_blocktime + ucast (xq_hold_time xreq) + XREQ_MIN_POSTHOLD_TIME) TX_RESULT_EXPIRED
      (let tx = tx\<lparr>vt_amount_carry_out := xreq_carry_out B xreq\<rparr>
       in if xq_type xreq = CC_TYPE_XCX_NAKED_BUY then
            bind_outcome (CheckPow (vo_siphash V) (wt_append_data tx) (wt_append_data_length tx) (vp_xcx_naked_buy_work_difficulty P)) (\<lambda>bad.
              reject_if bad TX_RESULT_INVALID_VALUE (Inr (Accept tx)))
          else Inr (Accept tx)))))))"

section \<open>Reading a transaction\<close>

definition TX_CC_MINT_EXPONENT :: u16 where "TX_CC_MINT_EXPONENT = 22"
definition CC_MINT_ZKKEY_ID :: u16 where "CC_MINT_ZKKEY_ID = 15"

definition tx_read :: "bigops \<Rightarrow> (byte list \<Rightarrow> bigint) \<Rightarrow> byte list \<Rightarrow> vtx verdict outcome" where
  "tx_read B hash msg =
     (case tx_from_wire B hash msg (obj_size (message_object msg)) of
        Inr w \<Rightarrow> Inr (Accept (vtx_of w))
      | Inl (WireError c) \<Rightarrow> Inr (Reject TX_RESULT_BINARY_DATA_INVALID)
      | Inl e \<Rightarrow> Inl e)"

definition supported_type :: "nat \<Rightarrow> bool" where
  "supported_type t \<longleftrightarrow> t \<in> {CC_TYPE_MINT, CC_TYPE_TXPAY, CC_TYPE_XCX_NAKED_BUY, CC_TYPE_XCX_NAKED_SELL, CC_TYPE_XCX_SIMPLE_BUY,
     CC_TYPE_XCX_SIMPLE_SELL, CC_TYPE_XCX_PAYMENT, CC_TYPE_XCX_MINING_TRADE}"

definition check_header :: "val_params \<Rightarrow> vtx \<Rightarrow> vtx verdict outcome" where
  "check_header P tx =
     (let tx = tx\<lparr>vt_source_chain := vp_blockchain P\<rparr>;
          mint = (wt_tag_type tx = CC_TYPE_MINT);
          tx = (if mint \<and> Implement_CCMint (vt_source_chain tx) then tx\<lparr>wt_zkkeyid := CC_MINT_ZKKEY_ID\<rparr> else tx)
      in reject_if (\<not> supported_type (wt_tag_type tx)) TX_RESULT_OPTION_NOT_SUPPORTED
        (reject_if (wt_tx_type tx \<noteq> wt_tag_type tx) TX_RESULT_OPTION_NOT_SUPPORTED
        (reject_if (vt_source_chain tx \<noteq> vp_blockchain P) TX_RESULT_OPTION_NOT_SUPPORTED
        (reject_if (vt_revision tx \<noteq> 0) TX_RESULT_OPTION_NOT_SUPPORTED
        (reject_if (vt_expiration tx \<noteq> 0) TX_RESULT_OPTION_NOT_SUPPORTED
        (reject_if (vt_reserved tx \<noteq> 0) TX_RESULT_OPTION_NOT_SUPPORTED
        (reject_if (mint \<and> wt_nin tx \<noteq> 1) TX_RESULT_OPTION_NOT_SUPPORTED
        (reject_if (\<not> mint \<and> wt_nin tx \<noteq> wt_nin_with_path tx) TX_RESULT_OPTION_NOT_SUPPORTED
        (Inr (Accept (if wt_nout tx = 0 then tx\<lparr>wt_allow_restricted_addresses := 0\<rparr> else tx)))))))))))"

definition set_output_domain :: "val_params \<Rightarrow> wtxout \<Rightarrow> wtxout" where
  "set_output_domain P t =
     (let t = t\<lparr>wo_dest_chain := vp_blockchain P\<rparr> in if wo_M_domain t = 0 then t\<lparr>wo_M_domain := vp_default_domain P\<rparr> else t)"

definition output_supported :: "val_params \<Rightarrow> bool \<Rightarrow> wtxout \<Rightarrow> bool" where
  "output_supported P mint t \<longleftrightarrow>
     wo_dest_chain t = vp_blockchain P \<and> wo_M_domain t = vp_default_domain P \<and> wo_no_address t = 0 \<and> wo_acceptance_required t = 0 \<and>
     wo_repeat_count t = 0 \<and> wo_no_asset t = 0 \<and> wo_no_amount t = 0 \<and>
     (if mint then wo_asset_mask t = 0 \<and> wo_amount_mask t = 0 \<and> wo_M_asset_enc t = 0
      else wo_asset_mask t = TX_ASSET_WIRE_MASK \<and> wo_amount_mask t = TX_AMOUNT_MASK)"

text \<open>The loop over the outputs, which counts them with their repetitions.\<close>

fun check_outputs :: "val_params \<Rightarrow> nat list \<Rightarrow> u32 \<Rightarrow> vtx \<Rightarrow> (u32 \<times> vtx) verdict outcome" where
  "check_outputs P [] total_nout tx = Inr (Accept (total_nout, tx))"
| "check_outputs P (i # is) total_nout tx =
     (if \<not> i < length (wt_outputs tx) then Inl OutOfBounds
      else let t = set_output_domain P (wt_outputs tx ! i);
               tx = tx\<lparr>wt_outputs := (wt_outputs tx)[i := t]\<rparr>;
               tx = (if wo_no_address t \<noteq> 0 then tx\<lparr>wt_allow_restricted_addresses := 0\<rparr> else tx)
        in reject_if (\<not> output_supported P (wt_tag_type tx = CC_TYPE_MINT) t) TX_RESULT_OPTION_NOT_SUPPORTED
             (check_outputs P is (total_nout + (wo_repeat_count t + 1)) tx))"

definition input_supported :: "bool \<Rightarrow> wtxin \<Rightarrow> bool" where
  "input_supported mint t \<longleftrightarrow>
     wi_enforce_master_secret t = 0 \<and> wi_enforce_spend_secrets t = 0 \<and> wi_enforce_trust_secrets t \<noteq> 0 \<and> wi_enforce_freeze t = 0 \<and>
     wi_enforce_unfreeze t = 0 \<and> wi_delaytime t = 0 \<and> (\<not> mint \<longrightarrow> wi_no_serialnum t = 0) \<and> (mint \<longrightarrow> wi_no_serialnum t \<noteq> 0) \<and>
     \<not> big_true (wi_S_spendspec_hashed t) \<and> (mint \<longrightarrow> wi_pathnum t = 0) \<and> (\<not> mint \<longrightarrow> wi_pathnum t \<noteq> 0)"

fun check_inputs :: "val_params \<Rightarrow> nat list \<Rightarrow> vtx \<Rightarrow> vtx verdict outcome" where
  "check_inputs P [] tx = Inr (Accept tx)"
| "check_inputs P (i # is) tx =
     (if \<not> i < length (wt_inputs tx) then Inl OutOfBounds
      else let mint = (wt_tag_type tx = CC_TYPE_MINT); t = wt_inputs tx ! i;
               t = (if wi_M_domain t = 0 \<and> \<not> mint then t\<lparr>wi_M_domain := vp_default_domain P\<rparr> else t)
        in reject_if (\<not> input_supported mint t) TX_RESULT_OPTION_NOT_SUPPORTED
             (check_inputs P is (tx\<lparr>wt_inputs := (wt_inputs tx)[i := t]\<rparr>)))"

section \<open>Donations and exchange messages\<close>

definition append_data_of :: "vtx \<Rightarrow> byte list" where
  "append_data_of tx = take (unat (wt_append_data_length tx)) (wt_append_data tx)"

definition txpay_min_donation :: "bigops \<Rightarrow> val_params \<Rightarrow> nat \<Rightarrow> nat \<Rightarrow> nat \<Rightarrow> bigint" where
  "txpay_min_donation B P tx_size total_nout nin =
     (let d = op_add B (op_add B (op_add B (vp_donation_per_tx P) (scaled B tx_size (vp_donation_per_byte P)))
                (scaled B total_nout (vp_donation_per_output P))) (scaled B nin (vp_donation_per_input P))
      in if op_less B d (vp_minimum_donation P) then vp_minimum_donation P else d)"

text \<open>The branches on the type: the exchange message, if there is one, and whether its match was already paid.\<close>

definition check_type ::
  "bigops \<Rightarrow> 'f ufops \<Rightarrow> ('db, 'f) valops \<Rightarrow> ('db, 'f) indexops \<Rightarrow> val_params \<Rightarrow> u64 \<Rightarrow> bool \<Rightarrow> nat \<Rightarrow> nat \<Rightarrow> bigint \<Rightarrow> vtx \<Rightarrow> 'db
   \<Rightarrow> (vtx \<times> 'f xtx option \<times> bool) verdict outcome" where
  "check_type B U V I P prior_blocktime inblock tx_size total_nout donation tx db =
     (let t = wt_tag_type tx;
          xtx = (if TypeIsXtx t then ix_xtx_from_wire I t (append_data_of tx) else None)
      in reject_if (xtx = None \<and> TypeIsXtx t) TX_RESULT_BINARY_DATA_INVALID
        (if TypeIsXpay t then
           (case xtx of
              Some (XtxPay xpay) \<Rightarrow>
                bind_check (ValidateXpay U V prior_blocktime xpay db) (\<lambda>(xpay, already_paid).
                  Inr (Accept (tx, Some (XtxPay xpay), already_paid)))
            | _ \<Rightarrow> Inl OutOfBounds)
         else if TypeIsXreq t then
           (case xtx of
              Some (XtxReq xreq) \<Rightarrow>
                bind_check (ValidateXreq B U V P prior_blocktime inblock tx xreq donation tx_size total_nout db) (\<lambda>tx.
                  Inr (Accept (tx, xtx, False)))
            | _ \<Rightarrow> Inl OutOfBounds)
         else if t = CC_TYPE_MINT then
           let mint_donation = (if Implement_CCMint (vp_blockchain P) \<and> wt_param_level tx = 0 then big_of_nat TX_CC_MINT_AMOUNT else ofULong B 0)
           in reject_if (donation \<noteq> mint_donation) TX_RESULT_INSUFFICIENT_DONATION (Inr (Accept (tx, xtx, False)))
         else if t = CC_TYPE_TXPAY then
           let min_donation = txpay_min_donation B P tx_size total_nout (wt_nin tx)
           in reject_if (op_less B donation min_donation \<and> wt_donation_fp tx < TX_DONATION_MASK) TX_RESULT_INSUFFICIENT_DONATION
                (Inr (Accept (if op_less B (op_mul B min_donation (ofULong B 4)) donation then tx\<lparr>wt_allow_restricted_addresses := 0\<rparr> else tx,
                   xtx, False)))
         else Inr (Reject TX_RESULT_SERVER_ERROR)))"

section \<open>Parameters of the proof\<close>

definition set_input_params :: "val_params \<Rightarrow> bool \<Rightarrow> bigint \<Rightarrow> wtxin \<Rightarrow> wtxin" where
  "set_input_params P mint root t =
     (if mint then t\<lparr>wi_invalmax := TX_CC_MINT_EXPONENT\<rparr> else t\<lparr>wi_merkle_root := root, wi_invalmax := vp_invalmax P\<rparr>)"

text \<open>A Merkle root may be used until \<open>max_param_age\<close> seconds after the next root has replaced it.\<close>

definition check_params :: "('db, 'f) valops \<Rightarrow> val_params \<Rightarrow> u64 \<Rightarrow> vtx \<Rightarrow> 'db \<Rightarrow> vtx verdict outcome" where
  "check_params V P prior_blocktime tx db =
     (let (rc, merkle_time, root) = vo_CommitRootsSelectLevel V (wt_param_level tx + 1) True db
      in reject_if (rc < 0) TX_RESULT_INTERNAL_ERROR
        (let merkle_time = (if rc \<noteq> 0 then prior_blocktime else merkle_time);
             dt = sint (prior_blocktime - merkle_time)
         in reject_if (dt > vp_max_param_age P \<and> \<not> TypeHasBareMsg (wt_tag_type tx)) TX_RESULT_PARAM_LEVEL_TOO_OLD
           (let (rc, merkle_time, root) = vo_CommitRootsSelectLevel V (wt_param_level tx) False db
            in reject_if (rc < 0) TX_RESULT_INTERNAL_ERROR
              (reject_if (rc \<noteq> 0) TX_RESULT_PARAM_LEVEL_INVALID
              (Inr (Accept (tx\<lparr>wt_tx_merkle_root := root,
                 vt_param_time := (if merkle_time > ucast TX_TIME_OFFSET then (merkle_time - ucast TX_TIME_OFFSET) div TX_TIME_DIVISOR else 0),
                 vt_outvalmin := vp_outvalmin P, vt_outvalmax := vp_outvalmax P,
                 wt_inputs := map (set_input_params P (wt_tag_type tx = CC_TYPE_MINT) root) (take (wt_nin tx) (wt_inputs tx)) @
                   drop (wt_nin tx) (wt_inputs tx)\<rparr>)))))))"

section \<open>Serial numbers\<close>

definition pay_of :: "vtx \<Rightarrow> txpay" where
  "pay_of tx =
     \<lparr>tp_tag_type = wt_tag_type tx,
      tp_buf = \<lparr>tb_param_level = wt_param_level tx, tb_merkle_root = wt_tx_merkle_root tx, tb_commitment_iv = big_of_nat 0\<rparr>,
      tp_nin = wt_nin tx,
      tp_inputs = map (\<lambda>t. \<lparr>no_serialnum = (wi_no_serialnum t \<noteq> 0), S_serialnum = wi_S_serialnum t, S_hashkey = wi_S_hashkey t\<rparr>) (wt_inputs tx),
      tp_outputs = map (\<lambda>t. \<lparr>M_commitment = wo_M_commitment t, M_domain = wo_M_domain t, asset_mask = wo_asset_mask t, amount_mask = wo_amount_mask t,
        no_address = (wo_no_address t \<noteq> 0), M_address = wo_M_address t, M_asset_enc = wo_M_asset_enc t, M_amount_enc = wo_M_amount_enc t\<rparr>)
        (take (wt_nout tx) (wt_outputs tx)),
      tp_donation_fp = wt_donation_fp tx,
      tp_append_data = append_data_of tx\<rparr>"

text \<open>
  The loop over the inputs. Results: \<open>0\<close> when no serial number is spent, \<open>1\<close> when all are spent in one transaction
  with the same keys.
\<close>

fun check_serials ::
  "('db, 'f) valops \<Rightarrow> txin list \<Rightarrow> txin list \<Rightarrow> bool \<Rightarrow> bool \<Rightarrow> u64 \<Rightarrow> 'db \<Rightarrow> bool verdict outcome" where
  "check_serials V before [] found_one_spent found_one_not_spent tx_commitnum db = Inr (Accept found_one_spent)"
| "check_serials V before (t # ts) found_one_spent found_one_not_spent tx_commitnum db =
     reject_if (list_ex (\<lambda>u. S_serialnum u = S_serialnum t) before) TX_RESULT_DUPLICATE_SERIALNUM
     (let (rc, hashkey, commitnum) = vo_SerialnumSelect V (S_serialnum t) db
      in reject_if (rc < 0) TX_RESULT_INTERNAL_ERROR
        (if rc \<noteq> 0 then
           reject_if found_one_spent TX_RESULT_ALREADY_SPENT
             (check_serials V (before @ [t]) ts found_one_spent True tx_commitnum db)
         else
           reject_if (\<exists>k\<in>set_option hashkey. k \<noteq> S_hashkey t) TX_RESULT_ALREADY_SPENT
           (reject_if (found_one_spent \<and> commitnum \<noteq> 0 \<and> commitnum \<noteq> tx_commitnum) TX_RESULT_ALREADY_SPENT
           (reject_if found_one_not_spent TX_RESULT_ALREADY_SPENT
             (check_serials V (before @ [t]) ts True found_one_not_spent (if found_one_spent then tx_commitnum else commitnum) db)))))"

definition check_spent ::
  "'f ufops \<Rightarrow> ('db, 'f) valops \<Rightarrow> ('db, 'f) indexops \<Rightarrow> u64 \<Rightarrow> bool \<Rightarrow> vtx \<Rightarrow> 'f xtx option \<Rightarrow> bool \<Rightarrow> byte list \<Rightarrow> 'db
   \<Rightarrow> (nat \<times> txpay) verdict outcome" where
  "check_spent U V I prior_blocktime inblock tx xtx already_paid msg db =
     bind_outcome (CheckCreatePseudoSerialnum I (pay_of tx) xtx msg False) (\<lambda>pay.
     bind_check (check_serials V [] (take (tp_nin pay) (tp_inputs pay)) False False 0 db) (\<lambda>spent.
     if spent then Inr (Accept (1, pay))
     else reject_if already_paid TX_RESULT_ALREADY_PAID
       (case xtx of
          Some (XtxPay xpay) \<Rightarrow> bind_check (ValidateForeign U V prior_blocktime inblock xpay) (\<lambda>_. Inr (Accept (0, pay)))
        | _ \<Rightarrow> Inr (Accept (0, pay)))))"

section \<open>Validation\<close>

text \<open>
  The result is \<open>0\<close> for a valid transaction and \<open>1\<close> for one that is in the blockchain already, with the
  serial numbers of the transaction as the validation leaves them.
\<close>

definition TxValidate ::
  "bigops \<Rightarrow> (byte list \<Rightarrow> bigint) \<Rightarrow> 'f ufops \<Rightarrow> ('db, 'f) valops \<Rightarrow> ('db, 'f) indexops \<Rightarrow> val_params \<Rightarrow> txpay \<Rightarrow> byte list \<Rightarrow> u64 \<Rightarrow> bool
   \<Rightarrow> 'db \<Rightarrow> (nat \<times> txpay) verdict outcome" where
  "TxValidate B hash U V I P txbuf msg prior_blocktime inblock db =
     (if vp_test_mal P then Inr (Accept (0, txbuf))
      else
        let prior_blocktime = (if prior_blocktime = 0 then vp_last_indelible_timestamp P else prior_blocktime);
            tx_size = unat (8 + BodySize (message_object msg))
        in bind_check (tx_read B hash msg) (\<lambda>tx.
           bind_check (check_header P tx) (\<lambda>tx.
           bind_check (check_outputs P [0..<wt_nout tx] 0 tx) (\<lambda>(total_nout, tx).
           bind_check (check_inputs P [0..<wt_nin tx] tx) (\<lambda>tx.
           bind_outcome (tx_amount_decode B (wt_donation_fp tx) True TX_DONATION_BITS TX_AMOUNT_EXPONENT_BITS) (\<lambda>donation.
           bind_check (check_type B U V I P prior_blocktime inblock tx_size (unat total_nout) donation tx db) (\<lambda>(tx, xtx, already_paid).
           bind_check (check_params V P prior_blocktime tx db) (\<lambda>tx.
           reject_if (\<not> TypeHasBareMsg (wt_tag_type tx) \<and> vo_VerifyProof V tx) TX_RESULT_PROOF_VERIFICATION_FAILED
           (if wt_tag_type tx = CC_TYPE_MINT then Inr (Accept (0, pay_of tx))
            else check_spent U V I prior_blocktime inblock tx xtx already_paid msg db)))))))))"

end
