(* ===== verification/Tx_Validate_Props.thy ===== *)
theory Tx_Validate_Props
  imports Tx_Validate Index_Props
begin

text \<open>
  What a transaction that the node accepts has passed: its serial numbers are distinct and unspent, its proof
  was verified against a known Merkle root that is not too old, its outputs and inputs use only what is
  supported, and its donation is large enough. Resubmission of a transaction in the blockchain is
  recognised.
\<close>

section \<open>Sizes of a transaction that was read\<close>

definition tx_sizes_ok :: "wtx \<Rightarrow> bool" where
  "tx_sizes_ok tx \<longleftrightarrow> wt_nout tx \<le> TX_MAXOUT \<and> wt_nin tx \<le> TX_WIRE_MAXIN \<and> length (wt_outputs tx) = TX_MAXOUT \<and> length (wt_inputs tx) = TX_WIRE_MAXIN"

lemma get_outputs_sizes: "get_outputs buf binsize is tx pos = Inr (tx', pos') \<Longrightarrow> tx_sizes_ok tx \<Longrightarrow> tx_sizes_ok tx'"
  by (induction "is" arbitrary: tx pos) (auto simp: bind_outcome_eq_Inr Let_def tx_sizes_ok_def split: if_splits)

lemma get_inputs_sizes: "get_inputs buf binsize is tx pos = Inr (tx', pos') \<Longrightarrow> tx_sizes_ok tx \<Longrightarrow> tx_sizes_ok tx'"
  by (induction "is" arbitrary: tx pos) (auto simp: bind_outcome_eq_Inr Let_def tx_sizes_ok_def split: if_splits)

lemma get_counts_sizes:
  "get_counts tx buf binsize pos = Inr (tx', pos') \<Longrightarrow> wt_outputs tx' = wt_outputs tx \<and> wt_inputs tx' = wt_inputs tx"
  by (auto simp: get_counts_def bind_outcome_eq_Inr Let_def split: if_splits)

lemma set_mint_inputs_sizes: "set_mint_inputs B tx = Inr tx' \<Longrightarrow> tx_sizes_ok tx \<Longrightarrow> tx_sizes_ok tx'"
  by (auto simp: set_mint_inputs_def bind_outcome_eq_Inr Let_def tx_sizes_ok_def TX_WIRE_MAXIN_def split: if_splits)

lemma bind_pairE:
  assumes "bind_outcome r (\<lambda>(a, b). f a b) = Inr y"
  obtains a b where "r = Inr (a, b)" "f a b = Inr y"
  using assms by (auto simp: bind_outcome_eq_Inr)

lemma if_InlE:
  assumes "(if b then Inl e else r) = Inr y"
  obtains "\<not> b" "r = Inr y"
  using assms by (auto split: if_splits)

lemma body_arrays_sizes:
  assumes "(let tx = (if b then tx\<lparr>wt_allow_restricted_addresses := 1\<rparr> else tx)
       in bind_outcome (get_outputs buf binsize [0..<wt_nout tx] tx pos) (\<lambda>(tx, pos).
          bind_outcome (get_inputs buf binsize [0..<wt_nin tx] tx pos) (\<lambda>(tx, pos).
          if wt_tag_type tx = CC_TYPE_MINT then bind_outcome (set_mint_inputs B tx) (\<lambda>tx. Inr (tx, pos)) else Inr (tx, pos)))) = Inr (tx', pos')"
    and "tx_sizes_ok tx"
  shows "tx_sizes_ok tx'"
proof -
  let ?tx = "if b then tx\<lparr>wt_allow_restricted_addresses := 1\<rparr> else tx"
  obtain tx2 q tx3 r where o: "get_outputs buf binsize [0..<wt_nout ?tx] ?tx pos = Inr (tx2, q)"
    and i: "get_inputs buf binsize [0..<wt_nin tx2] tx2 q = Inr (tx3, r)"
    and f: "(if wt_tag_type tx3 = CC_TYPE_MINT then bind_outcome (set_mint_inputs B tx3) (\<lambda>tx. Inr (tx, r)) else Inr (tx3, r)) = Inr (tx', pos')"
    using assms(1) unfolding Let_def by (elim bind_pairE)
  have "tx_sizes_ok ?tx" using assms(2) by (simp add: tx_sizes_ok_def)
  then have "tx_sizes_ok tx3" using get_outputs_sizes [OF o] get_inputs_sizes [OF i] by blast
  then show ?thesis using f set_mint_inputs_sizes by (auto simp: bind_outcome_eq_Inr split: if_splits)
qed

lemma txpay_body_sizes:
  assumes "txpay_body_from_wire B tx buf binsize pos = Inr (tx', pos')" "tx_sizes_ok tx"
  shows "tx_sizes_ok tx'"
proof -
  from assms(1) obtain lvl zk key don p4 tx1 p5 where
    c: "get_counts (tx\<lparr>wt_param_level := lvl, wt_zkproof := zk, wt_zkkeyid := key, wt_donation_fp := don\<rparr>) buf binsize p4 = Inr (tx1, p5)"
    and r: "(if wt_nout tx1 > TX_MAXOUT \<or> wt_nin tx1 > TX_WIRE_MAXIN \<or> wt_nin_with_path tx1 > TX_MAXINPATH then Inl (WireError (-1))
     else let tx = (if wt_nout tx1 \<noteq> 0 \<and> wt_have_allow_restricted_addresses tx1 = 0 then tx1\<lparr>wt_allow_restricted_addresses := 1\<rparr> else tx1)
       in bind_outcome (get_outputs buf binsize [0..<wt_nout tx] tx p5) (\<lambda>(tx, pos).
          bind_outcome (get_inputs buf binsize [0..<wt_nin tx] tx pos) (\<lambda>(tx, pos).
          if wt_tag_type tx = CC_TYPE_MINT then bind_outcome (set_mint_inputs B tx) (\<lambda>tx. Inr (tx, pos)) else Inr (tx, pos)))) = Inr (tx', pos')"
    unfolding txpay_body_from_wire_def by (elim bind_pairE)
  have ok: "tx_sizes_ok tx1" if "\<not> (wt_nout tx1 > TX_MAXOUT \<or> wt_nin tx1 > TX_WIRE_MAXIN \<or> wt_nin_with_path tx1 > TX_MAXINPATH)"
    using that get_counts_sizes [OF c] assms(2) by (auto simp: tx_sizes_ok_def)
  show ?thesis by (rule if_InlE [OF r], erule body_arrays_sizes, erule ok)
qed

lemma get_append_sizes: "get_append hash tx buf binsize wiresize pos = Inr (tx', pos') \<Longrightarrow> tx_sizes_ok tx \<Longrightarrow> tx_sizes_ok tx'"
  unfolding get_append_def Let_def
  by (auto elim!: bind_pairE if_InlE simp: tx_sizes_ok_def split: if_splits)

lemma tx_from_wire_sizes:
  assumes "tx_from_wire B hash buf binsize = Inr w"
  shows "tx_sizes_ok w"
proof -
  from assms obtain t tag p tx1 p1 tx2 p2 wiresize where
    b: "(if TypeHasBareMsg t then Inr (tx_init\<lparr>wt_tag_type := t, wt_tx_type := t, wt_wire_tag := WireTag tag\<rparr>, p)
        else txpay_body_from_wire B (tx_init\<lparr>wt_tag_type := t, wt_tx_type := t, wt_wire_tag := WireTag tag\<rparr>) buf binsize p) = Inr (tx1, p1)"
    and a: "get_append hash tx1 buf binsize wiresize p1 = Inr (tx2, p2)" and e: "Inr tx2 = (Inr w :: wtx outcome)"
    unfolding tx_from_wire_def tx_add_from_wire_def Let_def
    by (elim bind_pairE if_InlE)
  have "tx_sizes_ok (tx_init\<lparr>wt_tag_type := t, wt_tx_type := t, wt_wire_tag := WireTag tag\<rparr>)"
    by (simp add: tx_sizes_ok_def tx_init_def)
  then have "tx_sizes_ok tx1" using b txpay_body_sizes by (auto split: if_splits)
  with get_append_sizes [OF a] e show ?thesis by simp
qed

section \<open>The serial numbers\<close>

definition serial_found :: "('db, 'f) valops \<Rightarrow> 'db \<Rightarrow> txin \<Rightarrow> int" where
  "serial_found V db t = fst (vo_SerialnumSelect V (S_serialnum t) db)"

definition spent_with_key :: "('db, 'f) valops \<Rightarrow> 'db \<Rightarrow> txin \<Rightarrow> bool" where
  "spent_with_key V db t \<longleftrightarrow> (let (rc, hashkey, commitnum) = vo_SerialnumSelect V (S_serialnum t) db
     in rc = 0 \<and> (\<forall>k\<in>set_option hashkey. k = S_hashkey t))"

lemma serial_seen: "list_ex (\<lambda>u. S_serialnum u = S_serialnum t) ts \<longleftrightarrow> S_serialnum t \<in> S_serialnum ` set ts"
  by (simp add: list_ex_iff image_iff eq_commute)

lemma check_serials_found [simp]: "check_serials V before ts True nf c db \<noteq> Inr (Accept False)"
  by (induction ts arbitrary: before nf c) (auto simp: accepts split: prod.splits if_splits)

lemma check_serials_unspent:
  "check_serials V before ts False nf c db = Inr (Accept False) \<longleftrightarrow>
     distinct (map S_serialnum ts) \<and> S_serialnum ` set before \<inter> S_serialnum ` set ts = {} \<and> (\<forall>t\<in>set ts. serial_found V db t > 0)"
proof (induction ts arbitrary: before nf c)
  case (Cons t ts)
  obtain rc k n where q: "vo_SerialnumSelect V (S_serialnum t) db = (rc, k, n)" by (cases "vo_SerialnumSelect V (S_serialnum t) db")
  have f: "serial_found V db t = rc" by (simp add: serial_found_def q)
  show ?case by (auto simp: q f accepts Cons.IH serial_seen)
qed simp

lemma check_serials_spent:
  "check_serials V before ts sp nf c db = Inr (Accept True) \<Longrightarrow> (sp \<longrightarrow> \<not> nf) \<Longrightarrow>
     distinct (map S_serialnum ts) \<and> S_serialnum ` set before \<inter> S_serialnum ` set ts = {} \<and> (\<forall>t\<in>set ts. spent_with_key V db t) \<and> \<not> nf"
proof (induction ts arbitrary: before sp nf c)
  case (Cons t ts)
  obtain rc k n where q: "vo_SerialnumSelect V (S_serialnum t) db = (rc, k, n)" by (cases "vo_SerialnumSelect V (S_serialnum t) db")
  have f: "spent_with_key V db t \<longleftrightarrow> rc = 0 \<and> (\<forall>k'\<in>set_option k. k' = S_hashkey t)" by (simp add: spent_with_key_def q)
  show ?case
  proof (cases "rc = 0")
    case True
    with Cons.prems have "check_serials V (before @ [t]) ts True nf (if sp then c else n) db = Inr (Accept True)" "\<not> nf"
      by (auto simp: q accepts)
    from Cons.IH [OF this(1)] this(2) Cons.prems(1) True show ?thesis by (auto simp: q f accepts serial_seen)
  next
    case False
    with Cons.prems have "\<not> sp" "check_serials V (before @ [t]) ts sp True c db = Inr (Accept True)" by (auto simp: q accepts)
    with Cons.IH [OF this(2)] show ?thesis by simp
  qed
qed simp

section \<open>What the checks keep\<close>

text \<open>The part of a transaction that the proof and the blockchain are about.\<close>

definition tx_core where
  "tx_core tx = (wt_tag_type tx, wt_param_level tx, wt_donation_fp tx, wt_zkproof tx, wt_refhash tx, wt_nout tx, wt_nin tx, append_data_of tx,
     map (\<lambda>t. (wi_S_serialnum t, wi_S_hashkey t, wi_no_serialnum t)) (wt_inputs tx),
     map (\<lambda>t. (wo_M_commitment t, wo_M_address t, wo_M_asset_enc t, wo_M_amount_enc t)) (wt_outputs tx))"

lemma map_update_same: "i < length xs \<Longrightarrow> f y = f (xs ! i) \<Longrightarrow> map f (xs[i := y]) = map f xs"
  by (metis list_update_id map_update)

lemma tx_read_accepts:
  "tx_read B hash msg = Inr (Accept tx) \<Longrightarrow> \<exists>w. tx_from_wire B hash msg (obj_size (message_object msg)) = Inr w \<and> tx = vtx_of w"
  by (auto simp: tx_read_def split: sum.splits cc_error.splits)

lemma check_header_accepts:
  assumes "check_header P tx = Inr (Accept tx')"
  shows "tx_core tx' = tx_core tx" "supported_type (wt_tag_type tx)" "wt_tag_type tx = CC_TYPE_MINT \<Longrightarrow> wt_nin tx = 1"
proof -
  have "tx' = (if wt_nout tx = 0 then tx\<lparr>vt_source_chain := vp_blockchain P, wt_allow_restricted_addresses := 0\<rparr>
      else tx\<lparr>vt_source_chain := vp_blockchain P\<rparr>)"
    and "supported_type (wt_tag_type tx) \<and> (wt_tag_type tx = CC_TYPE_MINT \<longrightarrow> wt_nin tx = 1)"
    using assms by (simp_all add: check_header_def Let_def accepts Implement_CCMint_def)
  then show "tx_core tx' = tx_core tx" "supported_type (wt_tag_type tx)" "wt_tag_type tx = CC_TYPE_MINT \<Longrightarrow> wt_nin tx = 1"
    by (simp_all add: tx_core_def append_data_of_def)
qed

lemma set_output_domain_core [simp]:
  "wo_M_commitment (set_output_domain P t) = wo_M_commitment t" "wo_M_address (set_output_domain P t) = wo_M_address t"
  "wo_M_asset_enc (set_output_domain P t) = wo_M_asset_enc t" "wo_M_amount_enc (set_output_domain P t) = wo_M_amount_enc t"
  by (simp_all add: set_output_domain_def Let_def)

definition outputs_ok :: "val_params \<Rightarrow> nat set \<Rightarrow> vtx \<Rightarrow> bool" where
  "outputs_ok P S tx \<longleftrightarrow> (\<forall>i\<in>S. i < length (wt_outputs tx) \<and> output_supported P (wt_tag_type tx = CC_TYPE_MINT) (wt_outputs tx ! i))"

definition inputs_ok :: "nat set \<Rightarrow> vtx \<Rightarrow> bool" where
  "inputs_ok S tx \<longleftrightarrow> (\<forall>i\<in>S. i < length (wt_inputs tx) \<and> input_supported (wt_tag_type tx = CC_TYPE_MINT) (wt_inputs tx ! i))"

lemma output_step_core:
  "i < length (wt_outputs tx) \<Longrightarrow> tx_core (tx\<lparr>wt_outputs := (wt_outputs tx)[i := set_output_domain P (wt_outputs tx ! i)]\<rparr>) = tx_core tx"
  by (simp add: tx_core_def append_data_of_def map_update_same)

lemma check_outputs_accepts:
  "check_outputs P is n tx = Inr (Accept (n', tx')) \<Longrightarrow> distinct is \<Longrightarrow> outputs_ok P D tx \<Longrightarrow> D \<inter> set is = {} \<Longrightarrow>
     tx_core tx' = tx_core tx \<and> outputs_ok P (D \<union> set is) tx' \<and> n' = n + of_nat (length is) \<and> wt_inputs tx' = wt_inputs tx"
proof (induction "is" arbitrary: n tx D)
  case Nil
  then show ?case by simp
next
  case (Cons i "is")
  define t where "t = set_output_domain P (wt_outputs tx ! i)"
  from Cons.prems(1) have i: "i < length (wt_outputs tx)" and ok: "output_supported P (wt_tag_type tx = CC_TYPE_MINT) t"
    and rest: "check_outputs P is (n + (wo_repeat_count t + 1)) (tx\<lparr>wt_outputs := (wt_outputs tx)[i := t]\<rparr>) = Inr (Accept (n', tx'))"
    by (auto simp: accepts Let_def t_def output_supported_def split: if_splits)
  have "outputs_ok P (insert i D) (tx\<lparr>wt_outputs := (wt_outputs tx)[i := t]\<rparr>)"
    using Cons.prems(2-4) i ok by (auto simp: outputs_ok_def nth_list_update)
  from Cons.IH [OF rest _ this] Cons.prems(2,4) ok output_step_core [OF i, of P]
  show ?case by (auto simp: t_def output_supported_def algebra_simps)
qed

lemma check_inputs_accepts:
  "check_inputs P is tx = Inr (Accept tx') \<Longrightarrow> distinct is \<Longrightarrow> inputs_ok D tx \<Longrightarrow> D \<inter> set is = {} \<Longrightarrow>
     tx_core tx' = tx_core tx \<and> inputs_ok (D \<union> set is) tx' \<and> wt_outputs tx' = wt_outputs tx"
proof (induction "is" arbitrary: tx D)
  case Nil
  then show ?case by simp
next
  case (Cons i "is")
  define t where "t = (if wi_M_domain (wt_inputs tx ! i) = 0 \<and> wt_tag_type tx \<noteq> CC_TYPE_MINT
    then (wt_inputs tx ! i)\<lparr>wi_M_domain := vp_default_domain P\<rparr> else wt_inputs tx ! i)"
  let ?tx = "tx\<lparr>wt_inputs := (wt_inputs tx)[i := t]\<rparr>"
  from Cons.prems(1) have i: "i < length (wt_inputs tx)" and ok: "input_supported (wt_tag_type tx = CC_TYPE_MINT) t"
    and rest: "check_inputs P is ?tx = Inr (Accept tx')"
    by (auto simp: accepts Let_def t_def split: if_splits)
  have "inputs_ok (insert i D) ?tx" using Cons.prems(2-4) i ok by (auto simp: inputs_ok_def nth_list_update)
  moreover have "tx_core ?tx = tx_core tx" using i by (simp add: tx_core_def append_data_of_def map_update_same t_def)
  ultimately show ?case using Cons.IH [OF rest, of "insert i D"] Cons.prems(2,4) by auto
qed

text \<open>The donation is the least that the type and the size ask for, or the largest that can be written.\<close>

definition donates_enough :: "bigops \<Rightarrow> val_params \<Rightarrow> nat \<Rightarrow> nat \<Rightarrow> vtx \<Rightarrow> bool" where
  "donates_enough B P tx_size total_nout tx \<longleftrightarrow>
     (\<exists>donation. tx_amount_decode B (wt_donation_fp tx) True TX_DONATION_BITS TX_AMOUNT_EXPONENT_BITS = Inr donation \<and>
        \<not> op_less B donation (txpay_min_donation B P tx_size total_nout (wt_nin tx))) \<or> wt_donation_fp tx \<ge> TX_DONATION_MASK"

lemma ValidateXreq_core:
  "ValidateXreq B U V P pbt inblock tx xreq donation tx_size nout db = Inr (Accept tx') \<Longrightarrow>
     tx' = tx\<lparr>vt_amount_carry_out := xreq_carry_out B xreq\<rparr>"
  by (auto simp: ValidateXreq_def accepts bind_outcome_eq_Inr Let_def split: if_splits)

lemma check_type_accepts:
  assumes "check_type B U V I P pbt inblock tx_size nout donation tx db = Inr (Accept (tx', xtx, already))"
  shows "tx_core tx' = tx_core tx \<and> wt_inputs tx' = wt_inputs tx \<and> wt_outputs tx' = wt_outputs tx"
    "wt_tag_type tx = CC_TYPE_TXPAY \<Longrightarrow> op_less B donation (txpay_min_donation B P tx_size nout (wt_nin tx)) \<Longrightarrow>
       wt_donation_fp tx \<ge> TX_DONATION_MASK"
  using assms ValidateXreq_core
  by (auto simp: check_type_def Let_def accepts tx_core_def append_data_of_def TypeIsXpay_def TypeIsXreq_def TypeIsXtx_def cc_types
      split: if_splits option.splits xtx.splits dest!: ValidateXreq_core)

text \<open>The Merkle root of the level was replaced longer ago than a transaction may still use it.\<close>

definition root_too_old :: "('db, 'f) valops \<Rightarrow> val_params \<Rightarrow> u64 \<Rightarrow> u64 \<Rightarrow> 'db \<Rightarrow> bool" where
  "root_too_old V P now lvl db \<longleftrightarrow>
     (let (rc, t, root) = vo_CommitRootsSelectLevel V (lvl + 1) True db in rc = 0 \<and> sint (now - t) > vp_max_param_age P)"

lemma check_params_accepts:
  assumes "check_params V P now tx db = Inr (Accept tx')"
  shows "tx_core tx' = tx_core tx" "wt_outputs tx' = wt_outputs tx"
    "(\<exists>t. vo_CommitRootsSelectLevel V (wt_param_level tx) False db = (0, t, wt_tx_merkle_root tx'))"
    "\<not> TypeHasBareMsg (wt_tag_type tx) \<Longrightarrow> \<not> root_too_old V P now (wt_param_level tx) db"
    "inputs_ok {..<wt_nin tx} tx \<Longrightarrow> inputs_ok {..<wt_nin tx} tx'"
    "wt_tag_type tx \<noteq> CC_TYPE_MINT \<Longrightarrow> i < wt_nin tx \<Longrightarrow> i < length (wt_inputs tx) \<Longrightarrow> wi_merkle_root (wt_inputs tx' ! i) = wt_tx_merkle_root tx'"
proof -
  obtain rc t r where q: "vo_CommitRootsSelectLevel V (wt_param_level tx + 1) True db = (rc, t, r)"
    by (cases "vo_CommitRootsSelectLevel V (wt_param_level tx + 1) True db")
  obtain rc2 t2 r2 where q2: "vo_CommitRootsSelectLevel V (wt_param_level tx) False db = (rc2, t2, r2)"
    by (cases "vo_CommitRootsSelectLevel V (wt_param_level tx) False db")
  let ?ins = "map (set_input_params P (wt_tag_type tx = CC_TYPE_MINT) r2) (take (wt_nin tx) (wt_inputs tx)) @ drop (wt_nin tx) (wt_inputs tx)"
  obtain pt where tx': "tx' = tx\<lparr>wt_tx_merkle_root := r2, vt_param_time := pt, vt_outvalmin := vp_outvalmin P, vt_outvalmax := vp_outvalmax P,
      wt_inputs := ?ins\<rparr>"
    and rcs: "\<not> rc < 0" "rc2 = 0" "\<not> (sint (now - (if rc \<noteq> 0 then now else t)) > vp_max_param_age P \<and> \<not> TypeHasBareMsg (wt_tag_type tx))"
    using assms by (auto simp: check_params_def q q2 Let_def accepts)
  have f: "map (\<lambda>t. (wi_S_serialnum t, wi_S_hashkey t, wi_no_serialnum t)) ?ins =
      map (\<lambda>t. (wi_S_serialnum t, wi_S_hashkey t, wi_no_serialnum t)) (wt_inputs tx)"
    by (subst (3) append_take_drop_id [symmetric, of _ "wt_nin tx"], unfold map_append)
      (simp add: set_input_params_def comp_def del: append_take_drop_id)
  then show "tx_core tx' = tx_core tx" by (simp add: tx_core_def tx' append_data_of_def del: map_append)
  show "wt_outputs tx' = wt_outputs tx" by (simp add: tx')
  show "\<exists>t. vo_CommitRootsSelectLevel V (wt_param_level tx) False db = (0, t, wt_tx_merkle_root tx')"
    by (simp add: q2 tx' rcs)
  show "\<not> TypeHasBareMsg (wt_tag_type tx) \<Longrightarrow> \<not> root_too_old V P now (wt_param_level tx) db"
    using rcs by (auto simp: root_too_old_def q)
  have nth: "?ins ! i = (if i < wt_nin tx then set_input_params P (wt_tag_type tx = CC_TYPE_MINT) r2 (wt_inputs tx ! i) else wt_inputs tx ! i)"
    if "i < length (wt_inputs tx)" for i
    using that by (simp add: nth_append)
  show "inputs_ok {..<wt_nin tx} tx \<Longrightarrow> inputs_ok {..<wt_nin tx} tx'"
    by (auto simp: inputs_ok_def tx' nth set_input_params_def input_supported_def)
  show "wt_tag_type tx \<noteq> CC_TYPE_MINT \<Longrightarrow> i < wt_nin tx \<Longrightarrow> i < length (wt_inputs tx) \<Longrightarrow>
      wi_merkle_root (wt_inputs tx' ! i) = wt_tx_merkle_root tx'"
    by (simp add: tx' nth_append set_input_params_def)
qed

section \<open>Acceptance\<close>

lemma tx_core_fields:
  "tx_core tx' = tx_core tx \<Longrightarrow> wt_tag_type tx' = wt_tag_type tx \<and> wt_param_level tx' = wt_param_level tx \<and> wt_donation_fp tx' = wt_donation_fp tx \<and>
     wt_nout tx' = wt_nout tx \<and> wt_nin tx' = wt_nin tx \<and> length (wt_inputs tx') = length (wt_inputs tx)"
  by (auto simp: tx_core_def dest: map_eq_imp_length_eq)

text \<open>The transaction as it is when its proof is verified, and the serial numbers that are checked.\<close>

definition proved_tx ::
  "bigops \<Rightarrow> ('db, 'f) valops \<Rightarrow> val_params \<Rightarrow> u64 \<Rightarrow> nat \<Rightarrow> vtx \<Rightarrow> 'db \<Rightarrow> bool" where
  "proved_tx B V P now tx_size tx db \<longleftrightarrow>
     supported_type (wt_tag_type tx) \<and> outputs_ok P {..<wt_nout tx} tx \<and> inputs_ok {..<wt_nin tx} tx \<and>
     (\<exists>t. vo_CommitRootsSelectLevel V (wt_param_level tx) False db = (0, t, wt_tx_merkle_root tx)) \<and>
     (wt_tag_type tx \<noteq> CC_TYPE_MINT \<longrightarrow> (\<forall>i<wt_nin tx. wi_merkle_root (wt_inputs tx ! i) = wt_tx_merkle_root tx)) \<and>
     (\<not> TypeHasBareMsg (wt_tag_type tx) \<longrightarrow> \<not> vo_VerifyProof V tx \<and> \<not> root_too_old V P now (wt_param_level tx) db) \<and>
     (wt_tag_type tx = CC_TYPE_TXPAY \<longrightarrow> donates_enough B P tx_size (wt_nout tx) tx)"

definition serials_accepted :: "('db, 'f) valops \<Rightarrow> nat \<Rightarrow> txpay \<Rightarrow> 'db \<Rightarrow> bool" where
  "serials_accepted V r pay db \<longleftrightarrow>
     (let ts = take (tp_nin pay) (tp_inputs pay)
      in distinct (map S_serialnum ts) \<and>
         (if r = 0 then \<forall>t\<in>set ts. serial_found V db t > 0 else r = 1 \<and> (\<forall>t\<in>set ts. spent_with_key V db t)))"

lemma check_serials_accepted:
  "check_serials V [] (take (tp_nin pay) (tp_inputs pay)) False False 0 db = Inr (Accept spent) \<Longrightarrow>
     serials_accepted V (if spent then 1 else 0) pay db"
  by (cases spent) (auto simp: serials_accepted_def Let_def check_serials_unspent dest!: check_serials_spent)

lemma check_spent_accepts:
  assumes "check_spent U V I now inblock tx xtx already msg db = Inr (Accept (r, pay))"
  shows "CheckCreatePseudoSerialnum I (pay_of tx) xtx msg False = Inr pay \<and> serials_accepted V r pay db"
proof -
  from assms obtain p spent where p: "CheckCreatePseudoSerialnum I (pay_of tx) xtx msg False = Inr p"
    and s: "check_serials V [] (take (tp_nin p) (tp_inputs p)) False False 0 db = Inr (Accept spent)"
    and r: "(if spent then Inr (Accept (1, p)) else reject_if already TX_RESULT_ALREADY_PAID
       (case xtx of
          Some (XtxPay xpay) \<Rightarrow> bind_check (ValidateForeign U V now inblock xpay) (\<lambda>_. Inr (Accept (0, p)))
        | _ \<Rightarrow> Inr (Accept (0, p)))) = Inr (Accept (r, pay))"
    by (auto simp only: check_spent_def accepts bind_outcome_eq_Inr)
  from r have "pay = p \<and> r = (if spent then 1 else 0)" by (auto simp: accepts split: if_splits option.splits xtx.splits)
  with p check_serials_accepted [OF s] show ?thesis by simp
qed

lemma TxValidate_stages:
  fixes B hash U V I P txbuf msg pbt inblock db
  assumes "TxValidate B hash U V I P txbuf msg pbt inblock db = Inr (Accept (r, pay))" "\<not> vp_test_mal P"
  defines "now \<equiv> if pbt = 0 then vp_last_indelible_timestamp P else pbt"
  obtains tx1 tx2 tx3 tx4 tx5 tx6 n donation xtx already where
    "tx_read B hash msg = Inr (Accept tx1)" "check_header P tx1 = Inr (Accept tx2)"
    "check_outputs P [0..<wt_nout tx2] 0 tx2 = Inr (Accept (n, tx3))" "check_inputs P [0..<wt_nin tx3] tx3 = Inr (Accept tx4)"
    "tx_amount_decode B (wt_donation_fp tx4) True TX_DONATION_BITS TX_AMOUNT_EXPONENT_BITS = Inr donation"
    "check_type B U V I P now inblock (unat (8 + BodySize (message_object msg))) (unat n) donation tx4 db = Inr (Accept (tx5, xtx, already))"
    "check_params V P now tx5 db = Inr (Accept tx6)" "\<not> (\<not> TypeHasBareMsg (wt_tag_type tx6) \<and> vo_VerifyProof V tx6)"
    "(if wt_tag_type tx6 = CC_TYPE_MINT then Inr (Accept (0, pay_of tx6))
      else check_spent U V I now inblock tx6 xtx already msg db) = Inr (Accept (r, pay))"
  using assms(1,2) unfolding TxValidate_def Let_def now_def [symmetric]
  apply (simp only: accepts bind_outcome_eq_Inr split_paired_Ex prod.case if_False)
  apply (elim exE conjE)
  apply (rule that, assumption+)
  done

lemma proved_tx_stages:
  assumes r: "tx_read B hash msg = Inr (Accept tx1)" and h: "check_header P tx1 = Inr (Accept tx2)"
    and outs: "check_outputs P [0..<wt_nout tx2] 0 tx2 = Inr (Accept (n, tx3))"
    and ins: "check_inputs P [0..<wt_nin tx3] tx3 = Inr (Accept tx4)"
    and d: "tx_amount_decode B (wt_donation_fp tx4) True TX_DONATION_BITS TX_AMOUNT_EXPONENT_BITS = Inr donation"
    and t: "check_type B U V I P now inblock tx_size (unat n) donation tx4 db = Inr (Accept (tx5, xtx, already))"
    and p: "check_params V P now tx5 db = Inr (Accept tx6)" and z: "\<not> (\<not> TypeHasBareMsg (wt_tag_type tx6) \<and> vo_VerifyProof V tx6)"
    and small: "wt_nout tx1 < 2 ^ 32"
  shows "tx_core tx6 = tx_core tx1 \<and> proved_tx B V P now tx_size tx6 db"
proof -
  note 2 = check_header_accepts [OF h]
  have 3: "tx_core tx3 = tx_core tx2 \<and> outputs_ok P {..<wt_nout tx2} tx3 \<and> n = of_nat (wt_nout tx2)"
    using check_outputs_accepts [OF outs, of "{}"] by (simp add: outputs_ok_def atLeast0LessThan)
  have 4: "tx_core tx4 = tx_core tx3 \<and> inputs_ok {..<wt_nin tx3} tx4 \<and> wt_outputs tx4 = wt_outputs tx3"
    using check_inputs_accepts [OF ins, of "{}"] by (simp add: inputs_ok_def atLeast0LessThan)
  note 5 = check_type_accepts [OF t]
  note 6 = check_params_accepts [OF p]
  have c: "tx_core tx6 = tx_core tx5" "tx_core tx5 = tx_core tx4" "tx_core tx4 = tx_core tx1" "tx_core tx3 = tx_core tx1" "tx_core tx2 = tx_core tx1"
    using 2(1) 3 4 5(1) 6(1) by simp_all
  note f = c [THEN tx_core_fields]
  have o: "outputs_ok P {..<wt_nout tx6} tx6" using 3 4 5(1) 6(2) f by (simp add: outputs_ok_def)
  have i5: "inputs_ok {..<wt_nin tx5} tx5" using 4 5(1) f by (simp add: inputs_ok_def)
  have len: "i < length (wt_inputs tx5)" if "i < wt_nin tx5" for i using i5 that by (simp add: inputs_ok_def)
  have m: "\<forall>i<wt_nin tx6. wi_merkle_root (wt_inputs tx6 ! i) = wt_tx_merkle_root tx6" if "wt_tag_type tx6 \<noteq> CC_TYPE_MINT"
    using 6(6) len f that by simp
  have "unat n = wt_nout tx6" using 3 f small by (simp add: unat_of_nat)
  then have don: "donates_enough B P tx_size (wt_nout tx6) tx6" if "wt_tag_type tx6 = CC_TYPE_TXPAY"
    using 5(2) d f that by (auto simp: donates_enough_def)
  show ?thesis unfolding proved_tx_def using 2(2) 6(3,4,5) o i5 m don z c f by auto
qed


text \<open>A message that claims the payment of a match, with a database of spent serial numbers.\<close>

definition val_msg :: "byte list" where
  "val_msg = [60, 0, 0, 0, 1, 0, 24, 204] @ replicate 48 0 @ [1, 2, 3, 4]"

definition val_xpay :: "int xpay" where
  "val_xpay = \<lparr>xp_match_left_to_pay = 0, xp_foreign_amount = 3000, xp_foreign_amount_fp = 0, xp_xmatchnum = 1, xp_match_timestamp = 0,
     xp_foreign_blockchain = 0, xp_foreign_confirmations_required = 0, xp_payment_time = 0, xp_foreign_block_id = ''b'', xp_foreign_txid = ''t'',
     xp_foreign_address = []\<rparr>"

definition val_match :: "int xmatch" where
  "val_match = sample_match\<lparr>xm_status := XMATCH_STATUS_ACCEPTED, xm_have_xreqs := True, xm_match_timestamp := 600,
     xm_xsell := (xm_xsell sample_match)\<lparr>mr_quote_asset := 2, mr_foreign_address := ''a'', mr_confirmations := 2, mr_payment_time := 900\<rparr>\<rparr>"

definition val_ops :: "(bigint list, int) valops" where
  "val_ops = \<lparr>vo_XmatchSelect = (\<lambda>n db. (0, val_match)), vo_XreqsSelectUniqueForeignAddress = (\<lambda>c a db. 1),
     vo_XmatchingreqUniqueForeignAddressSelect = (\<lambda>t c a db. 1), vo_XcxBlockedForeignAddressSelect = (\<lambda>c a db. 1),
     vo_CommitRootsSelectLevel = (\<lambda>l next db. (if next then 1 else 0, 500, big_of_nat 7)),
     vo_SerialnumSelect = (\<lambda>s db. (if s \<in> set db then 0 else 1, None, 0)), vo_QueryAddress = (\<lambda>c a. 0),
     vo_QueryPayment = (\<lambda>c b a t. (0, \<lparr>fq_amount = 3000, fq_blocktime = 700, fq_confirmations = 2, fq_memo = []\<rparr>)),
     vo_IgnoreError = (\<lambda>c b. False), vo_siphash = (\<lambda>d k. 0), vo_wire_round = (\<lambda>x. x), vo_VerifyProof = (\<lambda>tx. False)\<rparr>"

definition val_index :: "(bigint list, int) indexops" where
  "val_index = serial_ops\<lparr>ix_xtx_from_wire := (\<lambda>t m. Some (XtxPay val_xpay)), ix_obj_type := (\<lambda>m. CC_TYPE_XCX_PAYMENT)\<rparr>"

definition val_pars :: val_params where
  "val_pars = \<lparr>vp_blockchain = 1, vp_default_domain = 1, vp_max_param_age = 100, vp_xcx_naked_buy_work_difficulty = 0, vp_test_mal = False,
     vp_transact_enabled = True, vp_last_indelible_timestamp = 800, vp_minimum_donation = big_of_nat 0, vp_donation_per_tx = big_of_nat 0,
     vp_donation_per_byte = big_of_nat 0, vp_donation_per_output = big_of_nat 0, vp_donation_per_input = big_of_nat 0,
     vp_donation_per_xcx_req = big_of_nat 0, vp_outvalmin = 0, vp_outvalmax = 31, vp_invalmax = 31\<rparr>"

lemma refhash_tx_init: "\<not> big_true (wt_refhash tx_init)"
  by (simp add: tx_init_def big_true_iff bval_big_of_nat)

definition val_wtx :: wtx where
  "val_wtx = tx_init\<lparr>wt_tag_type := CC_TYPE_XCX_PAYMENT, wt_tx_type := CC_TYPE_XCX_PAYMENT, wt_wire_tag := CC_TAG_XCX_PAYMENT,
     wt_append_wire_offset := 56, wt_append_data_length := 4, wt_append_data := [1, 2, 3, 4] @ replicate 508 0, wt_refhash := big_of_nat 5\<rparr>"

definition val_tx :: vtx where
  "val_tx = (vtx_of val_wtx)\<lparr>vt_source_chain := 1, wt_allow_restricted_addresses := 0\<rparr>"

definition val_paid :: "int xpay" where
  "val_paid = SetMatchFieldsinXpay int_ufops val_match val_xpay"

lemma val_from_wire: "tx_from_wire limb_bigops (\<lambda>m. big_of_nat 5) val_msg 60 = Inr val_wtx"
  by (simp add: tx_from_wire_def tx_add_from_wire_def get_u32_def get_bytes_def copy_from_bufl_def Let_def val_msg_def ObjType_def WireTag_def
      cc_tags type_consts CC_TYPE_VOID_def CC_TYPE_BLOCK_def HasPOW_def TX_POW_SIZE_def TypeHasBareMsg_def get_append_def TypeIsXtx_def
      TX_MAX_APPEND_def refhash_tx_init val_wtx_def)

lemma val_tx_fields: "wt_tag_type val_tx = 12" "wt_nout val_tx = 0" "wt_nin val_tx = 0" "wt_donation_fp val_tx = 0" "wt_param_level val_tx = 0"
  "wt_inputs val_tx = replicate 8 clear_wtxin"
  by (simp_all add: val_tx_def vtx_of_def wtx.defs val_wtx_def tx_init_def type_consts TX_WIRE_MAXIN_def)

lemma val_paid_fields: "xp_foreign_blockchain val_paid = 2" "xp_foreign_address val_paid = ''a''" "xp_foreign_confirmations_required val_paid = 2"
  "xp_payment_time val_paid = 900" "xp_match_timestamp val_paid = 600" "xp_foreign_txid val_paid = ''t''" "xp_foreign_block_id val_paid = ''b''"
  "xp_foreign_amount val_paid = 3000"
  by (simp_all add: val_paid_def SetMatchFieldsinXpay_def val_match_def val_xpay_def)

lemma val_read: "tx_read limb_bigops (\<lambda>m. big_of_nat 5) val_msg = Inr (Accept (vtx_of val_wtx))"
  using val_from_wire by (simp add: tx_read_def message_object_def val_msg_def)

lemma val_header: "check_header val_pars (vtx_of val_wtx) = Inr (Accept val_tx)"
  by (simp add: check_header_def Let_def vtx_of_def wtx.defs val_tx_def val_wtx_def tx_init_def supported_type_def type_consts reject_if_def
      val_pars_def vtx.defs)

lemma val_type:
  "check_type limb_bigops int_ufops val_ops val_index val_pars 800 False n m d val_tx [] = Inr (Accept (val_tx, Some (XtxPay val_paid), False))"
  using val_paid_fields unfolding val_paid_def
  by (simp add: check_type_def Let_def val_tx_fields TypeIsXtx_def TypeIsXpay_def type_consts val_index_def ValidateXpay_def
      reject_if_def val_ops_def XREQ_BLOCKCHAIN_MAX_def XREQ_BLOCKCHAIN_BCH_def)
    (simp add: val_xpay_def val_match_def status_consts uf_le_def uf_zero_def int_ufops_def)

lemma val_limits: "vp_last_indelible_timestamp val_pars = 800" "\<not> vp_test_mal val_pars"
  by (simp_all add: val_pars_def)

lemma val_accepted:
  "\<exists>pay. TxValidate limb_bigops (\<lambda>m. big_of_nat 5) int_ufops val_ops val_index val_pars serial_tx val_msg 0 False [] = Inr (Accept (0, pay))"
proof -
  obtain tx where p: "check_params val_ops val_pars 800 val_tx [] = Inr (Accept tx)" and f: "wt_tag_type tx = 12" "wt_nin tx = 0"
      "wt_inputs tx = replicate 8 clear_wtxin"
    by (simp add: check_params_def val_ops_def val_tx_fields reject_if_def TypeHasBareMsg_def type_consts Let_def val_pars_def)
  obtain pay where c: "CheckCreatePseudoSerialnum val_index (pay_of tx) (Some (XtxPay val_paid)) val_msg False = Inr pay" and n: "tp_nin pay = 1"
    by (simp add: CheckCreatePseudoSerialnum_def Let_def pay_of_def f type_consts TypeIsXreq_def TypeIsCrosschain_def TX_MAXIN_def val_index_def
        TypeIsXpay_def ComputePaymentIdHash_def val_paid_fields)
  have s: "check_serials val_ops [] (take (tp_nin pay) (tp_inputs pay)) False False 0 [] = Inr (Accept False)"
    by (cases "tp_inputs pay") (simp_all add: n reject_if_def val_ops_def)
  have v: "ValidateForeign int_ufops val_ops 800 False val_paid = Inr (Accept ())"
    by (simp add: ValidateForeign_def val_paid_fields val_ops_def reject_if_def Let_def XREQ_BLOCKCHAIN_MAX_def XREQ_BLOCKCHAIN_BCH_def int_ufops_def
        FOREIGN_TX_PAST_ALLOWANCE_def FOREIGN_TX_FUTURE_ALLOWANCE_def)
  have "check_spent int_ufops val_ops val_index 800 False tx (Some (XtxPay val_paid)) False val_msg [] = Inr (Accept (0, pay))"
    by (simp add: check_spent_def c s v reject_if_def)
  then show ?thesis
    by (simp add: TxValidate_def val_read val_header val_tx_fields val_type p f reject_if_def TypeHasBareMsg_def type_consts tx_amount_decode_def
        TX_AMOUNT_EXPONENT_BITS_def val_limits)
qed


section \<open>Rejections\<close>

text \<open>A check that rejects only with results that have a message.\<close>

definition explained :: "'a verdict outcome \<Rightarrow> bool" where
  "explained r \<longleftrightarrow> (\<forall>c. r = Inr (Reject c) \<longrightarrow> c < 0 \<and> ResultString c \<noteq> None)"

named_theorems explains

lemma results_explained [explains]:
  "explained (Inr (Reject TX_RESULT_PARAM_LEVEL_TOO_OLD))" "explained (Inr (Reject TX_RESULT_EXPIRED))"
  "explained (Inr (Reject TX_RESULT_ALREADY_SPENT))" "explained (Inr (Reject TX_RESULT_ADDRESS_IN_USE))"
  "explained (Inr (Reject TX_RESULT_ALREADY_PAID))" "explained (Inr (Reject TX_RESULT_FOREIGN_ERROR))"
  "explained (Inr (Reject TX_RESULT_INTERNAL_ERROR))" "explained (Inr (Reject TX_RESULT_SERVER_ERROR))"
  "explained (Inr (Reject TX_RESULT_PARAM_LEVEL_INVALID))" "explained (Inr (Reject TX_RESULT_DUPLICATE_SERIALNUM))"
  "explained (Inr (Reject TX_RESULT_BINARY_DATA_INVALID))" "explained (Inr (Reject TX_RESULT_OPTION_NOT_SUPPORTED))"
  "explained (Inr (Reject TX_RESULT_INSUFFICIENT_DONATION))" "explained (Inr (Reject TX_RESULT_PROOF_VERIFICATION_FAILED))"
  "explained (Inr (Reject TX_RESULT_FOREIGN_VERIFICATION_FAILED))" "explained (Inr (Reject TX_RESULT_INVALID_VALUE))"
  by (simp_all add: explained_def tx_results ResultString_def tx_result_warn_strings_def tx_result_stop_strings_def Let_def)

lemma explained_Accept [explains]: "explained (Inr (Accept x))" "explained (Inl e)"
  by (simp_all add: explained_def)

lemma explained_reject_if [explains]: "explained (Inr (Reject c) :: 'a verdict outcome) \<Longrightarrow> explained r \<Longrightarrow> explained (reject_if b c (r :: 'a verdict outcome))"
  by (simp add: reject_if_def)

lemma explained_bind_check [explains]: "explained r \<Longrightarrow> (\<And>x. explained (f x)) \<Longrightarrow> explained (bind_check r f)"
proof (cases r)
  case (Inr v)
  then show "explained r \<Longrightarrow> (\<And>x. explained (f x)) \<Longrightarrow> ?thesis" by (cases v) (auto simp: explained_def)
qed (simp add: bind_check_def explained_def)

lemma explained_bind_outcome [explains]: "(\<And>x. explained (f x)) \<Longrightarrow> explained (bind_outcome r f)"
  by (auto simp: explained_def bind_outcome_eq_Inr)

lemma explained_cases [explains]:
  "explained r \<Longrightarrow> explained s \<Longrightarrow> explained (if b then r else s)"
  "(\<And>a b. explained (g a b)) \<Longrightarrow> explained (case p of (a, b) \<Rightarrow> g a b)"
  "explained n \<Longrightarrow> (\<And>x. explained (f x)) \<Longrightarrow> explained (case q of None \<Rightarrow> n | Some x \<Rightarrow> f x)"
  "(\<And>x. explained (h x)) \<Longrightarrow> (\<And>x. explained (k x)) \<Longrightarrow> explained m \<Longrightarrow> explained (case t of XtxReq x \<Rightarrow> h x | XtxPay x \<Rightarrow> k x | XtxOther \<Rightarrow> m)"
  by (simp_all split: prod.splits option.splits xtx.splits)

lemma check_serials_explained [explains]: "explained (check_serials V before ts sp nf c db)"
  by (induction ts arbitrary: before sp nf c) (auto simp: Let_def intro!: explains)

lemma check_outputs_explained [explains]: "explained (check_outputs P is n tx)"
  by (induction "is" arbitrary: n tx) (auto simp: Let_def intro!: explains)

lemma check_inputs_explained [explains]: "explained (check_inputs P is tx)"
  by (induction "is" arbitrary: tx) (auto simp: Let_def intro!: explains)

lemma tx_read_explained [explains]: "explained (tx_read B hash msg)"
  by (auto simp: tx_read_def intro: explains split: sum.splits cc_error.splits)

lemma stages_explained [explains]:
  "explained (check_header P tx)" "explained (check_params V P now tx db)" "explained (ValidateXpay U V now xpay db)"
  "explained (ValidateForeign U V now inblock xpay)" "explained (xreq_values_check B U P xreq)"
  "explained (foreign_address_check V P now inblock xreq db)"
  unfolding check_header_def check_params_def ValidateXpay_def ValidateForeign_def xreq_values_check_def foreign_address_check_def Let_def
  by (intro explains)+

lemma ValidateXreq_explained [explains]: "explained (ValidateXreq B U V P now inblock tx xreq donation tx_size nout db)"
  unfolding ValidateXreq_def Let_def by (intro explains)

lemma check_type_explained [explains]: "explained (check_type B U V I P now inblock tx_size nout donation tx db)"
  unfolding check_type_def Let_def by (intro explains)

lemma check_spent_explained [explains]: "explained (check_spent U V I now inblock tx xtx already msg db)"
  unfolding check_spent_def by (intro explains)

text \<open>
  C39. Whenever a transaction is rejected, the result is negative and is one for which there is a message: the result
  that reaches the sender of the transaction is never without explanation.
\<close>

theorem TxValidate_explained:
  assumes "TxValidate B hash U V I P txbuf msg prior_blocktime inblock db = Inr (Reject c)"
  shows "c < 0 \<and> ResultString c \<noteq> None"
proof -
  have "explained (TxValidate B hash U V I P txbuf msg prior_blocktime inblock db)"
    unfolding TxValidate_def Let_def by (intro explains)
  then show ?thesis using assms by (simp add: explained_def)
qed

theorem TxValidate_explained_witness:
  "TxValidate limb_bigops (\<lambda>m. big_of_nat 5) int_ufops val_ops val_index val_pars serial_tx [] 0 False [] =
     Inr (Reject TX_RESULT_BINARY_DATA_INVALID) \<and> ResultString TX_RESULT_BINARY_DATA_INVALID \<noteq> None"
proof -
  have "tx_from_wire limb_bigops (\<lambda>m. big_of_nat 5) [] 0 = Inl (WireError (-1))"
    by (simp add: tx_from_wire_def tx_add_from_wire_def get_u32_def get_bytes_def copy_from_bufl_def Let_def
        ObjType_def WireTag_def cc_tags cc_types)
  then have "TxValidate limb_bigops (\<lambda>m. big_of_nat 5) int_ufops val_ops val_index val_pars serial_tx [] 0 False [] =
      Inr (Reject TX_RESULT_BINARY_DATA_INVALID)"
    by (simp add: TxValidate_def val_limits tx_read_def message_object_def)
  from TxValidate_explained [OF this] this show ?thesis by simp
qed

end
