(* ===== verification/Process_Q.thy ===== *)
theory Process_Q
  imports Blocks
begin

text \<open>
  The queues of objects that wait for validation (ccnode/src/dbconn-processq.cpp, ccnode/src/process_queue.h): the
  table \<open>Process_Q\<close> with the statements prepared for it, the counter of queued work, and the callbacks to the
  connections.

  A row has the columns of the table; \<open>None\<close> is SQL's null. The statements are written out as
  operations on the list of rows; which of them fail is a parameter, and so is the id of the object at
  an address. Connection and callback numbers are natural numbers. A queue holds one reference to the
  buffer of each of its objects; \<open>pq_refs\<close> counts them.
\<close>

section \<open>The table\<close>

definition PROCESS_Q_TYPE_BLOCK :: nat where "PROCESS_Q_TYPE_BLOCK = 0"
definition PROCESS_Q_TYPE_TX :: nat where "PROCESS_Q_TYPE_TX = 1"
definition PROCESS_Q_N :: nat where "PROCESS_Q_N = 2"
definition PROCESS_Q_STATUS_PENDING :: u32 where "PROCESS_Q_STATUS_PENDING = 0"
definition PROCESS_Q_STATUS_HOLD :: u32 where "PROCESS_Q_STATUS_HOLD = 1"
definition PROCESS_Q_STATUS_VALID :: u32 where "PROCESS_Q_STATUS_VALID = 2"
definition PROCESS_Q_STATUS_INVALID :: u32 where "PROCESS_Q_STATUS_INVALID = 3"
definition PROCESS_Q_STATUS_DONE_FLAG :: u32 where "PROCESS_Q_STATUS_DONE_FLAG = 4"
definition PROCESS_Q_PRIORITY_BLOCK_HI :: int where "PROCESS_Q_PRIORITY_BLOCK_HI = 0"
definition PROCESS_Q_PRIORITY_BLOCK_TX :: int where "PROCESS_Q_PRIORITY_BLOCK_TX = 2"
definition PROCESS_Q_PRIORITY_TX :: int where "PROCESS_Q_PRIORITY_TX = 6"

lemmas pq_status = PROCESS_Q_STATUS_PENDING_def PROCESS_Q_STATUS_HOLD_def PROCESS_Q_STATUS_VALID_def PROCESS_Q_STATUS_INVALID_def
  PROCESS_Q_STATUS_DONE_FLAG_def

record pq_row =
  pr_ObjId :: "byte list"
  pr_PriorOid :: "byte list option"
  pr_Level :: "int option"
  pr_AuxInt :: int
  pr_ConnId :: nat
  pr_CallbackId :: nat
  pr_Bufp :: addr
  pr_Status :: u32
  pr_Priority :: int
  pr_Seqnum :: int

datatype pq_stmt = Q_insert | Q_update_queue | Q_select | Q_select_next | Q_update | Q_update_priorobj | Q_clear | Q_count | Q_randomize
  | Q_done | Q_select_level | Q_delete

record procq =
  pq_rows :: "pq_row list"
  pq_sequence :: int
  pq_work :: int
  pq_notified :: nat
  pq_refs :: "addr \<Rightarrow> int"
  pq_callbacks :: "(int \<times> nat \<times> nat \<times> int) list"

text \<open>The order of the rows: priority, higher levels first and rows without a level last, sequence number.\<close>

definition pq_order :: "pq_row list \<Rightarrow> pq_row list" where
  "pq_order rows = sort_key pr_Priority (sort_key (\<lambda>r. if pr_Level r = None then 1 else 0 :: nat)
     (sort_key (\<lambda>r. - the (pr_Level r)) (sort_key pr_Seqnum rows)))"

definition select_next :: "u32 \<Rightarrow> nat \<Rightarrow> pq_row list \<Rightarrow> pq_row option" where
  "select_next status offset rows =
     (let rs = pq_order (filter (\<lambda>r. pr_Status r = status) rows) in if offset < length rs then Some (rs ! offset) else None)"

definition sql_update :: "(pq_row \<Rightarrow> bool) \<Rightarrow> (pq_row \<Rightarrow> pq_row) \<Rightarrow> pq_row list \<Rightarrow> nat \<times> pq_row list" where
  "sql_update P f rows = (length (filter P rows), map (\<lambda>r. if P r then f r else r) rows)"

definition sql_delete :: "(pq_row \<Rightarrow> bool) \<Rightarrow> pq_row list \<Rightarrow> nat \<times> pq_row list" where
  "sql_delete P rows = (length (filter P rows), filter (\<lambda>r. \<not> P r) rows)"

definition level_below :: "int \<Rightarrow> pq_row \<Rightarrow> bool" where
  "level_below lvl r \<longleftrightarrow> (case pr_Level r of None \<Rightarrow> False | Some l \<Rightarrow> l < lvl)"

section \<open>Queued work\<close>

definition IncrementQueuedWork :: "nat \<Rightarrow> procq \<Rightarrow> procq" where
  "IncrementQueuedWork changes q =
     q\<lparr>pq_work := pq_work q + int changes, pq_notified := pq_notified q + (if pq_work q \<le> 0 then changes else 0)\<rparr>"

definition StopQueuedWork :: "procq \<Rightarrow> procq" where
  "StopQueuedWork q = q\<lparr>pq_work := (2 ^ 31 - 1) div 2\<rparr>"

text \<open>The attempt to take work that each pass of \<open>WaitForQueuedWork\<close> makes.\<close>

definition take_work :: "procq \<Rightarrow> bool \<times> procq" where
  "take_work q = (if pq_work q > 0 then (True, q\<lparr>pq_work := pq_work q - 1\<rparr>) else (False, q))"

section \<open>Operations\<close>

definition update_queued :: "int \<Rightarrow> int \<Rightarrow> bool \<Rightarrow> nat \<Rightarrow> nat \<Rightarrow> pq_row \<Rightarrow> pq_row" where
  "update_queued priority seqnum is_block_tx conn_index callback_id r =
     r\<lparr>pr_Priority := min (pr_Priority r) priority, pr_Seqnum := max (pr_Seqnum r) seqnum, pr_AuxInt := pr_AuxInt r + (if is_block_tx then 1 else 0),
       pr_ConnId := max (pr_ConnId r) conn_index, pr_CallbackId := (if pr_ConnId r > conn_index then pr_CallbackId r else callback_id)\<rparr>"

definition ProcessQEnqueueValidate ::
  "(pq_stmt \<Rightarrow> bool) \<Rightarrow> nat \<Rightarrow> (addr \<Rightarrow> byte list) \<Rightarrow> addr \<Rightarrow> byte list \<Rightarrow> int \<Rightarrow> u32 \<Rightarrow> int \<Rightarrow> bool \<Rightarrow> nat \<Rightarrow> nat \<Rightarrow> procq \<Rightarrow> int \<times> procq" where
  "ProcessQEnqueueValidate err type oid_at bufp prior_id lvl status priority is_block_tx conn_index callback_id q =
     (let seqnum = pq_sequence q; q = q\<lparr>pq_sequence := seqnum + 1\<rparr>; objid = oid_at bufp
      in if err Q_insert then (-1, q)
         else if list_ex (\<lambda>r. pr_ObjId r = objid) (pq_rows q) then
           (if \<not> is_block_tx then (1, q)
            else if err Q_update_queue then (-1, q)
            else (1, q\<lparr>pq_rows := snd (sql_update (\<lambda>r. pr_ObjId r = objid) (update_queued priority seqnum is_block_tx conn_index callback_id)
                    (pq_rows q))\<rparr>))
         else
           let r = \<lparr>pr_ObjId = objid, pr_PriorOid = (if type = PROCESS_Q_TYPE_BLOCK then Some prior_id else None),
                 pr_Level = (if type = PROCESS_Q_TYPE_BLOCK then Some lvl else None), pr_AuxInt = (if is_block_tx then 1 else 0), pr_ConnId = conn_index,
                 pr_CallbackId = callback_id, pr_Bufp = bufp, pr_Status = status, pr_Priority = priority, pr_Seqnum = seqnum\<rparr>
           in (0, IncrementQueuedWork 1 (q\<lparr>pq_rows := pq_rows q @ [r], pq_refs := (pq_refs q)(bufp := pq_refs q bufp + 1)\<rparr>)))"

text \<open>
  The result is the object, and the connection and callback to notify, which are set as soon as a row is
  read. On an error the work is counted again.
\<close>

definition ProcessQGetNextValidateObj ::
  "(pq_stmt \<Rightarrow> bool) \<Rightarrow> (addr \<Rightarrow> byte list) \<Rightarrow> procq \<Rightarrow> int \<times> addr option \<times> nat \<times> nat \<times> procq" where
  "ProcessQGetNextValidateObj err oid_at q =
     (if err Q_select_next then (-1, None, 0, 0, IncrementQueuedWork 1 q)
      else case select_next PROCESS_Q_STATUS_PENDING 0 (pq_rows q) of
             None \<Rightarrow> (1, None, 0, 0, q)
           | Some r \<Rightarrow>
               if pr_Bufp r = 0 then (-1, None, pr_ConnId r, pr_CallbackId r, IncrementQueuedWork 1 q)
               else if err Q_update then (-1, None, pr_ConnId r, pr_CallbackId r, IncrementQueuedWork 1 q)
               else let (changes, rows) = sql_update (\<lambda>s. pr_ObjId s = oid_at (pr_Bufp r)) (\<lambda>s. s\<lparr>pr_Status := PROCESS_Q_STATUS_HOLD\<rparr>) (pq_rows q);
                        q = q\<lparr>pq_rows := rows\<rparr>
                 in if changes \<noteq> 1 then (-1, None, pr_ConnId r, pr_CallbackId r, IncrementQueuedWork 1 q)
                    else (0, Some (pr_Bufp r), pr_ConnId r, pr_CallbackId r, q))"

definition ProcessQUpdateSubsequentBlockStatus :: "(pq_stmt \<Rightarrow> bool) \<Rightarrow> byte list \<Rightarrow> procq \<Rightarrow> int \<times> procq" where
  "ProcessQUpdateSubsequentBlockStatus err objid q =
     (if err Q_update_priorobj then (-1, q)
      else let (changes, rows) = sql_update (\<lambda>r. pr_Status r = PROCESS_Q_STATUS_HOLD \<and> pr_PriorOid r = Some objid)
                 (\<lambda>r. r\<lparr>pr_Status := PROCESS_Q_STATUS_PENDING\<rparr>) (pq_rows q);
               q = q\<lparr>pq_rows := rows\<rparr>
        in (0, if changes > 0 then IncrementQueuedWork changes q else q))"

definition ProcessQUpdateObj :: "(pq_stmt \<Rightarrow> bool) \<Rightarrow> byte list \<Rightarrow> u32 \<Rightarrow> int \<Rightarrow> procq \<Rightarrow> int \<times> procq" where
  "ProcessQUpdateObj err objid status auxint q =
     (if err Q_update then (-1, q)
      else let (changes, rows) = sql_update (\<lambda>r. pr_ObjId r = objid) (\<lambda>r. r\<lparr>pr_Status := status, pr_AuxInt := auxint\<rparr>) (pq_rows q)
        in (if changes \<noteq> 1 then -1 else 0, q\<lparr>pq_rows := rows\<rparr>))"

definition ProcessQCountValidObjs :: "(pq_stmt \<Rightarrow> bool) \<Rightarrow> int \<Rightarrow> procq \<Rightarrow> int" where
  "ProcessQCountValidObjs err auxint q =
     (if err Q_count then -1 else int (length (filter (\<lambda>r. pr_Status r = PROCESS_Q_STATUS_VALID \<and> pr_AuxInt r = auxint) (pq_rows q))))"

definition ProcessQClearValidObjs :: "(pq_stmt \<Rightarrow> bool) \<Rightarrow> procq \<Rightarrow> int \<times> procq" where
  "ProcessQClearValidObjs err q =
     (if err Q_clear then (-1, q)
      else (0, q\<lparr>pq_rows := snd (sql_update (\<lambda>r. pr_Status r = PROCESS_Q_STATUS_VALID) (\<lambda>r. r\<lparr>pr_AuxInt := 0\<rparr>) (pq_rows q))\<rparr>))"

definition ProcessQRandomizeValidObjs :: "(pq_stmt \<Rightarrow> bool) \<Rightarrow> (pq_row \<Rightarrow> int) \<Rightarrow> procq \<Rightarrow> int \<times> procq" where
  "ProcessQRandomizeValidObjs err random q =
     (if err Q_randomize then (-1, q)
      else (0, q\<lparr>pq_rows := snd (sql_update (\<lambda>r. pr_Status r = PROCESS_Q_STATUS_VALID) (\<lambda>r. r\<lparr>pr_Priority := random r\<rparr>) (pq_rows q))\<rparr>))"

definition ProcessQGetNextValidObj :: "(pq_stmt \<Rightarrow> bool) \<Rightarrow> nat \<Rightarrow> procq \<Rightarrow> int \<times> addr option" where
  "ProcessQGetNextValidObj err offset q =
     (if err Q_select_next then (-1, None)
      else case select_next PROCESS_Q_STATUS_VALID offset (pq_rows q) of
             None \<Rightarrow> (1, None)
           | Some r \<Rightarrow> if pr_Bufp r = 0 then (-1, None) else (0, Some (pr_Bufp r)))"

definition ProcessQDone :: "(pq_stmt \<Rightarrow> bool) \<Rightarrow> int \<Rightarrow> procq \<Rightarrow> int \<times> procq" where
  "ProcessQDone err lvl q =
     (if err Q_done then (-1, q)
      else (0, q\<lparr>pq_rows := snd (sql_update (level_below lvl) (\<lambda>r. r\<lparr>pr_Status := (or (pr_Status r) PROCESS_Q_STATUS_DONE_FLAG)\<rparr>) (pq_rows q))\<rparr>))"

text \<open>The release of the buffer of a row that was deleted: only of an object that has the id of the row.\<close>

definition release_row :: "(addr \<Rightarrow> byte list) \<Rightarrow> pq_row \<Rightarrow> procq \<Rightarrow> procq" where
  "release_row oid_at r q =
     (if pr_Bufp r \<noteq> 0 \<and> oid_at (pr_Bufp r) = pr_ObjId r then q\<lparr>pq_refs := (pq_refs q)(pr_Bufp r := pq_refs q (pr_Bufp r) - 1)\<rparr> else q)"

definition waits_for_validation :: "pq_row \<Rightarrow> bool" where
  "waits_for_validation r \<longleftrightarrow>
     (let s = (and (pr_Status r) (not PROCESS_Q_STATUS_DONE_FLAG)) in s = PROCESS_Q_STATUS_PENDING \<or> s = PROCESS_Q_STATUS_HOLD)"

function ProcessQPruneLevel :: "(pq_stmt \<Rightarrow> bool) \<Rightarrow> (addr \<Rightarrow> byte list) \<Rightarrow> int \<Rightarrow> procq \<Rightarrow> int \<times> procq" where
  "ProcessQPruneLevel err oid_at lvl q =
     (if err Q_select_level then (-1, q)
      else case find (level_below lvl) (pq_rows q) of
             None \<Rightarrow> (1, q)
           | Some r \<Rightarrow>
               if err Q_delete then (-1, q)
               else let q = release_row oid_at r (q\<lparr>pq_rows := snd (sql_delete (\<lambda>s. pr_ObjId s = pr_ObjId r) (pq_rows q))\<rparr>);
                        q = (if pr_ConnId r \<noteq> 0 \<and> waits_for_validation r
                             then q\<lparr>pq_callbacks := pq_callbacks q @ [(the (pr_Level r), pr_ConnId r, pr_CallbackId r, 1)]\<rparr> else q)
                 in ProcessQPruneLevel err oid_at lvl q)"
  by pat_completeness auto
termination
proof (relation "measure (\<lambda>(err, oid_at, lvl, q). length (pq_rows q))", goal_cases)
  case 1
  then show ?case by simp
next
  case (2 err oid_at lvl q r q1 q2)
  then have "r \<in> set (pq_rows q)" by (auto simp: find_Some_iff)
  then have "length (filter (\<lambda>s. pr_ObjId s \<noteq> pr_ObjId r) (pq_rows q)) < length (pq_rows q)" by (rule length_filter_less) simp
  with 2 show ?case by (auto simp: release_row_def sql_delete_def)
qed

declare ProcessQPruneLevel.simps [simp del]

definition ProcessQSelectAndDelete ::
  "(pq_stmt \<Rightarrow> bool) \<Rightarrow> (addr \<Rightarrow> byte list) \<Rightarrow> byte list \<Rightarrow> procq \<Rightarrow> int \<times> (int \<times> nat \<times> nat) \<times> procq" where
  "ProcessQSelectAndDelete err oid_at objid q =
     (if err Q_select then (-1, (0, 0, 0), q)
      else case find (\<lambda>r. pr_ObjId r = objid) (pq_rows q) of
             None \<Rightarrow> (1, (0, 0, 0), q)
           | Some r \<Rightarrow>
               let res = (pr_AuxInt r, pr_ConnId r, pr_CallbackId r)
               in if err Q_delete then (-1, res, q)
                  else let (changes, rows) = sql_delete (\<lambda>s. pr_ObjId s = objid) (pq_rows q); q = q\<lparr>pq_rows := rows\<rparr>
                    in if changes \<noteq> 1 then (-1, res, q) else (0, res, release_row oid_at r q))"

section \<open>The order of validation\<close>

lemma hd_sort_le: "x \<in> set xs \<Longrightarrow> f (hd (sort_key f xs)) \<le> f x"
proof -
  assume "x \<in> set xs"
  then obtain y ys where y: "sort_key f xs = y # ys" by (metis length_pos_if_in_set length_sort list.exhaust list.size(3) less_irrefl)
  have "sorted (map f (sort_key f xs))" "x \<in> set (sort_key f xs)" using \<open>x \<in> set xs\<close> by simp_all
  then show ?thesis by (auto simp: y)
qed

lemma sort_key_eq_Nil: "sort_key f xs = [] \<longleftrightarrow> xs = []"
  by (metis length_0_conv length_sort)

lemma hd_sort_filter: "xs \<noteq> [] \<Longrightarrow> hd (sort_key f xs) = hd (filter (\<lambda>x. f x = f (hd (sort_key f xs))) xs)"
proof -
  assume "xs \<noteq> []"
  then obtain y ys where y: "sort_key f xs = y # ys" by (metis length_sort list.exhaust list.size(3) length_0_conv)
  have "filter (\<lambda>x. f x = f y) (sort_key f xs) = filter (\<lambda>x. f x = f y) xs" by (simp add: sort_key_stable)
  then show ?thesis by (simp add: y) (metis list.sel(1))
qed

text \<open>The first element after sorting by one key and then by another has the least of both, in this order.\<close>

definition precedes :: "pq_row \<Rightarrow> pq_row \<Rightarrow> bool" where
  "precedes r s \<longleftrightarrow>
     (if pr_Priority r \<noteq> pr_Priority s then pr_Priority r < pr_Priority s
      else if (pr_Level r = None) \<noteq> (pr_Level s = None) then pr_Level s = None
      else if the (pr_Level r) \<noteq> the (pr_Level s) then the (pr_Level s) < the (pr_Level r)
      else pr_Seqnum r \<le> pr_Seqnum s)"

lemma sort_first:
  assumes "r = hd (sort_key f xs)" "xs \<noteq> []"
  shows "r = hd (filter (\<lambda>x. f x = f r) xs)" "r \<in> set xs" "\<And>s. s \<in> set xs \<Longrightarrow> f r \<le> f s"
proof -
  have "sort_key f xs \<noteq> []" using assms(2) by (metis length_0_conv length_sort)
  then have "hd (sort_key f xs) \<in> set (sort_key f xs)" by (rule hd_in_set)
  then show "r \<in> set xs" by (simp add: assms(1))
  show "r = hd (filter (\<lambda>x. f x = f r) xs)" using hd_sort_filter [OF assms(2), of f] by (simp add: assms(1))
  show "\<And>s. s \<in> set xs \<Longrightarrow> f r \<le> f s" using hd_sort_le [of _ xs f] by (simp add: assms(1))
qed

lemma pq_order_first:
  assumes "s \<in> set rows"
  shows "hd (pq_order rows) \<in> set rows \<and> precedes (hd (pq_order rows)) s"
proof -
  define r where "r = hd (pq_order rows)"
  define null where "null = (\<lambda>r::pq_row. if pr_Level r = None then 1 else 0 :: nat)"
  define lev where "lev = (\<lambda>r::pq_row. - the (pr_Level r))"
  note ne = sort_key_eq_Nil
  define r1 where "r1 = filter (\<lambda>x. pr_Priority x = pr_Priority r) rows"
  define r2 where "r2 = filter (\<lambda>x. null x = null r) r1"
  define r3 where "r3 = filter (\<lambda>x. lev x = lev r) r2"
  have "rows \<noteq> []" using assms by auto
  then have a: "sort_key null (sort_key lev (sort_key pr_Seqnum rows)) \<noteq> []" by (simp add: ne)
  note A = sort_first [of r pr_Priority, OF _ a]
  have "r = hd (sort_key pr_Priority (sort_key null (sort_key lev (sort_key pr_Seqnum rows))))" by (simp add: r_def pq_order_def null_def lev_def)
  note A = A [OF this, unfolded filter_sort, folded r1_def, simplified]
  then have "r \<in> set r1" by (simp add: r1_def)
  then have b: "sort_key lev (sort_key pr_Seqnum r1) \<noteq> []" by (auto simp: ne)
  note B = sort_first [OF A(1) b, unfolded filter_sort, folded r2_def, simplified]
  then have "r \<in> set r2" by (simp add: r2_def)
  then have c: "sort_key pr_Seqnum r2 \<noteq> []" by (auto simp: ne)
  note C = sort_first [OF B(1) c, unfolded filter_sort, folded r3_def, simplified]
  then have "r3 \<noteq> []" by (auto simp: r3_def filter_empty_conv)
  note D = sort_first [OF C(1) this]
  have "precedes r s"
    using A(3) [OF assms] B(3) [of s] C(3) [of s] D(3) [of s] assms
    by (auto simp: precedes_def r1_def r2_def r3_def null_def lev_def split: if_splits)
  then show ?thesis using A(2) by (simp add: r_def)
qed

text \<open>
  C36. The object chosen for validation is a pending one that precedes all other pending objects: the smallest priority
  number, then the highest level, then the longest time in the queue. It is put on hold, and no other row changes.
\<close>

theorem GetNextValidateObj_first:
  assumes "ProcessQGetNextValidateObj err oid_at q = (0, Some a, conn_index, callback_id, q')"
  shows "\<exists>r\<in>set (pq_rows q). pr_Bufp r = a \<and> pr_Status r = PROCESS_Q_STATUS_PENDING \<and> pr_ConnId r = conn_index \<and> pr_CallbackId r = callback_id \<and>
    (\<forall>s\<in>set (pq_rows q). pr_Status s = PROCESS_Q_STATUS_PENDING \<longrightarrow> precedes r s) \<and>
    pq_rows q' = map (\<lambda>s. if pr_ObjId s = oid_at a then s\<lparr>pr_Status := PROCESS_Q_STATUS_HOLD\<rparr> else s) (pq_rows q)"
proof -
  let ?ps = "filter (\<lambda>r. pr_Status r = PROCESS_Q_STATUS_PENDING) (pq_rows q)"
  obtain r where r: "select_next PROCESS_Q_STATUS_PENDING 0 (pq_rows q) = Some r" and e: "a = pr_Bufp r" "conn_index = pr_ConnId r"
      "callback_id = pr_CallbackId r" "pq_rows q' = map (\<lambda>s. if pr_ObjId s = oid_at a then s\<lparr>pr_Status := PROCESS_Q_STATUS_HOLD\<rparr> else s) (pq_rows q)"
    using assms by (auto simp: ProcessQGetNextValidateObj_def sql_update_def Let_def split: if_splits option.splits)
  have h: "r = hd (pq_order ?ps)" "?ps \<noteq> []"
    using r by (auto simp: select_next_def Let_def hd_conv_nth pq_order_def sort_key_eq_Nil split: if_splits)
  then obtain x where "x \<in> set ?ps" by (meson ex_in_conv set_empty)
  then have "r \<in> set ?ps" using pq_order_first h(1) by blast
  moreover have "\<forall>s\<in>set ?ps. precedes r s" using pq_order_first h(1) by blast
  ultimately show ?thesis using e by auto
qed

definition waiting_row :: "byte \<Rightarrow> int \<Rightarrow> int \<Rightarrow> int \<Rightarrow> pq_row" where
  "waiting_row i lvl priority n = \<lparr>pr_ObjId = [i], pr_PriorOid = Some [], pr_Level = Some lvl, pr_AuxInt = 0, pr_ConnId = unat i, pr_CallbackId = 9,
     pr_Bufp = unat i, pr_Status = PROCESS_Q_STATUS_PENDING, pr_Priority = priority, pr_Seqnum = n\<rparr>"

definition waiting_q :: procq where
  "waiting_q = \<lparr>pq_rows = [waiting_row 1 5 1 0, waiting_row 2 6 1 1, waiting_row 3 7 2 2], pq_sequence = 3, pq_work = 3, pq_notified = 3,
     pq_refs = (\<lambda>a. if 1 \<le> a \<and> a \<le> 3 then 1 else 0), pq_callbacks = []\<rparr>"

theorem GetNextValidateObj_first_witness:
  "\<exists>q'. ProcessQGetNextValidateObj (\<lambda>s. False) (\<lambda>a. [of_nat a]) waiting_q = (0, Some 2, 2, 9, q') \<and> precedes (waiting_row 2 6 1 1) (waiting_row 1 5 1 0)"
proof -
  obtain q' where g: "ProcessQGetNextValidateObj (\<lambda>s. False) (\<lambda>a. [of_nat a]) waiting_q = (0, Some 2, 2, 9, q')"
    by (simp add: ProcessQGetNextValidateObj_def select_next_def pq_order_def waiting_q_def waiting_row_def sql_update_def pq_status)
  then show ?thesis using GetNextValidateObj_first [OF g] by (auto simp: waiting_q_def waiting_row_def)
qed

section \<open>Pruning\<close>

text \<open>Pruning ends with no row left below the level and all others kept.\<close>

lemma release_row_rows [simp]: "pq_rows (release_row oid_at r q) = pq_rows q"
  by (simp add: release_row_def)

lemma ProcessQPruneLevel_rows:
  assumes "ProcessQPruneLevel err oid_at lvl q = (1, q')" "distinct (map pr_ObjId (pq_rows q))"
  shows "pq_rows q' = filter (\<lambda>r. \<not> level_below lvl r) (pq_rows q)"
  using assms
proof (induction err oid_at lvl q rule: ProcessQPruneLevel.induct)
  case (1 err oid_at lvl q)
  show ?case
  proof (cases "find (level_below lvl) (pq_rows q)")
    case None
    then have "filter (\<lambda>r. \<not> level_below lvl r) (pq_rows q) = pq_rows q" by (simp add: find_None_iff filter_id_conv)
    then show ?thesis using "1.prems" None by (simp add: ProcessQPruneLevel.simps split: if_splits)
  next
    case (Some r)
    then have r: "r \<in> set (pq_rows q)" "level_below lvl r" by (auto simp: find_Some_iff)
    have d: "filter (\<lambda>s. \<not> level_below lvl s) (filter (\<lambda>s. pr_ObjId s \<noteq> pr_ObjId r) (pq_rows q)) = filter (\<lambda>s. \<not> level_below lvl s) (pq_rows q)"
      using r "1.prems"(2) by (auto simp: filter_filter distinct_map inj_on_def intro: filter_cong)
    have e: "\<not> err Q_select_level" "\<not> err Q_delete" using "1.prems"(1) Some by (auto simp: ProcessQPruneLevel.simps split: if_splits)
    define q1 where "q1 = release_row oid_at r (q\<lparr>pq_rows := snd (sql_delete (\<lambda>s. pr_ObjId s = pr_ObjId r) (pq_rows q))\<rparr>)"
    define q2 where "q2 = (if pr_ConnId r \<noteq> 0 \<and> waits_for_validation r
      then q1\<lparr>pq_callbacks := pq_callbacks q1 @ [(the (pr_Level r), pr_ConnId r, pr_CallbackId r, 1)]\<rparr> else q1)"
    have rows: "pq_rows q2 = filter (\<lambda>s. pr_ObjId s \<noteq> pr_ObjId r) (pq_rows q)" by (simp add: q2_def q1_def sql_delete_def)
    have "ProcessQPruneLevel err oid_at lvl q2 = (1, q')"
      using "1.prems"(1) Some e by (subst (asm) ProcessQPruneLevel.simps) (auto simp: q1_def q2_def Let_def split: if_splits)
    then have "pq_rows q' = filter (\<lambda>r. \<not> level_below lvl r) (pq_rows q2)"
      using "1.IH" [OF e(1) Some e(2) q1_def q2_def] "1.prems"(2) rows by (simp add: distinct_map_filter)
    then show ?thesis using rows d by simp
  qed
qed

end
