(* ===== verification/Tx_Queue.thy ===== *)
theory Tx_Queue
  imports Process_Q Exchange
begin

text \<open>
  The queue of transactions that wait for validation and the threads that validate them (ccnode/src/processtx.cpp:
  \<open>TxEnqueueValidate\<close>, \<open>WaitForBlockTxValidation\<close>, \<open>ThreadProc\<close>), over the table of \<^verbatim>\<open>Process_Q\<close>.

  The state has the queue, the counter \<open>block_txs_pending\<close>, the ids of the valid objects, the objects noted as
  downloaded, and the objects that the threads validate at the moment. The part of a pass of a thread that
  runs under the mutex is one step; the validation itself, between two steps, is \<^verbatim>\<open>Tx_Validate\<close>.
\<close>

section \<open>Operations\<close>

record txq =
  tq_q :: procq
  tq_pending :: int
  tq_valid :: "byte list list"
  tq_relay :: "byte list list"
  tq_busy :: "addr list"

definition TxEnqueueValidate ::
  "(pq_stmt \<Rightarrow> bool) \<Rightarrow> (addr \<Rightarrow> byte list) \<Rightarrow> (byte list \<Rightarrow> bool) \<Rightarrow> nat \<Rightarrow> bool \<Rightarrow> bool \<Rightarrow> int \<Rightarrow> addr \<Rightarrow> nat \<Rightarrow> nat \<Rightarrow> txq \<Rightarrow> int \<times> txq" where
  "TxEnqueueValidate err oid_at xreq_known type is_block_tx add_to_relay_objs priority bufp conn_index callback_id st =
     (let objid = oid_at bufp
      in if TypeIsXreq type \<and> xreq_known objid then (1, st)
         else if objid \<in> set (tq_valid st) then (1, st)
         else let st = (if add_to_relay_objs then st\<lparr>tq_relay := objid # tq_relay st\<rparr> else st);
                  (rc, q) = ProcessQEnqueueValidate err PROCESS_Q_TYPE_TX oid_at bufp [] 0 PROCESS_Q_STATUS_PENDING priority is_block_tx
                              conn_index callback_id (tq_q st);
                  st = st\<lparr>tq_q := q\<rparr>
           in if rc < 0 then (-1, st)
              else (0, if rc = 0 \<and> is_block_tx then st\<lparr>tq_pending := tq_pending st + 1\<rparr> else st))"

definition WaitForBlockTxValidation_over :: "bool \<Rightarrow> txq \<Rightarrow> bool" where
  "WaitForBlockTxValidation_over shutdown st \<longleftrightarrow> \<not> (tq_pending st > 0 \<and> \<not> shutdown)"

definition tx_thread_get :: "(pq_stmt \<Rightarrow> bool) \<Rightarrow> (addr \<Rightarrow> byte list) \<Rightarrow> txq \<Rightarrow> addr option \<times> nat \<times> nat \<times> txq" where
  "tx_thread_get err oid_at st =
     (let (rc, smartobj, conn_index, callback_id, q) = ProcessQGetNextValidateObj err oid_at (tq_q st); st = st\<lparr>tq_q := q\<rparr>
      in if rc \<noteq> 0 then (None, conn_index, callback_id, st)
         else (smartobj, conn_index, callback_id, case smartobj of None \<Rightarrow> st | Some a \<Rightarrow> st\<lparr>tq_busy := a # tq_busy st\<rparr>))"

text \<open>The new value of the counter, which is put back to zero when it falls below, and whether the block is done.\<close>

definition finish_count :: "int \<Rightarrow> int \<Rightarrow> int \<times> bool" where
  "finish_count block_tx_count pending =
     (if block_tx_count = 0 then (pending, False)
      else let btp = pending - block_tx_count in (if btp < 0 then btp - btp else btp, btp \<le> 0))"

text \<open>
  The end of a pass for the object at \<open>a\<close>: \<open>result\<close> is the result so far, \<open>insert_fails\<close> tells whether the insertion
  into the table of valid objects fails. The result is the one for the callback, the object was
  inserted, the block is done, and the connection and callback to notify.
\<close>

definition tx_thread_finish ::
  "(pq_stmt \<Rightarrow> bool) \<Rightarrow> (addr \<Rightarrow> byte list) \<Rightarrow> bool \<Rightarrow> addr \<Rightarrow> bool \<Rightarrow> int \<Rightarrow> int \<Rightarrow> txq
   \<Rightarrow> (int \<times> bool \<times> bool \<times> nat \<times> nat \<times> txq) outcome" where
  "tx_thread_finish err oid_at insert_fails a validated result next_commitnum st =
     (let objid = oid_at a;
          (result, inserted) = (if \<not> validated \<or> insert_fails then (result, False)
             else if objid \<in> set (tq_valid st) then (0, False) else (next_commitnum, True));
          st = (if inserted then st\<lparr>tq_valid := objid # tq_valid st\<rparr> else st);
          (rc, (block_tx_count, conn_index, callback_id), q) = ProcessQSelectAndDelete err oid_at objid (tq_q st)
      in if rc \<noteq> 0 then Inl AssertFail
         else let (pending, block_done) = finish_count block_tx_count (tq_pending st)
           in Inr (result, inserted, block_done, conn_index, callback_id,
                st\<lparr>tq_q := q, tq_pending := pending, tq_busy := remove1 a (tq_busy st)\<rparr>))"

section \<open>Steps\<close>

definition no_sql_errors :: "pq_stmt \<Rightarrow> bool" where
  "no_sql_errors s = False"

inductive txq_step :: "(addr \<Rightarrow> byte list) \<Rightarrow> txq \<Rightarrow> txq \<Rightarrow> bool" for oid_at where
  enqueue: "bufp \<noteq> 0 \<Longrightarrow> TxEnqueueValidate err oid_at known type is_block_tx relay priority bufp conn callback st = (rc, st') \<Longrightarrow> txq_step oid_at st st'"
| get: "tx_thread_get err oid_at st = (obj, conn, callback, st') \<Longrightarrow> txq_step oid_at st st'"
| finish: "a \<in> set (tq_busy st) \<Longrightarrow> \<not> err Q_select \<Longrightarrow> \<not> err Q_delete \<Longrightarrow>
    tx_thread_finish err oid_at fails a validated result next_commitnum st = Inr (r, ins, don, conn, callback, st') \<Longrightarrow> txq_step oid_at st st'"
| forget: "st' = st\<lparr>tq_valid := removeAll objid (tq_valid st)\<rparr> \<Longrightarrow> txq_step oid_at st st'"

definition txq_init :: txq where
  "txq_init = \<lparr>tq_q = \<lparr>pq_rows = [], pq_sequence = 0, pq_work = 0, pq_notified = 0, pq_refs = (\<lambda>a. 0), pq_callbacks = []\<rparr>, tq_pending = 0,
     tq_valid = [], tq_relay = [], tq_busy = []\<rparr>"

inductive txq_reach :: "(addr \<Rightarrow> byte list) \<Rightarrow> txq \<Rightarrow> bool" for oid_at where
  init: "txq_reach oid_at txq_init"
| step: "txq_reach oid_at st \<Longrightarrow> txq_step oid_at st st' \<Longrightarrow> txq_reach oid_at st'"

section \<open>The invariant\<close>

definition row_ok :: "(addr \<Rightarrow> byte list) \<Rightarrow> pq_row \<Rightarrow> bool" where
  "row_ok oid_at r \<longleftrightarrow> pr_Bufp r \<noteq> 0 \<and> oid_at (pr_Bufp r) = pr_ObjId r \<and> 0 \<le> pr_AuxInt r \<and>
     (pr_Status r = PROCESS_Q_STATUS_PENDING \<or> pr_Status r = PROCESS_Q_STATUS_HOLD)"

definition held :: "pq_row list \<Rightarrow> addr set" where
  "held rows = pr_Bufp ` {r \<in> set rows. pr_Status r = PROCESS_Q_STATUS_HOLD}"

definition queue_ok :: "(addr \<Rightarrow> byte list) \<Rightarrow> pq_row list \<Rightarrow> (addr \<Rightarrow> int) \<Rightarrow> byte list set \<Rightarrow> addr list \<Rightarrow> int \<Rightarrow> bool" where
  "queue_ok oid_at rows refs valid busy pending \<longleftrightarrow>
     distinct (map pr_ObjId rows) \<and> (\<forall>r\<in>set rows. row_ok oid_at r) \<and> distinct busy \<and> set busy = held rows \<and>
     valid \<inter> pr_ObjId ` set rows = {} \<and> 0 \<le> pending \<and> pending \<le> sum_list (map pr_AuxInt rows) \<and>
     (\<forall>a. refs a = int (length (filter (\<lambda>r. pr_Bufp r = a) rows)))"

definition txq_ok :: "(addr \<Rightarrow> byte list) \<Rightarrow> txq \<Rightarrow> bool" where
  "txq_ok oid_at st \<longleftrightarrow> queue_ok oid_at (pq_rows (tq_q st)) (pq_refs (tq_q st)) (set (tq_valid st)) (tq_busy st) (tq_pending st)"

lemma unique_row:
  assumes "distinct (map pr_ObjId rows)" "r \<in> set rows"
  obtains xs ys where "rows = xs @ r # ys" "\<forall>s\<in>set (xs @ ys). pr_ObjId s \<noteq> pr_ObjId r"
proof -
  obtain xs ys where r: "rows = xs @ r # ys" using assms(2) by (meson split_list)
  with assms(1) have "pr_ObjId r \<notin> pr_ObjId ` set (xs @ ys)" by auto
  then have "\<forall>s\<in>set (xs @ ys). pr_ObjId s \<noteq> pr_ObjId r" by (metis imageI)
  with r that show thesis by blast
qed

lemma update_one:
  assumes "rows = xs @ r # ys" "\<forall>s\<in>set (xs @ ys). pr_ObjId s \<noteq> pr_ObjId r"
  shows "sql_update (\<lambda>s. pr_ObjId s = pr_ObjId r) f rows = (1, xs @ f r # ys)" "sql_delete (\<lambda>s. pr_ObjId s = pr_ObjId r) rows = (1, xs @ ys)"
proof -
  have "filter (\<lambda>s. pr_ObjId s = pr_ObjId r) xs = []" "filter (\<lambda>s. pr_ObjId s = pr_ObjId r) ys = []"
    "filter (\<lambda>s. pr_ObjId s \<noteq> pr_ObjId r) xs = xs" "filter (\<lambda>s. pr_ObjId s \<noteq> pr_ObjId r) ys = ys"
    "map (\<lambda>s. if pr_ObjId s = pr_ObjId r then f s else s) xs = xs" "map (\<lambda>s. if pr_ObjId s = pr_ObjId r then f s else s) ys = ys"
    using assms(2) by (auto simp: filter_empty_conv intro: map_idI filter_True)
  then show "sql_update (\<lambda>s. pr_ObjId s = pr_ObjId r) f rows = (1, xs @ f r # ys)" "sql_delete (\<lambda>s. pr_ObjId s = pr_ObjId r) rows = (1, xs @ ys)"
    by (simp_all add: sql_update_def sql_delete_def assms(1))
qed

lemma select_next_row: "select_next status n rows = Some r \<Longrightarrow> r \<in> set rows \<and> pr_Status r = status"
proof -
  assume "select_next status n rows = Some r"
  then have "r \<in> set (pq_order (filter (\<lambda>r. pr_Status r = status) rows))" by (auto simp: select_next_def Let_def split: if_splits)
  then show ?thesis by (simp add: pq_order_def)
qed

lemma txq_ok_init: "txq_ok oid_at txq_init"
  by (simp add: txq_ok_def queue_ok_def txq_init_def held_def)

text \<open>A new row, the choice of a row for validation, and the removal of a row keep the invariant.\<close>

lemma held_append: "held (xs @ ys) = held xs \<union> held ys" "held [] = {}"
  "held (r # ys) = (if pr_Status r = PROCESS_Q_STATUS_HOLD then insert (pr_Bufp r) (held ys) else held ys)"
  by (auto simp: held_def)

lemma queue_ok_insert:
  assumes "queue_ok oid_at rows refs valid busy pending" "row_ok oid_at r" "pr_Status r = PROCESS_Q_STATUS_PENDING"
    "pr_ObjId r \<notin> pr_ObjId ` set rows" "pr_ObjId r \<notin> valid" "pending' = pending + pr_AuxInt r"
  shows "queue_ok oid_at (rows @ [r]) (refs(pr_Bufp r := refs (pr_Bufp r) + 1)) valid busy pending'"
  using assms by (auto simp: queue_ok_def held_append pq_status row_ok_def)

lemma queue_okD:
  assumes "queue_ok oid_at rows refs valid busy pending"
  shows "distinct (map pr_ObjId rows)" "\<And>r. r \<in> set rows \<Longrightarrow> row_ok oid_at r" "distinct busy" "set busy = held rows"
    "valid \<inter> pr_ObjId ` set rows = {}" "0 \<le> pending" "pending \<le> sum_list (map pr_AuxInt rows)"
    "\<And>a. refs a = int (length (filter (\<lambda>r. pr_Bufp r = a) rows))"
  using assms unfolding queue_ok_def by blast+

lemma row_of_buf:
  assumes "queue_ok oid_at rows refs valid busy pending" "r \<in> set rows" "s \<in> set rows" "pr_Bufp r = pr_Bufp s"
  shows "r = s"
proof -
  have "pr_ObjId r = oid_at (pr_Bufp r)" "pr_ObjId s = oid_at (pr_Bufp s)" using assms(1-3) by (auto simp: queue_ok_def row_ok_def)
  then have "pr_ObjId r = pr_ObjId s" using assms(4) by simp
  then show ?thesis using assms(1-3) by (auto simp: queue_ok_def distinct_map inj_on_def)
qed

lemma held_others:
  assumes "queue_ok oid_at (xs @ r # ys) refs valid busy pending"
  shows "pr_Bufp r \<notin> held (xs @ ys)"
proof
  assume "pr_Bufp r \<in> held (xs @ ys)"
  then obtain s where s: "s \<in> set (xs @ ys)" "pr_Bufp r = pr_Bufp s" by (auto simp: held_def)
  then have "r = s" using row_of_buf [OF assms, of r s] by auto
  then show False using s assms by (auto simp: queue_ok_def)
qed

lemma queue_ok_hold:
  assumes "queue_ok oid_at (xs @ r # ys) refs valid busy pending" "pr_Status r = PROCESS_Q_STATUS_PENDING"
  shows "queue_ok oid_at (xs @ r\<lparr>pr_Status := PROCESS_Q_STATUS_HOLD\<rparr> # ys) refs valid (pr_Bufp r # busy) pending"
proof -
  have h: "held (xs @ r # ys) = held (xs @ ys)" "held (xs @ r\<lparr>pr_Status := PROCESS_Q_STATUS_HOLD\<rparr> # ys) = insert (pr_Bufp r) (held (xs @ ys))"
    using assms(2) by (auto simp: held_append pq_status)
  have "pr_Bufp r \<notin> set busy" using assms(1) held_others [OF assms(1)] h(1) by (simp add: queue_ok_def)
  then show ?thesis using assms(1) unfolding queue_ok_def h by (auto simp: row_ok_def)
qed

lemma disjoint_insert: "x \<notin> S \<Longrightarrow> V \<inter> S = {} \<Longrightarrow> W \<subseteq> insert x V \<Longrightarrow> W \<inter> S = {}"
  by blast

lemma queue_ok_delete:
  assumes "queue_ok oid_at (xs @ r # ys) refs valid busy pending" "pr_Bufp r \<in> set busy"
    "pending' = (if pending - pr_AuxInt r < 0 then 0 else pending - pr_AuxInt r)" "valid' \<subseteq> insert (pr_ObjId r) valid"
  shows "queue_ok oid_at (xs @ ys) (refs(pr_Bufp r := refs (pr_Bufp r) - 1)) valid' (remove1 (pr_Bufp r) busy) pending'"
proof -
  have s: "pr_Status r = PROCESS_Q_STATUS_HOLD"
  proof (rule ccontr)
    assume "\<not> ?thesis"
    then have "held (xs @ r # ys) = held (xs @ ys)" by (auto simp: held_def)
    then show False using assms(1,2) held_others [OF assms(1)] by (simp add: queue_ok_def)
  qed
  then have h: "held (xs @ r # ys) = insert (pr_Bufp r) (held (xs @ ys))" by (auto simp: held_def)
  have b: "set (remove1 (pr_Bufp r) busy) = held (xs @ ys)" using assms(1) h held_others [OF assms(1)] by (auto simp: queue_ok_def)
  have n: "sum_list (map pr_AuxInt (xs @ ys)) \<ge> 0"
    using assms(1) by (intro sum_list_nonneg) (auto simp: queue_ok_def row_ok_def)
  have "pr_ObjId r \<notin> pr_ObjId ` set (xs @ ys)" "valid \<inter> pr_ObjId ` set (xs @ ys) = {}" using queue_okD(1,5) [OF assms(1)] by auto
  from disjoint_insert [OF this assms(4)] have v: "valid' \<inter> pr_ObjId ` set (xs @ ys) = {}" .
  have f: "\<forall>a. (refs(pr_Bufp r := refs (pr_Bufp r) - 1)) a = int (length (filter (\<lambda>r. pr_Bufp r = a) (xs @ ys)))"
    using queue_okD(8) [OF assms(1)] by simp
  have p: "0 \<le> pending'" "pending' \<le> sum_list (map pr_AuxInt (xs @ ys))" using queue_okD(6,7) [OF assms(1)] assms(3) n by simp_all
  have d: "distinct (map pr_ObjId (xs @ ys))" "\<forall>s\<in>set (xs @ ys). row_ok oid_at s" "distinct (remove1 (pr_Bufp r) busy)"
    using queue_okD(1-3) [OF assms(1)] by simp_all
  show ?thesis unfolding queue_ok_def using d b v p f by blast
qed

section \<open>Every step keeps the invariant\<close>

lemma queue_ok_update:
  assumes "queue_ok oid_at (xs @ r # ys) refs valid busy pending"
  shows "queue_ok oid_at (xs @ update_queued priority n True conn callback r # ys) refs valid busy pending"
proof -
  let ?u = "update_queued priority n True conn callback r"
  note d = queue_okD [OF assms]
  have h: "held (xs @ ?u # ys) = held (xs @ r # ys)" by (simp add: held_append update_queued_def)
  have u: "row_ok oid_at ?u" "pr_ObjId ?u = pr_ObjId r" "pr_Bufp ?u = pr_Bufp r" "pr_AuxInt ?u = pr_AuxInt r + 1"
    using d(2) [of r] by (auto simp: update_queued_def row_ok_def)
  have "\<forall>s\<in>set (xs @ ?u # ys). row_ok oid_at s" using d(2) u(1) by simp
  moreover have "pr_ObjId ` set (xs @ ?u # ys) = pr_ObjId ` set (xs @ r # ys)" "distinct (map pr_ObjId (xs @ ?u # ys))" using u(2) d(1) by auto
  moreover have "pending \<le> sum_list (map pr_AuxInt (xs @ ?u # ys))" using d(7) u(4) by simp
  moreover have "refs a = int (length (filter (\<lambda>r. pr_Bufp r = a) (xs @ ?u # ys)))" for a using d(8) [of a] u(3) by simp
  ultimately show ?thesis unfolding queue_ok_def using d(3-6) h by simp
qed

lemma ProcessQEnqueueValidate_ok:
  assumes "queue_ok oid_at (pq_rows q) (pq_refs q) valid busy pending" "bufp \<noteq> 0" "oid_at bufp \<notin> valid"
    "ProcessQEnqueueValidate err PROCESS_Q_TYPE_TX oid_at bufp pid lvl PROCESS_Q_STATUS_PENDING priority is_block_tx conn callback q = (rc, q')"
  shows "queue_ok oid_at (pq_rows q') (pq_refs q') valid busy (if rc = 0 \<and> is_block_tx then pending + 1 else pending)"
proof (cases "err Q_insert")
  case True
  then show ?thesis using assms by (auto simp: ProcessQEnqueueValidate_def Let_def)
next
  case e: False
  show ?thesis
  proof (cases "list_ex (\<lambda>r. pr_ObjId r = oid_at bufp) (pq_rows q)")
    case True
    then obtain r where r: "r \<in> set (pq_rows q)" "pr_ObjId r = oid_at bufp" by (auto simp: list_ex_iff)
    obtain xs ys where x: "pq_rows q = xs @ r # ys" "\<forall>s\<in>set (xs @ ys). pr_ObjId s \<noteq> pr_ObjId r"
      using unique_row [OF queue_okD(1) [OF assms(1)] r(1)] .
    note u = update_one(1) [OF x, unfolded r(2)]
    show ?thesis using assms(1,4) e True queue_ok_update [OF assms(1) [unfolded x(1)]]
      by (auto simp: ProcessQEnqueueValidate_def Let_def u x(1) [symmetric] split: if_splits)
  next
    case False
    let ?r = "\<lparr>pr_ObjId = oid_at bufp, pr_PriorOid = None, pr_Level = None, pr_AuxInt = (if is_block_tx then 1 else 0), pr_ConnId = conn,
      pr_CallbackId = callback, pr_Bufp = bufp, pr_Status = PROCESS_Q_STATUS_PENDING, pr_Priority = priority, pr_Seqnum = pq_sequence q\<rparr>"
    have "row_ok oid_at ?r" "oid_at bufp \<notin> pr_ObjId ` set (pq_rows q)" using assms(2) False by (auto simp: row_ok_def list_ex_iff)
    then show ?thesis using queue_ok_insert [OF assms(1), of ?r] assms(3,4) e False
      by (auto simp: ProcessQEnqueueValidate_def Let_def IncrementQueuedWork_def PROCESS_Q_TYPE_TX_def PROCESS_Q_TYPE_BLOCK_def)
  qed
qed

lemma txq_ok_enqueue:
  assumes "txq_ok oid_at st" "bufp \<noteq> 0"
    "TxEnqueueValidate err oid_at known type is_block_tx relay priority bufp conn callback st = (rc, st')"
  shows "txq_ok oid_at st'"
proof -
  obtain rc1 q where e: "ProcessQEnqueueValidate err PROCESS_Q_TYPE_TX oid_at bufp [] 0 PROCESS_Q_STATUS_PENDING priority is_block_tx conn callback (tq_q st) = (rc1, q)"
    by (cases "ProcessQEnqueueValidate err PROCESS_Q_TYPE_TX oid_at bufp [] 0 PROCESS_Q_STATUS_PENDING priority is_block_tx conn callback (tq_q st)")
  have t: "TxEnqueueValidate err oid_at known type is_block_tx relay priority bufp conn callback st =
     (if TypeIsXreq type \<and> known (oid_at bufp) \<or> oid_at bufp \<in> set (tq_valid st) then (1, st)
      else let st = (if relay then st\<lparr>tq_relay := oid_at bufp # tq_relay st, tq_q := q\<rparr> else st\<lparr>tq_q := q\<rparr>)
        in if rc1 < 0 then (-1, st) else (0, if rc1 = 0 \<and> is_block_tx then st\<lparr>tq_pending := tq_pending st + 1\<rparr> else st))"
    using e by (cases is_block_tx) (simp_all add: TxEnqueueValidate_def Let_def)
  have o: "oid_at bufp \<notin> set (tq_valid st) \<Longrightarrow>
      queue_ok oid_at (pq_rows q) (pq_refs q) (set (tq_valid st)) (tq_busy st) (if rc1 = 0 \<and> is_block_tx then tq_pending st + 1 else tq_pending st)"
    using ProcessQEnqueueValidate_ok [OF assms(1) [unfolded txq_ok_def] assms(2) _ e] by simp
  show ?thesis using assms(1,3) o unfolding t Let_def by (auto simp: txq_ok_def split: if_splits)
qed

lemma txq_ok_get:
  assumes "txq_ok oid_at st" "tx_thread_get err oid_at st = (obj, conn, callback, st')"
  shows "txq_ok oid_at st'"
proof -
  let ?rows = "pq_rows (tq_q st)"
  note ok = assms(1) [unfolded txq_ok_def]
  show ?thesis
  proof (cases "select_next PROCESS_Q_STATUS_PENDING 0 ?rows")
    case None
    then show ?thesis using assms by (auto simp: tx_thread_get_def ProcessQGetNextValidateObj_def IncrementQueuedWork_def txq_ok_def split: if_splits)
  next
    case (Some r)
    note r = select_next_row [OF Some]
    obtain xs ys where x: "?rows = xs @ r # ys" "\<forall>s\<in>set (xs @ ys). pr_ObjId s \<noteq> pr_ObjId r"
      using unique_row [OF queue_okD(1) [OF ok]] r by blast
    have b: "pr_Bufp r \<noteq> 0" "oid_at (pr_Bufp r) = pr_ObjId r" using queue_okD(2) [OF ok] r by (auto simp: row_ok_def)
    note u = update_one(1) [OF x, of "\<lambda>s. s\<lparr>pr_Status := PROCESS_Q_STATUS_HOLD\<rparr>"]
    have h: "queue_ok oid_at (xs @ r\<lparr>pr_Status := PROCESS_Q_STATUS_HOLD\<rparr> # ys) (pq_refs (tq_q st)) (set (tq_valid st)) (pr_Bufp r # tq_busy st) (tq_pending st)"
      using queue_ok_hold [OF ok [unfolded x(1)]] r by simp
    have g: "ProcessQGetNextValidateObj err oid_at (tq_q st) =
        (if err Q_select_next then (-1, None, 0, 0, IncrementQueuedWork 1 (tq_q st))
         else if err Q_update then (-1, None, pr_ConnId r, pr_CallbackId r, IncrementQueuedWork 1 (tq_q st))
         else (0, Some (pr_Bufp r), pr_ConnId r, pr_CallbackId r, (tq_q st)\<lparr>pq_rows := xs @ r\<lparr>pr_Status := PROCESS_Q_STATUS_HOLD\<rparr> # ys\<rparr>))"
      using b(1) by (simp add: ProcessQGetNextValidateObj_def Some b(2) u Let_def)
    show ?thesis using assms ok h by (auto simp: tx_thread_get_def g IncrementQueuedWork_def txq_ok_def Let_def split: if_splits)
  qed
qed

text \<open>The row of an object that a thread validates is there when it finishes: the assertion of the code holds.\<close>

lemma busy_row:
  assumes "txq_ok oid_at st" "a \<in> set (tq_busy st)"
  obtains xs r ys where "pq_rows (tq_q st) = xs @ r # ys" "\<forall>s\<in>set (xs @ ys). pr_ObjId s \<noteq> pr_ObjId r" "pr_Bufp r = a" "pr_ObjId r = oid_at a"
proof -
  note ok = assms(1) [unfolded txq_ok_def]
  obtain r where r: "r \<in> set (pq_rows (tq_q st))" "pr_Bufp r = a" using queue_okD(4) [OF ok] assms(2) by (auto simp: held_def)
  have i: "pr_ObjId r = oid_at a" using queue_okD(2) [OF ok r(1)] r(2) by (auto simp: row_ok_def)
  obtain xs ys where "pq_rows (tq_q st) = xs @ r # ys" "\<forall>s\<in>set (xs @ ys). pr_ObjId s \<noteq> pr_ObjId r"
    using unique_row [OF queue_okD(1) [OF ok] r(1)] .
  then show thesis using r(2) i by (rule that)
qed

lemma SelectAndDelete_busy:
  assumes "rows = xs @ r # ys" "\<forall>s\<in>set (xs @ ys). pr_ObjId s \<noteq> pr_ObjId r" "pq_rows q = rows" "\<not> err Q_select" "\<not> err Q_delete"
    "pr_Bufp r \<noteq> 0" "oid_at (pr_Bufp r) = pr_ObjId r"
  shows "ProcessQSelectAndDelete err oid_at (pr_ObjId r) q =
    (0, (pr_AuxInt r, pr_ConnId r, pr_CallbackId r), q\<lparr>pq_rows := xs @ ys, pq_refs := (pq_refs q)(pr_Bufp r := pq_refs q (pr_Bufp r) - 1)\<rparr>)"
proof -
  have "find (\<lambda>s. pr_ObjId s = pr_ObjId r) rows = Some r"
    using assms(2) unfolding assms(1) find_Some_iff
    by (intro exI [of _ "length xs"]) (auto simp: nth_append)
  then show ?thesis using assms(3-7) update_one(2) [OF assms(1,2)] by (simp add: ProcessQSelectAndDelete_def release_row_def)
qed

lemma txq_ok_finish:
  assumes "txq_ok oid_at st" "a \<in> set (tq_busy st)" "\<not> err Q_select" "\<not> err Q_delete"
  shows "\<exists>r ins don conn callback st'. tx_thread_finish err oid_at fails a validated result next_commitnum st = Inr (r, ins, don, conn, callback, st') \<and>
    txq_ok oid_at st'"
proof -
  note ok = assms(1) [unfolded txq_ok_def]
  from busy_row [OF assms(1,2)] obtain xs r ys where x: "pq_rows (tq_q st) = xs @ r # ys" "\<forall>s\<in>set (xs @ ys). pr_ObjId s \<noteq> pr_ObjId r"
    and r: "pr_Bufp r = a" "pr_ObjId r = oid_at a" .
  have "row_ok oid_at r" using queue_okD(2) [OF ok, of r] x(1) by simp
  then have b: "pr_Bufp r \<noteq> 0" "oid_at (pr_Bufp r) = pr_ObjId r" "0 \<le> pr_AuxInt r" by (auto simp: row_ok_def)
  have s: "ProcessQSelectAndDelete err oid_at (oid_at a) q =
      (0, (pr_AuxInt r, pr_ConnId r, pr_CallbackId r), q\<lparr>pq_rows := xs @ ys, pq_refs := (pq_refs q)(a := pq_refs q a - 1)\<rparr>)"
    if "pq_rows q = pq_rows (tq_q st)" for q
    using SelectAndDelete_busy [of "pq_rows (tq_q st)" xs r ys q err oid_at] x that assms(3,4) b(1,2) by (simp add: r)
  have f: "fst (finish_count (pr_AuxInt r) (tq_pending st)) =
      (if tq_pending st - pr_AuxInt r < 0 then 0 else tq_pending st - pr_AuxInt r)"
    using queue_okD(6) [OF ok] by (simp add: finish_count_def Let_def)
  note d = queue_ok_delete [OF ok [unfolded x(1)] _ refl, unfolded r, OF assms(2)]
  show ?thesis
    using d [OF subset_insertI] d [OF subset_refl] f
    by (auto simp: tx_thread_finish_def s txq_ok_def Let_def split: prod.splits)
qed

lemma txq_reach_ok: "txq_reach oid_at st \<Longrightarrow> txq_ok oid_at st"
proof (induction rule: txq_reach.induct)
  case init
  then show ?case by (rule txq_ok_init)
next
  case (step st st')
  from step.hyps(2) step.IH show ?case
  proof (cases rule: txq_step.cases)
    case enqueue
    then show ?thesis using txq_ok_enqueue step.IH by blast
  next
    case get
    then show ?thesis using txq_ok_get step.IH by blast
  next
    case (finish a err fails validated result next_commitnum r ins don conn callback)
    then show ?thesis using txq_ok_finish [OF step.IH finish(1-3)] by (metis Inr_inject prod.inject)
  next
    case forget
    then show ?thesis using step.IH by (auto simp: txq_ok_def queue_ok_def)
  qed
qed


section \<open>The counter of pending block transactions\<close>

definition one_buffer :: "addr \<Rightarrow> byte list" where
  "one_buffer a = [of_nat a]"

text \<open>A transaction arrives from the network, then in a block, while it waits in the queue.\<close>

definition arrived :: txq where
  "arrived = snd (TxEnqueueValidate no_sql_errors one_buffer (\<lambda>x. False) CC_TYPE_TXPAY False False PROCESS_Q_PRIORITY_TX 1 5 7 txq_init)"

definition arrived_in_block :: txq where
  "arrived_in_block = snd (TxEnqueueValidate no_sql_errors one_buffer (\<lambda>x. False) CC_TYPE_TXPAY True False PROCESS_Q_PRIORITY_BLOCK_TX 1 0 0 arrived)"

lemma arrived_reach: "txq_reach one_buffer arrived" "txq_reach one_buffer arrived_in_block"
proof -
  have "txq_step one_buffer txq_init arrived" unfolding arrived_def by (rule txq_step.enqueue [OF _ prod.collapse [symmetric]]) simp
  then show a: "txq_reach one_buffer arrived" using txq_reach.init txq_reach.step by blast
  have "txq_step one_buffer arrived arrived_in_block" unfolding arrived_in_block_def by (rule txq_step.enqueue [OF _ prod.collapse [symmetric]]) simp
  then show "txq_reach one_buffer arrived_in_block" using a txq_reach.step by blast
qed

lemma arrived_state:
  "tq_pending arrived_in_block = 0"
  "pq_rows (tq_q arrived_in_block) = [\<lparr>pr_ObjId = [1], pr_PriorOid = None, pr_Level = None, pr_AuxInt = 1, pr_ConnId = 5, pr_CallbackId = 7,
     pr_Bufp = 1, pr_Status = PROCESS_Q_STATUS_PENDING, pr_Priority = PROCESS_Q_PRIORITY_BLOCK_TX, pr_Seqnum = 1\<rparr>]"
  by (simp_all add: arrived_in_block_def arrived_def TxEnqueueValidate_def ProcessQEnqueueValidate_def Let_def no_sql_errors_def one_buffer_def
      txq_init_def IncrementQueuedWork_def sql_update_def update_queued_def TypeIsXreq_def type_consts PROCESS_Q_TYPE_TX_def PROCESS_Q_TYPE_BLOCK_def
      PROCESS_Q_PRIORITY_TX_def PROCESS_Q_PRIORITY_BLOCK_TX_def)

text \<open>
  C17. The counter can fall below the number of block transactions in the queue: when a transaction of a block is
  already queued, the queue counts it for the block but the counter is not incremented. There is a
  reachable state in which a transaction of a block waits to be validated and the wait for the
  transactions of the block is over all the same; and when it is finished, the new value of the counter
  is negative before it is put back to zero.
\<close>

theorem pending_counter_short:
  "\<exists>st r. txq_reach one_buffer st \<and> r \<in> set (pq_rows (tq_q st)) \<and> pr_AuxInt r = 1 \<and> pr_Status r = PROCESS_Q_STATUS_PENDING \<and>
     WaitForBlockTxValidation_over False st \<and> tq_pending st - pr_AuxInt r < 0 \<and> finish_count (pr_AuxInt r) (tq_pending st) = (0, True)"
  using arrived_reach(2) arrived_state
  by (intro exI [of _ arrived_in_block] exI [of _ "hd (pq_rows (tq_q arrived_in_block))"])
    (simp add: WaitForBlockTxValidation_over_def finish_count_def)


end
