(* ===== verification/Block_Validate.thy ===== *)
theory Block_Validate
  imports Tx_Validate Chain
begin

text \<open>
  Validation of a block by the node (ccnode/src/processblock.cpp: \<open>ExtractTx\<close>, \<open>CompareBinaryTxs\<close>, \<open>BlockValidate\<close>), in the
  configuration without the test macros.

  Parameters beside those of \<^verbatim>\<open>Tx_Validate\<close> and \<^verbatim>\<open>Chain\<close> are the signature check, the clock, the tables of
  valid objects and of temporary serial numbers, and what the threads that validate transactions do to
  the tables when a transaction is queued, while the block waits for them, and between two attempts.
\<close>

section \<open>Objects of a block\<close>

definition CC_MSG_HEADER_SIZE :: nat where "CC_MSG_HEADER_SIZE = 8"
definition XCX_PAY_RETRIES :: nat where "XCX_PAY_RETRIES = 200"
definition XCX_PAY_WITNESS_RETRIES :: nat where "XCX_PAY_WITNESS_RETRIES = 4"
definition TEMP_SERIALS_PROCESS_BLOCKP :: nat where "TEMP_SERIALS_PROCESS_BLOCKP = 1"
definition BLOCK_PRUNE_ROUNDS :: u32 where "BLOCK_PRUNE_ROUNDS = 5"

record ('db, 'f) blockops =
  bo_SignOrVerify :: "block \<Rightarrow> bool"
  bo_unixtime :: u64
  bo_is_witness :: bool
  bo_block_future_tolerance :: int
  bo_startup_prune_level :: u64
  bo_blake2b :: "byte list \<Rightarrow> byte list \<Rightarrow> byte list"
  bo_ValidBlock :: "byte list \<Rightarrow> 'db \<Rightarrow> addr option"
  bo_ValidTx :: "byte list \<Rightarrow> 'db \<Rightarrow> byte list option"
  bo_ProcessQSelectAndDelete :: "byte list \<Rightarrow> 'db \<Rightarrow> 'db"
  bo_TempSerialnumClear :: "nat \<Rightarrow> 'db \<Rightarrow> 'db"
  bo_TempSerialnumInsert :: "byte list \<Rightarrow> nat \<Rightarrow> 'db \<Rightarrow> bool \<times> 'db"
  bo_TxEnqueueValidate :: "byte list \<Rightarrow> 'db \<Rightarrow> 'db"
  bo_WaitForBlockTxValidation :: "'db \<Rightarrow> 'db"
  bo_sleep :: "'db \<Rightarrow> 'db"

text \<open>The copy of a transaction with its object id; \<open>None\<close> is the error return.\<close>

definition ExtractTx :: "(byte list \<Rightarrow> byte list \<Rightarrow> byte list) \<Rightarrow> byte list \<Rightarrow> u32 \<Rightarrow> (byte list \<times> byte list) option outcome" where
  "ExtractTx blake2b wire txsize =
     (if txsize < of_nat CC_MSG_HEADER_SIZE then Inr None
      else if length wire < unat txsize then Inl OutOfBounds
      else let msg = take (unat txsize) wire; obj = message_object msg
        in if \<not> IsValid obj \<or> obj_size obj \<noteq> txsize then Inr None
           else bind_outcome (ComputeObjId blake2b obj) (\<lambda>objid. Inr (Some (msg, objid))))"

definition CompareBinaryTxs :: "byte list \<Rightarrow> byte list \<Rightarrow> int outcome" where
  "CompareBinaryTxs msg1 msg2 =
     (let obj1 = message_object msg1; obj2 = message_object msg2; n = unat (BodySize obj1)
      in if WireTag (obj_tag obj1) \<noteq> WireTag (obj_tag obj2) then Inr (-1)
         else if BodySize obj1 \<noteq> BodySize obj2 then Inr (-1)
         else if length (BodyPtr obj1) < n \<or> length (BodyPtr obj2) < n then Inl OutOfBounds
         else if take n (BodyPtr obj1) \<noteq> take n (BodyPtr obj2) then Inr (-1)
         else Inr 0)"

section \<open>The scan of the transactions\<close>

text \<open>
  The first loop: parsing, the times of exchange messages, and the serial numbers, which are entered for this
  block as they are checked. \<open>Reject\<close> carries the result that the function returns.
\<close>

definition times_check :: "('db, 'f) valops \<Rightarrow> u64 \<Rightarrow> nat \<Rightarrow> 'f xtx option \<Rightarrow> 'db \<Rightarrow> unit verdict outcome" where
  "times_check V prior_blocktime t xtx db =
     (if TypeIsXreq t then
        (case xtx of
           Some (XtxReq xreq) \<Rightarrow>
             reject_if (xq_expire_time xreq > prior_blocktime + XREQ_MAX_EXPIRE_TIME) (-1)
             (reject_if (xq_expire_time xreq \<le> prior_blocktime + ucast (xq_hold_time xreq) + XREQ_MIN_POSTHOLD_TIME) (-1)
             (reject_if (xq_foreign_address xreq \<noteq> [] \<and>
                vo_XmatchingreqUniqueForeignAddressSelect V prior_blocktime (xq_quote_asset xreq) (xq_foreign_address xreq) db \<le> 0) (-1)
             (Inr (Accept ()))))
         | _ \<Rightarrow> Inl OutOfBounds)
      else if TypeIsXpay t then
        (case xtx of
           Some (XtxPay xpay) \<Rightarrow>
             reject_if (xp_match_timestamp xpay = 0) (-1)
             (reject_if (xp_payment_time xpay = 0) (-1)
             (reject_if (xp_match_timestamp xpay + ucast (xp_payment_time xpay) < prior_blocktime) (-1)
             (Inr (Accept ()))))
         | _ \<Rightarrow> Inl OutOfBounds)
      else Inr (Accept ()))"

record ('db, 'f) blockenv =
  be_B :: bigops
  be_hash :: "byte list \<Rightarrow> bigint"
  be_E :: "('db, 'f) settle_env"
  be_I :: "('db, 'f) indexops"
  be_V :: "('db, 'f) valops"
  be_D :: "'db serialops"
  be_O :: "('db, 'f) blockops"
  be_P :: val_params
  be_pages :: nat
  be_fuel :: nat

fun check_block_serials ::
  "('db, 'f) blockenv \<Rightarrow> heap \<Rightarrow> bool \<Rightarrow> addr \<Rightarrow> addr option \<Rightarrow> txin list \<Rightarrow> 'db \<Rightarrow> 'db verdict outcome" where
  "check_block_serials X h shutdown priorobj last_indelible [] db = Inr (Accept db)"
| "check_block_serials X h shutdown priorobj last_indelible (t # ts) db =
     bind_outcome (CheckSerialnum (be_pages X) (be_fuel X) (be_D X) h shutdown (Some priorobj) last_indelible TEMP_SERIALS_PROCESS_BLOCKP None
       (bigint_mem (S_serialnum t)) db) (\<lambda>(rc, db).
     reject_if shutdown 1
     (reject_if (rc \<noteq> 0) 1
     (let (rc2, db) = bo_TempSerialnumInsert (be_O X) (bigint_mem (S_serialnum t)) TEMP_SERIALS_PROCESS_BLOCKP db
      in reject_if rc2 (-1) (check_block_serials X h shutdown priorobj last_indelible ts db))))"

definition scan_tx ::
  "('db, 'f) blockenv \<Rightarrow> heap \<Rightarrow> bool \<Rightarrow> addr \<Rightarrow> addr option \<Rightarrow> u64 \<Rightarrow> byte list \<Rightarrow> u32 \<Rightarrow> 'db \<Rightarrow> 'db verdict outcome" where
  "scan_tx X h shutdown priorobj last_indelible prior_blocktime data txsize db =
     (case tx_from_wire (be_B X) (be_hash X) data txsize of
        Inl (WireError c) \<Rightarrow> Inr (Reject (-1))
      | Inl e \<Rightarrow> Inl e
      | Inr w \<Rightarrow>
          let tx = pay_of (vtx_of w); xtx = ExtractXtx (be_E X) (be_I X) tx False db
          in reject_if (xtx = None \<and> ExtractXtxFailed tx True) (-1)
            (bind_check (times_check (be_V X) prior_blocktime (tp_tag_type tx) xtx db) (\<lambda>_.
             bind_outcome (CheckCreatePseudoSerialnum (be_I X) tx xtx (take (unat txsize) data) False) (\<lambda>tx.
             bind_check (check_block_serials X h shutdown priorobj last_indelible (take (tp_nin tx) (tp_inputs tx)) db) (\<lambda>db.
             bind_outcome (ExtractTx (bo_blake2b (be_O X)) data txsize) (\<lambda>r.
             case r of
               None \<Rightarrow> Inr (Reject (-1))
             | Some (msg, objid) \<Rightarrow> Inr (Accept (bo_TxEnqueueValidate (be_O X) msg db))))))))"

text \<open>Each pass takes at least the eight bytes of a header, so the length of the data bounds the passes.\<close>

fun scan_txs ::
  "nat \<Rightarrow> ('db, 'f) blockenv \<Rightarrow> heap \<Rightarrow> bool \<Rightarrow> addr \<Rightarrow> addr option \<Rightarrow> u64 \<Rightarrow> byte list \<Rightarrow> 'db \<Rightarrow> 'db verdict outcome" where
  "scan_txs 0 X h shutdown priorobj last_indelible prior_blocktime data db = Inl OutOfFuel"
| "scan_txs (Suc n) X h shutdown priorobj last_indelible prior_blocktime data db =
     (if data = [] then Inr (Accept db)
      else reject_if shutdown 1
        (if length data < 4 then Inl OutOfBounds
         else let txsize = (of_nat (le_val (take 4 data)) :: u32)
           in bind_check (scan_tx X h shutdown priorobj last_indelible prior_blocktime data txsize db) (\<lambda>db.
                reject_if (length data < unat txsize) (-1)
                  (scan_txs n X h shutdown priorobj last_indelible prior_blocktime (drop (unat txsize) data) db))))"

section \<open>The check of the transactions\<close>

text \<open>
  The second loop. A payment for an exchange is tried again a number of times; the type of a transaction that
  was parsed is that of its tag.
\<close>

fun validate_retry ::
  "nat \<Rightarrow> ('db, 'f) blockenv \<Rightarrow> bool \<Rightarrow> txpay \<Rightarrow> byte list \<Rightarrow> u64 \<Rightarrow> 'db \<Rightarrow> 'db verdict outcome" where
  "validate_retry retries X shutdown txbuf msg prior_blocktime db =
     bind_outcome (TxValidate (be_B X) (be_hash X) (se_U (be_E X)) (be_V X) (be_I X) (be_P X) txbuf msg prior_blocktime True db) (\<lambda>v.
       if (case v of Accept (r, _) \<Rightarrow> r = 0 | Reject c \<Rightarrow> False) then Inr (Accept db)
       else if \<not> TypeIsXpay (ObjType (obj_tag (message_object msg))) then Inr (Reject (-1))
       else case retries of
              0 \<Rightarrow> Inr (Reject (-1))
            | Suc n \<Rightarrow> reject_if shutdown 1 (validate_retry n X shutdown txbuf msg prior_blocktime (bo_sleep (be_O X) db)))"

declare validate_retry.simps [simp del]

lemmas validate_retry_steps = validate_retry.simps [of 0] validate_retry.simps [of "Suc n" for n]

definition check_tx :: "('db, 'f) blockenv \<Rightarrow> bool \<Rightarrow> txpay \<Rightarrow> u64 \<Rightarrow> byte list \<Rightarrow> u32 \<Rightarrow> 'db \<Rightarrow> 'db verdict outcome" where
  "check_tx X shutdown txbuf prior_blocktime data txsize db =
     bind_outcome (ExtractTx (bo_blake2b (be_O X)) data txsize) (\<lambda>r.
       case r of
         None \<Rightarrow> Inr (Reject (-1))
       | Some (msg, objid) \<Rightarrow>
           (case bo_ValidTx (be_O X) objid db of
              Some msg2 \<Rightarrow> bind_outcome (CompareBinaryTxs msg msg2) (\<lambda>rc. reject_if (rc \<noteq> 0) (-1) (Inr (Accept db)))
            | None \<Rightarrow>
                validate_retry (Suc (if bo_is_witness (be_O X) then XCX_PAY_WITNESS_RETRIES else XCX_PAY_RETRIES)) X shutdown txbuf msg
                  prior_blocktime db))"

fun check_txs ::
  "nat \<Rightarrow> ('db, 'f) blockenv \<Rightarrow> bool \<Rightarrow> txpay \<Rightarrow> u64 \<Rightarrow> byte list \<Rightarrow> 'db \<Rightarrow> 'db verdict outcome" where
  "check_txs 0 X shutdown txbuf prior_blocktime data db = Inl OutOfFuel"
| "check_txs (Suc n) X shutdown txbuf prior_blocktime data db =
     (if data = [] then Inr (Accept db)
      else reject_if shutdown 1
        (if length data < 4 then Inl OutOfBounds
         else let txsize = (of_nat (le_val (take 4 data)) :: u32)
           in bind_check (check_tx X shutdown txbuf prior_blocktime data txsize db) (\<lambda>db.
                check_txs n X shutdown txbuf prior_blocktime (drop (unat txsize) data) db)))"

section \<open>The block\<close>

text \<open>The prior block: known already, or found among the valid blocks and then chained to.\<close>

definition find_prior :: "('db, 'f) blockenv \<Rightarrow> mint_params \<Rightarrow> heap \<Rightarrow> addr \<Rightarrow> 'db \<Rightarrow> (addr \<times> heap) verdict outcome" where
  "find_prior X g h b db =
     (case prior (h b) of
        Some p \<Rightarrow> Inr (Accept (p, h))
      | None \<Rightarrow>
          (case bo_ValidBlock (be_O X) (prior_oid (h b)) db of
             None \<Rightarrow> Inr (Reject 2)
           | Some p \<Rightarrow> bind_outcome (ChainToPriorBlock g h b p) (\<lambda>h. Inr (Accept (p, h)))))"

text \<open>The two loops, between which the function waits for the threads.\<close>

definition validate_txs ::
  "('db, 'f) blockenv \<Rightarrow> bool \<Rightarrow> addr option \<Rightarrow> txpay \<Rightarrow> heap \<Rightarrow> addr \<Rightarrow> u64 \<Rightarrow> byte list \<Rightarrow> 'db \<Rightarrow> 'db verdict outcome" where
  "validate_txs X shutdown last_indelible txbuf h p prior_blocktime data db =
     bind_check (scan_txs (Suc (length data)) X h shutdown p last_indelible prior_blocktime data db) (\<lambda>db.
       check_txs (Suc (length data)) X shutdown txbuf prior_blocktime data (bo_WaitForBlockTxValidation (be_O X) db))"

text \<open>
  A block with its prior block \<open>p\<close>: the result of the function with the database and the fatal error flag of
  the order check. The database after a rejection by one of the two loops is not part of the result.
\<close>

definition validate_chained ::
  "('db, 'f) blockenv \<Rightarrow> bool \<Rightarrow> addr option \<Rightarrow> txpay \<Rightarrow> heap \<Rightarrow> addr \<Rightarrow> addr \<Rightarrow> 'db \<Rightarrow> (int \<times> 'db option \<times> bool) outcome" where
  "validate_chained X shutdown last_indelible txbuf h b p db =
     (if unat (witness (h b)) \<ge> unat (next_nwitnesses (blockchain_params (h p))) then Inr (-1, Some db, False)
      else if vp_test_mal (be_P X) then Inr (0, Some db, False)
      else bind_outcome (CheckBadSigOrder h b (-1)) (\<lambda>(bad, fatal).
        if bad then Inr (-1, Some db, fatal)
        else if bo_SignOrVerify (be_O X) (h b) then Inr (-1, Some db, fatal)
        else if sint (timestamp_value (h b) - bo_unixtime (be_O X)) > bo_block_future_tolerance (be_O X)
        then Inr (-1, Some (bo_ProcessQSelectAndDelete (be_O X) (oid (h b)) db), fatal)
        else
          let db = bo_TempSerialnumClear (be_O X) TEMP_SERIALS_PROCESS_BLOCKP db;
              db = bo_WaitForBlockTxValidation (be_O X) db
          in bind_outcome (validate_txs X shutdown last_indelible txbuf h p (timestamp_value (h p)) (txdata (h b)) db) (\<lambda>v.
               case v of Reject c \<Rightarrow> Inr (c, None, fatal) | Accept db \<Rightarrow> Inr (0, Some db, fatal))))"

definition BlockValidate ::
  "('db, 'f) blockenv \<Rightarrow> mint_params \<Rightarrow> bool \<Rightarrow> addr option \<Rightarrow> txpay \<Rightarrow> heap \<Rightarrow> addr \<Rightarrow> 'db \<Rightarrow> (int \<times> heap \<times> 'db option \<times> bool) outcome" where
  "BlockValidate X g shutdown last_indelible txbuf h b db =
     (let prune_level = ComputePruneLevel h last_indelible (bo_startup_prune_level (be_O X)) 1 BLOCK_PRUNE_ROUNDS
      in if level_value (h b) < prune_level then Inr (1, h, Some db, False)
         else if unat (witness (h b)) \<ge> MAX_NWITNESSES then Inr (-1, h, Some db, False)
         else bind_outcome (find_prior X g h b db) (\<lambda>v.
           case v of
             Reject c \<Rightarrow> Inr (c, h, Some db, False)
           | Accept (p, h) \<Rightarrow>
               bind_outcome (validate_chained X shutdown last_indelible txbuf h b p db) (\<lambda>(rc, db, fatal). Inr (rc, h, db, fatal))))"

end
