(* ===== verification/Block_Validate_Props.thy ===== *)
theory Block_Validate_Props
  imports Block_Validate Tx_Validate_Props Consensus
begin

text \<open>
  What a node knows of a block that \<open>BlockValidate\<close> accepted: who signed it and when, how its data splits
  into transactions, that each of them is valid, and that its serial numbers are spent nowhere else on the
  chain nor twice in the block.
\<close>

section \<open>Serial numbers\<close>

abbreviation temp_type :: nat where "temp_type \<equiv> TEMP_SERIALS_PROCESS_BLOCKP"

text \<open>
  What the table of temporary serial numbers promises: the rows of a serial number are read in pages, an
  entry is found after it was made, and the threads that validate the queued transactions remove no entry
  of this block.
\<close>

definition temp_table :: "('db, 'f) blockenv \<Rightarrow> (byte list \<Rightarrow> 'db \<Rightarrow> addr list) \<Rightarrow> bool" where
  "temp_table X rows \<longleftrightarrow> 0 < be_pages X \<and>
     (\<forall>s db. serial_rows (be_D X) s db (rows s db) \<and> length (rows s db) \<le> be_pages X * BLOCKARRAYSIZE) \<and>
     (\<forall>s u db db'. bo_TempSerialnumInsert (be_O X) s temp_type db = (False, db') \<longrightarrow>
        (u = s \<or> temp_type \<in> set (rows u db) \<longrightarrow> temp_type \<in> set (rows u db'))) \<and>
     (\<forall>s m db. temp_type \<in> set (rows s db) \<longrightarrow> temp_type \<in> set (rows s (bo_TxEnqueueValidate (be_O X) m db)))"

definition entered :: "(byte list \<Rightarrow> 'db \<Rightarrow> addr list) \<Rightarrow> 'db \<Rightarrow> byte list set" where
  "entered rows db = {s. temp_type \<in> set (rows s db)}"

text \<open>A serial number that was in no indelible block, and in no recent block of the chain that ends with \<open>p\<close>.\<close>

definition unspent_below :: "('db, 'f) blockenv \<Rightarrow> (byte list \<Rightarrow> 'db \<Rightarrow> addr list) \<Rightarrow> heap \<Rightarrow> addr \<Rightarrow> addr \<Rightarrow> byte list \<Rightarrow> bool" where
  "unspent_below X rows h l p s \<longleftrightarrow>
     (\<exists>db. 0 < SerialnumSelect (be_D X) s db \<and> (\<forall>c \<in> set (rows s db). \<not> searched h (level_value (h l)) p c))"

definition serials_of :: "txpay \<Rightarrow> byte list list" where
  "serials_of tx = map (\<lambda>t. bigint_mem (S_serialnum t)) (take (tp_nin tx) (tp_inputs tx))"

definition chain_ready :: "('db, 'f) blockenv \<Rightarrow> (byte list \<Rightarrow> 'db \<Rightarrow> addr list) \<Rightarrow> heap \<Rightarrow> bool" where
  "chain_ready X rows h \<longleftrightarrow> temp_table X rows \<and> levels_fall h \<and> (\<forall>b. unat (level_value (h b)) + 1 < be_fuel X)"

lemma CheckSerialnum_zero:
  assumes "chain_ready X rows h"
    and "CheckSerialnum (be_pages X) (be_fuel X) (be_D X) h False (Some p) (Some l) temp_type None s db = Inr (0, db')"
  shows "db' = db \<and> s \<notin> entered rows db \<and> unspent_below X rows h l p s"
proof -
  let ?bs = "rows s db" and ?P = "\<lambda>b. b = temp_type \<or> searched h (level_value (h l)) p b"
  have t: "levels_fall h" "unat (level_value (h p)) + 1 < be_fuel X" "serial_rows (be_D X) s db ?bs"
      "length ?bs \<le> be_pages X * BLOCKARRAYSIZE" "0 < be_pages X"
    using assms(1) by (simp_all add: chain_ready_def temp_table_def)
  have "check_serial_loop (be_pages X) (be_fuel X) (be_D X) h False (Some p) (Some l) temp_type s 0 db =
      Inr (serial_verdict temp_type (find ?P ?bs))"
    using check_serial_loop_spec [OF t(1-3) le0 _ t(5), of l temp_type] t(4) by simp
  then have "0 < SerialnumSelect (be_D X) s db" "serial_verdict temp_type (find ?P ?bs) = 0" "db' = db"
    using assms(2) by (auto simp: CheckSerialnum_def Let_def split: if_splits)
  then show ?thesis
    by (auto simp: serial_verdict_def find_None_iff entered_def unspent_below_def split: option.splits if_splits)
qed

lemma check_block_serials_sound:
  assumes "chain_ready X rows h"
  shows "check_block_serials X h False p (Some l) ts db = Inr (Accept db') \<Longrightarrow> ss = map (\<lambda>t. bigint_mem (S_serialnum t)) ts \<Longrightarrow>
    distinct ss \<and> set ss \<inter> entered rows db = {} \<and> entered rows db \<union> set ss \<subseteq> entered rows db' \<and>
    (\<forall>s \<in> set ss. unspent_below X rows h l p s)"
proof (induction ts arbitrary: ss db)
  case (Cons t ts)
  let ?s = "bigint_mem (S_serialnum t)" and ?ss = "map (\<lambda>t. bigint_mem (S_serialnum t)) ts"
  obtain rc db1 rc2 db2 where c: "CheckSerialnum (be_pages X) (be_fuel X) (be_D X) h False (Some p) (Some l) temp_type None ?s db = Inr (rc, db1)"
      "rc = 0" "bo_TempSerialnumInsert (be_O X) ?s temp_type db1 = (rc2, db2)" "\<not> rc2"
      "check_block_serials X h False p (Some l) ts db2 = Inr (Accept db')"
    using Cons.prems(1) by (auto simp: accepts bind_outcome_def split: sum.splits prod.splits)
  have z: "db1 = db" "?s \<notin> entered rows db" "unspent_below X rows h l p ?s"
    using CheckSerialnum_zero [OF assms, of p l ?s db db1] c(1,2) by simp_all
  have "insert ?s (entered rows db) \<subseteq> entered rows db2"
    using assms c(3,4) z(1) by (auto simp: chain_ready_def temp_table_def entered_def)
  with Cons.IH [OF c(5) refl] z Cons.prems(2) show ?case by auto
qed simp

section \<open>The scan\<close>

text \<open>
  A message \<open>m\<close> of a block after one with time \<open>t\<close>: it has the size that it states, it was read where the
  block holds it, the times of an exchange message are right, and \<open>ss\<close> are its serial numbers.
\<close>

definition block_message :: "('db, 'f) blockenv \<Rightarrow> u64 \<Rightarrow> byte list \<Rightarrow> byte list list \<Rightarrow> bool" where
  "block_message X t m ss \<longleftrightarrow> CC_MSG_HEADER_SIZE \<le> length m \<and> le_val (take 4 m) = length m \<and>
     (\<exists>rest w db xtx tx. tx_from_wire (be_B X) (be_hash X) (m @ rest) (of_nat (length m)) = Inr w \<and>
        xtx = ExtractXtx (be_E X) (be_I X) (pay_of (vtx_of w)) False db \<and>
        times_check (be_V X) t (tp_tag_type (pay_of (vtx_of w))) xtx db = Inr (Accept ()) \<and>
        CheckCreatePseudoSerialnum (be_I X) (pay_of (vtx_of w)) xtx m False = Inr tx \<and> ss = serials_of tx)"

lemma ExtractTx_Some:
  "ExtractTx blake2b data txsize = Inr (Some (msg, objid)) \<Longrightarrow>
    msg = take (unat txsize) data \<and> unat txsize \<le> length data \<and> CC_MSG_HEADER_SIZE \<le> unat txsize \<and>
    ComputeObjId blake2b (message_object msg) = Inr objid"
  by (auto simp: ExtractTx_def Let_def CC_MSG_HEADER_SIZE_def word_less_nat_alt bind_outcome_def split: if_splits sum.splits)

lemma scan_tx_accepts:
  assumes "scan_tx X h shutdown p l t data txsize db = Inr (Accept db')"
  obtains w xtx tx db1 msg objid where "tx_from_wire (be_B X) (be_hash X) data txsize = Inr w"
    "xtx = ExtractXtx (be_E X) (be_I X) (pay_of (vtx_of w)) False db"
    "times_check (be_V X) t (tp_tag_type (pay_of (vtx_of w))) xtx db = Inr (Accept ())"
    "CheckCreatePseudoSerialnum (be_I X) (pay_of (vtx_of w)) xtx (take (unat txsize) data) False = Inr tx"
    "check_block_serials X h shutdown p l (take (tp_nin tx) (tp_inputs tx)) db = Inr (Accept db1)"
    "ExtractTx (bo_blake2b (be_O X)) data txsize = Inr (Some (msg, objid))"
    "db' = bo_TxEnqueueValidate (be_O X) msg db1"
proof -
  obtain w where w: "tx_from_wire (be_B X) (be_hash X) data txsize = Inr w"
    using assms by (cases "tx_from_wire (be_B X) (be_hash X) data txsize") (auto simp: scan_tx_def split: cc_error.splits)
  show thesis
    using assms w that
    by (auto simp: scan_tx_def Let_def accepts bind_outcome_eq_Inr split: option.splits prod.splits)
qed

lemma unat_stated_size: "unat (of_nat (le_val (take 4 data)) :: u32) = le_val (take 4 data)"
proof -
  have "(256 :: nat) ^ min (length data) 4 \<le> 256 ^ 4" by (rule power_increasing) auto
  then have "le_val (take 4 data) < 2 ^ 32" using le_val_less [of "take 4 data"] by simp
  then show ?thesis by (simp add: unat_of_nat take_bit_nat_eq_self)
qed

lemma scan_tx_sound:
  assumes "chain_ready X rows h" "scan_tx X h False p (Some l) t data txsize db = Inr (Accept db')"
    and "txsize = of_nat (le_val (take 4 data))"
  obtains m rest ss where "data = m @ rest" "unat txsize = length m" "block_message X t m ss"
    "distinct ss" "set ss \<inter> entered rows db = {}" "entered rows db \<union> set ss \<subseteq> entered rows db'"
    "\<forall>s \<in> set ss. unspent_below X rows h l p s"
proof -
  from assms(2) obtain w xtx tx db1 msg objid where d: "tx_from_wire (be_B X) (be_hash X) data txsize = Inr w"
    "xtx = ExtractXtx (be_E X) (be_I X) (pay_of (vtx_of w)) False db"
    "times_check (be_V X) t (tp_tag_type (pay_of (vtx_of w))) xtx db = Inr (Accept ())"
    "CheckCreatePseudoSerialnum (be_I X) (pay_of (vtx_of w)) xtx (take (unat txsize) data) False = Inr tx"
    "check_block_serials X h False p (Some l) (take (tp_nin tx) (tp_inputs tx)) db = Inr (Accept db1)"
    "ExtractTx (bo_blake2b (be_O X)) data txsize = Inr (Some (msg, objid))"
    "db' = bo_TxEnqueueValidate (be_O X) msg db1"
    by (rule scan_tx_accepts)
  let ?m = "take (unat txsize) data" and ?rest = "drop (unat txsize) data"
  have e: "unat txsize \<le> length data" "CC_MSG_HEADER_SIZE \<le> unat txsize" using ExtractTx_Some [OF d(6)] by simp_all
  then have l: "length ?m = unat txsize" "take 4 ?m = take 4 data" by (simp_all add: CC_MSG_HEADER_SIZE_def min_def)
  have v: "le_val (take 4 data) = unat txsize" using assms(3) unat_stated_size by simp
  have "block_message X t ?m (serials_of tx)"
    unfolding block_message_def using d(1-4) e l v
    by (intro conjI exI [of _ ?rest] exI [of _ w] exI [of _ db] exI [of _ xtx] exI [of _ tx]) simp_all
  moreover note check_block_serials_sound [OF assms(1) d(5) serials_of_def]
  moreover have "entered rows db1 \<subseteq> entered rows db'"
    using assms(1) d(7) by (auto simp: chain_ready_def temp_table_def entered_def)
  ultimately show thesis using that [of ?m ?rest "serials_of tx"] l(1) by auto
qed

lemma scan_txs_sound:
  assumes "chain_ready X rows h"
  shows "scan_txs n X h shutdown p (Some l) t data db = Inr (Accept db') \<Longrightarrow>
    \<exists>items. data = concat (map fst items) \<and> distinct (concat (map snd items)) \<and>
      set (concat (map snd items)) \<inter> entered rows db = {} \<and>
      (\<forall>(m, ss) \<in> set items. block_message X t m ss \<and> (\<forall>s \<in> set ss. unspent_below X rows h l p s))"
proof (induction n arbitrary: data db)
  case (Suc n)
  show ?case
  proof (cases "data = []")
    case True
    then show ?thesis by (intro exI [of _ "[]"]) simp
  next
    case False
    let ?sz = "of_nat (le_val (take 4 data)) :: u32"
    obtain db1 where s: "scan_tx X h False p (Some l) t data ?sz db = Inr (Accept db1)"
      "scan_txs n X h shutdown p (Some l) t (drop (unat ?sz) data) db1 = Inr (Accept db')" "\<not> shutdown"
      using Suc.prems False by (auto simp: accepts Let_def split: if_splits)
    obtain m rest ss where m: "data = m @ rest" "unat ?sz = length m" "block_message X t m ss" "distinct ss"
      "set ss \<inter> entered rows db = {}" "entered rows db \<union> set ss \<subseteq> entered rows db1" "\<forall>s \<in> set ss. unspent_below X rows h l p s"
      using scan_tx_sound [OF assms s(1) refl] by blast
    from Suc.IH [OF s(2)] obtain items where "rest = concat (map fst items)" "distinct (concat (map snd items))"
      "set (concat (map snd items)) \<inter> entered rows db1 = {}"
      "\<forall>(m, ss) \<in> set items. block_message X t m ss \<and> (\<forall>s \<in> set ss. unspent_below X rows h l p s)"
      unfolding m(2) by (auto simp: m(1))
    with m show ?thesis by (intro exI [of _ "(m, ss) # items"]) auto
  qed
qed simp

text \<open>The bound on the passes of the two loops changes nothing.\<close>

lemma scan_tx_size: "scan_tx X h shutdown p l t data txsize db = Inr (Accept db') \<Longrightarrow> 0 < unat txsize \<and> unat txsize \<le> length data"
  by (erule scan_tx_accepts) (auto simp: CC_MSG_HEADER_SIZE_def dest: ExtractTx_Some)

lemma bind_check_cong:
  "r = r' \<Longrightarrow> (\<And>x. r' = Inr (Accept x) \<Longrightarrow> f x = g x) \<Longrightarrow> bind_check r f = bind_check r' g"
  by (auto simp: bind_check_def bind_outcome_def split: sum.split verdict.split)

lemma scan_txs_passes:
  "length data < n \<Longrightarrow> length data < m \<Longrightarrow> scan_txs n X h shutdown p l t data db = scan_txs m X h shutdown p l t data db"
proof (induction n arbitrary: m data db)
  case (Suc n)
  obtain k where m: "m = Suc k" using Suc.prems(2) by (cases m) auto
  let ?sz = "of_nat (le_val (take 4 data)) :: u32"
  have "scan_txs n X h shutdown p l t (drop (unat ?sz) data) d = scan_txs k X h shutdown p l t (drop (unat ?sz) data) d"
    if "scan_tx X h shutdown p l t data ?sz db = Inr (Accept d)" for d
    using scan_tx_size [OF that] Suc.prems m by (intro Suc.IH) auto
  then show ?case unfolding m scan_txs.simps Let_def
    by (intro if_cong refl arg_cong [where f = "reject_if shutdown 1"] bind_check_cong arg_cong [where f = "reject_if (length data < unat ?sz) (-1)"])
qed simp

section \<open>The checks\<close>

text \<open>A transaction of a block that is among the valid objects, or that is valid at the time of the prior block.\<close>

definition tx_checked :: "('db, 'f) blockenv \<Rightarrow> txpay \<Rightarrow> u64 \<Rightarrow> byte list \<Rightarrow> bool" where
  "tx_checked X txbuf t m \<longleftrightarrow>
     (\<exists>objid m2 db. ComputeObjId (bo_blake2b (be_O X)) (message_object m) = Inr objid \<and> bo_ValidTx (be_O X) objid db = Some m2 \<and>
        CompareBinaryTxs m m2 = Inr 0) \<or>
     (\<exists>pay db. TxValidate (be_B X) (be_hash X) (se_U (be_E X)) (be_V X) (be_I X) (be_P X) txbuf m t True db = Inr (Accept (0, pay)))"

lemma validate_retry_accepts:
  "validate_retry n X shutdown txbuf msg t db = Inr (Accept db') \<Longrightarrow>
    \<exists>pay db. TxValidate (be_B X) (be_hash X) (se_U (be_E X)) (be_V X) (be_I X) (be_P X) txbuf msg t True db = Inr (Accept (0, pay))"
  by (induction n arbitrary: db)
    (fastforce simp: validate_retry_steps accepts bind_outcome_eq_Inr split: if_splits verdict.splits)+

lemma check_tx_accepts:
  assumes "check_tx X shutdown txbuf t data txsize db = Inr (Accept db')"
  shows "tx_checked X txbuf t (take (unat txsize) data) \<and> unat txsize \<le> length data"
proof -
  obtain msg objid where e: "ExtractTx (bo_blake2b (be_O X)) data txsize = Inr (Some (msg, objid))"
    using assms by (cases "ExtractTx (bo_blake2b (be_O X)) data txsize") (auto simp: check_tx_def split: option.splits)
  note m = ExtractTx_Some [OF this]
  show ?thesis
  proof (cases "bo_ValidTx (be_O X) objid db")
    case None
    then have "\<exists>n. validate_retry n X shutdown txbuf msg t db = Inr (Accept db')"
      using assms e by (auto simp: check_tx_def)
    then show ?thesis using m validate_retry_accepts unfolding tx_checked_def by metis
  next
    case (Some m2)
    then have "CompareBinaryTxs msg m2 = Inr 0" using assms e by (auto simp: check_tx_def accepts bind_outcome_eq_Inr)
    then show ?thesis using Some m by (auto simp: tx_checked_def)
  qed
qed

lemma check_txs_sound:
  "check_txs n X shutdown txbuf t (concat ms) db = Inr (Accept db') \<Longrightarrow>
    \<forall>m \<in> set ms. CC_MSG_HEADER_SIZE \<le> length m \<and> le_val (take 4 m) = length m \<Longrightarrow> \<forall>m \<in> set ms. tx_checked X txbuf t m"
proof (induction ms arbitrary: n db)
  case (Cons m ms)
  have m: "8 \<le> length m" "le_val (take 4 m) = length m" using Cons.prems(2) by (simp_all add: CC_MSG_HEADER_SIZE_def)
  then have ne: "concat (m # ms) \<noteq> []" and t: "take 4 (concat (m # ms)) = take 4 m" by auto
  have u: "unat (of_nat (length m) :: u32) = length m" using unat_stated_size [of m] m(2) by simp
  obtain k where k: "n = Suc k" using Cons.prems(1) by (cases n) auto
  obtain db1 where "check_tx X shutdown txbuf t (concat (m # ms)) (of_nat (length m)) db = Inr (Accept db1)"
    "check_txs k X shutdown txbuf t (concat ms) db1 = Inr (Accept db')"
    using Cons.prems(1) ne m(2) unfolding k
    by (simp only: check_txs.simps t Let_def accepts if_False split: if_splits) (auto simp: u)
  with check_tx_accepts [of X shutdown txbuf t "concat (m # ms)" "of_nat (length m)" db db1] Cons.IH Cons.prems(2)
  show ?case by (simp add: u)
qed simp

section \<open>The block\<close>

lemma find_prior_accepts:
  assumes "find_prior X g h b db = Inr (Accept (p, h'))" "unat (witness (h b)) < MAX_NWITNESSES"
  shows "prior (h' b) = Some p \<and> witness (h' b) = witness (h b)"
  using assms(1) ChainToPriorBlock_links [where h = h and b = b, OF assms(2), of g p]
  by (auto simp: find_prior_def bind_outcome_eq_Inr split: option.splits)

lemma find_prior_code: "find_prior X g h b db = Inr (Reject c) \<Longrightarrow> c = 2"
  by (auto simp: find_prior_def bind_outcome_eq_Inr split: option.splits)

lemma BlockValidate_zero:
  assumes "BlockValidate X g shutdown l txbuf h b db = Inr (0, h', db', fatal)"
  obtains p where "unat (witness (h b)) < MAX_NWITNESSES" "find_prior X g h b db = Inr (Accept (p, h'))"
    "validate_chained X shutdown l txbuf h' b p db = Inr (0, db', fatal)"
proof -
  obtain v where v: "unat (witness (h b)) < MAX_NWITNESSES" "find_prior X g h b db = Inr v"
    using assms by (auto simp: BlockValidate_def Let_def bind_outcome_eq_Inr split: if_splits)
  with assms find_prior_code [of X g h b db 0] show thesis
    by (cases v) (auto simp: BlockValidate_def Let_def bind_outcome_eq_Inr split: if_splits intro: that)
qed

named_theorems rejects

lemma bind_check_rejects [rejects]:
  "bind_check r f = Inr (Reject c) \<longleftrightarrow> r = Inr (Reject c) \<or> (\<exists>x. r = Inr (Accept x) \<and> f x = Inr (Reject c))"
proof (cases r)
  case (Inr v)
  then show ?thesis by (cases v) (auto simp: bind_check_def)
qed (simp add: bind_check_def)

lemma reject_if_rejects [rejects]: "reject_if bad c r = Inr (Reject d) \<longleftrightarrow> bad \<and> c = d \<or> \<not> bad \<and> r = Inr (Reject d)"
  by (auto simp: reject_if_def)

lemma check_block_serials_codes: "check_block_serials X h shutdown p l ts db = Inr (Reject c) \<Longrightarrow> c = 1 \<or> c = -1"
  by (induction ts arbitrary: db) (auto simp: rejects bind_outcome_eq_Inr case_prod_beta Let_def)

lemma times_check_codes: "times_check V t ty xtx db = Inr (Reject c) \<Longrightarrow> c = 1 \<or> c = -1"
  by (auto simp: times_check_def rejects split: if_splits option.splits xtx.splits)

lemma scan_tx_codes: "scan_tx X h shutdown p l t data txsize db = Inr (Reject c) \<Longrightarrow> c = 1 \<or> c = -1"
  using times_check_codes check_block_serials_codes
  by (fastforce simp: scan_tx_def Let_def rejects bind_outcome_eq_Inr split: sum.splits cc_error.splits option.splits prod.splits)

lemma scan_txs_codes: "scan_txs n X h shutdown p l t data db = Inr (Reject c) \<Longrightarrow> c = 1 \<or> c = -1"
  by (induction n arbitrary: data db) (auto simp: rejects Let_def dest: scan_tx_codes split: if_splits)

lemma validate_retry_codes: "validate_retry n X shutdown txbuf msg t db = Inr (Reject c) \<Longrightarrow> c = 1 \<or> c = -1"
  by (induction n arbitrary: db) (auto simp: validate_retry_steps rejects bind_outcome_eq_Inr split: if_splits)

lemma check_tx_codes: "check_tx X shutdown txbuf t data txsize db = Inr (Reject c) \<Longrightarrow> c = 1 \<or> c = -1"
  by (auto simp: check_tx_def rejects bind_outcome_eq_Inr dest: validate_retry_codes split: option.splits)

lemma check_txs_codes: "check_txs n X shutdown txbuf t data db = Inr (Reject c) \<Longrightarrow> c = 1 \<or> c = -1"
  by (induction n arbitrary: data db) (auto simp: rejects Let_def dest: check_tx_codes split: if_splits)

lemma validate_txs_codes: "validate_txs X shutdown l txbuf h p t data db = Inr (Reject c) \<Longrightarrow> c = 1 \<or> c = -1"
  by (auto simp: validate_txs_def rejects simp del: scan_txs.simps check_txs.simps dest: scan_txs_codes check_txs_codes)

lemma validate_chained_zero:
  assumes "validate_chained X shutdown l txbuf h b p db = Inr (0, db', fatal)" "\<not> vp_test_mal (be_P X)"
  obtains db1 db2 where "unat (witness (h b)) < unat (next_nwitnesses (blockchain_params (h p)))"
    "CheckBadSigOrder h b (-1) = Inr (False, fatal)" "\<not> bo_SignOrVerify (be_O X) (h b)"
    "sint (timestamp_value (h b) - bo_unixtime (be_O X)) \<le> bo_block_future_tolerance (be_O X)"
    "validate_txs X shutdown l txbuf h p (timestamp_value (h p)) (txdata (h b)) db1 = Inr (Accept db2)"
proof -
  let ?db = "bo_WaitForBlockTxValidation (be_O X) (bo_TempSerialnumClear (be_O X) temp_type db)"
  let ?v = "validate_txs X shutdown l txbuf h p (timestamp_value (h p)) (txdata (h b)) ?db"
  obtain bad f where c: "CheckBadSigOrder h b (-1) = Inr (bad, f)"
    using assms by (auto simp: validate_chained_def bind_outcome_eq_Inr split: if_splits)
  have g: "\<not> bad" "\<not> bo_SignOrVerify (be_O X) (h b)" "unat (witness (h b)) < unat (next_nwitnesses (blockchain_params (h p)))"
      "sint (timestamp_value (h b) - bo_unixtime (be_O X)) \<le> bo_block_future_tolerance (be_O X)"
    using assms c by (auto simp: validate_chained_def Let_def bind_outcome_eq_Inr split: if_splits verdict.splits)
  obtain v where v: "?v = Inr v"
    using assms c g by (auto simp: validate_chained_def Let_def bind_outcome_eq_Inr)
  then obtain db2 where "v = Accept db2" "f = fatal"
    using assms c g validate_txs_codes [of X shutdown l txbuf h p "timestamp_value (h p)" "txdata (h b)" ?db 0]
    by (cases v) (auto simp: validate_chained_def Let_def)
  with c g v show thesis by (auto intro: that)
qed

lemma validate_txs_sound:
  assumes "chain_ready X rows h" "validate_txs X shutdown (Some l) txbuf h p t data db = Inr (Accept db')"
  shows "\<exists>items. data = concat (map fst items) \<and> distinct (concat (map snd items)) \<and>
    (\<forall>(m, ss) \<in> set items. block_message X t m ss \<and> tx_checked X txbuf t m \<and> (\<forall>s \<in> set ss. unspent_below X rows h l p s))"
proof -
  obtain db1 where v: "scan_txs (Suc (length data)) X h shutdown p (Some l) t data db = Inr (Accept db1)"
    "check_txs (Suc (length data)) X shutdown txbuf t data (bo_WaitForBlockTxValidation (be_O X) db1) = Inr (Accept db')"
    using assms(2) by (auto simp: validate_txs_def accepts simp del: scan_txs.simps check_txs.simps)
  from scan_txs_sound [OF assms(1) v(1)] obtain items where i: "data = concat (map fst items)" "distinct (concat (map snd items))"
    "\<forall>(m, ss) \<in> set items. block_message X t m ss \<and> (\<forall>s \<in> set ss. unspent_below X rows h l p s)"
    by blast
  have "\<forall>m \<in> set (map fst items). CC_MSG_HEADER_SIZE \<le> length m \<and> le_val (take 4 m) = length m"
    using i(3) by (auto simp: block_message_def)
  then have "\<forall>m \<in> set (map fst items). tx_checked X txbuf t m"
    using check_txs_sound [of _ X shutdown txbuf t "map fst items"] v(2) unfolding i(1) by blast
  with i show ?thesis by (intro exI [of _ items]) fastforce
qed


text \<open>
  A block with the payment of a match, a table that holds temporary serial numbers, and a database of valid
  objects that has the payment.
\<close>

definition paid_match :: "int xmatch" where
  "paid_match = val_match\<lparr>xm_match_timestamp := 2000000000\<rparr>"

definition held_rows :: "byte list \<Rightarrow> bigint list \<Rightarrow> addr list" where
  "held_rows s db = (if s \<in> set (map bigint_mem db) then [temp_type] else [])"

definition held_serialops :: "bigint list serialops" where
  "held_serialops = \<lparr>Temp_Serials_select = (\<lambda>s l db. (False, map (SqlRow 1 8) (if l = 0 then held_rows s db else []))),
     SerialnumSelect = (\<lambda>s db. 1), ValidObjsDeleteObj = (\<lambda>tx db. db)\<rparr>"

definition val_blockops :: "(bigint list, int) blockops" where
  "val_blockops = \<lparr>bo_SignOrVerify = (\<lambda>b. False), bo_unixtime = 1704067200, bo_is_witness = False, bo_block_future_tolerance = 60,
     bo_startup_prune_level = 0, bo_blake2b = (\<lambda>k m. k @ m), bo_ValidBlock = (\<lambda>i db. None), bo_ValidTx = (\<lambda>i db. Some val_msg),
     bo_ProcessQSelectAndDelete = (\<lambda>i db. db), bo_TempSerialnumClear = (\<lambda>t db. []),
     bo_TempSerialnumInsert = (\<lambda>s t db. (length s \<noteq> 32, big_of_nat (le_val s) # db)), bo_TxEnqueueValidate = (\<lambda>m db. db),
     bo_WaitForBlockTxValidation = (\<lambda>db. db), bo_sleep = (\<lambda>db. db)\<rparr>"

definition val_blockenv :: "(bigint list, int) blockenv" where
  "val_blockenv = \<lparr>be_B = limb_bigops, be_hash = (\<lambda>m. big_of_nat 5),
     be_E = serial_env\<lparr>se_D := (se_D serial_env)\<lparr>XmatchSelect := (\<lambda>n db. (False, paid_match))\<rparr>\<rparr>,
     be_I = val_index, be_V = val_ops, be_D = held_serialops, be_O = val_blockops, be_P = val_pars, be_pages = 1, be_fuel = 10\<rparr>"

definition val_heap :: heap where
  "val_heap = sample_heap(2 := (sample_heap 2)\<lparr>txdata := val_msg\<rparr>)"

lemma bigint_mem_of_val: "length s = 32 \<Longrightarrow> bigint_mem (big_of_nat (le_val s)) = s"
proof -
  assume l: "length s = 32"
  have "length (bigint_mem (big_of_nat (le_val s))) = 32" using wf_big_of_nat [of "le_val s"] by (simp add: wf_bigint_def numberLimbs_def)
  moreover have "le_val (bigint_mem (big_of_nat (le_val s))) = le_val s"
    using le_val_less [of s] l by (simp add: le_val_bigint_mem bval_big_of_nat)
  ultimately show ?thesis using le_bytes_val [of s] le_bytes_val [of "bigint_mem (big_of_nat (le_val s))"] l by metis
qed

lemma val_chain_ready: "chain_ready val_blockenv held_rows val_heap"
proof -
  have "temp_table val_blockenv held_rows"
    by (auto simp: temp_table_def val_blockenv_def serial_rows_def held_serialops_def held_rows_def val_blockops_def BLOCKARRAYSIZE_def
        TEMP_SERIALS_PROCESS_BLOCKP_def bigint_mem_of_val le_Suc_eq)
  moreover have "levels_fall val_heap"
    by (auto simp: levels_fall_def val_heap_def sample_heap_def sample_block_def level_value_def split: if_splits)
  moreover have "unat (level_value (val_heap b)) + 1 < be_fuel val_blockenv" for b
    by (auto simp: val_heap_def sample_heap_def sample_block_def level_value_def val_blockenv_def)
  ultimately show ?thesis by (simp add: chain_ready_def)
qed

lemma val_size: "of_nat (le_val (take 4 val_msg)) = (60 :: u32)" "length val_msg = 60" "unat (60 :: u32) = 60"
  by (simp_all add: val_msg_def)

lemma val_object: "message_object val_msg = \<lparr>obj_size = 60, obj_tag = CC_TAG_XCX_PAYMENT, obj_data = drop 8 val_msg\<rparr>"
  by (simp add: message_object_def val_msg_def cc_tags)

lemma val_extract: "\<exists>objid. ExtractTx (bo_blake2b val_blockops) val_msg 60 = Inr (Some (val_msg, objid))"
  by (simp add: ExtractTx_def CC_MSG_HEADER_SIZE_def val_size val_object Let_def IsValid_def BodySize_def DataSize_def HasPOW_def cc_tags
      ObjType_def WireTag_def cc_types TX_POW_SIZE_def TX_MAX_SIZE_def ComputeObjId_def BodyPtr_def)

lemma val_same: "CompareBinaryTxs val_msg val_msg = Inr 0"
  by (simp add: CompareBinaryTxs_def val_object val_size BodySize_def DataSize_def HasPOW_def cc_tags TX_POW_SIZE_def BodyPtr_def Let_def)

abbreviation val_scanned :: "int xpay" where "val_scanned \<equiv> SetMatchFieldsinXpay int_ufops paid_match val_xpay"

lemma val_pay_fields: "tp_tag_type (pay_of (vtx_of val_wtx)) = CC_TYPE_XCX_PAYMENT" "tp_nin (pay_of (vtx_of val_wtx)) = 0"
  "length (tp_inputs (pay_of (vtx_of val_wtx))) = 8"
  by (simp_all add: pay_of_def vtx_of_def wtx.defs val_wtx_def tx_init_def TX_WIRE_MAXIN_def)

lemma val_extracted: "ExtractXtx (be_E val_blockenv) (be_I val_blockenv) (pay_of (vtx_of val_wtx)) False db = Some (XtxPay val_scanned)"
  by (simp add: ExtractXtx_def ExtractXtxFailed_def val_pay_fields TypeIsXtx_def TypeIsXpay_def type_consts val_blockenv_def val_index_def serial_env_def)

lemma val_times: "times_check V 1704067201 CC_TYPE_XCX_PAYMENT (Some (XtxPay val_scanned)) db = Inr (Accept ())"
  by (simp add: times_check_def TypeIsXreq_def TypeIsXpay_def type_consts SetMatchFieldsinXpay_def paid_match_def val_match_def reject_if_def)

lemma val_pseudo:
  "\<exists>tx. CheckCreatePseudoSerialnum val_index (pay_of (vtx_of val_wtx)) (Some (XtxPay val_scanned)) val_msg False = Inr tx \<and> tp_nin tx = 1 \<and>
    tp_inputs tx \<noteq> [] \<and> length (S_serialnum (tp_inputs tx ! 0)) = 4"
proof -
  have "wf_bigint (big_of_nat x)" for x by simp
  then have w: "length (big_of_nat x) = 4" for x by (simp add: wf_bigint_def numberLimbs_def)
  have "tp_inputs (pay_of (vtx_of val_wtx)) \<noteq> []" using val_pay_fields(3) by auto
  then show ?thesis
    by (simp add: CheckCreatePseudoSerialnum_def Let_def val_pay_fields TypeIsXreq_def TypeIsXpay_def TypeIsCrosschain_def type_consts TX_MAXIN_def
        val_index_def ComputePaymentIdHash_def SetMatchFieldsinXpay_def paid_match_def val_match_def serial_ops_def w)
qed

lemma val_scan:
  "\<exists>db. scan_tx val_blockenv val_heap False 1 (Some 0) 1704067201 val_msg 60 [] = Inr (Accept db)"
proof -
  obtain tx where tx: "CheckCreatePseudoSerialnum val_index (pay_of (vtx_of val_wtx)) (Some (XtxPay val_scanned)) val_msg False = Inr tx"
    "tp_nin tx = 1" "tp_inputs tx \<noteq> []" "length (S_serialnum (tp_inputs tx ! 0)) = 4"
    using val_pseudo by blast
  obtain t ts where ts: "tp_inputs tx = t # ts" using tx(3) by (cases "tp_inputs tx") auto
  have c: "check_serial_loop 1 10 held_serialops val_heap False (Some 1) (Some 0) temp_type s 0 [] = Inr 0" for s
    by (simp add: TempSerialnumSelect_def held_serialops_def held_rows_def)
  then have "CheckSerialnum 1 10 held_serialops val_heap False (Some 1) (Some 0) temp_type None s [] = Inr (0, [])" for s
    by (simp add: CheckSerialnum_def held_serialops_def del: check_serial_loop.simps)
  then have "\<exists>db. check_block_serials val_blockenv val_heap False 1 (Some 0) [t] [] = Inr (Accept db)"
    using tx(4) ts by (simp add: val_blockenv_def reject_if_def val_blockops_def)
  moreover obtain objid where "ExtractTx (bo_blake2b val_blockops) val_msg 60 = Inr (Some (val_msg, objid))" using val_extract by blast
  moreover have "be_B val_blockenv = limb_bigops" "be_hash val_blockenv = (\<lambda>m. big_of_nat 5)" "be_I val_blockenv = val_index"
      "be_O val_blockenv = val_blockops"
    by (simp_all add: val_blockenv_def)
  ultimately show ?thesis
    using tx(1,2) ts val_extracted [unfolded \<open>be_I val_blockenv = val_index\<close>]
    by (auto simp: scan_tx_def Let_def val_from_wire val_times val_size val_pay_fields reject_if_def take_all)
qed

lemma val_heap_block: "level_value (val_heap 2) = 2" "witness (val_heap 2) = 2" "prior (val_heap 2) = Some 1" "txdata (val_heap 2) = val_msg"
  "timestamp_value (val_heap 1) = 1704067201" "timestamp_value (val_heap 2) = 1704067202" "blockchain_params (val_heap 1) = sample_params"
  by (simp_all add: val_heap_def sample_heap_def sample_block_def level_value_def timestamp_value_def TX_TIME_OFFSET_def)

lemma val_order: "CheckBadSigOrder val_heap 2 (-1) = Inr (False, False)"
  by (simp add: CheckBadSigOrder_def check_sigs_loop.simps val_heap_def sample_heap_def sample_block_def sample_params_def level_value_def Let_def)

lemma scan_one:
  assumes "scan_tx X h False p l t data (of_nat (le_val (take 4 data))) db = Inr (Accept db')" "4 \<le> length data" "le_val (take 4 data) = length data"
  shows "scan_txs (Suc (length data)) X h False p l t data db = Inr (Accept db')"
  using assms unat_stated_size [of data] by (cases "length data") (auto simp: Let_def reject_if_def)

lemma check_one:
  assumes "check_tx X False txbuf t data (of_nat (le_val (take 4 data))) db = Inr (Accept db')" "4 \<le> length data" "le_val (take 4 data) = length data"
  shows "check_txs (Suc (length data)) X False txbuf t data db = Inr (Accept db')"
  using assms unat_stated_size [of data] by (cases "length data") (auto simp: Let_def reject_if_def)

lemma val_txs: "\<exists>db. validate_txs val_blockenv False (Some 0) serial_tx val_heap 1 1704067201 val_msg [] = Inr (Accept db)"
proof -
  have l: "4 \<le> length val_msg" "le_val (take 4 val_msg) = length val_msg" by (simp_all add: val_msg_def)
  obtain db where "scan_tx val_blockenv val_heap False 1 (Some 0) 1704067201 val_msg 60 [] = Inr (Accept db)" using val_scan by blast
  then have "scan_txs (Suc (length val_msg)) val_blockenv val_heap False 1 (Some 0) 1704067201 val_msg [] = Inr (Accept db)"
    using l by (intro scan_one) (simp_all add: val_size)
  moreover obtain objid where e: "ExtractTx (bo_blake2b (be_O val_blockenv)) val_msg 60 = Inr (Some (val_msg, objid))"
    using val_extract by (auto simp: val_blockenv_def)
  have "bo_ValidTx (be_O val_blockenv) objid d = Some val_msg" for d by (simp add: val_blockenv_def val_blockops_def)
  then have "check_tx val_blockenv False serial_tx 1704067201 val_msg 60 d = Inr (Accept d)" for d
    by (simp add: check_tx_def reject_if_def e val_same)
  then have "check_txs (Suc (length val_msg)) val_blockenv False serial_tx 1704067201 val_msg d = Inr (Accept d)" for d
    using l by (intro check_one) (simp_all add: val_size)
  ultimately show ?thesis by (simp add: validate_txs_def del: scan_txs.simps check_txs.simps)
qed

lemma val_env: "\<not> vp_test_mal (be_P val_blockenv)" "\<not> bo_SignOrVerify (be_O val_blockenv) b" "bo_unixtime (be_O val_blockenv) = 1704067200"
  "bo_block_future_tolerance (be_O val_blockenv) = 60" "bo_TempSerialnumClear (be_O val_blockenv) t d = []"
  "bo_WaitForBlockTxValidation (be_O val_blockenv) d = d" "bo_startup_prune_level (be_O val_blockenv) = 0"
  by (simp_all add: val_blockenv_def val_pars_def val_blockops_def)

lemma val_block_accepted:
  "\<exists>db'. BlockValidate val_blockenv sample_mint False (Some 0) serial_tx val_heap 2 [] = Inr (0, val_heap, db', False)"
proof -
  obtain d where "validate_txs val_blockenv False (Some 0) serial_tx val_heap 1 1704067201 val_msg [] = Inr (Accept d)" using val_txs by blast
  then have "validate_chained val_blockenv False (Some 0) serial_tx val_heap 2 1 [] = Inr (0, Some d, False)"
    by (simp add: validate_chained_def val_heap_block [unfolded One_nat_def] val_order sample_params_def Let_def val_env)
  moreover have "ComputePruneLevel val_heap (Some 0) (bo_startup_prune_level (be_O val_blockenv)) 1 BLOCK_PRUNE_ROUNDS = 1"
    by (simp add: ComputePruneLevel_def val_heap_def sample_heap_def sample_block_def level_value_def val_env)
  moreover have "find_prior val_blockenv sample_mint val_heap 2 [] = Inr (Accept (1, val_heap))"
    by (simp add: find_prior_def val_heap_block)
  ultimately show ?thesis by (simp add: BlockValidate_def val_heap_block MAX_NWITNESSES_def)
qed


section \<open>A message that stops the node\<close>

lemma request_not_payment: "TypeIsXreq t \<Longrightarrow> \<not> TypeIsXpay t"
  by (auto simp: TypeIsXreq_def TypeIsXpay_def type_consts)

text \<open>
  C11. A block can stop every node that checks it. The scan takes a request for an exchange whose data cannot
  be read for one that was read, since the test for a failure ignores everything but payments, and it then
  reads the times of the request through a null pointer: for a block that is signed by the right witness at
  the right time, and that starts with such a request, the function reaches that read.
\<close>

theorem unreadable_request_faults:
  assumes "\<not> level_value (h b) < ComputePruneLevel h (Some l) (bo_startup_prune_level (be_O X)) 1 BLOCK_PRUNE_ROUNDS"
    and "unat (witness (h b)) < MAX_NWITNESSES" "find_prior X g h b db = Inr (Accept (p, h'))" "\<not> vp_test_mal (be_P X)"
    and "unat (witness (h' b)) < unat (next_nwitnesses (blockchain_params (h' p)))" "CheckBadSigOrder h' b (-1) = Inr (False, fatal)"
    and "\<not> bo_SignOrVerify (be_O X) (h' b)" "sint (timestamp_value (h' b) - bo_unixtime (be_O X)) \<le> bo_block_future_tolerance (be_O X)"
    and "4 \<le> length (txdata (h' b))"
    and "tx_from_wire (be_B X) (be_hash X) (txdata (h' b)) (of_nat (le_val (take 4 (txdata (h' b))))) = Inr w"
    and "TypeIsXreq (tp_tag_type (pay_of (vtx_of w)))"
    and "ix_xtx_from_wire (be_I X) (tp_tag_type (pay_of (vtx_of w))) (tp_append_data (pay_of (vtx_of w))) = None"
  shows "BlockValidate X g False (Some l) txbuf h b db = Inl OutOfBounds"
proof -
  let ?data = "txdata (h' b)" and ?t = "timestamp_value (h' p)" and ?tx = "pay_of (vtx_of w)"
  let ?sz = "of_nat (le_val (take 4 ?data)) :: u32"
  have "scan_tx X h' False p (Some l) ?t ?data ?sz d = Inl OutOfBounds" for d
    using assms(10-12) request_not_payment [OF assms(11)]
    by (simp add: scan_tx_def Let_def ExtractXtx_def ExtractXtxFailed_def times_check_def reject_if_def bind_check_def)
  then have "scan_txs (Suc (length ?data)) X h' False p (Some l) ?t ?data d = Inl OutOfBounds" for d
    using assms(9) by (auto simp: Let_def reject_if_def bind_check_def)
  then have "validate_txs X False (Some l) txbuf h' p ?t ?data d = Inl OutOfBounds" for d
    by (simp add: validate_txs_def bind_check_def del: scan_txs.simps)
  with assms(1-8) show ?thesis
    by (simp add: BlockValidate_def validate_chained_def Let_def not_le)
qed

text \<open>A naked buy whose data is not that of a request.\<close>

definition naked_msg :: "byte list" where
  "naked_msg = [60, 0, 0, 0, 1, 0, 16, 204] @ replicate 48 0 @ [1, 2, 3, 4]"

definition naked_heap :: heap where
  "naked_heap = sample_heap(2 := (sample_heap 2)\<lparr>txdata := naked_msg\<rparr>)"

definition naked_env :: "(bigint list, int) blockenv" where
  "naked_env = val_blockenv\<lparr>be_I := serial_ops\<rparr>"

lemma naked_from_wire:
  "\<exists>w. tx_from_wire limb_bigops (\<lambda>m. big_of_nat 5) naked_msg 60 = Inr w \<and> wt_tag_type w = CC_TYPE_XCX_NAKED_BUY"
  by (simp add: tx_from_wire_def tx_add_from_wire_def get_u32_def get_bytes_def copy_from_bufl_def Let_def naked_msg_def ObjType_def WireTag_def
      cc_tags type_consts CC_TYPE_VOID_def CC_TYPE_BLOCK_def HasPOW_def TX_POW_SIZE_def TypeHasBareMsg_def get_append_def TypeIsXtx_def
      TX_MAX_APPEND_def refhash_tx_init)

theorem unreadable_request_faults_witness:
  "BlockValidate naked_env sample_mint False (Some 0) serial_tx naked_heap 2 [] = Inl OutOfBounds"
proof -
  obtain w where w: "tx_from_wire limb_bigops (\<lambda>m. big_of_nat 5) naked_msg 60 = Inr w" "wt_tag_type w = CC_TYPE_XCX_NAKED_BUY"
    using naked_from_wire by blast
  have h: "level_value (naked_heap 2) = 2" "witness (naked_heap 2) = 2" "prior (naked_heap 2) = Some 1" "txdata (naked_heap 2) = naked_msg"
    "timestamp_value (naked_heap 2) = 1704067202" "blockchain_params (naked_heap 1) = sample_params"
    by (simp_all add: naked_heap_def sample_heap_def sample_block_def level_value_def timestamp_value_def TX_TIME_OFFSET_def)
  have e: "be_O naked_env = be_O val_blockenv" "be_P naked_env = be_P val_blockenv" "be_B naked_env = limb_bigops"
    "be_hash naked_env = (\<lambda>m. big_of_nat 5)" "ix_xtx_from_wire (be_I naked_env) t m = None" for t m
    by (simp_all add: naked_env_def val_blockenv_def serial_ops_def)
  have o: "CheckBadSigOrder naked_heap 2 (-1) = Inr (False, False)"
    by (simp add: CheckBadSigOrder_def check_sigs_loop.simps naked_heap_def sample_heap_def sample_block_def sample_params_def level_value_def Let_def)
  have s: "of_nat (le_val (take 4 naked_msg)) = (60 :: u32)" "4 \<le> length naked_msg" by (simp_all add: naked_msg_def)
  have t: "TypeIsXreq (tp_tag_type (pay_of (vtx_of w)))"
    using w(2) by (simp add: pay_of_def vtx_of_def wtx.defs TypeIsXreq_def type_consts)
  have f: "find_prior naked_env sample_mint naked_heap 2 [] = Inr (Accept (1, naked_heap))" by (simp add: find_prior_def h)
  have l: "\<not> level_value (naked_heap 2) < ComputePruneLevel naked_heap (Some 0) (bo_startup_prune_level (be_O naked_env)) 1 BLOCK_PRUNE_ROUNDS"
    by (simp add: h e val_env ComputePruneLevel_def naked_heap_def sample_heap_def sample_block_def level_value_def)
  show ?thesis
    by (rule unreadable_request_faults [where w = w, OF l _ f _ _ o])
      (simp_all add: h [unfolded One_nat_def] e val_env s w(1) t MAX_NWITNESSES_def sample_params_def)
qed

end
