(* ===== verification/Temp_Serials.thy ===== *)
theory Temp_Serials
  imports Chain
begin

text \<open>
  The table of serial numbers in recent blocks (ccnode/src/dbconn-tempserials.cpp, with the table of
  ccnode/src/dbconn.cpp and the statements prepared by the constructor).

  A row holds a serial number, the address of the block that spends it or a small number for a block that is
  being checked or built, and the level of the block, which is 0 until it is accepted. An address is stored as
  its eight bytes, and the library compares such values byte by byte. \<open>err\<close> tells which statements fail.
\<close>

section \<open>Table\<close>

record ts_row =
  ts_Serialnum :: "byte list"
  ts_Blockp :: addr
  ts_Level :: int

datatype ts_stmt = T_insert | T_select | T_update | T_clear | T_prune

type_synonym ts_table = "ts_row list"

abbreviation ts_key :: "ts_row \<Rightarrow> byte list \<times> addr" where "ts_key r \<equiv> (ts_Serialnum r, ts_Blockp r)"

text \<open>The order of the stored addresses.\<close>

definition blob_rank :: "addr \<Rightarrow> nat" where
  "blob_rank p = le_val (rev (le_bytes 8 p))"

text \<open>The blocks with a serial number, after a given one unless that is null.\<close>

definition ts_select :: "byte list \<Rightarrow> addr \<Rightarrow> ts_table \<Rightarrow> addr list" where
  "ts_select serialnum last_blockp tab =
     sort_key blob_rank (map ts_Blockp (filter (\<lambda>r. ts_Serialnum r = serialnum \<and> (last_blockp = 0 \<or> blob_rank last_blockp < blob_rank (ts_Blockp r))) tab))"

definition Temp_Serials_select_rows :: "(ts_stmt \<Rightarrow> bool) \<Rightarrow> byte list \<Rightarrow> addr \<Rightarrow> ts_table \<Rightarrow> bool \<times> sql_row list" where
  "Temp_Serials_select_rows err serialnum last_blockp tab =
     (if err T_select then (True, []) else (False, map (SqlRow 1 8) (ts_select serialnum last_blockp tab)))"

section \<open>Operations\<close>

definition TempSerialnumInsert :: "(ts_stmt \<Rightarrow> bool) \<Rightarrow> byte list \<Rightarrow> addr \<Rightarrow> ts_table \<Rightarrow> int \<times> ts_table" where
  "TempSerialnumInsert err serialnum blockp tab =
     (if err T_insert then (-1, tab)
      else if (serialnum, blockp) \<in> set (map ts_key tab) then (1, tab)
      else (0, tab @ [\<lparr>ts_Serialnum = serialnum, ts_Blockp = blockp, ts_Level = 0\<rparr>]))"

text \<open>A statement that would give two rows with the same key fails and changes nothing.\<close>

definition TempSerialnumUpdate :: "(ts_stmt \<Rightarrow> bool) \<Rightarrow> addr \<Rightarrow> addr \<Rightarrow> u64 \<Rightarrow> ts_table \<Rightarrow> int \<times> ts_table" where
  "TempSerialnumUpdate err old_blockp new_blockp lvl tab =
     (let tab' = map (\<lambda>r. if ts_Blockp r = old_blockp \<and> ts_Level r = 0 then r\<lparr>ts_Blockp := new_blockp, ts_Level := sint lvl\<rparr> else r) tab
      in if err T_update then (-1, tab)
         else if \<not> distinct (map ts_key tab') then (-1, tab)
         else (0, tab'))"

definition TempSerialnumClear :: "(ts_stmt \<Rightarrow> bool) \<Rightarrow> addr \<Rightarrow> ts_table \<Rightarrow> int \<times> ts_table" where
  "TempSerialnumClear err blockp tab =
     (if err T_clear then (-1, tab) else (0, filter (\<lambda>r. \<not> (ts_Blockp r = blockp \<and> ts_Level r = 0)) tab))"

definition TempSerialnumPruneLevel :: "(ts_stmt \<Rightarrow> bool) \<Rightarrow> u64 \<Rightarrow> ts_table \<Rightarrow> int \<times> ts_table" where
  "TempSerialnumPruneLevel err lvl tab =
     (if err T_prune then (-1, tab) else (0, filter (\<lambda>r. \<not> (0 < ts_Level r \<and> ts_Level r < sint lvl)) tab))"

section \<open>Well-formed tables\<close>

text \<open>The key is unique, and an address fits its eight bytes and is not null.\<close>

definition ts_wf :: "ts_table \<Rightarrow> bool" where
  "ts_wf tab \<longleftrightarrow> distinct (map ts_key tab) \<and> (\<forall>r \<in> set tab. 0 < ts_Blockp r \<and> ts_Blockp r < 2 ^ 64)"

definition holders :: "byte list \<Rightarrow> ts_table \<Rightarrow> addr list" where
  "holders s tab = ts_select s 0 tab"

lemma set_holders: "set (holders s tab) = {b. (s, b) \<in> set (map ts_key tab)}"
  by (auto simp: holders_def ts_select_def)

lemma blob_rank_inj: "p < 2 ^ 64 \<Longrightarrow> q < 2 ^ 64 \<Longrightarrow> blob_rank p = blob_rank q \<Longrightarrow> p = q"
proof -
  assume b: "p < 2 ^ 64" "q < 2 ^ 64" and e: "blob_rank p = blob_rank q"
  have "rev (le_bytes 8 p) = rev (le_bytes 8 q)"
    using e le_bytes_val [of "rev (le_bytes 8 p)"] le_bytes_val [of "rev (le_bytes 8 q)"] by (simp add: blob_rank_def)
  then have "le_val (le_bytes 8 p) = le_val (le_bytes 8 q)" by simp
  then show ?thesis using b by (simp add: le_val_bytes)
qed

lemma ts_wf_keeps:
  assumes "ts_wf tab" "0 < b" "b < 2 ^ 64"
  shows "ts_wf (snd (TempSerialnumInsert err s b tab))" "ts_wf (snd (TempSerialnumUpdate err a b lvl tab))"
    "ts_wf (snd (TempSerialnumClear err a tab))" "ts_wf (snd (TempSerialnumPruneLevel err lvl tab))"
  using assms
  by (auto simp: ts_wf_def TempSerialnumInsert_def TempSerialnumUpdate_def TempSerialnumClear_def TempSerialnumPruneLevel_def Let_def
      distinct_map_filter)

text \<open>Pages: the rows after an address that was read are those that follow it in the whole result.\<close>

lemma holders_ranks:
  assumes "ts_wf tab"
  shows "sorted_wrt (<) (map blob_rank (holders s tab))"
proof -
  let ?xs = "map ts_Blockp (filter (\<lambda>r. ts_Serialnum r = s) tab)"
  have "distinct (map ts_key (filter (\<lambda>r. ts_Serialnum r = s) tab))"
    using assms by (auto simp: ts_wf_def intro: distinct_map_filter)
  then have d: "distinct ?xs" by (auto simp: distinct_map inj_on_def)
  have "inj_on blob_rank (set ?xs)" using assms by (auto simp: ts_wf_def inj_on_def intro: blob_rank_inj)
  then have "distinct (map blob_rank (sort_key blob_rank ?xs))" using d by (simp add: distinct_map)
  moreover have "sorted (map blob_rank (sort_key blob_rank ?xs))" by simp
  ultimately show ?thesis by (simp add: holders_def ts_select_def strict_sorted_iff)
qed

lemma filter_after:
  assumes "sorted_wrt (<) (map f xs)" "k < length xs"
  shows "filter (\<lambda>x. (f (xs ! k) :: nat) < f x) xs = drop (Suc k) xs"
  using assms
proof (induction xs arbitrary: k)
  case (Cons x xs)
  show ?case
  proof (cases k)
    case 0
    then show ?thesis using Cons.prems by (auto intro!: filter_True)
  next
    case (Suc j)
    then have "xs ! j \<in> set xs" using Cons.prems(2) by simp
    then have "f x < f (xs ! j)" using Cons.prems(1) by simp
    then have "\<not> f (xs ! j) < f x" by simp
    then show ?thesis using Suc Cons by auto
  qed
qed simp

lemma ts_select_after:
  assumes "ts_wf tab" "k < length (holders s tab)"
  shows "ts_select s (holders s tab ! k) tab = drop (Suc k) (holders s tab)"
proof -
  let ?b = "holders s tab ! k" and ?xs = "map ts_Blockp (filter (\<lambda>r. ts_Serialnum r = s) tab)"
  have "?b \<in> set (holders s tab)" using assms(2) by simp
  then have nz: "?b \<noteq> 0" using assms(1) by (auto simp: set_holders ts_wf_def)
  have "ts_select s ?b tab = sort_key blob_rank (filter (\<lambda>b. blob_rank ?b < blob_rank b) ?xs)"
    using nz by (simp add: ts_select_def filter_map comp_def conj_commute)
  also have "\<dots> = filter (\<lambda>b. blob_rank ?b < blob_rank b) (holders s tab)"
    by (simp add: holders_def ts_select_def filter_sort)
  also have "\<dots> = drop (Suc k) (holders s tab)"
    by (rule filter_after [OF holders_ranks [OF assms(1)] assms(2)])
  finally show ?thesis .
qed

section \<open>The interface to the chain search\<close>

text \<open>
  What the search for a double spend relies on: a query that works gives the pages of one list of blocks,
  and one that does not reports it.
\<close>

locale temp_serials =
  fixes D :: "'db serialops" and rows :: "byte list \<Rightarrow> 'db \<Rightarrow> addr list" and ok fails :: "'db \<Rightarrow> bool"
  assumes pages: "ok db \<Longrightarrow> \<not> fails db \<Longrightarrow> serial_rows D s db (rows s db)"
    and reported: "fails db \<Longrightarrow> fst (Temp_Serials_select D s b db)"
begin

lemma failed_query: "fails db \<Longrightarrow> check_serial_loop (Suc n) fuel D h sd tip l type s b db = Inr (-1)"
  using reported by (simp add: TempSerialnumSelect_def case_prod_beta)

lemma unheld:
  assumes "ok db" "levels_fall h" "unat (level_value (h tip)) + 1 < fuel" "length (rows s db) < n"
    and "CheckSerialnum n fuel D h False (Some tip) (Some l) type txobj s db = Inr (0, db')"
  shows "0 < SerialnumSelect D s db \<and> type \<notin> set (rows s db) \<and> (\<forall>b \<in> set (rows s db). \<not> searched h (level_value (h l)) tip b)"
proof -
  let ?P = "\<lambda>b. b = type \<or> searched h (level_value (h l)) tip b"
  obtain m where n: "n = Suc m" using assms(4) by (cases n) auto
  have r: "0 < SerialnumSelect D s db" and c: "check_serial_loop n fuel D h False (Some tip) (Some l) type s 0 db = Inr 0"
    using assms(5) by (auto simp: CheckSerialnum_def Let_def bind_outcome_eq_Inr simp del: check_serial_loop.simps split: if_splits)
  then have "\<not> fails db" using failed_query [of db m fuel h False "Some tip" "Some l" type s 0] n by auto
  then have "serial_rows D s db (rows s db)" using pages assms(1) by blast
  moreover have "length (rows s db) \<le> n * BLOCKARRAYSIZE" using assms(4) by (simp add: BLOCKARRAYSIZE_def)
  ultimately have "serial_verdict type (find ?P (rows s db)) = 0"
    using check_serial_loop_spec [OF assms(2,3), of D s db "rows s db" 0 n l type] c n by simp
  then show ?thesis using r by (auto simp: serial_verdict_def find_None_iff split: option.splits if_splits)
qed

end

text \<open>A database of recent and of permanent serial numbers.\<close>

record serial_db =
  sd_err :: "ts_stmt \<Rightarrow> bool"
  sd_tab :: ts_table
  sd_perm :: "byte list set"

definition table_ops :: "serial_db serialops" where
  "table_ops = \<lparr>Temp_Serials_select = (\<lambda>s b db. Temp_Serials_select_rows (sd_err db) s b (sd_tab db)),
     SerialnumSelect = (\<lambda>s db. if s \<in> sd_perm db then 0 else 1), ValidObjsDeleteObj = (\<lambda>tx db. db)\<rparr>"

lemma table_pages:
  assumes "ts_wf (sd_tab db)" "\<not> sd_err db T_select"
  shows "serial_rows table_ops s db (holders s (sd_tab db))"
proof -
  let ?bs = "holders s (sd_tab db)"
  have "0 \<notin> set ?bs" using assms(1) by (auto simp: set_holders ts_wf_def)
  moreover have "Temp_Serials_select_rows (sd_err db) s (if k = 0 then 0 else ?bs ! (k - 1)) (sd_tab db) = (False, map (SqlRow 1 8) (drop k ?bs))"
    if "k \<le> length ?bs" for k
    using that assms(2) ts_select_after [OF assms(1), of "k - 1" s] by (cases k) (auto simp: Temp_Serials_select_rows_def holders_def)
  ultimately show ?thesis by (simp add: serial_rows_def table_ops_def)
qed

interpretation table: temp_serials table_ops "\<lambda>s db. holders s (sd_tab db)" "\<lambda>db. ts_wf (sd_tab db)" "\<lambda>db. sd_err db T_select"
  by unfold_locales (rule table_pages, auto simp: table_ops_def Temp_Serials_select_rows_def)

end
