(* ===== verification/Double_Spend.thy ===== *)
theory Double_Spend
  imports Temp_Serials Block_Validate
begin

text \<open>
  How the check of blocks received (ccnode/src/processblock.cpp), the building of blocks (ccnode/src/witness.cpp), the
  confirmation of blocks and the pruning of the table of recent serial numbers together keep a serial number
  from being spent twice on a chain, in every interleaving and with failing statements.

  Each kind of block in the making has its own number in the table. Its serial numbers are checked against the
  chain, entered under that number, and given to the block when it is accepted. The blocks with their links are
  fixed; the addresses of blocks are not used again while the table refers to them.
\<close>

section \<open>Steps\<close>

definition TEMP_SERIALS_WITNESS_BLOCKP :: nat where "TEMP_SERIALS_WITNESS_BLOCKP = 2"

text \<open>
  The state: the two tables, the last indelible block, the accepted blocks, the serial numbers that each of
  them spends, and for each kind of block in the making its prior block, the serial numbers that were checked
  for it and those that were entered.
\<close>

record spend_state =
  sp_db :: serial_db
  sp_last :: addr
  sp_accepted :: "addr set"
  sp_spends :: "(addr \<times> byte list) set"
  sp_tip :: "nat \<Rightarrow> addr option"
  sp_checked :: "nat \<Rightarrow> byte list set"
  sp_cur :: "nat \<Rightarrow> byte list set"

definition upd_tab :: "ts_table \<Rightarrow> spend_state \<Rightarrow> spend_state" where
  "upd_tab tab st = st\<lparr>sp_db := (sp_db st)\<lparr>sd_tab := tab\<rparr>\<rparr>"

text \<open>The state after a block \<open>b\<close> was accepted.\<close>

definition accepted_state :: "nat \<Rightarrow> addr \<Rightarrow> ts_table \<Rightarrow> spend_state \<Rightarrow> spend_state" where
  "accepted_state t b tab st = (upd_tab tab st)\<lparr>sp_accepted := insert b (sp_accepted st),
      sp_spends := sp_spends st \<union> {b} \<times> sp_cur st t, sp_tip := (sp_tip st)(t := None), sp_checked := (sp_checked st)(t := {}),
      sp_cur := (sp_cur st)(t := {})\<rparr>"

definition block_kind :: "nat \<Rightarrow> bool" where
  "block_kind t \<longleftrightarrow> t = TEMP_SERIALS_PROCESS_BLOCKP \<or> t = TEMP_SERIALS_WITNESS_BLOCKP"

text \<open>
  A serial number of \<open>R\<close> is recorded for good when its block becomes indelible; others are the foreign addresses of
  requests to sell, which have a rule of their own.
\<close>

inductive spend_step :: "heap \<Rightarrow> u64 \<Rightarrow> byte list set \<Rightarrow> spend_state \<Rightarrow> spend_state \<Rightarrow> bool" for h startup R where
  start: "p \<in> sp_accepted st \<Longrightarrow> block_kind t \<Longrightarrow>
    TempSerialnumClear err t (sd_tab (sp_db st)) = (rc, tab) \<Longrightarrow>
    spend_step h startup R st ((upd_tab tab st)\<lparr>sp_tip := (sp_tip st)(t := Some p), sp_checked := (sp_checked st)(t := {}),
      sp_cur := (sp_cur st)(t := {})\<rparr>)"
| check: "sp_tip st t = Some p \<Longrightarrow> length (holders s (sd_tab (sp_db st))) < n \<Longrightarrow> unat (level_value (h p)) + 1 < fuel \<Longrightarrow>
    CheckSerialnum n fuel table_ops h False (Some p) (Some (sp_last st)) t txobj s ((sp_db st)\<lparr>sd_err := err\<rparr>) = Inr (0, db') \<Longrightarrow>
    spend_step h startup R st (st\<lparr>sp_checked := (sp_checked st)(t := insert s (sp_checked st t))\<rparr>)"
| enter: "block_kind t \<Longrightarrow> s \<in> sp_checked st t \<Longrightarrow> TempSerialnumInsert err s t (sd_tab (sp_db st)) = (0, tab) \<Longrightarrow>
    spend_step h startup R st ((upd_tab tab st)\<lparr>sp_cur := (sp_cur st)(t := insert s (sp_cur st t))\<rparr>)"
| accept: "sp_tip st t = Some p \<Longrightarrow> prior (h b) = Some p \<Longrightarrow> b \<notin> sp_accepted st \<Longrightarrow> 0 < b \<Longrightarrow> b < 2 ^ 64 \<Longrightarrow>
    TempSerialnumUpdate err t b (level_value (h b)) (sd_tab (sp_db st)) = (0, tab) \<Longrightarrow>
    spend_step h startup R st (accepted_state t b tab st)"
| confirm: "b \<in> sp_accepted st \<Longrightarrow> prior (h b) = Some (sp_last st) \<Longrightarrow>
    spend_step h startup R st (st\<lparr>sp_last := b, sp_db := (sp_db st)\<lparr>sd_perm := sd_perm (sp_db st) \<union> {s \<in> R. (b, s) \<in> sp_spends st}\<rparr>\<rparr>)"
| prune: "TempSerialnumPruneLevel err (ComputePruneLevel h (Some (sp_last st)) startup 0 (BLOCK_PRUNE_ROUNDS + 2)) (sd_tab (sp_db st)) = (rc, tab) \<Longrightarrow>
    spend_step h startup R st (upd_tab tab st)"

definition reaches :: "heap \<Rightarrow> addr \<Rightarrow> addr \<Rightarrow> bool" where
  "reaches h = (\<lambda>x y. prior (h x) = Some y)\<^sup>*\<^sup>*"

text \<open>At the start, every serial number of an accepted block that can be recorded for good is recorded.\<close>

definition spend_init :: "heap \<Rightarrow> u64 \<Rightarrow> byte list set \<Rightarrow> spend_state \<Rightarrow> bool" where
  "spend_init h startup R st \<longleftrightarrow> sd_tab (sp_db st) = [] \<and> sp_last st \<in> sp_accepted st \<and> startup \<le> level_value (h (sp_last st)) \<and>
     (\<forall>b p. b \<in> sp_accepted st \<longrightarrow> prior (h b) = Some p \<longrightarrow> p \<in> sp_accepted st) \<and>
     (\<forall>(b, s) \<in> sp_spends st. b \<in> sp_accepted st \<and> reaches h (sp_last st) b \<and> (s \<in> R \<longrightarrow> s \<in> sd_perm (sp_db st))) \<and>
     (\<forall>b c s. (b, s) \<in> sp_spends st \<longrightarrow> (c, s) \<in> sp_spends st \<longrightarrow> b = c) \<and>
     (\<forall>t. sp_tip st t = None \<and> sp_checked st t = {} \<and> sp_cur st t = {})"

section \<open>Chains\<close>

lemma reaches_refl [simp]: "reaches h b b"
  by (simp add: reaches_def)

lemma reaches_prior: "prior (h b) = Some p \<Longrightarrow> reaches h b c \<longleftrightarrow> c = b \<or> reaches h p c"
  unfolding reaches_def by (auto elim: converse_rtranclpE intro: converse_rtranclp_into_rtranclp)

lemma reaches_None: "prior (h b) = None \<Longrightarrow> reaches h b c \<longleftrightarrow> c = b"
  unfolding reaches_def by (auto elim: converse_rtranclpE)

lemma reaches_trans: "reaches h a b \<Longrightarrow> reaches h b c \<Longrightarrow> reaches h a c"
  unfolding reaches_def by (rule rtranclp_trans)

lemma reaches_comparable: "reaches h a b \<Longrightarrow> reaches h a c \<Longrightarrow> reaches h b c \<or> reaches h c b"
  unfolding reaches_def
proof (induction rule: converse_rtranclp_induct)
  case (step x y)
  from step.prems consider "c = x" | "(\<lambda>x y. prior (h x) = Some y)\<^sup>*\<^sup>* y c"
    using step.hyps(1) by (cases rule: converse_rtranclpE) auto
  then show ?case using step converse_rtranclp_into_rtranclp [of "\<lambda>x y. prior (h x) = Some y"] by cases blast+
qed simp

lemma reaches_closed: "reaches h b c \<Longrightarrow> b \<in> A \<Longrightarrow> (\<And>b p. b \<in> A \<Longrightarrow> prior (h b) = Some p \<Longrightarrow> p \<in> A) \<Longrightarrow> c \<in> A"
  unfolding reaches_def by (induction rule: converse_rtranclp_induct) auto

lemma reaches_level:
  assumes "levels_fall h" "reaches h b c"
  shows "c = b \<or> level_value (h c) < level_value (h b)"
  using assms(2) unfolding reaches_def
proof (induction rule: converse_rtranclp_induct)
  case (step x y)
  have "level_value (h y) < level_value (h x)" using assms(1) step.hyps(1) by (simp add: levels_fall_def)
  then show ?case using step.IH by auto
qed simp

lemma reaches_searched: "levels_fall h \<Longrightarrow> reaches h b c \<Longrightarrow> lv < level_value (h c) \<Longrightarrow> searched h lv b c"
proof -
  assume l: "levels_fall h" and c: "lv < level_value (h c)"
  assume "reaches h b c"
  then show ?thesis unfolding reaches_def
  proof (induction rule: converse_rtranclp_induct)
    case (step x y)
    then have "reaches h x c" unfolding reaches_def by (meson converse_rtranclp_into_rtranclp)
    then have "lv < level_value (h x)" using reaches_level [OF l, of x c] c by auto
    then show ?case using step searched.step by blast
  qed (rule searched.start)
qed

section \<open>Invariant\<close>

definition on_one_chain :: "heap \<Rightarrow> addr \<Rightarrow> addr \<Rightarrow> bool" where
  "on_one_chain h l c \<longleftrightarrow> reaches h c l \<or> reaches h l c"

definition accepted_closed :: "heap \<Rightarrow> spend_state \<Rightarrow> bool" where
  "accepted_closed h st \<longleftrightarrow> sp_last st \<in> sp_accepted st \<and>
     (\<forall>b p. b \<in> sp_accepted st \<longrightarrow> prior (h b) = Some p \<longrightarrow> p \<in> sp_accepted st) \<and>
     (\<forall>b s. (b, s) \<in> sp_spends st \<longrightarrow> b \<in> sp_accepted st) \<and> (\<forall>t p. sp_tip st t = Some p \<longrightarrow> p \<in> sp_accepted st)"

text \<open>What is spent below the last indelible block is recorded for good, what is spent above it is in the table.\<close>

definition spends_held :: "heap \<Rightarrow> byte list set \<Rightarrow> spend_state \<Rightarrow> bool" where
  "spends_held h R st \<longleftrightarrow>
     (\<forall>b s. (b, s) \<in> sp_spends st \<longrightarrow> s \<in> R \<longrightarrow> reaches h (sp_last st) b \<longrightarrow> s \<in> sd_perm (sp_db st)) \<and>
     (\<forall>b s. (b, s) \<in> sp_spends st \<longrightarrow> level_value (h (sp_last st)) < level_value (h b) \<longrightarrow>
        \<lparr>ts_Serialnum = s, ts_Blockp = b, ts_Level = sint (level_value (h b))\<rparr> \<in> set (sd_tab (sp_db st))) \<and>
     (\<forall>t s. s \<in> sp_cur st t \<longrightarrow> \<lparr>ts_Serialnum = s, ts_Blockp = t, ts_Level = 0\<rparr> \<in> set (sd_tab (sp_db st)) \<and> s \<in> sp_checked st t)"

text \<open>A serial number that was checked is spent by no block that the block in the making extends.\<close>

definition checked_clean :: "heap \<Rightarrow> byte list set \<Rightarrow> spend_state \<Rightarrow> bool" where
  "checked_clean h R st \<longleftrightarrow>
     (\<forall>t p s b. sp_tip st t = Some p \<longrightarrow> s \<in> sp_checked st t \<longrightarrow> s \<in> R \<longrightarrow> on_one_chain h (sp_last st) p \<longrightarrow> reaches h p b \<longrightarrow>
        (b, s) \<notin> sp_spends st)"

definition spent_once :: "heap \<Rightarrow> byte list set \<Rightarrow> spend_state \<Rightarrow> bool" where
  "spent_once h R st \<longleftrightarrow>
     (\<forall>b c s. (b, s) \<in> sp_spends st \<longrightarrow> (c, s) \<in> sp_spends st \<longrightarrow> s \<in> R \<longrightarrow> reaches h c b \<longrightarrow> on_one_chain h (sp_last st) c \<longrightarrow> b = c)"

definition spend_inv :: "heap \<Rightarrow> u64 \<Rightarrow> byte list set \<Rightarrow> spend_state \<Rightarrow> bool" where
  "spend_inv h startup R st \<longleftrightarrow> ts_wf (sd_tab (sp_db st)) \<and> startup \<le> level_value (h (sp_last st)) \<and> accepted_closed h st \<and>
     spends_held h R st \<and> checked_clean h R st \<and> spent_once h R st"

lemmas spend_inv_defs = accepted_closed_def spends_held_def checked_clean_def spent_once_def upd_tab_def

lemma spend_init_inv:
  assumes "levels_fall h" "spend_init h startup R st"
  shows "spend_inv h startup R st"
proof -
  have "\<not> level_value (h (sp_last st)) < level_value (h b)" if "(b, s) \<in> sp_spends st" for b s
  proof -
    have "reaches h (sp_last st) b" using that assms(2) by (auto simp: spend_init_def)
    then show ?thesis using reaches_level [OF assms(1)] by (blast dest: less_asym)
  qed
  then show ?thesis using assms(2)
    by (auto simp: spend_init_def spend_inv_def spend_inv_defs ts_wf_def)
qed

lemma upd_tab_simps [simp]:
  "sp_last (upd_tab tab st) = sp_last st" "sp_accepted (upd_tab tab st) = sp_accepted st" "sp_spends (upd_tab tab st) = sp_spends st"
  "sp_tip (upd_tab tab st) = sp_tip st" "sp_checked (upd_tab tab st) = sp_checked st" "sp_cur (upd_tab tab st) = sp_cur st"
  "sd_tab (sp_db (upd_tab tab st)) = tab" "sd_perm (sp_db (upd_tab tab st)) = sd_perm (sp_db st)"
  by (simp_all add: upd_tab_def)

lemma sint_of_small: "uint (x :: u64) < 2 ^ 63 \<Longrightarrow> sint x = uint x"
  using order_trans [OF _ uint_nonnegative [of x], of "- (2 ^ 63)"] signed_take_bit_int_eq_self [of 63 "uint x"] by (simp add: sint_uint)

lemma level_bound: "uint (level_value b) < 2 ^ 63"
proof -
  have l: "0 \<le> uint (level b)" "uint (level b) < 2 ^ 32" using uint_nonnegative [of "level b"] uint_bounded [of "level b"] by simp_all
  then have "uint (level_value b) = uint (level b)" by (simp add: level_value_def unsigned_ucast_eq take_bit_int_eq_self)
  then show ?thesis using l by simp
qed

lemmas level_sint = sint_of_small [OF level_bound]

lemma prune_below: "startup \<le> level_value (h l) \<Longrightarrow> ComputePruneLevel h (Some l) startup 0 rounds \<le> level_value (h l)"
proof -
  have "x - y \<le> (x :: u64)" if "y < x" for x y using that by (simp add: word_le_nat_alt unat_sub word_less_nat_alt less_imp_le)
  moreover assume "startup \<le> level_value (h l)"
  ultimately show ?thesis by (auto simp: ComputePruneLevel_def Let_def)
qed

lemma prune_keeps:
  assumes "startup \<le> level_value (h l)" "TempSerialnumPruneLevel err (ComputePruneLevel h (Some l) startup 0 rounds) tab = (rc, tab')"
    and "r \<in> set tab" "ts_Level r = 0 \<or> (\<exists>b. ts_Level r = sint (level_value (h b)) \<and> level_value (h l) < level_value (h b))"
  shows "r \<in> set tab'"
proof -
  let ?lv = "ComputePruneLevel h (Some l) startup 0 rounds"
  have le: "uint ?lv \<le> uint (level_value (h l))" using prune_below [where h = h and l = l, OF assms(1)] by (simp add: word_le_def)
  then have "sint ?lv = uint ?lv" using level_bound [of "h l"] by (intro sint_of_small) simp
  then have "\<not> (0 < ts_Level r \<and> ts_Level r < sint ?lv)"
    using assms(4) le by (auto simp: level_sint word_less_def)
  then show ?thesis using assms(2,3) by (auto simp: TempSerialnumPruneLevel_def split: if_splits)
qed

text \<open>The check that lets a serial number pass excludes every block below the block in the making.\<close>

lemma check_excludes:
  assumes "levels_fall h" "spend_inv h startup R st" "s \<in> R" "on_one_chain h (sp_last st) p" "reaches h p b"
    and "length (holders s (sd_tab (sp_db st))) < n" "unat (level_value (h p)) + 1 < fuel"
    and "CheckSerialnum n fuel table_ops h False (Some p) (Some (sp_last st)) t txobj s ((sp_db st)\<lparr>sd_err := err\<rparr>) = Inr (0, db')"
  shows "(b, s) \<notin> sp_spends st"
proof
  assume b: "(b, s) \<in> sp_spends st"
  let ?l = "sp_last st"
  have inv: "ts_wf (sd_tab (sp_db st))" "spends_held h R st" using assms(2) by (simp_all add: spend_inv_def)
  have u: "s \<notin> sd_perm (sp_db st)" "\<forall>c \<in> set (holders s (sd_tab (sp_db st))). \<not> searched h (level_value (h ?l)) p c"
    using table.unheld [of "(sp_db st)\<lparr>sd_err := err\<rparr>" h p fuel s n ?l t txobj db'] assms(1,6-8) inv(1)
    by (auto simp: table_ops_def split: if_splits)
  have "\<not> reaches h ?l b" using inv(2) b assms(3) u(1) by (auto simp: spends_held_def)
  then have "reaches h p ?l" "reaches h b ?l" "b \<noteq> ?l"
    using assms(4,5) reaches_trans reaches_comparable [of h p b ?l] by (auto simp: on_one_chain_def)
  then have lv: "level_value (h ?l) < level_value (h b)" using reaches_level [OF assms(1), of b ?l] by auto
  then have "b \<in> set (holders s (sd_tab (sp_db st)))"
    using inv(2) b unfolding spends_held_def set_holders by force
  then show False using u(2) reaches_searched [OF assms(1,5) lv] by blast
qed

section \<open>Preservation\<close>

lemma sint_level_pos: "x < level_value b \<Longrightarrow> 0 < sint (level_value b)"
proof -
  assume "x < level_value b"
  then have "uint x < uint (level_value b)" by (simp add: word_less_def)
  then show ?thesis using uint_nonnegative [of x] unfolding level_sint by linarith
qed

lemma inv_start:
  assumes "spend_inv h startup R st" "levels_fall h" "p \<in> sp_accepted st" "TempSerialnumClear err t (sd_tab (sp_db st)) = (rc, tab)"
  shows "spend_inv h startup R ((upd_tab tab st)\<lparr>sp_tip := (sp_tip st)(t := Some p), sp_checked := (sp_checked st)(t := {}),
      sp_cur := (sp_cur st)(t := {})\<rparr>)"
proof -
  have w: "ts_wf tab" using assms(1,4) ts_wf_keeps(3) [of "sd_tab (sp_db st)" 1 err t] by (simp add: spend_inv_def)
  have k: "r \<in> set (sd_tab (sp_db st)) \<Longrightarrow> ts_Blockp r \<noteq> t \<or> ts_Level r \<noteq> 0 \<Longrightarrow> r \<in> set tab" for r
    using assms(4) by (auto simp: TempSerialnumClear_def split: if_splits)
  have z: "level_value (h l) < level_value (h b) \<Longrightarrow> sint (level_value (h b)) \<noteq> 0" for l b
    using sint_level_pos [of "level_value (h l)" "h b"] by auto
  show ?thesis
    using assms(1,3) w unfolding spend_inv_def
    by (auto simp: accepted_closed_def spends_held_def checked_clean_def spent_once_def intro!: k dest: z)
qed

lemma inv_check:
  assumes "spend_inv h startup R st" "levels_fall h" "sp_tip st t = Some p" "length (holders s (sd_tab (sp_db st))) < n"
    and "unat (level_value (h p)) + 1 < fuel"
    and "CheckSerialnum n fuel table_ops h False (Some p) (Some (sp_last st)) t txobj s ((sp_db st)\<lparr>sd_err := err\<rparr>) = Inr (0, db')"
  shows "spend_inv h startup R (st\<lparr>sp_checked := (sp_checked st)(t := insert s (sp_checked st t))\<rparr>)"
  using assms(1) check_excludes [OF assms(2,1) _ _ _ assms(4-6)] assms(3) unfolding spend_inv_def
  by (auto simp: accepted_closed_def spends_held_def checked_clean_def spent_once_def)

lemma inv_enter:
  assumes "spend_inv h startup R st" "s \<in> sp_checked st t" "TempSerialnumInsert err s t (sd_tab (sp_db st)) = (0, tab)" "0 < t" "t < 2 ^ 64"
  shows "spend_inv h startup R ((upd_tab tab st)\<lparr>sp_cur := (sp_cur st)(t := insert s (sp_cur st t))\<rparr>)"
proof -
  have w: "ts_wf tab" using assms(1,3) ts_wf_keeps(1) [of "sd_tab (sp_db st)" t err s] assms(4,5) by (simp add: spend_inv_def)
  have "set tab = insert \<lparr>ts_Serialnum = s, ts_Blockp = t, ts_Level = 0\<rparr> (set (sd_tab (sp_db st)))"
    using assms(3) by (auto simp: TempSerialnumInsert_def split: if_splits)
  then show ?thesis using assms(1,2) w unfolding spend_inv_def
    by (auto simp: accepted_closed_def spends_held_def checked_clean_def spent_once_def)
qed

lemma inv_prune:
  assumes "spend_inv h startup R st"
    and "TempSerialnumPruneLevel err (ComputePruneLevel h (Some (sp_last st)) startup 0 rounds) (sd_tab (sp_db st)) = (rc, tab)"
  shows "spend_inv h startup R (upd_tab tab st)"
proof -
  have s: "startup \<le> level_value (h (sp_last st))" using assms(1) by (simp add: spend_inv_def)
  have w: "ts_wf tab" using assms ts_wf_keeps(4) [of "sd_tab (sp_db st)" 1 err] by (simp add: spend_inv_def) (metis snd_conv)
  note k = prune_keeps [OF s assms(2)]
  show ?thesis using assms(1) w unfolding spend_inv_def
    by (auto simp: accepted_closed_def spends_held_def checked_clean_def spent_once_def intro!: k)
qed

lemma update_moves:
  assumes "TempSerialnumUpdate err t b lvl tab = (0, tab')" "r \<in> set tab"
  shows "(if ts_Blockp r = t \<and> ts_Level r = 0 then r\<lparr>ts_Blockp := b, ts_Level := sint lvl\<rparr> else r) \<in> set tab'"
  using assms by (auto simp: TempSerialnumUpdate_def Let_def split: if_splits)

lemma one_chain_prior:
  assumes "accepted_closed h st" "prior (h b) = Some p" "b \<notin> sp_accepted st" "on_one_chain h (sp_last st) b"
  shows "on_one_chain h (sp_last st) p"
proof -
  have "\<not> reaches h (sp_last st) b" "sp_last st \<noteq> b"
    using assms(1,3) reaches_closed [of h "sp_last st" b "sp_accepted st"] by (auto simp: accepted_closed_def)
  then show ?thesis using assms(2,4) by (auto simp: on_one_chain_def reaches_prior)
qed

lemma new_block_unreached:
  "accepted_closed h st \<Longrightarrow> b \<notin> sp_accepted st \<Longrightarrow> c \<in> sp_accepted st \<Longrightarrow> \<not> reaches h c b"
  using reaches_closed [of h c b "sp_accepted st"] by (auto simp: accepted_closed_def)

lemma accept_held:
  assumes sh: "spends_held h R st" and ac: "accepted_closed h st" and new: "b \<notin> sp_accepted st"
    and up: "TempSerialnumUpdate err t b (level_value (h b)) (sd_tab (sp_db st)) = (0, tab)"
  shows "spends_held h R (accepted_state t b tab st)" (is "spends_held h R ?st")
  unfolding spends_held_def
proof (intro conjI allI impI)
  fix c s
  assume "(c, s) \<in> sp_spends ?st" "s \<in> R" "reaches h (sp_last ?st) c"
  then show "s \<in> sd_perm (sp_db ?st)"
    using sh ac new_block_unreached [OF ac new] by (auto simp: accepted_state_def spends_held_def accepted_closed_def)
next
  fix c s
  assume c: "(c, s) \<in> sp_spends ?st" "level_value (h (sp_last ?st)) < level_value (h c)"
  let ?r = "\<lparr>ts_Serialnum = s, ts_Blockp = c, ts_Level = sint (level_value (h c))\<rparr>"
  let ?q = "\<lparr>ts_Serialnum = s, ts_Blockp = t, ts_Level = 0\<rparr>"
  have "ts_Level ?r \<noteq> 0" using sint_level_pos [OF c(2)] by simp
  moreover have "?r \<in> set (sd_tab (sp_db st)) \<or> c = b \<and> ?q \<in> set (sd_tab (sp_db st))"
    using c sh unfolding spends_held_def accepted_state_def by fastforce
  ultimately have "?r \<in> set tab" using update_moves [OF up, of ?r] update_moves [OF up, of ?q] by auto
  then show "?r \<in> set (sd_tab (sp_db ?st))" by (simp add: accepted_state_def)
next
  fix u s
  assume "s \<in> sp_cur ?st u"
  then have "u \<noteq> t" "s \<in> sp_cur st u" by (auto simp: accepted_state_def split: if_splits)
  then show "\<lparr>ts_Serialnum = s, ts_Blockp = u, ts_Level = 0\<rparr> \<in> set (sd_tab (sp_db ?st))" "s \<in> sp_checked ?st u"
    using sh update_moves [OF up, of "\<lparr>ts_Serialnum = s, ts_Blockp = u, ts_Level = 0\<rparr>"]
    by (auto simp: accepted_state_def spends_held_def)
qed

lemma accept_once:
  assumes inv: "spend_inv h startup R st" and tip: "sp_tip st t = Some p" and b: "prior (h b) = Some p" "b \<notin> sp_accepted st"
  shows "spent_once h R (accepted_state t b tab st)"
  unfolding spent_once_def
proof (intro allI impI)
  fix a c s
  assume "(a, s) \<in> sp_spends (accepted_state t b tab st)" "(c, s) \<in> sp_spends (accepted_state t b tab st)"
    and s: "s \<in> R" and r: "reaches h c a" and "on_one_chain h (sp_last (accepted_state t b tab st)) c"
  then have a: "(a, s) \<in> sp_spends st \<or> a = b \<and> s \<in> sp_cur st t" and c: "(c, s) \<in> sp_spends st \<or> c = b \<and> s \<in> sp_cur st t"
    and l: "on_one_chain h (sp_last st) c" by (auto simp: accepted_state_def)
  have i: "accepted_closed h st" "spends_held h R st" "checked_clean h R st" "spent_once h R st" using inv by (simp_all add: spend_inv_def)
  have acc: "(x, s) \<in> sp_spends st \<Longrightarrow> x \<in> sp_accepted st" for x using i(1) by (auto simp: accepted_closed_def)
  show "a = c"
  proof (cases "c = b")
    case True
    then have l': "on_one_chain h (sp_last st) p" using one_chain_prior [OF i(1) b] l by simp
    have "s \<in> sp_checked st t" using c True acc b(2) i(2) by (auto simp: spends_held_def)
    then have "reaches h p a \<Longrightarrow> (a, s) \<notin> sp_spends st" using i(3) tip s l' by (auto simp: checked_clean_def)
    then show ?thesis using True a r by (auto simp: reaches_prior [where h = h, OF b(1)])
  next
    case False
    then have c': "(c, s) \<in> sp_spends st" "c \<in> sp_accepted st" using c acc by auto
    then have "a \<noteq> b" using new_block_unreached [OF i(1) b(2)] r by auto
    then show ?thesis using i(4) a c' s r l by (auto simp: spent_once_def)
  qed
qed

lemma inv_accept:
  assumes inv: "spend_inv h startup R st" and tip: "sp_tip st t = Some p" and b: "prior (h b) = Some p"
    and new: "b \<notin> sp_accepted st" "0 < b" "b < 2 ^ 64" and up: "TempSerialnumUpdate err t b (level_value (h b)) (sd_tab (sp_db st)) = (0, tab)"
  shows "spend_inv h startup R (accepted_state t b tab st)"
proof -
  have i: "ts_wf (sd_tab (sp_db st))" "startup \<le> level_value (h (sp_last st))" and ac: "accepted_closed h st"
    and sh: "spends_held h R st" and cc: "checked_clean h R st"
    using inv by (simp_all add: spend_inv_def)
  have w: "ts_wf tab" using i(1) up ts_wf_keeps(2) [of "sd_tab (sp_db st)" b err t "level_value (h b)"] new by simp
  have p: "p \<in> sp_accepted st" using ac tip by (simp add: accepted_closed_def)
  have "accepted_closed h (accepted_state t b tab st)" using ac b p by (auto simp: accepted_state_def accepted_closed_def)
  moreover have "checked_clean h R (accepted_state t b tab st)"
    using cc ac new_block_unreached [OF ac new(1)] by (auto simp: accepted_state_def checked_clean_def accepted_closed_def split: if_splits)
  ultimately show ?thesis
    using w i(2) accept_held [OF sh ac new(1) up] accept_once [OF inv tip b new(1)]
    by (simp add: spend_inv_def) (simp add: accepted_state_def)
qed

lemma inv_confirm:
  assumes inv: "spend_inv h startup R st" and fall: "levels_fall h" and b: "b \<in> sp_accepted st" "prior (h b) = Some (sp_last st)"
  shows "spend_inv h startup R (st\<lparr>sp_last := b, sp_db := (sp_db st)\<lparr>sd_perm := sd_perm (sp_db st) \<union> {s \<in> R. (b, s) \<in> sp_spends st}\<rparr>\<rparr>)"
    (is "spend_inv h startup R ?st")
proof -
  have lv: "level_value (h (sp_last st)) < level_value (h b)" using fall b(2) by (simp add: levels_fall_def)
  have one: "on_one_chain h b c \<Longrightarrow> on_one_chain h (sp_last st) c" for c
  proof -
    assume "on_one_chain h b c"
    then consider "reaches h c b" | "c = b" | "reaches h (sp_last st) c"
      unfolding on_one_chain_def by (auto simp: reaches_prior [where h = h, OF b(2)])
    moreover have "reaches h b (sp_last st)" by (simp add: reaches_prior [where h = h, OF b(2)])
    ultimately show ?thesis by cases (auto simp: on_one_chain_def intro: reaches_trans)
  qed
  have "spends_held h R ?st"
    using inv b lv by (auto simp: spend_inv_def spends_held_def reaches_prior [where h = h, OF b(2)] dest: less_trans)
  moreover have "checked_clean h R ?st" "spent_once h R ?st" "accepted_closed h ?st"
    using inv b(1) one by (auto simp: spend_inv_def checked_clean_def spent_once_def accepted_closed_def)
  ultimately show ?thesis using inv lv by (auto simp: spend_inv_def)
qed

lemma kind_address: "block_kind t \<Longrightarrow> 0 < t \<and> t < 2 ^ 64"
  by (auto simp: block_kind_def TEMP_SERIALS_PROCESS_BLOCKP_def TEMP_SERIALS_WITNESS_BLOCKP_def)

lemma spend_step_inv:
  assumes "levels_fall h" "spend_step h startup R st st'" "spend_inv h startup R st"
  shows "spend_inv h startup R st'"
  using assms(2,3)
proof cases
  case start
  then show ?thesis using inv_start assms(1,3) by blast
next
  case check
  then show ?thesis using inv_check assms(1,3) by blast
next
  case enter
  then show ?thesis using inv_enter assms(3) kind_address by blast
next
  case accept
  then show ?thesis using inv_accept assms(3) by blast
next
  case confirm
  then show ?thesis using inv_confirm assms(1,3) by blast
next
  case prune
  then show ?thesis using inv_prune assms(3) by blast
qed

lemma spend_steps_inv:
  assumes "levels_fall h" "(spend_step h startup R)\<^sup>*\<^sup>* st st'" "spend_inv h startup R st"
  shows "spend_inv h startup R st'"
  using assms(2,3) by (induction rule: rtranclp_induct) (auto intro: spend_step_inv [OF assms(1)])

text \<open>
  C9. No chain spends a serial number twice. Whatever the order in which blocks are received and built, checked
  and accepted, become indelible, and entries are pruned, and whichever statements fail: if two blocks of one
  chain spend the same serial number then they are the same block, for every chain that is not in conflict with the
  last indelible block.
\<close>

theorem no_double_spend_on_chain:
  assumes "levels_fall h" "spend_init h startup R st" "(spend_step h startup R)\<^sup>*\<^sup>* st st'"
    and "(b, s) \<in> sp_spends st'" "(c, s) \<in> sp_spends st'" "s \<in> R"
    and "reaches h c b" "on_one_chain h (sp_last st') c"
  shows "b = c"
  using spend_steps_inv [OF assms(1,3) spend_init_inv [OF assms(1,2)]] assms(4-8)
  by (auto simp: spend_inv_def spent_once_def)

section \<open>The check of a block as steps\<close>

text \<open>An environment of the check of blocks whose serial numbers are those of the tables.\<close>

definition table_env :: "(serial_db, 'f) blockenv \<Rightarrow> bool" where
  "table_env X \<longleftrightarrow> be_D X = table_ops \<and>
     (\<forall>s t db. bo_TempSerialnumInsert (be_O X) s t db =
        (let (rc, tab) = TempSerialnumInsert (sd_err db) s t (sd_tab db) in (rc \<noteq> 0, db\<lparr>sd_tab := tab\<rparr>)))"

lemma holders_length: "length (holders s tab) \<le> length tab"
  by (simp add: holders_def ts_select_def)

lemma table_check_pure:
  "CheckSerialnum n fuel table_ops h sd tip l t txobj s db = Inr (rc, db') \<Longrightarrow> db' = db"
  by (auto simp: CheckSerialnum_def table_ops_def bind_outcome_eq_Inr split: if_splits option.splits)

lemma one_serial_steps:
  fixes X :: "(serial_db, 'f) blockenv" and st :: spend_state
  defines "t \<equiv> TEMP_SERIALS_PROCESS_BLOCKP"
  assumes "table_env X" "sp_tip st t = Some p" "length (sd_tab (sp_db st)) < be_pages X" "unat (level_value (h p)) + 1 < be_fuel X"
    and "CheckSerialnum (be_pages X) (be_fuel X) table_ops h False (Some p) (Some (sp_last st)) t None s (sp_db st) = Inr (0, db1)"
    and "bo_TempSerialnumInsert (be_O X) s t (sp_db st) = (False, db2)"
  obtains st' where "(spend_step h startup R)\<^sup>*\<^sup>* st st'" "sp_db st' = db2" "sp_last st' = sp_last st" "sp_tip st' = sp_tip st"
    "sp_cur st' t = insert s (sp_cur st t)" "length (sd_tab db2) = Suc (length (sd_tab (sp_db st)))"
proof -
  obtain tab where tab: "TempSerialnumInsert (sd_err (sp_db st)) s t (sd_tab (sp_db st)) = (0, tab)" "db2 = (sp_db st)\<lparr>sd_tab := tab\<rparr>"
    using assms(2,7) by (auto simp: table_env_def case_prod_beta Let_def) (metis prod.collapse)
  have len: "length tab = Suc (length (sd_tab (sp_db st)))" using tab(1) by (auto simp: TempSerialnumInsert_def split: if_splits)
  let ?s1 = "st\<lparr>sp_checked := (sp_checked st)(t := insert s (sp_checked st t))\<rparr>"
  let ?s2 = "(upd_tab tab ?s1)\<lparr>sp_cur := (sp_cur ?s1)(t := insert s (sp_cur ?s1 t))\<rparr>"
  have "(sp_db st)\<lparr>sd_err := sd_err (sp_db st)\<rparr> = sp_db st" by simp
  then have "spend_step h startup R st ?s1"
    using spend_step.check [of st t p s "be_pages X" h "be_fuel X" None "sd_err (sp_db st)" db1] assms(3-6)
      holders_length [of s "sd_tab (sp_db st)"] by simp
  moreover have "spend_step h startup R ?s1 ?s2"
    using spend_step.enter [of t s ?s1 "sd_err (sp_db st)" tab] tab(1) by (simp add: block_kind_def t_def)
  ultimately have "(spend_step h startup R)\<^sup>*\<^sup>* st ?s2" by (meson converse_rtranclp_into_rtranclp r_into_rtranclp)
  then show thesis by (rule that) (simp_all add: tab(2) upd_tab_def len)
qed

text \<open>
  The loop of the check over the serial numbers of a transaction is a sequence of such steps, which enters them
  all for the block: what was shown of the steps holds of the blocks that the node accepts.
\<close>

lemma check_block_serials_steps:
  assumes "table_env X" "unat (level_value (h p)) + 1 < be_fuel X"
  shows "check_block_serials X h False p (Some (sp_last st)) ts (sp_db st) = Inr (Accept db') \<Longrightarrow>
    sp_tip st TEMP_SERIALS_PROCESS_BLOCKP = Some p \<Longrightarrow> length (sd_tab (sp_db st)) + length ts < be_pages X \<Longrightarrow>
    \<exists>st'. (spend_step h startup R)\<^sup>*\<^sup>* st st' \<and> sp_db st' = db' \<and> sp_last st' = sp_last st \<and> sp_tip st' = sp_tip st \<and>
      sp_cur st' TEMP_SERIALS_PROCESS_BLOCKP =
        sp_cur st TEMP_SERIALS_PROCESS_BLOCKP \<union> (\<lambda>t. bigint_mem (S_serialnum t)) ` set ts"
proof (induction ts arbitrary: st)
  case (Cons t ts)
  let ?s = "bigint_mem (S_serialnum t)" and ?t = TEMP_SERIALS_PROCESS_BLOCKP
  have D: "be_D X = table_ops" using assms(1) by (simp add: table_env_def)
  obtain rc db1 rc2 db2 where c: "CheckSerialnum (be_pages X) (be_fuel X) table_ops h False (Some p) (Some (sp_last st)) ?t None ?s (sp_db st) = Inr (rc, db1)"
      "rc = 0" "bo_TempSerialnumInsert (be_O X) ?s ?t db1 = (rc2, db2)" "\<not> rc2"
      "check_block_serials X h False p (Some (sp_last st)) ts db2 = Inr (Accept db')"
    using Cons.prems(1) by (auto simp: D accepts bind_outcome_def split: sum.splits prod.splits)
  have db1: "db1 = sp_db st" by (rule table_check_pure [OF c(1)])
  obtain st1 where s1: "(spend_step h startup R)\<^sup>*\<^sup>* st st1" "sp_db st1 = db2" "sp_last st1 = sp_last st" "sp_tip st1 = sp_tip st"
      "sp_cur st1 ?t = insert ?s (sp_cur st ?t)" "length (sd_tab db2) = Suc (length (sd_tab (sp_db st)))"
    using one_serial_steps [where h = h and p = p, OF assms(1) Cons.prems(2) _ assms(2), of ?s db1 db2 startup R] c Cons.prems(3)
    unfolding db1 by auto
  obtain st2 where "(spend_step h startup R)\<^sup>*\<^sup>* st1 st2" "sp_db st2 = db'" "sp_last st2 = sp_last st1" "sp_tip st2 = sp_tip st1"
      "sp_cur st2 ?t = sp_cur st1 ?t \<union> (\<lambda>t. bigint_mem (S_serialnum t)) ` set ts"
    using Cons.IH [of st1] c(5) s1 Cons.prems by auto
  then show ?case using s1 by (intro exI [of _ st2]) (auto intro: rtranclp_trans)
qed auto

text \<open>A run in which a block that spends a serial number is received and accepted.\<close>

definition run_db :: serial_db where
  "run_db = \<lparr>sd_err = (\<lambda>_. False), sd_tab = [], sd_perm = {}\<rparr>"

definition run_start :: spend_state where
  "run_start = \<lparr>sp_db = run_db, sp_last = 2, sp_accepted = {0, 1, 2}, sp_spends = {}, sp_tip = (\<lambda>_. None), sp_checked = (\<lambda>_. {}),
     sp_cur = (\<lambda>_. {})\<rparr>"

lemma run_check: "CheckSerialnum 1 10 table_ops short_chain False (Some 2) (Some 2) 1 None [7] (run_db\<lparr>sd_err := \<lambda>_. False\<rparr>) = Inr (0, run_db)"
  by (simp add: CheckSerialnum_def table_ops_def run_db_def TempSerialnumSelect_def Temp_Serials_select_rows_def ts_select_def)

lemma run_accepts: "\<exists>st. (spend_step short_chain 0 UNIV)\<^sup>*\<^sup>* run_start st \<and> sp_last st = 2 \<and> sp_spends st = {(3, [7])}"
proof -
  let ?s1 = "run_start\<lparr>sp_tip := (\<lambda>_. None)(1 := Some 2)\<rparr>"
  let ?s2 = "?s1\<lparr>sp_checked := (\<lambda>_. {})(1 := {[7]})\<rparr>"
  let ?r = "\<lparr>ts_Serialnum = [7], ts_Blockp = 1, ts_Level = 0\<rparr>"
  let ?s3 = "(upd_tab [?r] ?s2)\<lparr>sp_cur := (\<lambda>_. {})(1 := {[7]})\<rparr>"
  let ?r' = "\<lparr>ts_Serialnum = [7], ts_Blockp = 3, ts_Level = 3\<rparr>"
  have k: "block_kind 1" by (simp add: block_kind_def TEMP_SERIALS_PROCESS_BLOCKP_def)
  have 1: "spend_step short_chain 0 UNIV run_start ?s1"
    using spend_step.start [of 2 run_start 1 "\<lambda>_. False" 0 "[]" short_chain 0 UNIV] k
    by (simp add: run_start_def run_db_def TempSerialnumClear_def upd_tab_def fun_upd_idem)
  have 2: "spend_step short_chain 0 UNIV ?s1 ?s2"
    using spend_step.check [of ?s1 1 2 "[7]" 1 short_chain 10 None "\<lambda>_. False" run_db 0 UNIV] run_check
    by (simp add: run_start_def run_db_def holders_def ts_select_def short_chain_def level_value_def)
  have 3: "spend_step short_chain 0 UNIV ?s2 ?s3"
    using spend_step.enter [of 1 "[7]" ?s2 "\<lambda>_. False" "[?r]" short_chain 0 UNIV] k
    by (simp add: run_start_def run_db_def TempSerialnumInsert_def)
  have 4: "spend_step short_chain 0 UNIV ?s3 (accepted_state 1 3 [?r'] ?s3)"
    by (rule spend_step.accept [of _ _ 2 _ _ "\<lambda>_. False"])
      (simp_all add: run_start_def TempSerialnumUpdate_def short_chain_def level_value_def)
  from 1 2 3 4 have "(spend_step short_chain 0 UNIV)\<^sup>*\<^sup>* run_start (accepted_state 1 3 [?r'] ?s3)"
    by (meson converse_rtranclp_into_rtranclp rtranclp.rtrancl_refl)
  then show ?thesis by (intro exI conjI) (auto simp: accepted_state_def run_start_def)
qed

theorem no_double_spend_on_chain_witness:
  "\<exists>st. (spend_step short_chain 0 UNIV)\<^sup>*\<^sup>* run_start st \<and> (3, [7]) \<in> sp_spends st \<and>
     (\<forall>b. (b, [7]) \<in> sp_spends st \<longrightarrow> reaches short_chain 3 b \<longrightarrow> b = 3)"
proof -
  obtain st where st: "(spend_step short_chain 0 UNIV)\<^sup>*\<^sup>* run_start st" "sp_last st = 2" "sp_spends st = {(3, [7])}"
    using run_accepts by blast
  have "spend_init short_chain 0 UNIV run_start"
    by (auto simp: spend_init_def run_start_def run_db_def short_chain_def split: if_splits)
  moreover have "on_one_chain short_chain (sp_last st) 3"
    using reaches_prior [of short_chain 3 2 2] st(2) by (simp add: on_one_chain_def short_chain_def)
  ultimately show ?thesis
    using no_double_spend_on_chain [OF short_chain_falls _ st(1), of _ "[7]" 3] st by auto
qed

end
